(* ===== verification/Prelude.thy ===== *)
theory Prelude
  imports Main "HOL-Library.Word"
begin

text \<open>
  The prelude of the development: the names of Go's integer types, the outcome of a Go call
  (a value, a runtime panic, or the exit of the process by \<open>log.Fatal\<close>), and the generic facts
  on lists and options that the component theories share.

  A Go integer of width \<open>w\<close> is a \<open>w word\<close>: conversions between widths are \<open>ucast\<close> (from an
  unsigned or to a narrower type) and \<open>scast\<close> (from a signed type to a wider one), exactly as Go's
  conversions truncate and sign-extend. A Go \<open>string\<close> or \<open>[]byte\<close> is the list of its bytes.
\<close>

type_synonym byte = "8 word"
type_synonym int8 = "8 word"
type_synonym int16 = "16 word"
type_synonym uint16 = "16 word"
type_synonym int32 = "32 word"
type_synonym int64 = "64 word"
type_synonym go_int = "64 word"
type_synonym bytes = "8 word list"

text \<open>Rewrite rules that evaluate the wire format: lengths of encoded fields and reads of them.\<close>

named_theorems wire

text \<open>Facts about the frame of the storage operations (what an operation leaves unchanged).\<close>

named_theorems frame

section \<open>Outcomes of a Go call\<close>

datatype 'a go = Ret 'a | Panic | Fatal

fun go_bind :: "'a go \<Rightarrow> ('a \<Rightarrow> 'b go) \<Rightarrow> 'b go" where
  "go_bind (Ret x) f = f x"
| "go_bind Panic f = Panic"
| "go_bind Fatal f = Fatal"

fun go_map :: "('a \<Rightarrow> 'b) \<Rightarrow> 'a go \<Rightarrow> 'b go" where
  "go_map f (Ret x) = Ret (f x)"
| "go_map f Panic = Panic"
| "go_map f Fatal = Fatal"

lemma go_bind_Ret_iff [simp]: "go_bind x f = Ret y \<longleftrightarrow> (\<exists>z. x = Ret z \<and> f z = Ret y)"
  by (cases x) auto

lemma go_map_Ret_iff [simp]: "go_map f x = Ret y \<longleftrightarrow> (\<exists>z. x = Ret z \<and> y = f z)"
  by (cases x) auto

lemma go_bind_assoc: "go_bind (go_bind x f) g = go_bind x (\<lambda>z. go_bind (f z) g)"
  by (cases x) auto

lemma go_map_bind: "go_map f (go_bind x g) = go_bind x (\<lambda>z. go_map f (g z))"
  by (cases x) auto

lemma go_bind_Ret_right [simp]: "go_bind x Ret = x"
  by (cases x) auto

lemma go_bind_cong [fundef_cong]:
  assumes "x = x'" and "\<And>z. x' = Ret z \<Longrightarrow> f z = g z"
  shows "go_bind x f = go_bind x' g"
  using assms by (cases x') auto

text \<open>A loop over a list with a body that may panic: Go's \<open>for _, x := range xs\<close>.\<close>

fun go_fold :: "('s \<Rightarrow> 'a \<Rightarrow> 's go) \<Rightarrow> 's \<Rightarrow> 'a list \<Rightarrow> 's go" where
  "go_fold f s [] = Ret s"
| "go_fold f s (x # xs) = go_bind (f s x) (\<lambda>s'. go_fold f s' xs)"

lemma go_fold_append:
  "go_fold f s (xs @ ys) = go_bind (go_fold f s xs) (\<lambda>s'. go_fold f s' ys)"
proof (induction xs arbitrary: s)
  case (Cons x xs)
  then show ?case by (cases "f s x") auto
qed simp

lemma go_fold_Ret: "go_fold (\<lambda>s x. Ret (f s x)) s xs = Ret (foldl f s xs)"
  by (induction xs arbitrary: s) auto

text \<open>
  A call inside a loop that may run forever: the loop is a \<open>partial_function (option)\<close>, whose value
  \<open>None\<close> is non-termination.
\<close>

fun loop_bind :: "'a go \<Rightarrow> ('a \<Rightarrow> 'b go option) \<Rightarrow> 'b go option" where
  "loop_bind (Ret x) f = f x"
| "loop_bind Panic f = Some Panic"
| "loop_bind Fatal f = Some Fatal"

lemma loop_bind_mono [partial_function_mono]:
  assumes "\<And>z. mono_option (\<lambda>f. g z f)"
  shows "mono_option (\<lambda>f. loop_bind x (\<lambda>z. g z f))"
  using assms by (cases x) (auto intro: partial_function_mono)

section \<open>Generic facts\<close>

lemma take_append_exact: "length xs = n \<Longrightarrow> take n (xs @ ys) = xs"
  by simp

lemma drop_append_exact: "length xs = n \<Longrightarrow> drop n (xs @ ys) = ys"
  by simp

lemma drop_take_prefix: "n \<le> length xs \<Longrightarrow> drop n (xs @ ys) = drop n xs @ ys"
  by simp

lemma map_of_filter_other:
  "k \<noteq> key \<Longrightarrow> map_of (filter (\<lambda>p. fst p \<noteq> key) xs) k = map_of xs k"
  by (induction xs) auto

lemma sint_of_int64: "0 \<le> k \<Longrightarrow> k < 2 ^ 63 \<Longrightarrow> sint (word_of_int k :: int64) = k"
  by (subst sint_sbintrunc') (simp add: signed_take_bit_int_eq_self)

end
