(* ===== verification/Binary.thy ===== *)
theory Binary
  imports Prelude
begin

text \<open>
  Go's \<open>encoding/binary\<close> with \<open>binary.BigEndian\<close>, as the repository uses it:
  \<open>binary.Write(buffer, binary.BigEndian, x)\<close> appends the bytes of \<open>x\<close>, most significant first;
  \<open>binary.Read(buffer, binary.BigEndian, &x)\<close> takes as many bytes as \<open>x\<close> is wide. When the buffer
  is too short, \<open>binary.Read\<close> consumes what is left and leaves \<open>x\<close> as it was: the code never looks
  at the error it returns, so the model keeps the old value.
\<close>

section \<open>Big-endian numbers\<close>

fun be_enc :: "nat \<Rightarrow> nat \<Rightarrow> bytes" where
  "be_enc 0 v = []"
| "be_enc (Suc n) v = be_enc n (v div 256) @ [word_of_nat v]"

definition be_dec :: "bytes \<Rightarrow> nat" where
  "be_dec bs = foldl (\<lambda>a b. a * 256 + unat b) 0 bs"

lemma be_dec_Nil [simp]: "be_dec [] = 0"
  by (simp add: be_dec_def)

lemma be_dec_snoc [simp]: "be_dec (bs @ [b]) = be_dec bs * 256 + unat b"
  by (simp add: be_dec_def)

lemma length_be_enc [simp]: "length (be_enc n v) = n"
  by (induction n arbitrary: v) auto

lemma unat_byte: "unat (word_of_nat v :: byte) = v mod 256"
  by (simp add: unsigned_of_nat take_bit_eq_mod)

lemma be_dec_enc: "be_dec (be_enc n v) = v mod 256 ^ n"
proof (induction n arbitrary: v)
  case (Suc n)
  have "v mod 256 ^ Suc n = 256 * (v div 256 mod 256 ^ n) + v mod 256"
    by (simp add: mod_mult2_eq)
  with Suc show ?case by (simp add: unat_byte)
qed simp

lemma be_dec_less: "be_dec bs < 256 ^ length bs"
proof (induction bs rule: rev_induct)
  case (snoc b bs)
  have "unat b < 256" using unsigned_less [of b] by simp
  moreover from snoc have "be_dec bs + 1 \<le> 256 ^ length bs" by simp
  then have "(be_dec bs + 1) * 256 \<le> 256 ^ length bs * 256" by (rule mult_le_mono1)
  ultimately show ?case by simp
qed simp

lemma be_enc_dec: "length bs = n \<Longrightarrow> be_enc n (be_dec bs) = bs"
proof (induction bs arbitrary: n rule: rev_induct)
  case (snoc b bs)
  then obtain m where n: "n = Suc m" and m: "length bs = m" by (cases n) auto
  have "unat b < 256" using unsigned_less [of b] by simp
  then have d: "(be_dec bs * 256 + unat b) div 256 = be_dec bs" by simp
  have "(word_of_nat (be_dec bs * 256 + unat b) :: byte) = b"
  proof (rule unsigned_word_eqI [where ?'a = nat])
    show "unat (word_of_nat (be_dec bs * 256 + unat b) :: byte) = unat b"
      using \<open>unat b < 256\<close> by (simp only: unat_byte) simp
  qed
  with snoc.IH [OF m] n d show ?case by simp
qed simp

section \<open>Fixed-width fields\<close>

text \<open>\<open>LENGTH('a) div 8\<close> is the width in bytes of a field of type \<open>'a word\<close>.\<close>

definition binWrite :: "'a::len word \<Rightarrow> bytes" where
  "binWrite w = be_enc (LENGTH('a) div 8) (unat w)"

definition binRead :: "'a::len word \<Rightarrow> bytes \<Rightarrow> 'a word \<times> bytes" where
  "binRead old b =
     (let n = LENGTH('a) div 8
      in if n \<le> length b then (word_of_nat (be_dec (take n b)), drop n b) else (old, []))"

lemma length_binWrite: "length (binWrite (w :: 'a::len word)) = LENGTH('a) div 8"
  by (simp add: binWrite_def)

lemma binWrite_lengths [wire, simp]:
  "length (binWrite (a :: 64 word)) = 8" "length (binWrite (b :: 32 word)) = 4"
  "length (binWrite (c :: 16 word)) = 2" "length (binWrite (d :: 8 word)) = 1"
  by (simp_all add: length_binWrite)

lemma binRead_binWrite:
  fixes w :: "'a::len word"
  assumes "8 dvd LENGTH('a)"
  shows "binRead old (binWrite w @ s) = (w, s)"
proof -
  from assms obtain k where k: "LENGTH('a) = 8 * k" by blast
  have "(256 :: nat) ^ k = 2 ^ LENGTH('a)" by (simp add: k power_mult)
  moreover have "unat w < 2 ^ LENGTH('a)" by (rule unsigned_less)
  ultimately have "be_dec (be_enc k (unat w)) = unat w" by (simp add: be_dec_enc)
  then show ?thesis by (simp add: binRead_def binWrite_def k)
qed

lemma binRead_width [wire, simp]:
  "binRead a0 (binWrite (a :: 64 word) @ s) = (a, s)"
  "binRead b0 (binWrite (b :: 32 word) @ s) = (b, s)"
  "binRead c0 (binWrite (c :: 16 word) @ s) = (c, s)"
  "binRead d0 (binWrite (d :: 8 word) @ s) = (d, s)"
  by (rule binRead_binWrite, simp)+

lemma binRead_width_Nil [wire, simp]:
  "binRead a0 (binWrite (a :: 64 word)) = (a, [])"
  "binRead b0 (binWrite (b :: 32 word)) = (b, [])"
  "binRead c0 (binWrite (c :: 16 word)) = (c, [])"
  "binRead d0 (binWrite (d :: 8 word)) = (d, [])"
  using binRead_width [of _ _ "[]"] by simp_all

lemma binRead_short: "length b < LENGTH('a) div 8 \<Longrightarrow> binRead (old :: 'a::len word) b = (old, [])"
  by (simp add: binRead_def)

lemma binRead_snd_length: "length (snd (binRead (old :: 'a::len word) b)) \<le> length b"
  by (simp add: binRead_def Let_def)

text \<open>Reading does not look past the field, so appending to the buffer changes nothing.\<close>

lemma binRead_append:
  "LENGTH('a) div 8 \<le> length b \<Longrightarrow>
   binRead (old :: 'a::len word) (b @ s) = (fst (binRead old b), snd (binRead old b) @ s)"
  by (simp add: binRead_def Let_def)

text \<open>Writing what was read gives back the bytes.\<close>

lemma binWrite_binRead:
  fixes old :: "'a::len word"
  assumes "8 dvd LENGTH('a)" and "LENGTH('a) div 8 \<le> length b"
  shows "binWrite (fst (binRead old b)) @ snd (binRead old b) = b"
proof -
  from assms obtain k where k: "LENGTH('a) = 8 * k" by blast
  let ?v = "be_dec (take k b)"
  have "?v < 256 ^ k" using be_dec_less [of "take k b"] assms k by simp
  then have "?v < 2 ^ LENGTH('a)" by (simp add: k power_mult)
  then have "unat (word_of_nat ?v :: 'a word) = ?v" by (simp add: unsigned_of_nat take_bit_nat_eq_self)
  then show ?thesis using assms by (simp add: binWrite_def binRead_def Let_def k be_enc_dec)
qed

end
