(* ===== verification/Message.thy ===== *)
theory Message
  imports Binary
begin

text \<open>
  The message bodies of \<^verbatim>\<open>core/message.go\<close>, \<^verbatim>\<open>core/route_message.go\<close> and
  \<^verbatim>\<open>core/storage_message.go\<close>: the Go structs as records, and their \<open>ToData\<close> and
  \<open>FromData\<close> methods. \<open>x_FromData b\<close> is the object a \<open>new(T)\<close> holds after
  \<open>FromData(b)\<close> together with the boolean the method returns; a method that can panic returns a
  \<open>go\<close> outcome. Bodies that carry another message are in theory \<open>Protocol\<close>.
\<close>

section \<open>Constants\<close>

text \<open>Commands used by name in the model.\<close>

abbreviation MSG_AUTH_STATUS :: go_int where "MSG_AUTH_STATUS \<equiv> 3"
abbreviation MSG_IM :: go_int where "MSG_IM \<equiv> 4"
abbreviation MSG_ACK :: go_int where "MSG_ACK \<equiv> 5"
abbreviation MSG_GROUP_NOTIFICATION :: go_int where "MSG_GROUP_NOTIFICATION \<equiv> 7"
abbreviation MSG_GROUP_IM :: go_int where "MSG_GROUP_IM \<equiv> 8"
abbreviation MSG_PING :: go_int where "MSG_PING \<equiv> 13"
abbreviation MSG_PONG :: go_int where "MSG_PONG \<equiv> 14"
abbreviation MSG_AUTH_TOKEN :: go_int where "MSG_AUTH_TOKEN \<equiv> 15"
abbreviation MSG_RT :: go_int where "MSG_RT \<equiv> 17"
abbreviation MSG_ENTER_ROOM :: go_int where "MSG_ENTER_ROOM \<equiv> 18"
abbreviation MSG_LEAVE_ROOM :: go_int where "MSG_LEAVE_ROOM \<equiv> 19"
abbreviation MSG_ROOM_IM :: go_int where "MSG_ROOM_IM \<equiv> 20"
abbreviation MSG_SYSTEM :: go_int where "MSG_SYSTEM \<equiv> 21"
abbreviation MSG_UNREAD_COUNT :: go_int where "MSG_UNREAD_COUNT \<equiv> 22"
abbreviation MSG_CUSTOMER_SERVICE :: go_int where "MSG_CUSTOMER_SERVICE \<equiv> 23"
abbreviation MSG_CUSTOMER :: go_int where "MSG_CUSTOMER \<equiv> 24"
abbreviation MSG_CUSTOMER_SUPPORT :: go_int where "MSG_CUSTOMER_SUPPORT \<equiv> 25"
abbreviation MSG_SYNC :: go_int where "MSG_SYNC \<equiv> 26"
abbreviation MSG_SYNC_BEGIN :: go_int where "MSG_SYNC_BEGIN \<equiv> 27"
abbreviation MSG_SYNC_END :: go_int where "MSG_SYNC_END \<equiv> 28"
abbreviation MSG_SYNC_NOTIFY :: go_int where "MSG_SYNC_NOTIFY \<equiv> 29"
abbreviation MSG_SYNC_GROUP :: go_int where "MSG_SYNC_GROUP \<equiv> 30"
abbreviation MSG_SYNC_GROUP_BEGIN :: go_int where "MSG_SYNC_GROUP_BEGIN \<equiv> 31"
abbreviation MSG_SYNC_GROUP_END :: go_int where "MSG_SYNC_GROUP_END \<equiv> 32"
abbreviation MSG_SYNC_GROUP_NOTIFY :: go_int where "MSG_SYNC_GROUP_NOTIFY \<equiv> 33"
abbreviation MSG_SYNC_KEY :: go_int where "MSG_SYNC_KEY \<equiv> 34"
abbreviation MSG_GROUP_SYNC_KEY :: go_int where "MSG_GROUP_SYNC_KEY \<equiv> 35"
abbreviation MSG_NOTIFICATION :: go_int where "MSG_NOTIFICATION \<equiv> 36"
abbreviation MSG_METADATA :: go_int where "MSG_METADATA \<equiv> 37"
abbreviation MSG_VOIP_CONTROL :: go_int where "MSG_VOIP_CONTROL \<equiv> 64"

abbreviation MSG_SUBSCRIBE :: go_int where "MSG_SUBSCRIBE \<equiv> 130"
abbreviation MSG_UNSUBSCRIBE :: go_int where "MSG_UNSUBSCRIBE \<equiv> 131"
abbreviation MSG_PUBLISH :: go_int where "MSG_PUBLISH \<equiv> 132"
abbreviation MSG_PUSH :: go_int where "MSG_PUSH \<equiv> 134"
abbreviation MSG_PUBLISH_GROUP :: go_int where "MSG_PUBLISH_GROUP \<equiv> 135"
abbreviation MSG_SUBSCRIBE_ROOM :: go_int where "MSG_SUBSCRIBE_ROOM \<equiv> 136"
abbreviation MSG_UNSUBSCRIBE_ROOM :: go_int where "MSG_UNSUBSCRIBE_ROOM \<equiv> 137"
abbreviation MSG_PUBLISH_ROOM :: go_int where "MSG_PUBLISH_ROOM \<equiv> 138"

abbreviation MSG_STORAGE_SYNC_BEGIN :: go_int where "MSG_STORAGE_SYNC_BEGIN \<equiv> 220"
abbreviation MSG_STORAGE_SYNC_MESSAGE :: go_int where "MSG_STORAGE_SYNC_MESSAGE \<equiv> 221"
abbreviation MSG_STORAGE_SYNC_MESSAGE_BATCH :: go_int where "MSG_STORAGE_SYNC_MESSAGE_BATCH \<equiv> 222"
abbreviation MSG_GROUP_OFFLINE :: go_int where "MSG_GROUP_OFFLINE \<equiv> 247"
abbreviation MSG_OFFLINE_V4 :: go_int where "MSG_OFFLINE_V4 \<equiv> 248"
abbreviation MSG_OFFLINE_V3 :: go_int where "MSG_OFFLINE_V3 \<equiv> 249"
abbreviation MSG_OFFLINE_V2 :: go_int where "MSG_OFFLINE_V2 \<equiv> 250"
abbreviation MSG_PENDING_GROUP_MESSAGE :: go_int where "MSG_PENDING_GROUP_MESSAGE \<equiv> 251"
abbreviation MSG_GROUP_IM_LIST :: go_int where "MSG_GROUP_IM_LIST \<equiv> 252"
abbreviation MSG_GROUP_ACK_IN :: go_int where "MSG_GROUP_ACK_IN \<equiv> 253"
abbreviation MSG_OFFLINE :: go_int where "MSG_OFFLINE \<equiv> 254"
abbreviation MSG_ACK_IN :: go_int where "MSG_ACK_IN \<equiv> 255"

abbreviation MESSAGE_FLAG_TEXT :: go_int where "MESSAGE_FLAG_TEXT \<equiv> 1"
abbreviation MESSAGE_FLAG_UNPERSISTENT :: go_int where "MESSAGE_FLAG_UNPERSISTENT \<equiv> 2"
abbreviation MESSAGE_FLAG_GROUP :: go_int where "MESSAGE_FLAG_GROUP \<equiv> 4"
abbreviation MESSAGE_FLAG_SELF :: go_int where "MESSAGE_FLAG_SELF \<equiv> 8"
abbreviation MESSAGE_FLAG_PUSH :: go_int where "MESSAGE_FLAG_PUSH \<equiv> 16"
abbreviation MESSAGE_FLAG_SUPER_GROUP :: go_int where "MESSAGE_FLAG_SUPER_GROUP \<equiv> 32"

section \<open>Bodies of \<^verbatim>\<open>core/message.go\<close>\<close>

record authentication_token =
  auth_Token :: bytes
  auth_PlatformId :: int8
  auth_DeviceId :: bytes

definition auth_ToData :: "authentication_token \<Rightarrow> bytes" where
  "auth_ToData a =
     binWrite (auth_PlatformId a)
     @ binWrite (word_of_nat (length (auth_Token a)) :: int8) @ auth_Token a
     @ binWrite (word_of_nat (length (auth_DeviceId a)) :: int8) @ auth_DeviceId a"

definition auth_FromData :: "bytes \<Rightarrow> authentication_token \<times> bool" where
  "auth_FromData buff =
     (let a0 = \<lparr>auth_Token = [], auth_PlatformId = 0, auth_DeviceId = []\<rparr>
      in if length buff \<le> 3 then (a0, False)
         else
           let a1 = a0\<lparr>auth_PlatformId := hd buff\<rparr>;
               (l, buffer) = binRead (0 :: int8) (tl buff)
           in if sint l > int (length buffer) \<or> sint l < 0 then (a1, False)
              else
                let token = take (nat (sint l)) buffer;
                    buffer = drop (nat (sint l)) buffer;
                    (l, buffer) = binRead l buffer
                in if sint l > int (length buffer) \<or> sint l < 0 then (a1, False)
                   else (a1\<lparr>auth_Token := token, auth_DeviceId := take (nat (sint l)) buffer\<rparr>, True))"

definition auth_status_ToData :: "int32 \<Rightarrow> bytes" where
  "auth_status_ToData status = binWrite status"

definition auth_status_FromData :: "bytes \<Rightarrow> int32 \<times> bool" where
  "auth_status_FromData buff =
     (if length buff < 4 then (0, False) else (fst (binRead 0 buff), True))"

record rt_message =
  rt_Sender :: int64
  rt_Receiver :: int64
  rt_Content :: bytes

definition rt_ToData :: "rt_message \<Rightarrow> bytes" where
  "rt_ToData m = binWrite (rt_Sender m) @ binWrite (rt_Receiver m) @ rt_Content m"

definition rt_FromData :: "bytes \<Rightarrow> rt_message \<times> bool" where
  "rt_FromData buff =
     (if length buff < 16 then (\<lparr>rt_Sender = 0, rt_Receiver = 0, rt_Content = []\<rparr>, False)
      else let (s, buffer) = binRead 0 buff; (r, buffer) = binRead 0 buffer
           in (\<lparr>rt_Sender = s, rt_Receiver = r, rt_Content = drop 16 buff\<rparr>, True))"

record im_message =
  im_Sender :: int64
  im_Receiver :: int64
  im_Timestamp :: int32
  im_Msgid :: int32
  im_Content :: bytes

definition im_zero :: im_message where
  "im_zero = \<lparr>im_Sender = 0, im_Receiver = 0, im_Timestamp = 0, im_Msgid = 0, im_Content = []\<rparr>"

definition im_ToDataV0 :: "im_message \<Rightarrow> bytes" where
  "im_ToDataV0 m =
     binWrite (im_Sender m) @ binWrite (im_Receiver m) @ binWrite (im_Msgid m) @ im_Content m"

definition im_FromDataV0 :: "bytes \<Rightarrow> im_message \<times> bool" where
  "im_FromDataV0 buff =
     (if length buff < 20 then (im_zero, False)
      else let (s, buffer) = binRead 0 buff; (r, buffer) = binRead 0 buffer;
               (i, buffer) = binRead 0 buffer
           in (im_zero\<lparr>im_Sender := s, im_Receiver := r, im_Msgid := i,
                        im_Content := drop 20 buff\<rparr>, True))"

definition im_ToDataV1 :: "im_message \<Rightarrow> bytes" where
  "im_ToDataV1 m =
     binWrite (im_Sender m) @ binWrite (im_Receiver m) @ binWrite (im_Timestamp m)
     @ binWrite (im_Msgid m) @ im_Content m"

definition im_FromDataV1 :: "bytes \<Rightarrow> im_message \<times> bool" where
  "im_FromDataV1 buff =
     (if length buff < 24 then (im_zero, False)
      else let (s, buffer) = binRead 0 buff; (r, buffer) = binRead 0 buffer;
               (t, buffer) = binRead 0 buffer; (i, buffer) = binRead 0 buffer
           in (\<lparr>im_Sender = s, im_Receiver = r, im_Timestamp = t, im_Msgid = i,
                 im_Content = drop 24 buff\<rparr>, True))"

definition im_ToData :: "go_int \<Rightarrow> im_message \<Rightarrow> bytes" where
  "im_ToData version m = (if version = 0 then im_ToDataV0 m else im_ToDataV1 m)"

definition im_FromData :: "go_int \<Rightarrow> bytes \<Rightarrow> im_message \<times> bool" where
  "im_FromData version buff = (if version = 0 then im_FromDataV0 buff else im_FromDataV1 buff)"

record message_ack =
  ack_Seq :: int32
  ack_Status :: int8

definition ack_ToData :: "go_int \<Rightarrow> message_ack \<Rightarrow> bytes" where
  "ack_ToData version a =
     binWrite (ack_Seq a) @ (if sint version > 1 then binWrite (ack_Status a) else [])"

definition ack_FromData :: "go_int \<Rightarrow> bytes \<Rightarrow> message_ack \<times> bool" where
  "ack_FromData version buff =
     (let (s, buffer) = binRead 0 buff;
          st = (if sint version > 1 then fst (binRead 0 buffer) else 0)
      in (\<lparr>ack_Seq = s, ack_Status = st\<rparr>, True))"

definition unread_ToData :: "int32 \<Rightarrow> bytes" where
  "unread_ToData count = binWrite count"

definition unread_FromData :: "bytes \<Rightarrow> int32 \<times> bool" where
  "unread_FromData buff =
     (if length buff < 4 then (0, False) else (fst (binRead 0 buff), True))"

record customer_message =
  cs_CustomerAppid :: int64
  cs_CustomerId :: int64
  cs_StoreId :: int64
  cs_SellerId :: int64
  cs_Timestamp :: int32
  cs_Content :: bytes

definition cs_ToData :: "customer_message \<Rightarrow> bytes" where
  "cs_ToData m =
     binWrite (cs_CustomerAppid m) @ binWrite (cs_CustomerId m) @ binWrite (cs_StoreId m)
     @ binWrite (cs_SellerId m) @ binWrite (cs_Timestamp m) @ cs_Content m"

definition cs_FromData :: "bytes \<Rightarrow> customer_message \<times> bool" where
  "cs_FromData buff =
     (if length buff < 36
      then (\<lparr>cs_CustomerAppid = 0, cs_CustomerId = 0, cs_StoreId = 0, cs_SellerId = 0,
              cs_Timestamp = 0, cs_Content = []\<rparr>, False)
      else let (a, buffer) = binRead 0 buff; (c, buffer) = binRead 0 buffer;
               (st, buffer) = binRead 0 buffer; (se, buffer) = binRead 0 buffer;
               (t, buffer) = binRead 0 buffer
           in (\<lparr>cs_CustomerAppid = a, cs_CustomerId = c, cs_StoreId = st, cs_SellerId = se,
                 cs_Timestamp = t, cs_Content = drop 36 buff\<rparr>, True))"

text \<open>\<open>Room\<close>, \<open>SyncKey\<close> (and its alias \<open>SyncNotify\<close>) and \<open>SyncCursor\<close> are one \<open>int64\<close>.\<close>

definition room_ToData :: "int64 \<Rightarrow> bytes" where
  "room_ToData room = binWrite room"

definition room_FromData :: "bytes \<Rightarrow> int64 \<times> bool" where
  "room_FromData buff =
     (if length buff < 8 then (0, False) else (fst (binRead 0 buff), True))"

definition sync_key_ToData :: "int64 \<Rightarrow> bytes" where
  "sync_key_ToData k = binWrite k"

definition sync_key_FromData :: "bytes \<Rightarrow> int64 \<times> bool" where
  "sync_key_FromData buff =
     (if length buff < 8 then (0, False) else (fst (binRead 0 buff), True))"

definition sync_cursor_ToData :: "int64 \<Rightarrow> bytes" where
  "sync_cursor_ToData msgid = binWrite msgid"

definition sync_cursor_FromData :: "bytes \<Rightarrow> int64 \<times> bool" where
  "sync_cursor_FromData buff =
     (if length buff < 8 then (0, False) else (fst (binRead 0 buff), True))"

record voip_control =
  voip_sender :: int64
  voip_receiver :: int64
  voip_content :: bytes

definition voip_ToData :: "voip_control \<Rightarrow> bytes" where
  "voip_ToData c = binWrite (voip_sender c) @ binWrite (voip_receiver c) @ voip_content c"

definition voip_FromData :: "bytes \<Rightarrow> voip_control \<times> bool" where
  "voip_FromData buff =
     (if length buff \<le> 16 then (\<lparr>voip_sender = 0, voip_receiver = 0, voip_content = []\<rparr>, False)
      else let (s, buffer) = binRead 0 (take 16 buff); (r, buffer) = binRead 0 buffer
           in (\<lparr>voip_sender = s, voip_receiver = r, voip_content = drop 16 buff\<rparr>, True))"

record app_user_id =
  au_Appid :: int64
  au_Uid :: int64

definition au_ToData :: "app_user_id \<Rightarrow> bytes" where
  "au_ToData i = binWrite (au_Appid i) @ binWrite (au_Uid i)"

definition au_FromData :: "bytes \<Rightarrow> app_user_id \<times> bool" where
  "au_FromData buff =
     (if length buff < 16 then (\<lparr>au_Appid = 0, au_Uid = 0\<rparr>, False)
      else let (a, buffer) = binRead 0 buff; (u, buffer) = binRead 0 buffer
           in (\<lparr>au_Appid = a, au_Uid = u\<rparr>, True))"

record app_room_id =
  ar_Appid :: int64
  ar_RoomId :: int64

definition ar_ToData :: "app_room_id \<Rightarrow> bytes" where
  "ar_ToData i = binWrite (ar_Appid i) @ binWrite (ar_RoomId i)"

definition ar_FromData :: "bytes \<Rightarrow> app_room_id \<times> bool" where
  "ar_FromData buff =
     (if length buff < 16 then (\<lparr>ar_Appid = 0, ar_RoomId = 0\<rparr>, False)
      else let (a, buffer) = binRead 0 buff; (r, buffer) = binRead 0 buffer
           in (\<lparr>ar_Appid = a, ar_RoomId = r\<rparr>, True))"

record app_group_member_id =
  agm_appid :: int64
  agm_gid :: int64
  agm_uid :: int64

definition agm_ToData :: "app_group_member_id \<Rightarrow> bytes" where
  "agm_ToData i = binWrite (agm_appid i) @ binWrite (agm_gid i) @ binWrite (agm_uid i)"

definition agm_FromData :: "bytes \<Rightarrow> app_group_member_id \<times> bool" where
  "agm_FromData buff =
     (if length buff < 24 then (\<lparr>agm_appid = 0, agm_gid = 0, agm_uid = 0\<rparr>, False)
      else let (a, buffer) = binRead 0 buff; (g, buffer) = binRead 0 buffer; (u, buffer) = binRead 0 buffer
           in (\<lparr>agm_appid = a, agm_gid = g, agm_uid = u\<rparr>, True))"

record group_sync_key =
  gs_GroupId :: int64
  gs_SyncKey :: int64

definition gs_ToData :: "group_sync_key \<Rightarrow> bytes" where
  "gs_ToData k = binWrite (gs_GroupId k) @ binWrite (gs_SyncKey k)"

definition gs_FromData :: "bytes \<Rightarrow> group_sync_key \<times> bool" where
  "gs_FromData buff =
     (if length buff < 16 then (\<lparr>gs_GroupId = 0, gs_SyncKey = 0\<rparr>, False)
      else let (g, buffer) = binRead 0 buff; (k, buffer) = binRead 0 buffer
           in (\<lparr>gs_GroupId = g, gs_SyncKey = k\<rparr>, True))"

record metadata =
  md_SyncKey :: int64
  md_PrevSyncKey :: int64

definition md_ToData :: "metadata \<Rightarrow> bytes" where
  "md_ToData m = binWrite (md_SyncKey m) @ binWrite (md_PrevSyncKey m) @ replicate 16 0"

definition md_FromData :: "bytes \<Rightarrow> metadata \<times> bool" where
  "md_FromData buff =
     (if length buff < 32 then (\<lparr>md_SyncKey = 0, md_PrevSyncKey = 0\<rparr>, False)
      else let (k, buffer) = binRead 0 buff; (p, buffer) = binRead 0 buffer
           in (\<lparr>md_SyncKey = k, md_PrevSyncKey = p\<rparr>, True))"

section \<open>Bodies of \<^verbatim>\<open>core/storage_message.go\<close>\<close>

text \<open>The five layouts of an entry of an offline queue share one struct, \<open>OfflineMessage\<close>.\<close>

record offline_message =
  off_Appid :: int64
  off_Receiver :: int64
  off_Msgid :: int64
  off_DeviceId :: int64
  off_SeqId :: int64
  off_PrevMsgid :: int64
  off_PrevPeerMsgid :: int64
  off_PrevBatchMsgid :: int64

definition off_zero :: offline_message where
  "off_zero = \<lparr>off_Appid = 0, off_Receiver = 0, off_Msgid = 0, off_DeviceId = 0, off_SeqId = 0,
     off_PrevMsgid = 0, off_PrevPeerMsgid = 0, off_PrevBatchMsgid = 0\<rparr>"

definition off1_ToData :: "offline_message \<Rightarrow> bytes" where
  "off1_ToData o1 =
     binWrite (off_Appid o1) @ binWrite (off_Receiver o1) @ binWrite (off_Msgid o1)
     @ binWrite (off_DeviceId o1) @ binWrite (off_PrevMsgid o1)"

definition off1_FromData :: "bytes \<Rightarrow> offline_message \<times> bool" where
  "off1_FromData buff =
     (if length buff < 32 then (off_zero, False)
      else let (a, buffer) = binRead 0 buff; (r, buffer) = binRead 0 buffer;
               (i, buffer) = binRead 0 buffer;
               (d, buffer) = (if length buff = 40 then binRead 0 buffer else (0, buffer));
               (p, buffer) = binRead 0 buffer
           in (off_zero\<lparr>off_Appid := a, off_Receiver := r, off_Msgid := i, off_DeviceId := d,
                         off_PrevMsgid := p, off_PrevPeerMsgid := p\<rparr>, True))"

definition off2_ToData :: "offline_message \<Rightarrow> bytes" where
  "off2_ToData o2 =
     binWrite (off_Appid o2) @ binWrite (off_Receiver o2) @ binWrite (off_Msgid o2)
     @ binWrite (off_DeviceId o2) @ binWrite (off_PrevMsgid o2) @ binWrite (off_PrevPeerMsgid o2)"

definition off2_FromData :: "bytes \<Rightarrow> offline_message \<times> bool" where
  "off2_FromData buff =
     (if length buff < 48 then (off_zero, False)
      else let (a, buffer) = binRead 0 buff; (r, buffer) = binRead 0 buffer;
               (i, buffer) = binRead 0 buffer; (d, buffer) = binRead 0 buffer;
               (p, buffer) = binRead 0 buffer; (pp, buffer) = binRead 0 buffer
           in (off_zero\<lparr>off_Appid := a, off_Receiver := r, off_Msgid := i, off_DeviceId := d,
                         off_PrevMsgid := p, off_PrevPeerMsgid := pp\<rparr>, True))"

definition off3_ToData :: "offline_message \<Rightarrow> bytes" where
  "off3_ToData o3 =
     binWrite (off_Appid o3) @ binWrite (off_Receiver o3) @ binWrite (off_Msgid o3)
     @ binWrite (off_DeviceId o3) @ binWrite (off_PrevMsgid o3) @ binWrite (off_PrevPeerMsgid o3)
     @ binWrite (off_PrevBatchMsgid o3)"

definition off3_FromData :: "bytes \<Rightarrow> offline_message \<times> bool" where
  "off3_FromData buff =
     (if length buff < 56 then (off_zero, False)
      else let (a, buffer) = binRead 0 buff; (r, buffer) = binRead 0 buffer;
               (i, buffer) = binRead 0 buffer; (d, buffer) = binRead 0 buffer;
               (p, buffer) = binRead 0 buffer; (pp, buffer) = binRead 0 buffer;
               (pb, buffer) = binRead 0 buffer
           in (off_zero\<lparr>off_Appid := a, off_Receiver := r, off_Msgid := i, off_DeviceId := d,
                         off_PrevMsgid := p, off_PrevPeerMsgid := pp,
                         off_PrevBatchMsgid := pb\<rparr>, True))"

definition off4_ToData :: "offline_message \<Rightarrow> bytes" where
  "off4_ToData o4 =
     binWrite (off_Appid o4) @ binWrite (off_Receiver o4) @ binWrite (off_Msgid o4)
     @ binWrite (off_DeviceId o4) @ binWrite (off_SeqId o4) @ binWrite (off_PrevMsgid o4)
     @ binWrite (off_PrevPeerMsgid o4) @ binWrite (off_PrevBatchMsgid o4)"

definition off4_FromData :: "bytes \<Rightarrow> offline_message \<times> bool" where
  "off4_FromData buff =
     (if length buff < 64 then (off_zero, False)
      else let (a, buffer) = binRead 0 buff; (r, buffer) = binRead 0 buffer;
               (i, buffer) = binRead 0 buffer; (d, buffer) = binRead 0 buffer;
               (sq, buffer) = binRead 0 buffer; (p, buffer) = binRead 0 buffer;
               (pp, buffer) = binRead 0 buffer; (pb, buffer) = binRead 0 buffer
           in (\<lparr>off_Appid = a, off_Receiver = r, off_Msgid = i, off_DeviceId = d, off_SeqId = sq,
                 off_PrevMsgid = p, off_PrevPeerMsgid = pp, off_PrevBatchMsgid = pb\<rparr>, True))"

definition goff_ToData :: "offline_message \<Rightarrow> bytes" where
  "goff_ToData g =
     binWrite (off_Appid g) @ binWrite (off_Receiver g) @ binWrite (off_Msgid g)
     @ binWrite (off_Receiver g) @ binWrite (off_DeviceId g) @ binWrite (off_PrevMsgid g)"

definition goff_FromData :: "bytes \<Rightarrow> offline_message \<times> bool" where
  "goff_FromData buff =
     (if length buff < 40 then (off_zero, False)
      else let (a, buffer) = binRead 0 buff; (r, buffer) = binRead 0 buffer;
               (i, buffer) = binRead 0 buffer; (r, buffer) = binRead r buffer;
               (d, buffer) = (if length buff = 48 then binRead 0 buffer else (0, buffer));
               (p, buffer) = binRead 0 buffer
           in (off_zero\<lparr>off_Appid := a, off_Receiver := r, off_Msgid := i, off_DeviceId := d,
                         off_PrevMsgid := p\<rparr>, True))"

record pending_group_message =
  pg_Appid :: int64
  pg_Sender :: int64
  pg_DeviceID :: int64
  pg_Gid :: int64
  pg_Timestamp :: int32
  pg_Members :: "int64 list"
  pg_Content :: bytes

definition write_int64s :: "int64 list \<Rightarrow> bytes" where
  "write_int64s us = concat (map binWrite us)"

fun read_int64s :: "nat \<Rightarrow> bytes \<Rightarrow> int64 list \<times> bytes" where
  "read_int64s 0 b = ([], b)"
| "read_int64s (Suc n) b =
     (let (u, b) = binRead 0 b; (us, b) = read_int64s n b in (u # us, b))"

definition pg_ToData :: "pending_group_message \<Rightarrow> bytes" where
  "pg_ToData g =
     binWrite (pg_Appid g) @ binWrite (pg_Sender g) @ binWrite (pg_DeviceID g) @ binWrite (pg_Gid g)
     @ binWrite (pg_Timestamp g) @ binWrite (word_of_nat (length (pg_Members g)) :: int16)
     @ write_int64s (pg_Members g) @ pg_Content g"

text \<open>
  The member count and the offset of the content are computed in \<open>int16\<close>, so they wrap:
  \<open>make([]int64, count)\<close> panics for a negative count, and the slice \<open>buff[offset:]\<close> for an offset
  that is negative or past the end.
\<close>

definition pg_FromData :: "bytes \<Rightarrow> (pending_group_message \<times> bool) go" where
  "pg_FromData buff =
     (let g0 = \<lparr>pg_Appid = 0, pg_Sender = 0, pg_DeviceID = 0, pg_Gid = 0, pg_Timestamp = 0,
                 pg_Members = [], pg_Content = []\<rparr>
      in if length buff < 38 then Ret (g0, False)
         else
           let (a, buffer) = binRead 0 buff; (s, buffer) = binRead 0 buffer;
               (d, buffer) = binRead 0 buffer; (g, buffer) = binRead 0 buffer;
               (t, buffer) = binRead 0 buffer; (count, buffer) = binRead (0 :: int16) buffer;
               g1 = g0\<lparr>pg_Appid := a, pg_Sender := s, pg_DeviceID := d, pg_Gid := g,
                       pg_Timestamp := t\<rparr>;
               offset = 38 + count * 8
           in if int (length buff) < sint offset then Ret (g1, False)
              else if sint count < 0 then Panic
              else if sint offset < 0 then Panic
              else Ret (g1\<lparr>pg_Members := fst (read_int64s (nat (sint count)) buffer),
                          pg_Content := drop (nat (sint offset)) buff\<rparr>, True))"

section \<open>Bodies of \<^verbatim>\<open>core/route_message.go\<close> without a message inside\<close>

record subscribe_message =
  sub_Appid :: int64
  sub_Uid :: int64
  sub_Online :: int8

definition sub_ToData :: "subscribe_message \<Rightarrow> bytes" where
  "sub_ToData s = binWrite (sub_Appid s) @ binWrite (sub_Uid s) @ binWrite (sub_Online s)"

definition sub_FromData :: "bytes \<Rightarrow> subscribe_message \<times> bool" where
  "sub_FromData buff =
     (if length buff < 17 then (\<lparr>sub_Appid = 0, sub_Uid = 0, sub_Online = 0\<rparr>, False)
      else let (a, buffer) = binRead 0 buff; (u, buffer) = binRead 0 buffer;
               (n, buffer) = binRead 0 buffer
           in (\<lparr>sub_Appid = a, sub_Uid = u, sub_Online = n\<rparr>, True))"

section \<open>Round trips of the single bodies\<close>

text \<open>
  Each \<open>FromData\<close> recovers what its \<open>ToData\<close> wrote. The layouts of older versions drop fields;
  the lemma then says what comes back.
\<close>

lemma read_int64s_write [wire]: "read_int64s (length us) (write_int64s us @ s) = (us, s)"
  by (induction us) (simp_all add: write_int64s_def)

lemma length_write_int64s [wire]: "length (write_int64s us) = 8 * length us"
  by (induction us) (simp_all add: write_int64s_def)

lemma sint_small:
  assumes "n < 2 ^ (LENGTH('a::len) - 1)"
  shows "sint (word_of_nat n :: 'a word) = int n"
proof -
  from assms have "int n < 2 ^ (LENGTH('a) - 1)" by (metis of_nat_less_numeral_power_cancel_iff)
  moreover have "- (2 ^ (LENGTH('a) - 1)) \<le> int n" by (rule order_trans [of _ 0]) simp_all
  ultimately show ?thesis by (simp add: signed_of_nat signed_take_bit_int_eq_self)
qed

lemma uint_small:
  assumes "n < 2 ^ LENGTH('a::len)"
  shows "uint (word_of_nat n :: 'a word) = int n"
  using assms by (simp add: unsigned_of_nat take_bit_nat_eq_self)

lemma sint_upper16:
  assumes "32768 \<le> n" "n < 65536"
  shows "sint (word_of_nat n :: int16) = int n - 65536"
proof -
  have "n div 32768 = 1" using assms by (simp add: div_nat_eqI)
  then have "int n div 32768 = 1" by (simp flip: of_nat_div [of n 32768, simplified of_nat_numeral])
  then have "bit (int n) 15" by (simp add: bit_iff_odd)
  moreover have "take_bit 16 (int n) = int n" using assms by (simp add: take_bit_int_eq_self)
  ultimately show ?thesis by (simp add: signed_of_nat signed_take_bit_eq_take_bit_minus)
qed

lemma binWrite_byte: "binWrite (d :: byte) = [d]"
  by (simp add: binWrite_def)

lemma binRead_byte_Cons: "binRead old (d # s) = (d :: byte, s)"
  using binRead_width(4) [of old d s] by (simp add: binWrite_byte)

lemma auth_roundtrip:
  assumes "length (auth_Token a) < 128" "length (auth_DeviceId a) < 128"
    and "0 < length (auth_Token a) + length (auth_DeviceId a)"
  shows "auth_FromData (auth_ToData a) = (a, True)"
  using assms
  by (simp add: auth_FromData_def auth_ToData_def Let_def binWrite_byte binRead_byte_Cons sint_small)

lemma rt_roundtrip: "rt_FromData (rt_ToData m) = (m, True)"
  by (simp add: rt_FromData_def rt_ToData_def Let_def)

lemma im_roundtrip:
  "im_FromData v (im_ToData v m) = (if v = 0 then m\<lparr>im_Timestamp := 0\<rparr> else m, True)"
  by (simp add: im_FromData_def im_ToData_def im_FromDataV0_def im_ToDataV0_def im_FromDataV1_def
      im_ToDataV1_def im_zero_def Let_def)

lemma ack_roundtrip:
  "ack_FromData v (ack_ToData v a) = (if sint v > 1 then a else a\<lparr>ack_Status := 0\<rparr>, True)"
  by (simp add: ack_FromData_def ack_ToData_def Let_def)

lemma cs_roundtrip: "cs_FromData (cs_ToData m) = (m, True)"
  by (simp add: cs_FromData_def cs_ToData_def Let_def)

lemma int64_roundtrip:
  "room_FromData (binWrite k) = (k, True)" "sync_key_FromData (binWrite k) = (k, True)"
  "sync_cursor_FromData (binWrite k) = (k, True)"
  by (simp_all add: room_FromData_def sync_key_FromData_def sync_cursor_FromData_def)

lemma int32_roundtrip:
  "auth_status_FromData (binWrite n) = (n, True)" "unread_FromData (binWrite n) = (n, True)"
  by (simp_all add: auth_status_FromData_def unread_FromData_def)

lemma voip_roundtrip: "voip_content c \<noteq> [] \<Longrightarrow> voip_FromData (voip_ToData c) = (c, True)"
  by (simp add: voip_FromData_def voip_ToData_def Let_def)

lemma au_roundtrip: "au_FromData (au_ToData i) = (i, True)"
  by (simp add: au_FromData_def au_ToData_def Let_def)

lemma ar_roundtrip: "ar_FromData (ar_ToData i) = (i, True)"
  by (simp add: ar_FromData_def ar_ToData_def Let_def)

lemma gs_roundtrip: "gs_FromData (gs_ToData k) = (k, True)"
  by (simp add: gs_FromData_def gs_ToData_def Let_def)

lemma md_roundtrip: "md_FromData (md_ToData m) = (m, True)"
  by (simp add: md_FromData_def md_ToData_def Let_def)

lemma sub_roundtrip: "sub_FromData (sub_ToData s) = (s, True)"
  by (simp add: sub_FromData_def sub_ToData_def Let_def)

lemma off1_roundtrip:
  "off1_FromData (off1_ToData m) =
     (m\<lparr>off_SeqId := 0, off_PrevPeerMsgid := off_PrevMsgid m, off_PrevBatchMsgid := 0\<rparr>, True)"
  by (simp add: off1_FromData_def off1_ToData_def off_zero_def Let_def)

lemma off2_roundtrip:
  "off2_FromData (off2_ToData m) = (m\<lparr>off_SeqId := 0, off_PrevBatchMsgid := 0\<rparr>, True)"
  by (simp add: off2_FromData_def off2_ToData_def off_zero_def Let_def)

lemma off3_roundtrip: "off3_FromData (off3_ToData m) = (m\<lparr>off_SeqId := 0\<rparr>, True)"
  by (simp add: off3_FromData_def off3_ToData_def off_zero_def Let_def)

lemma off4_roundtrip: "off4_FromData (off4_ToData m) = (m, True)"
  by (simp add: off4_FromData_def off4_ToData_def Let_def)

lemma goff_roundtrip:
  "goff_FromData (goff_ToData m) =
     (m\<lparr>off_SeqId := 0, off_PrevPeerMsgid := 0, off_PrevBatchMsgid := 0\<rparr>, True)"
  by (simp add: goff_FromData_def goff_ToData_def off_zero_def Let_def)

text \<open>
  The \<open>int16\<close> arithmetic of \<open>PendingGroupMessage\<close> is exact up to 4091 members
  (\<open>38 + 4091 * 8 = 32766\<close>).
\<close>

lemma pg_roundtrip:
  assumes "length (pg_Members g) \<le> 4091"
  shows "pg_FromData (pg_ToData g) = Ret (g, True)"
proof -
  let ?n = "length (pg_Members g)"
  have c: "sint (word_of_nat ?n :: int16) = int ?n"
    using assms by (intro sint_small) simp
  have "(38 + word_of_nat ?n * 8 :: int16) = word_of_nat (38 + ?n * 8)" by simp
  moreover have "sint (word_of_nat (38 + ?n * 8) :: int16) = int (38 + ?n * 8)"
    using assms by (intro sint_small) simp
  ultimately have o: "sint (38 + word_of_nat ?n * 8 :: int16) = int (38 + ?n * 8)" by simp
  show ?thesis using c o
    by (simp add: pg_FromData_def pg_ToData_def Let_def wire nat_add_distrib nat_mult_distrib)
qed

lemma agm_roundtrip: "agm_FromData (agm_ToData i) = (i, True)"
  by (simp add: agm_FromData_def agm_ToData_def Let_def)

section \<open>The interface of a body\<close>

text \<open>
  What \<open>Message.ToData\<close> and \<open>Message.FromData\<close> rely on where the body is an \<open>IMessage\<close>: what was
  written is accepted and read back. Bodies that lose a field (the old layouts of the offline records)
  do not provide it.
\<close>

locale codec =
  fixes ToData :: "'a \<Rightarrow> bytes" and FromData :: "bytes \<Rightarrow> 'a \<times> bool"
  assumes read_back: "FromData (ToData x) = (x, True)"
begin

lemma ToData_inject: "ToData x = ToData y \<longleftrightarrow> x = y"
  by (metis read_back prod.inject)

lemma FromData_accepts: "snd (FromData (ToData x))"
  by (simp add: read_back)

lemma read_written: "b \<in> range ToData \<Longrightarrow> ToData (fst (FromData b)) = b"
  by (auto simp: read_back)

end

interpretation rt: codec rt_ToData rt_FromData
  by unfold_locales (rule rt_roundtrip)

interpretation cs: codec cs_ToData cs_FromData
  by unfold_locales (rule cs_roundtrip)

interpretation au: codec au_ToData au_FromData
  by unfold_locales (rule au_roundtrip)

interpretation ar: codec ar_ToData ar_FromData
  by unfold_locales (rule ar_roundtrip)

interpretation agm: codec agm_ToData agm_FromData
  by unfold_locales (rule agm_roundtrip)

interpretation gs: codec gs_ToData gs_FromData
  by unfold_locales (rule gs_roundtrip)

interpretation md: codec md_ToData md_FromData
  by unfold_locales (rule md_roundtrip)

interpretation sub: codec sub_ToData sub_FromData
  by unfold_locales (rule sub_roundtrip)

interpretation off4: codec off4_ToData off4_FromData
  by unfold_locales (rule off4_roundtrip)

interpretation room: codec room_ToData room_FromData
  by unfold_locales (simp add: room_ToData_def int64_roundtrip)

interpretation sync_key: codec sync_key_ToData sync_key_FromData
  by unfold_locales (simp add: sync_key_ToData_def int64_roundtrip)

interpretation sync_cursor: codec sync_cursor_ToData sync_cursor_FromData
  by unfold_locales (simp add: sync_cursor_ToData_def int64_roundtrip)

interpretation auth_status: codec auth_status_ToData auth_status_FromData
  by unfold_locales (simp add: auth_status_ToData_def int32_roundtrip)

interpretation unread: codec unread_ToData unread_FromData
  by unfold_locales (simp add: unread_ToData_def int32_roundtrip)

end
