(* ===== verification/Protocol.thy ===== *)
theory Protocol
  imports Message
begin

text \<open>
  \<^verbatim>\<open>core/protocol.go\<close> and the bodies that carry a message: the \<open>Message\<close> struct with its
  interface-typed body, the table of message creators, \<open>WriteMessage\<close> and \<open>ReceiveLimitMessage\<close>.
  A connection or a file is the list of bytes still to be read.
\<close>

section \<open>The message type\<close>

text \<open>One constructor of \<open>body\<close> per Go type stored in \<open>Message.Body\<close>; \<open>kind\<close> names the types.\<close>

datatype kind =
    KIgnore | KAuthToken | KAuthStatus | KRT | KIM | KAck | KUnread | KSystem | KCustomer
  | KGroupNotification | KRoom | KRoomMessage | KVOIP | KAppUserID | KAppRoomID | KSyncKey
  | KGroupSyncKey | KMetadata | KOffline1 | KOffline2 | KOffline3 | KOffline4 | KGroupOffline
  | KPendingGroup | KSubscribe | KSyncCursor | KBatchPush | KApp | KEMessage | KMessageBatch

datatype message =
    Message (Cmd: go_int) (Seq: go_int) (Version: go_int) (Flag: go_int) (Body: "body option")
      (Meta: "metadata option")
and body =
    BIgnore
  | BAuthToken authentication_token
  | BAuthStatus int32
  | BRT rt_message
  | BIM im_message
  | BAck message_ack
  | BUnread int32
  | BSystem bytes
  | BCustomer customer_message
  | BGroupNotification bytes
  | BRoom int64
  | BRoomMessage rt_message
  | BVOIP voip_control
  | BAppUserID app_user_id
  | BAppRoomID app_room_id
  | BSyncKey int64
  | BGroupSyncKey group_sync_key
  | BMetadata metadata
  | BOffline1 offline_message
  | BOffline2 offline_message
  | BOffline3 offline_message
  | BOffline4 offline_message
  | BGroupOffline offline_message
  | BPendingGroup pending_group_message
  | BSubscribe subscribe_message
  | BSyncCursor int64
  | BBatchPush (bp_Appid: int64) (bp_Receivers: "int64 list") (bp_Msg: "message option")
  | BApp (am_Appid: int64) (am_Receiver: int64) (am_Msgid: int64) (am_PrevMsgid: int64)
      (am_DeviceId: int64) (am_Timestamp: int64) (am_Msg: "message option")
  | BEMessage (em_MsgId: int64) (em_DeviceId: int64) (em_Msg: "message option")
  | BMessageBatch (mb_FirstId: int64) (mb_LastId: int64) (mb_Msgs: "message list")

fun kind_of :: "body \<Rightarrow> kind" where
  "kind_of BIgnore = KIgnore"
| "kind_of (BAuthToken a) = KAuthToken"
| "kind_of (BAuthStatus n) = KAuthStatus"
| "kind_of (BRT m) = KRT"
| "kind_of (BIM m) = KIM"
| "kind_of (BAck a) = KAck"
| "kind_of (BUnread n) = KUnread"
| "kind_of (BSystem s) = KSystem"
| "kind_of (BCustomer m) = KCustomer"
| "kind_of (BGroupNotification s) = KGroupNotification"
| "kind_of (BRoom r) = KRoom"
| "kind_of (BRoomMessage m) = KRoomMessage"
| "kind_of (BVOIP c) = KVOIP"
| "kind_of (BAppUserID i) = KAppUserID"
| "kind_of (BAppRoomID i) = KAppRoomID"
| "kind_of (BSyncKey k) = KSyncKey"
| "kind_of (BGroupSyncKey k) = KGroupSyncKey"
| "kind_of (BMetadata m) = KMetadata"
| "kind_of (BOffline1 m) = KOffline1"
| "kind_of (BOffline2 m) = KOffline2"
| "kind_of (BOffline3 m) = KOffline3"
| "kind_of (BOffline4 m) = KOffline4"
| "kind_of (BGroupOffline m) = KGroupOffline"
| "kind_of (BPendingGroup g) = KPendingGroup"
| "kind_of (BSubscribe s) = KSubscribe"
| "kind_of (BSyncCursor k) = KSyncCursor"
| "kind_of (BBatchPush a r m) = KBatchPush"
| "kind_of (BApp a r i p d t m) = KApp"
| "kind_of (BEMessage i d m) = KEMessage"
| "kind_of (BMessageBatch f l ms) = KMessageBatch"

text \<open>The \<open>message_creators\<close> and \<open>vmessage_creators\<close> maps filled by the three \<open>init\<close> functions.\<close>

definition core_creators :: "(go_int \<times> kind) list" where
  "core_creators =
     [(MSG_GROUP_NOTIFICATION, KGroupNotification), (MSG_AUTH_TOKEN, KAuthToken),
      (MSG_RT, KRT), (MSG_ENTER_ROOM, KRoom), (MSG_LEAVE_ROOM, KRoom),
      (MSG_ROOM_IM, KRoomMessage), (MSG_SYSTEM, KSystem), (MSG_UNREAD_COUNT, KUnread),
      (MSG_CUSTOMER_SERVICE, KIgnore), (MSG_CUSTOMER, KCustomer),
      (MSG_CUSTOMER_SUPPORT, KCustomer), (MSG_SYNC, KSyncKey), (MSG_SYNC_BEGIN, KSyncKey),
      (MSG_SYNC_END, KSyncKey), (MSG_SYNC_KEY, KSyncKey), (MSG_SYNC_GROUP, KGroupSyncKey),
      (MSG_SYNC_GROUP_BEGIN, KGroupSyncKey), (MSG_SYNC_GROUP_END, KGroupSyncKey),
      (MSG_GROUP_SYNC_KEY, KGroupSyncKey), (MSG_SYNC_NOTIFY, KSyncKey),
      (MSG_SYNC_GROUP_NOTIFY, KGroupSyncKey), (MSG_NOTIFICATION, KSystem),
      (MSG_METADATA, KMetadata), (MSG_VOIP_CONTROL, KVOIP), (MSG_AUTH_STATUS, KAuthStatus),
      (MSG_ACK, KAck), (MSG_GROUP_IM, KIM), (MSG_IM, KIM)]"

definition route_creators :: "(go_int \<times> kind) list" where
  "route_creators =
     [(MSG_SUBSCRIBE, KSubscribe), (MSG_UNSUBSCRIBE, KAppUserID), (MSG_PUBLISH, KApp),
      (MSG_PUSH, KBatchPush), (MSG_PUBLISH_GROUP, KApp), (MSG_SUBSCRIBE_ROOM, KAppRoomID),
      (MSG_UNSUBSCRIBE_ROOM, KAppRoomID), (MSG_PUBLISH_ROOM, KApp)]"

definition storage_creators :: "(go_int \<times> kind) list" where
  "storage_creators =
     [(MSG_GROUP_OFFLINE, KOffline4), (MSG_OFFLINE_V4, KOffline4), (MSG_OFFLINE_V3, KOffline3),
      (MSG_OFFLINE_V2, KOffline2), (MSG_PENDING_GROUP_MESSAGE, KPendingGroup),
      (MSG_GROUP_IM_LIST, KGroupOffline), (MSG_GROUP_ACK_IN, KIgnore), (MSG_OFFLINE, KOffline1),
      (MSG_ACK_IN, KIgnore), (MSG_STORAGE_SYNC_BEGIN, KSyncCursor),
      (MSG_STORAGE_SYNC_MESSAGE, KEMessage), (MSG_STORAGE_SYNC_MESSAGE_BATCH, KMessageBatch)]"

definition creator :: "go_int \<Rightarrow> kind option" where
  "creator cmd = map_of (core_creators @ route_creators @ storage_creators) cmd"

text \<open>The array \<open>external_messages\<close>: the commands a client may send.\<close>

definition external_message :: "go_int \<Rightarrow> bool" where
  "external_message cmd \<longleftrightarrow> cmd \<in> set
     [MSG_AUTH_TOKEN, MSG_IM, MSG_ACK, MSG_GROUP_IM, MSG_PING, MSG_PONG, MSG_RT, MSG_ENTER_ROOM,
      MSG_LEAVE_ROOM, MSG_ROOM_IM, MSG_UNREAD_COUNT, MSG_CUSTOMER, MSG_CUSTOMER_SUPPORT, MSG_SYNC,
      MSG_SYNC_GROUP, MSG_SYNC_KEY, MSG_GROUP_SYNC_KEY, MSG_METADATA]"

section \<open>Writing\<close>

definition WriteHeader :: "int32 \<Rightarrow> int32 \<Rightarrow> byte \<Rightarrow> byte \<Rightarrow> byte \<Rightarrow> bytes" where
  "WriteHeader len seq cmd version flag = binWrite len @ binWrite seq @ [cmd, version, flag, 0]"

text \<open>The \<open>int16\<close> length prefix of an embedded message wraps for a frame of 32768 bytes or more.\<close>

definition with_len16 :: "bytes \<Rightarrow> bytes" where
  "with_len16 b = binWrite (word_of_nat (length b) :: int16) @ b"

text \<open>The bodies that carry messages, given the frames of these.\<close>

definition batch_push_ToData :: "int64 \<Rightarrow> int64 list \<Rightarrow> bytes \<Rightarrow> bytes" where
  "batch_push_ToData appid receivers msg_buf =
     binWrite appid @ binWrite (word_of_nat (length receivers) :: uint16) @ write_int64s receivers @ with_len16 msg_buf"

definition app_ToData :: "int64 \<Rightarrow> int64 \<Rightarrow> int64 \<Rightarrow> int64 \<Rightarrow> int64 \<Rightarrow> bytes \<Rightarrow> bytes" where
  "app_ToData appid receiver msgid device ts msg_buf =
     binWrite appid @ binWrite receiver @ binWrite msgid @ binWrite device @ binWrite ts @ with_len16 msg_buf"

definition emessage_ToData :: "int64 \<Rightarrow> int64 \<Rightarrow> bytes \<Rightarrow> bytes" where
  "emessage_ToData msgid device msg_buf = binWrite msgid @ binWrite device @ with_len16 msg_buf"

definition batch_ToData :: "int64 \<Rightarrow> int64 \<Rightarrow> bytes list \<Rightarrow> bytes" where
  "batch_ToData firstid lastid frames =
     binWrite firstid @ binWrite lastid @ binWrite (word_of_nat (length frames) :: int32) @ concat frames"

fun WriteMessage :: "message \<Rightarrow> bytes" and body_ToData :: "go_int \<Rightarrow> body \<Rightarrow> bytes" where
  "WriteMessage (Message cmd seq ver flag b meta) =
     (let d = (case b of None \<Rightarrow> [] | Some x \<Rightarrow> body_ToData ver x)
      in WriteHeader (word_of_nat (length d)) (ucast seq) (ucast cmd) (ucast ver) (ucast flag) @ d)"
| "body_ToData v BIgnore = []"
| "body_ToData v (BAuthToken a) = auth_ToData a"
| "body_ToData v (BAuthStatus n) = auth_status_ToData n"
| "body_ToData v (BRT m) = rt_ToData m"
| "body_ToData v (BIM m) = im_ToData v m"
| "body_ToData v (BAck a) = ack_ToData v a"
| "body_ToData v (BUnread n) = unread_ToData n"
| "body_ToData v (BSystem s) = s"
| "body_ToData v (BCustomer m) = cs_ToData m"
| "body_ToData v (BGroupNotification s) = s"
| "body_ToData v (BRoom r) = room_ToData r"
| "body_ToData v (BRoomMessage m) = rt_ToData m"
| "body_ToData v (BVOIP c) = voip_ToData c"
| "body_ToData v (BAppUserID i) = au_ToData i"
| "body_ToData v (BAppRoomID i) = ar_ToData i"
| "body_ToData v (BSyncKey k) = sync_key_ToData k"
| "body_ToData v (BGroupSyncKey k) = gs_ToData k"
| "body_ToData v (BMetadata m) = md_ToData m"
| "body_ToData v (BOffline1 m) = off1_ToData m"
| "body_ToData v (BOffline2 m) = off2_ToData m"
| "body_ToData v (BOffline3 m) = off3_ToData m"
| "body_ToData v (BOffline4 m) = off4_ToData m"
| "body_ToData v (BGroupOffline m) = goff_ToData m"
| "body_ToData v (BPendingGroup g) = pg_ToData g"
| "body_ToData v (BSubscribe s) = sub_ToData s"
| "body_ToData v (BSyncCursor k) = sync_cursor_ToData k"
| "body_ToData v (BBatchPush appid receivers msg) =
     (case msg of None \<Rightarrow> []
      | Some m \<Rightarrow> batch_push_ToData appid receivers (WriteMessage m))"
| "body_ToData v (BApp appid receiver msgid prev device ts msg) =
     (case msg of None \<Rightarrow> []
      | Some m \<Rightarrow> app_ToData appid receiver msgid device ts (WriteMessage m))"
| "body_ToData v (BEMessage msgid device msg) =
     (case msg of None \<Rightarrow> []
      | Some m \<Rightarrow> emessage_ToData msgid device (WriteMessage m))"
| "body_ToData v (BMessageBatch firstid lastid msgs) =
     batch_ToData firstid lastid (map WriteMessage msgs)"

declare auth_status_ToData_def [simp] unread_ToData_def [simp] room_ToData_def [simp] sync_key_ToData_def [simp]
  sync_cursor_ToData_def [simp] batch_push_ToData_def [simp] app_ToData_def [simp] emessage_ToData_def [simp]
  batch_ToData_def [simp]

definition msg_ToData :: "message \<Rightarrow> bytes" where
  "msg_ToData m = (case Body m of None \<Rightarrow> [] | Some x \<Rightarrow> body_ToData (Version m) x)"

section \<open>Reading\<close>

definition ReadHeader :: "bytes \<Rightarrow> go_int \<times> go_int \<times> go_int \<times> go_int \<times> go_int" where
  "ReadHeader buff =
     (let (len, buffer) = binRead (0 :: int32) buff; (seq, buffer) = binRead (0 :: int32) buffer;
          (cmd, buffer) = binRead (0 :: byte) buffer; (version, buffer) = binRead (0 :: byte) buffer;
          (flag, buffer) = binRead (0 :: byte) buffer
      in (scast len, scast seq, ucast cmd, ucast version, ucast flag))"

text \<open>
  \<open>read_frame\<close> is \<open>ReceiveLimitMessage\<close> up to the call of \<open>FromData\<close>: the header fields and the
  body bytes (\<open>None\<close> where the function returns \<open>nil\<close>), and what is left on the connection.
\<close>

definition read_frame ::
  "int \<Rightarrow> bool \<Rightarrow> bytes \<Rightarrow> (go_int \<times> go_int \<times> go_int \<times> go_int \<times> bytes) option \<times> bytes"
where
  "read_frame limit_size external conn =
     (if length conn < 12 then (None, [])
      else
        let (len, seq, cmd, version, flag) = ReadHeader (take 12 conn); conn = drop 12 conn
        in if sint len < 0 \<or> sint len \<ge> limit_size then (None, conn)
           else if external \<and> \<not> external_message cmd then (None, conn)
           else if length conn < nat (sint len) then (None, [])
           else (Some (cmd, seq, version, flag, take (nat (sint len)) conn),
                 drop (nat (sint len)) conn))"

text \<open>
  \<open>Message.FromData\<close> and the test of its result. The parser of a body is a parameter here, so that
  the bodies that hold a message can be defined by recursion below.
\<close>

type_synonym body_parser = "kind \<Rightarrow> go_int \<Rightarrow> bytes \<Rightarrow> (body \<times> bool) go"

definition message_FromData ::
  "body_parser \<Rightarrow> go_int \<Rightarrow> go_int \<Rightarrow> bytes \<Rightarrow> (body option \<times> bool) go"
where
  "message_FromData f cmd version buff =
     (case creator cmd of
        None \<Rightarrow> Ret (None, buff = [])
      | Some k \<Rightarrow> go_map (\<lambda>(b, ok). (Some b, ok)) (f k version buff))"

definition receive_with :: "body_parser \<Rightarrow> int \<Rightarrow> bool \<Rightarrow> bytes \<Rightarrow> message option go" where
  "receive_with f limit_size external conn =
     (case fst (read_frame limit_size external conn) of
        None \<Rightarrow> Ret None
      | Some (cmd, seq, version, flag, buff) \<Rightarrow>
          go_map (\<lambda>(b, ok). if ok then Some (Message cmd seq version flag b None) else None)
            (message_FromData f cmd version buff))"

definition batch_push_FromData ::
  "(bytes \<Rightarrow> message option go) \<Rightarrow> bytes \<Rightarrow> (body \<times> bool) go"
where
  "batch_push_FromData receive buff =
     (if length buff < 12 then Ret (BBatchPush 0 [] None, False)
      else
        let (appid, buffer) = binRead 0 buff; (count, buffer) = binRead (0 :: uint16) buffer
        in if length buff < 8 + 2 + unat count * 8 + 2 then Ret (BBatchPush appid [] None, False)
           else
             let (receivers, buffer) = read_int64s (unat count) buffer;
                 (l, buffer) = binRead (0 :: int16) buffer
             in if sint l > int (length buffer) \<or> sint l < 0
                then Ret (BBatchPush appid receivers None, False)
                else go_map (\<lambda>msg. (BBatchPush appid receivers msg, msg \<noteq> None))
                       (receive (take (nat (sint l)) buffer)))"

definition app_FromData :: "(bytes \<Rightarrow> message option go) \<Rightarrow> bytes \<Rightarrow> (body \<times> bool) go" where
  "app_FromData receive buff =
     (if length buff < 42 then Ret (BApp 0 0 0 0 0 0 None, False)
      else
        let (appid, buffer) = binRead 0 buff; (receiver, buffer) = binRead 0 buffer;
            (msgid, buffer) = binRead 0 buffer; (device, buffer) = binRead 0 buffer;
            (ts, buffer) = binRead 0 buffer; (l, buffer) = binRead (0 :: int16) buffer
        in if sint l > int (length buffer) \<or> sint l < 0
           then Ret (BApp appid receiver msgid 0 device ts None, False)
           else go_map (\<lambda>msg. (BApp appid receiver msgid 0 device ts msg, msg \<noteq> None))
                  (receive (take (nat (sint l)) buffer)))"

text \<open>\<open>EMessage.FromData\<close> does not test for a negative length: \<open>make([]byte, l)\<close> panics.\<close>

definition emessage_FromData :: "(bytes \<Rightarrow> message option go) \<Rightarrow> bytes \<Rightarrow> (body \<times> bool) go" where
  "emessage_FromData receive buff =
     (if length buff < 18 then Ret (BEMessage 0 0 None, False)
      else
        let (msgid, buffer) = binRead 0 buff; (device, buffer) = binRead 0 buffer;
            (l, buffer) = binRead (0 :: int16) buffer
        in if sint l > int (length buffer) then Ret (BEMessage msgid device None, False)
           else if sint l < 0 then Panic
           else go_map (\<lambda>msg. (BEMessage msgid device msg, msg \<noteq> None))
                  (receive (take (nat (sint l)) buffer)))"

text \<open>The loop of \<open>MessageBatch.FromData\<close>, which reads \<open>count\<close> messages from the buffer.\<close>

fun receive_many ::
  "(bytes \<Rightarrow> message option go) \<Rightarrow> nat \<Rightarrow> bytes \<Rightarrow> (message list \<times> bool) go"
where
  "receive_many receive 0 conn = Ret ([], True)"
| "receive_many receive (Suc n) conn =
     go_bind (receive conn) (\<lambda>msg. case msg of
         None \<Rightarrow> Ret ([], False)
       | Some m \<Rightarrow> go_map (\<lambda>(ms, ok). (m # ms, ok))
           (receive_many receive n (snd (read_frame (32 * 1024) False conn))))"

definition batch_FromData :: "(bytes \<Rightarrow> message option go) \<Rightarrow> bytes \<Rightarrow> (body \<times> bool) go" where
  "batch_FromData receive buff =
     (if length buff < 18 then Ret (BMessageBatch 0 0 [], False)
      else
        let (firstid, buffer) = binRead 0 buff; (lastid, buffer) = binRead 0 buffer;
            (count, buffer) = binRead (0 :: int32) buffer
        in if sint count < 0 then Panic
           else go_map (\<lambda>(ms, ok). (BMessageBatch firstid lastid ms, ok))
                  (receive_many receive (nat (sint count)) buffer))"

text \<open>
  Congruence rules: a body that holds a message parses it from strictly fewer bytes, so the
  recursion from \<open>FromData\<close> through \<open>ReceiveMessage\<close> back to \<open>FromData\<close> ends.
\<close>

lemma binRead_eq_length:
  "binRead (old :: 'a::len word) b = (x, s) \<Longrightarrow> length s \<le> length b - LENGTH('a) div 8"
  by (auto simp: binRead_def Let_def split: if_splits)

lemma read_int64s_length: "length (snd (read_int64s n b)) \<le> length b"
proof (induction n arbitrary: b)
  case (Suc n)
  have "length (snd (read_int64s n (snd (binRead (0 :: int64) b)))) \<le> length (snd (binRead (0 :: int64) b))"
    by (rule Suc)
  also have "\<dots> \<le> length b" by (rule binRead_snd_length)
  finally show ?case by (simp add: Let_def split_beta)
qed simp

lemma read_int64s_eq_length: "read_int64s n b = (us, s) \<Longrightarrow> length s \<le> length b"
  using read_int64s_length [of n b] by simp

lemma read_frame_length: "length (snd (read_frame lim ext conn)) \<le> length conn"
  by (auto simp: read_frame_def Let_def split: prod.splits)

lemma read_frame_body_length:
  "fst (read_frame lim ext conn) = Some (c, s, v, f, buff) \<Longrightarrow> length buff + 12 \<le> length conn"
  by (auto simp: read_frame_def Let_def split: prod.splits if_splits)

lemma receive_with_cong [fundef_cong]:
  assumes "lim = lim'" "ext = ext'" "conn = conn'"
    and "\<And>k v b. length b < length conn' \<Longrightarrow> f k v b = g k v b"
  shows "receive_with f lim ext conn = receive_with g lim' ext' conn'"
  using assms
  by (auto simp: receive_with_def message_FromData_def dest!: read_frame_body_length
      split: option.splits)

lemma go_map_cong_arg: "x = y \<Longrightarrow> go_map f x = go_map f y"
  by simp

lemma app_FromData_cong [fundef_cong]:
  assumes "buff = buff'" and "\<And>b. length b < length buff' \<Longrightarrow> f b = g b"
  shows "app_FromData f buff = app_FromData g buff'"
  using assms
  by (auto simp: app_FromData_def Let_def dest!: binRead_eq_length
      split: prod.splits intro!: go_map_cong_arg)

lemma emessage_FromData_cong [fundef_cong]:
  assumes "buff = buff'" and "\<And>b. length b < length buff' \<Longrightarrow> f b = g b"
  shows "emessage_FromData f buff = emessage_FromData g buff'"
  using assms
  by (auto simp: emessage_FromData_def Let_def dest!: binRead_eq_length
      split: prod.splits intro!: go_map_cong_arg)

lemma batch_push_FromData_cong [fundef_cong]:
  assumes "buff = buff'" and "\<And>b. length b < length buff' \<Longrightarrow> f b = g b"
  shows "batch_push_FromData f buff = batch_push_FromData g buff'"
  using assms
  by (auto simp: batch_push_FromData_def Let_def dest!: binRead_eq_length read_int64s_eq_length
      split: prod.splits intro!: go_map_cong_arg)

lemma receive_many_cong:
  assumes "\<And>b. length b \<le> length conn \<Longrightarrow> f b = g b"
  shows "receive_many f n conn = receive_many g n conn"
  using assms
proof (induction n arbitrary: conn)
  case (Suc n)
  let ?rest = "snd (read_frame (32 * 1024) False conn)"
  have "length ?rest \<le> length conn" by (rule read_frame_length)
  with Suc have "receive_many f n ?rest = receive_many g n ?rest" by (meson order_trans)
  with Suc.prems show ?case by (cases "g conn") (auto split: option.splits)
qed simp

lemma batch_FromData_cong [fundef_cong]:
  assumes "buff = buff'" and "\<And>b. length b < length buff' \<Longrightarrow> f b = g b"
  shows "batch_FromData f buff = batch_FromData g buff'"
  using assms
  by (auto simp: batch_FromData_def Let_def dest!: binRead_eq_length
      split: prod.splits intro!: go_map_cong_arg receive_many_cong)

definition ret_body :: "('a \<Rightarrow> body) \<Rightarrow> 'a \<times> bool \<Rightarrow> (body \<times> bool) go" where
  "ret_body c r = Ret (c (fst r), snd r)"

function body_FromData :: body_parser where
  "body_FromData KIgnore v buff = Ret (BIgnore, True)"
| "body_FromData KAuthToken v buff = ret_body BAuthToken (auth_FromData buff)"
| "body_FromData KAuthStatus v buff = ret_body BAuthStatus (auth_status_FromData buff)"
| "body_FromData KRT v buff = ret_body BRT (rt_FromData buff)"
| "body_FromData KIM v buff = ret_body BIM (im_FromData v buff)"
| "body_FromData KAck v buff = ret_body BAck (ack_FromData v buff)"
| "body_FromData KUnread v buff = ret_body BUnread (unread_FromData buff)"
| "body_FromData KSystem v buff = Ret (BSystem buff, True)"
| "body_FromData KCustomer v buff = ret_body BCustomer (cs_FromData buff)"
| "body_FromData KGroupNotification v buff = Ret (BGroupNotification buff, True)"
| "body_FromData KRoom v buff = ret_body BRoom (room_FromData buff)"
| "body_FromData KRoomMessage v buff = ret_body BRoomMessage (rt_FromData buff)"
| "body_FromData KVOIP v buff = ret_body BVOIP (voip_FromData buff)"
| "body_FromData KAppUserID v buff = ret_body BAppUserID (au_FromData buff)"
| "body_FromData KAppRoomID v buff = ret_body BAppRoomID (ar_FromData buff)"
| "body_FromData KSyncKey v buff = ret_body BSyncKey (sync_key_FromData buff)"
| "body_FromData KGroupSyncKey v buff = ret_body BGroupSyncKey (gs_FromData buff)"
| "body_FromData KMetadata v buff = ret_body BMetadata (md_FromData buff)"
| "body_FromData KOffline1 v buff = ret_body BOffline1 (off1_FromData buff)"
| "body_FromData KOffline2 v buff = ret_body BOffline2 (off2_FromData buff)"
| "body_FromData KOffline3 v buff = ret_body BOffline3 (off3_FromData buff)"
| "body_FromData KOffline4 v buff = ret_body BOffline4 (off4_FromData buff)"
| "body_FromData KGroupOffline v buff = ret_body BGroupOffline (goff_FromData buff)"
| "body_FromData KPendingGroup v buff =
     go_map (\<lambda>(g, ok). (BPendingGroup g, ok)) (pg_FromData buff)"
| "body_FromData KSubscribe v buff = ret_body BSubscribe (sub_FromData buff)"
| "body_FromData KSyncCursor v buff = ret_body BSyncCursor (sync_cursor_FromData buff)"
| "body_FromData KBatchPush v buff =
     batch_push_FromData (\<lambda>conn. receive_with (\<lambda>k v b. body_FromData k v b) (32 * 1024) False conn) buff"
| "body_FromData KApp v buff =
     app_FromData (\<lambda>conn. receive_with (\<lambda>k v b. body_FromData k v b) (32 * 1024) False conn) buff"
| "body_FromData KEMessage v buff =
     emessage_FromData (\<lambda>conn. receive_with (\<lambda>k v b. body_FromData k v b) (32 * 1024) False conn) buff"
| "body_FromData KMessageBatch v buff =
     batch_FromData (\<lambda>conn. receive_with (\<lambda>k v b. body_FromData k v b) (32 * 1024) False conn) buff"
  by pat_completeness auto
termination
  by (relation "measure (\<lambda>(k, v, b). length b)") auto

text \<open>\<open>ReceiveLimitMessage\<close>, with what is left on the connection, and its four uses.\<close>

definition ReceiveLimitMessage :: "int \<Rightarrow> bool \<Rightarrow> bytes \<Rightarrow> (message option \<times> bytes) go" where
  "ReceiveLimitMessage limit_size external conn =
     go_map (\<lambda>msg. (msg, snd (read_frame limit_size external conn)))
       (receive_with body_FromData limit_size external conn)"

definition ReceiveMessage :: "bytes \<Rightarrow> (message option \<times> bytes) go" where
  "ReceiveMessage conn = ReceiveLimitMessage (32 * 1024) False conn"

definition ReceiveClientMessage :: "bytes \<Rightarrow> (message option \<times> bytes) go" where
  "ReceiveClientMessage conn = ReceiveLimitMessage (32 * 1024) True conn"

definition ReceiveStorageSyncMessage :: "bytes \<Rightarrow> (message option \<times> bytes) go" where
  "ReceiveStorageSyncMessage conn = ReceiveLimitMessage (32 * 1024 * 1024) False conn"

definition ReceiveStorageMessage :: "bytes \<Rightarrow> (message option \<times> bytes) go" where
  "ReceiveStorageMessage conn = ReceiveLimitMessage (1024 * 1024) False conn"

end
