(* ===== verification/Codec.thy ===== *)
theory Codec
  imports Protocol
begin

text \<open>
  The wire format as a whole: what \<open>ReceiveMessage\<close> makes of a message that \<open>WriteMessage\<close> wrote.
\<close>

section \<open>What the format keeps\<close>

text \<open>
  \<open>canon\<close> is the part of a message that reaches the other side: \<open>Meta\<close> is not serialised, nor is
  the previous message id of an \<open>AppMessage\<close>; version 0 drops the time stamp of an \<open>IMMessage\<close>, versions
  up to 1 the status of an acknowledgement, and the older offline layouts the fields they lack.
\<close>

fun canon :: "message \<Rightarrow> message" and canon_body :: "go_int \<Rightarrow> body \<Rightarrow> body" where
  "canon (Message cmd seq ver flag b meta) =
     Message cmd seq ver flag (map_option (canon_body ver) b) None"
| "canon_body v (BIM m) = BIM (if v = 0 then m\<lparr>im_Timestamp := 0\<rparr> else m)"
| "canon_body v (BAck a) = BAck (if sint v > 1 then a else a\<lparr>ack_Status := 0\<rparr>)"
| "canon_body v (BOffline1 m) =
     BOffline1 (m\<lparr>off_SeqId := 0, off_PrevPeerMsgid := off_PrevMsgid m, off_PrevBatchMsgid := 0\<rparr>)"
| "canon_body v (BOffline2 m) = BOffline2 (m\<lparr>off_SeqId := 0, off_PrevBatchMsgid := 0\<rparr>)"
| "canon_body v (BOffline3 m) = BOffline3 (m\<lparr>off_SeqId := 0\<rparr>)"
| "canon_body v (BGroupOffline m) =
     BGroupOffline (m\<lparr>off_SeqId := 0, off_PrevPeerMsgid := 0, off_PrevBatchMsgid := 0\<rparr>)"
| "canon_body v (BBatchPush a r m) = BBatchPush a r (map_option canon m)"
| "canon_body v (BApp a r i p d t m) = BApp a r i 0 d t (map_option canon m)"
| "canon_body v (BEMessage i d m) = BEMessage i d (map_option canon m)"
| "canon_body v (BMessageBatch f l ms) = BMessageBatch f l (map canon ms)"
| "canon_body v b = b"

text \<open>
  \<open>wire_ok\<close>: the message has the body type of its command, its header fields fit the header
  (\<open>Cmd\<close>, \<open>Version\<close> and \<open>Flag\<close> one byte, \<open>Seq\<close> four) and the lengths of its parts fit their
  prefixes. An embedded message must also fit the limits of its own frame.
\<close>

definition header_ok :: "message \<Rightarrow> bool" where
  "header_ok m \<longleftrightarrow> Cmd m = ucast (ucast (Cmd m) :: byte) \<and> Seq m = scast (ucast (Seq m) :: int32)
     \<and> Version m = ucast (ucast (Version m) :: byte) \<and> Flag m = ucast (ucast (Flag m) :: byte)"

fun wire_ok :: "message \<Rightarrow> bool" and body_ok :: "body \<Rightarrow> bool" where
  "wire_ok (Message cmd seq ver flag b meta) \<longleftrightarrow>
     header_ok (Message cmd seq ver flag b meta) \<and>
     (case b of None \<Rightarrow> creator cmd = None
      | Some x \<Rightarrow> creator cmd = Some (kind_of x) \<and> body_ok x)"
| "body_ok (BAuthToken a) \<longleftrightarrow> length (auth_Token a) < 128 \<and> length (auth_DeviceId a) < 128
     \<and> 0 < length (auth_Token a) + length (auth_DeviceId a)"
| "body_ok (BVOIP c) \<longleftrightarrow> voip_content c \<noteq> []"
| "body_ok (BPendingGroup g) \<longleftrightarrow> length (pg_Members g) \<le> 4091"
| "body_ok (BBatchPush a r m) \<longleftrightarrow> length r < 2 ^ 16 \<and>
     (case m of None \<Rightarrow> False | Some x \<Rightarrow> wire_ok x \<and> length (WriteMessage x) < 32768)"
| "body_ok (BApp a r i p d t m) \<longleftrightarrow>
     (case m of None \<Rightarrow> False | Some x \<Rightarrow> wire_ok x \<and> length (WriteMessage x) < 32768)"
| "body_ok (BEMessage i d m) \<longleftrightarrow>
     (case m of None \<Rightarrow> False | Some x \<Rightarrow> wire_ok x \<and> length (WriteMessage x) < 32768)"
| "body_ok (BMessageBatch f l ms) \<longleftrightarrow> length ms < 2 ^ 31 \<and>
     (\<forall>x \<in> set ms. wire_ok x \<and> length (msg_ToData x) < 32768)"
| "body_ok b \<longleftrightarrow> True"

section \<open>Frames\<close>

lemma WriteMessage_eq:
  "WriteMessage m =
     WriteHeader (word_of_nat (length (msg_ToData m))) (ucast (Seq m)) (ucast (Cmd m))
       (ucast (Version m)) (ucast (Flag m)) @ msg_ToData m"
  by (cases m) (simp add: msg_ToData_def Let_def split: option.splits)

declare WriteMessage.simps [simp del]

lemma length_WriteHeader [wire, simp]: "length (WriteHeader l s c v f) = 12"
  by (simp add: WriteHeader_def)

lemma length_WriteMessage: "length (WriteMessage m) = 12 + length (msg_ToData m)"
  by (simp add: WriteMessage_eq)

lemma ReadHeader_WriteHeader:
  "ReadHeader (WriteHeader l s c v f) = (scast l, scast s, ucast c, ucast v, ucast f)"
  by (simp add: ReadHeader_def WriteHeader_def Let_def binRead_byte_Cons)

lemma sint_len32: "n < 2 ^ 31 \<Longrightarrow> sint (scast (word_of_nat n :: int32) :: go_int) = int n"
  using sint_small [where 'a = 32, of n] by (simp add: signed_scast_eq signed_take_bit_int_eq_self)

lemma read_frame_WriteMessage:
  assumes "header_ok m" and "int (length (msg_ToData m)) < lim" and "lim \<le> 2 ^ 31"
    and "ext \<Longrightarrow> external_message (Cmd m)"
  shows "read_frame lim ext (WriteMessage m @ s)
    = (Some (Cmd m, Seq m, Version m, Flag m, msg_ToData m), s)"
proof -
  let ?n = "length (msg_ToData m)"
  from assms(2,3) have "int ?n < 2 ^ 31" by linarith
  then have n: "?n < 2 ^ 31" by simp
  have h: "scast (ucast (Seq m) :: int32) = Seq m" "ucast (ucast (Cmd m) :: byte) = Cmd m"
    "ucast (ucast (Version m) :: byte) = Version m" "ucast (ucast (Flag m) :: byte) = Flag m"
    using assms(1) by (simp_all only: header_ok_def)
  show ?thesis
    using assms(2,4) h
    by (simp add: read_frame_def WriteMessage_eq ReadHeader_WriteHeader sint_len32 [OF n] Let_def)
qed

section \<open>Round trip\<close>

lemma with_len16_read:
  assumes "length b < 32768"
  shows "binRead 0 (with_len16 b) = (word_of_nat (length b) :: int16, b)"
    "sint (word_of_nat (length b) :: int16) = int (length b)"
  using assms by (simp_all add: with_len16_def sint_small)

lemma receive_many_map:
  assumes "\<And>x s. x \<in> set ms \<Longrightarrow> f (WriteMessage x @ s) = Ret (Some (g x))"
    and "\<And>x. x \<in> set ms \<Longrightarrow> header_ok x \<and> length (msg_ToData x) < 32768"
  shows "receive_many f (length ms) (concat (map WriteMessage ms)) = Ret (map g ms, True)"
  using assms by (induction ms) (auto simp: read_frame_WriteMessage)

lemma header_ok_if_wire_ok: "wire_ok m \<Longrightarrow> header_ok m"
  by (cases m) simp

lemma receive_with_WriteMessage:
  assumes "wire_ok m" and "int (length (msg_ToData m)) < lim" and "lim \<le> 2 ^ 31"
    and "ext \<Longrightarrow> external_message (Cmd m)"
    and "\<And>x. Body m = Some x \<Longrightarrow> body_ok x \<Longrightarrow>
      f (kind_of x) (Version m) (body_ToData (Version m) x) = Ret (canon_body (Version m) x, True)"
  shows "receive_with f lim ext (WriteMessage m @ s) = Ret (Some (canon m))"
proof -
  have fr: "read_frame lim ext (WriteMessage m @ s)
      = (Some (Cmd m, Seq m, Version m, Flag m, msg_ToData m), s)"
    using assms(1-4) by (intro read_frame_WriteMessage header_ok_if_wire_ok)
  obtain cmd seq ver flag b meta where m: "m = Message cmd seq ver flag b meta" by (cases m)
  show ?thesis
  proof (cases b)
    case None
    with assms(1) m fr show ?thesis
      by (simp add: receive_with_def message_FromData_def msg_ToData_def)
  next
    case (Some x)
    with assms(1,5) m fr show ?thesis
      by (simp add: receive_with_def message_FromData_def msg_ToData_def)
  qed
qed

lemmas simple_roundtrips =
  auth_roundtrip rt_roundtrip im_roundtrip ack_roundtrip cs_roundtrip int64_roundtrip
  int32_roundtrip voip_roundtrip au_roundtrip ar_roundtrip gs_roundtrip md_roundtrip
  sub_roundtrip off1_roundtrip off2_roundtrip off3_roundtrip off4_roundtrip goff_roundtrip
  pg_roundtrip

text \<open>The four bodies that hold messages, for any parser that reads those back.\<close>

lemma app_roundtrip:
  assumes "f (WriteMessage x) = Ret (Some y)" and "length (WriteMessage x) < 32768"
  shows "app_FromData f (body_ToData v (BApp a r i p d t (Some x)))
    = Ret (BApp a r i 0 d t (Some y), True)"
  using assms
  by (simp add: app_FromData_def with_len16_read Let_def with_len16_def sint_small)

lemma emessage_roundtrip:
  assumes "f (WriteMessage x) = Ret (Some y)" and "length (WriteMessage x) < 32768"
  shows "emessage_FromData f (body_ToData v (BEMessage i d (Some x)))
    = Ret (BEMessage i d (Some y), True)"
  using assms by (simp add: emessage_FromData_def Let_def with_len16_def sint_small)

lemma batch_push_roundtrip:
  assumes "f (WriteMessage x) = Ret (Some y)" and "length (WriteMessage x) < 32768"
    and "length r < 2 ^ 16"
  shows "batch_push_FromData f (body_ToData v (BBatchPush a r (Some x)))
    = Ret (BBatchPush a r (Some y), True)"
proof -
  have "unat (word_of_nat (length r) :: uint16) = length r"
    using assms(3) by (simp add: unsigned_of_nat take_bit_nat_eq_self)
  with assms show ?thesis
    by (simp add: batch_push_FromData_def Let_def with_len16_def sint_small wire)
qed

lemma batch_roundtrip:
  assumes "\<And>x s. x \<in> set ms \<Longrightarrow> f (WriteMessage x @ s) = Ret (Some (g x))"
    and "\<And>x. x \<in> set ms \<Longrightarrow> header_ok x \<and> length (msg_ToData x) < 32768"
    and "length ms < 2 ^ 31"
  shows "batch_FromData f (body_ToData v (BMessageBatch i l ms))
    = Ret (BMessageBatch i l (map g ms), True)"
  using assms(3) receive_many_map [of ms f g, OF assms(1,2)]
  by (simp add: batch_FromData_def Let_def sint_small)

lemma size_Body: "Body m = Some x \<Longrightarrow> size x < size m"
  by (cases m) simp

text \<open>The body of any well-formed message is read back, whatever messages are nested in it.\<close>

lemma body_roundtrip:
  "body_ok x \<Longrightarrow> body_FromData (kind_of x) v (body_ToData v x) = Ret (canon_body v x, True)"
proof (induction x arbitrary: v rule: measure_induct_rule [where f = size])
  case (less x)
  have nested: "receive_with body_FromData (32 * 1024) False (WriteMessage y @ s) = Ret (Some (canon y))"
    if "wire_ok y" "length (msg_ToData y) < 32768" "size y < size x" for y s
    using that less.IH size_Body [of y]
    by (intro receive_with_WriteMessage) (auto intro: less_trans)
  have frame: "length (msg_ToData y) < 32768" if "length (WriteMessage y) < 32768" for y
    using that by (simp add: length_WriteMessage)
  show ?case
  proof (cases x)
    case (BBatchPush a r m)
    then show ?thesis
      using less.prems nested [of "the m" "[]"] frame [of "the m"]
      by (cases m) (simp_all del: body_ToData.simps add: batch_push_roundtrip)
  next
    case (BApp a r i p d t m)
    then show ?thesis
      using less.prems nested [of "the m" "[]"] frame [of "the m"]
      by (cases m) (simp_all del: body_ToData.simps add: app_roundtrip)
  next
    case (BEMessage i d m)
    then show ?thesis
      using less.prems nested [of "the m" "[]"] frame [of "the m"]
      by (cases m) (simp_all del: body_ToData.simps add: emessage_roundtrip)
  next
    case (BMessageBatch i l ms)
    have "size y < size x" if "y \<in> set ms" for y
      using that by (auto simp: BMessageBatch less_Suc_eq_le intro: size_list_estimation')
    then show ?thesis
      using less.prems nested
      by (simp del: body_ToData.simps add: BMessageBatch batch_roundtrip header_ok_if_wire_ok)
  qed (use less.prems in \<open>auto simp: simple_roundtrips ret_body_def\<close>)
qed

lemma receive_write:
  assumes "wire_ok m" and "int (length (msg_ToData m)) < lim" and "lim \<le> 2 ^ 31"
    and "ext \<Longrightarrow> external_message (Cmd m)"
  shows "ReceiveLimitMessage lim ext (WriteMessage m @ s) = Ret (Some (canon m), s)"
  using assms
  by (simp add: ReceiveLimitMessage_def receive_with_WriteMessage body_roundtrip
      read_frame_WriteMessage header_ok_if_wire_ok)

lemma ReceiveMessage_WriteMessage:
  "wire_ok m \<Longrightarrow> length (msg_ToData m) < 32768 \<Longrightarrow>
   ReceiveMessage (WriteMessage m @ s) = Ret (Some (canon m), s)"
  by (simp add: ReceiveMessage_def receive_write)

section \<open>Reading does not look ahead\<close>

lemma read_frame_append:
  assumes "read_frame lim ext s = (Some fr, r)"
  shows "read_frame lim ext (s @ t) = (Some fr, r @ t)"
proof -
  from assms have "12 \<le> length s" by (auto simp: read_frame_def split: if_splits)
  with assms show ?thesis
    by (auto simp: read_frame_def Let_def split: if_splits prod.splits)
qed

lemma receive_with_eq_Some:
  "receive_with f lim ext s = Ret (Some m) \<Longrightarrow> \<exists>fr. fst (read_frame lim ext s) = Some fr"
  by (auto simp: receive_with_def split: option.splits)

lemma receive_append:
  assumes "ReceiveLimitMessage lim ext s = Ret (Some m, r)"
  shows "ReceiveLimitMessage lim ext (s @ t) = Ret (Some m, r @ t)"
proof -
  from assms obtain fr where "read_frame lim ext s = (Some fr, r)"
    by (auto simp: ReceiveLimitMessage_def prod_eq_iff dest!: receive_with_eq_Some)
  with assms show ?thesis
    by (auto simp: ReceiveLimitMessage_def receive_with_def read_frame_append split: prod.splits)
qed

text \<open>A connection too short for a header, or whose header announces a body at or over the limit.\<close>

lemma receive_short: "length s < 12 \<Longrightarrow> ReceiveLimitMessage lim ext s = Ret (None, [])"
  by (simp add: ReceiveLimitMessage_def receive_with_def read_frame_def)

lemma read_frame_too_long:
  assumes "lim \<le> int (length (msg_ToData m))" "length (msg_ToData m) < 2 ^ 31"
  shows "read_frame lim ext (WriteMessage m @ s) = (None, msg_ToData m @ s)"
  using assms
  by (simp add: read_frame_def WriteMessage_eq ReadHeader_WriteHeader sint_len32 Let_def)

lemma receive_too_long:
  assumes "lim \<le> int (length (msg_ToData m))" "length (msg_ToData m) < 2 ^ 31"
  shows "ReceiveLimitMessage lim ext (WriteMessage m @ s) = Ret (None, msg_ToData m @ s)"
  using assms by (simp add: ReceiveLimitMessage_def receive_with_def read_frame_too_long)

section \<open>What a receiver accepts\<close>

lemma receive_cmd_seq:
  assumes "ReceiveLimitMessage lim ext s = Ret (Some m, r)"
  shows "length r + 12 \<le> length s" and "ext \<Longrightarrow> external_message (Cmd m)" and "Meta m = None"
    and "Body m = None \<Longrightarrow> creator (Cmd m) = None"
proof -
  from assms obtain cmd sq ver fl buff where
    fr: "read_frame lim ext s = (Some (cmd, sq, ver, fl, buff), r)"
    by (auto simp: ReceiveLimitMessage_def prod_eq_iff dest!: receive_with_eq_Some)
  from fr show "length r + 12 \<le> length s"
    by (auto simp: read_frame_def Let_def split: if_splits prod.splits)
  from fr have "ext \<Longrightarrow> external_message cmd"
    by (auto simp: read_frame_def Let_def split: if_splits prod.splits)
  moreover from fr have ff: "fst (read_frame lim ext s) = Some (cmd, sq, ver, fl, buff)" by simp
  ultimately show "ext \<Longrightarrow> external_message (Cmd m)" using assms
    by (auto simp: ReceiveLimitMessage_def receive_with_def split: if_splits)
  from assms ff show "Meta m = None" "Body m = None \<Longrightarrow> creator (Cmd m) = None"
    by (auto simp: ReceiveLimitMessage_def receive_with_def message_FromData_def
        split: if_splits option.splits)
qed

section \<open>Limits of the formats\<close>

text \<open>The frame by which an \<open>im\<close> server publishes message \<open>m\<close> to a route server.\<close>

definition publish_frame :: "int64 \<Rightarrow> int64 \<Rightarrow> int64 \<Rightarrow> int64 \<Rightarrow> int64 \<Rightarrow> message \<Rightarrow> message" where
  "publish_frame appid receiver msgid prev ts m =
     Message MSG_PUBLISH 0 0 0 (Some (BApp appid receiver msgid prev 0 ts (Some m))) None"

lemma length_publish_frame:
  "length (msg_ToData (publish_frame a r i p t m)) = length (msg_ToData m) + 54"
  by (simp add: publish_frame_def msg_ToData_def with_len16_def length_WriteMessage)

lemma creator_PUBLISH: "creator MSG_PUBLISH = Some KApp"
  by (simp add: creator_def core_creators_def route_creators_def)

lemma publish_frame_wire_ok:
  "wire_ok m \<Longrightarrow> length (msg_ToData m) \<le> 32713 \<Longrightarrow> wire_ok (publish_frame a r i p t m)"
  by (simp add: publish_frame_def header_ok_def creator_PUBLISH length_WriteMessage)

lemma receive_publish:
  assumes "wire_ok m" and "length (msg_ToData m) < 32768"
  shows "ReceiveMessage (WriteMessage (publish_frame a r i p t m)) =
    (if length (msg_ToData m) \<le> 32713
     then Ret (Some (canon (publish_frame a r i p t m)), [])
     else Ret (None, msg_ToData (publish_frame a r i p t m)))"
proof (cases "length (msg_ToData m) \<le> 32713")
  case True
  with assms have "wire_ok (publish_frame a r i p t m)"
    by (intro publish_frame_wire_ok)
  with True show ?thesis
    using ReceiveMessage_WriteMessage [of "publish_frame a r i p t m" "[]"]
    by (simp add: length_publish_frame)
next
  case False
  with assms show ?thesis
    using receive_too_long [of "32 * 1024" "publish_frame a r i p t m" False "[]"]
    by (simp add: ReceiveMessage_def length_publish_frame)
qed

lemma pg_large_panics:
  assumes "4092 \<le> length (pg_Members g)" "length (pg_Members g) \<le> 8187"
  shows "pg_FromData (pg_ToData g) = Panic"
proof -
  let ?n = "length (pg_Members g)"
  let ?o = "38 + word_of_nat ?n * 8 :: int16"
  have c: "sint (word_of_nat ?n :: int16) = int ?n"
    using assms by (intro sint_small) simp
  have "?o = word_of_nat (38 + ?n * 8)" by simp
  then have "sint ?o = int (38 + ?n * 8) - 65536"
    using assms sint_upper16 [of "38 + ?n * 8"] by simp
  then have "sint ?o < 0" using assms by simp
  with c show ?thesis
    by (simp add: pg_FromData_def pg_ToData_def Let_def wire)
qed

end
