(* ===== verification/Lru.thy ===== *)
theory Lru
  imports Prelude
begin

text \<open>
  \<^verbatim>\<open>lru/lru.go\<close>: the cache of open block files. \<open>container/list\<close> is a list of elements, each with
  an identity (the pointer the map \<open>cache\<close> stores); \<open>next_el\<close> is the identity of the next element
  the list allocates. An operation returns the new cache and the entries it passed to the
  \<open>OnEvicted\<close> callback. A zero \<open>Cache\<close> has a nil map, here \<open>None\<close>.
\<close>

record ('k, 'v) element =
  el_id :: nat
  el_key :: 'k
  el_value :: 'v

record ('k, 'v) lru =
  MaxEntries :: nat
  OnEvicted :: bool
  ll :: "('k, 'v) element list"
  cache :: "('k \<rightharpoonup> nat) option"
  next_el :: nat

definition New :: "nat \<Rightarrow> ('k, 'v) lru" where
  "New maxEntries =
     \<lparr>MaxEntries = maxEntries, OnEvicted = False, ll = [], cache = Some Map.empty, next_el = 0\<rparr>"

section \<open>Operations\<close>

definition find_element :: "nat \<Rightarrow> ('k, 'v) lru \<Rightarrow> ('k, 'v) element option" where
  "find_element i c = find (\<lambda>e. el_id e = i) (ll c)"

definition MoveToFront :: "nat \<Rightarrow> ('k, 'v) lru \<Rightarrow> ('k, 'v) lru" where
  "MoveToFront i c =
     c\<lparr>ll := filter (\<lambda>e. el_id e = i) (ll c) @ filter (\<lambda>e. el_id e \<noteq> i) (ll c)\<rparr>"

definition set_value :: "nat \<Rightarrow> 'v \<Rightarrow> ('k, 'v) lru \<Rightarrow> ('k, 'v) lru" where
  "set_value i v c = c\<lparr>ll := map (\<lambda>e. if el_id e = i then e\<lparr>el_value := v\<rparr> else e) (ll c)\<rparr>"

definition removeElement ::
  "('k, 'v) element \<Rightarrow> ('k, 'v) lru \<Rightarrow> ('k, 'v) lru \<times> ('k \<times> 'v) list"
where
  "removeElement e c =
     (c\<lparr>ll := filter (\<lambda>x. el_id x \<noteq> el_id e) (ll c),
        cache := map_option (\<lambda>m. m(el_key e := None)) (cache c)\<rparr>,
      if OnEvicted c then [(el_key e, el_value e)] else [])"

definition RemoveOldest :: "('k, 'v) lru \<Rightarrow> ('k, 'v) lru \<times> ('k \<times> 'v) list" where
  "RemoveOldest c =
     (if cache c = None then (c, [])
      else if ll c = [] then (c, [])
      else removeElement (last (ll c)) c)"

definition Add :: "'k \<Rightarrow> 'v \<Rightarrow> ('k, 'v) lru \<Rightarrow> ('k, 'v) lru \<times> ('k \<times> 'v) list" where
  "Add key v c =
     (let c = (if cache c = None then c\<lparr>cache := Some Map.empty, ll := []\<rparr> else c)
      in case the (cache c) key of
           Some ee \<Rightarrow> (set_value ee v (MoveToFront ee c), [])
         | None \<Rightarrow>
             (let ele = \<lparr>el_id = next_el c, el_key = key, el_value = v\<rparr>;
                  c = c\<lparr>ll := ele # ll c, next_el := Suc (next_el c),
                        cache := map_option (\<lambda>m. m(key \<mapsto> el_id ele)) (cache c)\<rparr>
              in if MaxEntries c \<noteq> 0 \<and> length (ll c) > MaxEntries c then RemoveOldest c
                 else (c, [])))"

definition Get :: "'k \<Rightarrow> ('k, 'v) lru \<Rightarrow> 'v option \<times> ('k, 'v) lru" where
  "Get key c =
     (case cache c of
        None \<Rightarrow> (None, c)
      | Some m \<Rightarrow>
          (case m key of
             None \<Rightarrow> (None, c)
           | Some ele \<Rightarrow> (map_option el_value (find_element ele c), MoveToFront ele c)))"

definition Remove :: "'k \<Rightarrow> ('k, 'v) lru \<Rightarrow> ('k, 'v) lru \<times> ('k \<times> 'v) list" where
  "Remove key c =
     (case cache c of
        None \<Rightarrow> (c, [])
      | Some m \<Rightarrow>
          (case m key of
             None \<Rightarrow> (c, [])
           | Some ele \<Rightarrow>
               (case find_element ele c of
                  None \<Rightarrow> (c, [])
                | Some e \<Rightarrow> removeElement e c)))"

definition Len :: "('k, 'v) lru \<Rightarrow> nat" where
  "Len c = (if cache c = None then 0 else length (ll c))"

section \<open>Invariant\<close>

text \<open>
  The list and the map agree: identities and keys are distinct, the map sends each key of the
  list to the identity of its element and knows no other key, no identity is used twice, and the
  list respects \<open>MaxEntries\<close>.
\<close>

definition lru_inv :: "('k, 'v) lru \<Rightarrow> bool" where
  "lru_inv c \<longleftrightarrow>
     cache c \<noteq> None
     \<and> (\<forall>k i. the (cache c) k = Some i \<longleftrightarrow> (\<exists>e \<in> set (ll c). el_key e = k \<and> el_id e = i))
     \<and> distinct (map el_key (ll c)) \<and> distinct (map el_id (ll c))
     \<and> (\<forall>e \<in> set (ll c). el_id e < next_el c)
     \<and> (MaxEntries c \<noteq> 0 \<longrightarrow> length (ll c) \<le> MaxEntries c)"

text \<open>The abstract cache: its entries, most recently used first.\<close>

definition entries :: "('k, 'v) lru \<Rightarrow> ('k \<times> 'v) list" where
  "entries c = map (\<lambda>e. (el_key e, el_value e)) (ll c)"

definition lookup :: "('k, 'v) lru \<Rightarrow> 'k \<Rightarrow> 'v option" where
  "lookup c = map_of (entries c)"

definition capped :: "nat \<Rightarrow> 'a list \<Rightarrow> 'a list" where
  "capped n xs = (if n = 0 then xs else take n xs)"

lemma lru_inv_New: "lru_inv (New n)"
  by (simp add: lru_inv_def New_def)

lemma lru_invD:
  assumes "lru_inv c"
  shows "cache c \<noteq> None"
    "the (cache c) k = Some i \<longleftrightarrow> (\<exists>e \<in> set (ll c). el_key e = k \<and> el_id e = i)"
    "distinct (map el_key (ll c))" "distinct (map el_id (ll c))"
    "e \<in> set (ll c) \<Longrightarrow> el_id e < next_el c"
    "MaxEntries c \<noteq> 0 \<Longrightarrow> length (ll c) \<le> MaxEntries c"
  using assms by (auto simp: lru_inv_def)

text \<open>The shape of the list around the element a key maps to.\<close>

lemma cached_element:
  assumes "lru_inv c" and "the (cache c) key = Some i"
  obtains xs e ys where "ll c = xs @ e # ys" "el_id e = i" "el_key e = key"
    "\<forall>x \<in> set xs \<union> set ys. el_id x \<noteq> i \<and> el_key x \<noteq> key"
proof -
  from assms obtain e where e: "e \<in> set (ll c)" "el_id e = i" "el_key e = key"
    by (auto simp: lru_invD(2))
  then obtain xs ys where s: "ll c = xs @ e # ys" by (auto dest: split_list)
  have "el_id e \<notin> el_id ` (set xs \<union> set ys)" "el_key e \<notin> el_key ` (set xs \<union> set ys)"
    using lru_invD(3,4) [OF assms(1)] by (auto simp: s)
  with e have "\<forall>x \<in> set xs \<union> set ys. el_id x \<noteq> i \<and> el_key x \<noteq> key" by (metis imageI)
  with s e show thesis by (intro that)
qed

lemma not_cached: "lru_inv c \<Longrightarrow> the (cache c) key = None \<longleftrightarrow> key \<notin> el_key ` set (ll c)"
  using lru_invD(2) [of c key] by (metis (no_types, lifting) imageE imageI not_Some_eq)

lemma filter_others:
  assumes "\<forall>x \<in> set xs \<union> set ys. el_id x \<noteq> i \<and> el_key x \<noteq> key"
  shows "filter (\<lambda>x. el_id x = i) xs = []" "filter (\<lambda>x. el_id x = i) ys = []"
    "filter (\<lambda>x. el_id x \<noteq> i) xs = xs" "filter (\<lambda>x. el_id x \<noteq> i) ys = ys"
    "filter (\<lambda>x. el_key x \<noteq> key) xs = xs" "filter (\<lambda>x. el_key x \<noteq> key) ys = ys"
    "find (\<lambda>x. el_id x = i) xs = None"
  using assms by (auto simp: filter_id_conv filter_empty_conv find_None_iff)

lemma find_append: "find P (xs @ ys) = (case find P xs of None \<Rightarrow> find P ys | Some x \<Rightarrow> Some x)"
  by (induction xs) auto

section \<open>The operations keep the invariant\<close>

lemma lru_inv_removeElement:
  assumes inv: "lru_inv c" and e: "e \<in> set (ll c)"
  shows "lru_inv (fst (removeElement e c))"
proof -
  obtain m where m: "cache c = Some m" using lru_invD(1) [OF inv] by auto
  have same: "el_key x = el_key e \<longleftrightarrow> x = e" "el_id x = el_id e \<longleftrightarrow> x = e" if "x \<in> set (ll c)" for x
    using that e lru_invD(3,4) [OF inv] by (auto simp: distinct_map dest: inj_onD)
  have "m k = Some i \<longleftrightarrow> (\<exists>e \<in> set (ll c). el_key e = k \<and> el_id e = i)" for k i
    using lru_invD(2) [OF inv] m by simp
  then show ?thesis
    using lru_invD(3-) [OF inv] same
    by (auto simp: lru_inv_def removeElement_def m distinct_map inj_on_def
        intro: le_trans [OF length_filter_le])
qed

lemma lru_inv_RemoveOldest: "lru_inv c \<Longrightarrow> lru_inv (fst (RemoveOldest c))"
  by (auto simp: RemoveOldest_def intro!: lru_inv_removeElement)

lemma MoveToFront_split:
  assumes "ll c = xs @ e # ys" "el_id e = i"
    "\<forall>x \<in> set xs \<union> set ys. el_id x \<noteq> i \<and> el_key x \<noteq> key"
  shows "ll (MoveToFront i c) = e # xs @ ys"
  using assms filter_others [OF assms(3)] by (simp add: MoveToFront_def)

lemma lru_inv_permute:
  assumes inv: "lru_inv c" and "ll c = xs @ e # ys" "cache c' = cache c" "MaxEntries c' = MaxEntries c"
    "next_el c' = next_el c" "ll c' = e\<lparr>el_value := v\<rparr> # xs @ ys"
  shows "lru_inv c'"
  using inv by (auto simp: lru_inv_def assms(2-))

lemma MoveToFront_frame [frame]:
  "cache (MoveToFront i c) = cache c" "MaxEntries (MoveToFront i c) = MaxEntries c"
  "next_el (MoveToFront i c) = next_el c"
  by (simp_all add: MoveToFront_def)

lemma Get_hit:
  assumes inv: "lru_inv c" and s: "ll c = xs @ e # ys" and k: "el_key e = key"
  shows "Get key c = (Some (el_value e), c\<lparr>ll := e # xs @ ys\<rparr>)"
proof -
  have "the (cache c) key = Some (el_id e)" using lru_invD(2) [OF inv] s k by auto
  moreover obtain m where "cache c = Some m" using lru_invD(1) [OF inv] by auto
  moreover have o: "\<forall>x \<in> set xs \<union> set ys. el_id x \<noteq> el_id e \<and> el_key x \<noteq> key"
  proof -
    have "el_id e \<notin> el_id ` (set xs \<union> set ys)" "el_key e \<notin> el_key ` (set xs \<union> set ys)"
      using lru_invD(3,4) [OF inv] by (auto simp: s)
    with k show ?thesis by (metis imageI)
  qed
  ultimately show ?thesis using filter_others [OF o] s
    by (simp add: Get_def find_element_def find_append MoveToFront_def)
qed

lemma Get_miss: "lru_inv c \<Longrightarrow> key \<notin> el_key ` set (ll c) \<Longrightarrow> Get key c = (None, c)"
  using not_cached [of c key] lru_invD(1) [of c] by (auto simp: Get_def split: option.split)

lemma lru_inv_Get: "lru_inv c \<Longrightarrow> lru_inv (snd (Get key c))"
proof (cases "key \<in> el_key ` set (ll c)")
  case True
  assume inv: "lru_inv c"
  from True obtain e xs ys where s: "ll c = xs @ e # ys" "el_key e = key" by (auto dest: split_list)
  have "lru_inv (c\<lparr>ll := e # xs @ ys\<rparr>)"
    by (rule lru_inv_permute [OF inv s(1), where v = "el_value e"]) simp_all
  then show ?thesis by (simp add: Get_hit [OF inv s])
qed (simp add: Get_miss)

lemma lru_inv_push:
  assumes "lru_inv c" "key \<notin> el_key ` set (ll c)" "MaxEntries c \<noteq> 0 \<longrightarrow> length (ll c) < MaxEntries c"
  shows "lru_inv (c\<lparr>ll := \<lparr>el_id = next_el c, el_key = key, el_value = v\<rparr> # ll c,
    next_el := Suc (next_el c), cache := map_option (\<lambda>m. m(key \<mapsto> next_el c)) (cache c)\<rparr>)"
proof -
  obtain m where m: "cache c = Some m" using lru_invD(1) [OF assms(1)] by auto
  have "m k = Some i \<longleftrightarrow> (\<exists>e \<in> set (ll c). el_key e = k \<and> el_id e = i)" for k i
    using lru_invD(2) [OF assms(1)] m by simp
  then show ?thesis
    using lru_invD(3-) [OF assms(1)] assms(2,3) m
    by (auto simp: lru_inv_def) fastforce+
qed

lemma Add_hit:
  assumes inv: "lru_inv c" and s: "ll c = xs @ e # ys" and k: "el_key e = key"
  shows "Add key v c = (c\<lparr>ll := e\<lparr>el_value := v\<rparr> # xs @ ys\<rparr>, [])"
proof -
  have "the (cache c) key = Some (el_id e)" using lru_invD(2) [OF inv] s k by auto
  moreover have o: "\<forall>x \<in> set xs \<union> set ys. el_id x \<noteq> el_id e \<and> el_key x \<noteq> key"
  proof -
    have "el_id e \<notin> el_id ` (set xs \<union> set ys)" "el_key e \<notin> el_key ` (set xs \<union> set ys)"
      using lru_invD(3,4) [OF inv] by (auto simp: s)
    with k show ?thesis by (metis imageI)
  qed
  ultimately show ?thesis using filter_others [OF o] s lru_invD(1) [OF inv]
    by (auto simp: Add_def set_value_def MoveToFront_def map_idI)
qed

text \<open>The element list after a miss; a full cache drops its last element.\<close>

definition push :: "'k \<Rightarrow> 'v \<Rightarrow> ('k, 'v) lru \<Rightarrow> ('k, 'v) lru" where
  "push key v c =
     c\<lparr>ll := \<lparr>el_id = next_el c, el_key = key, el_value = v\<rparr> # ll c,
       next_el := Suc (next_el c), cache := map_option (\<lambda>m. m(key \<mapsto> next_el c)) (cache c)\<rparr>"

lemma Add_miss:
  assumes inv: "lru_inv c" and k: "key \<notin> el_key ` set (ll c)"
  shows "Add key v c =
    (if MaxEntries c \<noteq> 0 \<and> length (ll c) = MaxEntries c
     then (push key v (fst (removeElement (last (ll c)) c)), snd (removeElement (last (ll c)) c))
     else (push key v c, []))"
proof -
  obtain m where m: "cache c = Some m" "m key = None"
    using lru_invD(1) [OF inv] not_cached [OF inv, of key] k by auto
  show ?thesis
  proof (cases "MaxEntries c \<noteq> 0 \<and> length (ll c) = MaxEntries c")
    case True
    then have "ll c \<noteq> []" by auto
    then have l: "last (ll c) \<in> set (ll c)" by simp
    with k have "el_key (last (ll c)) \<noteq> key" "next_el c \<noteq> el_id (last (ll c))"
      using lru_invD(5) [OF inv l] by auto
    with True m \<open>ll c \<noteq> []\<close> show ?thesis
      by (simp add: Add_def RemoveOldest_def removeElement_def push_def fun_upd_twist)
  next
    case False
    then have "\<not> (MaxEntries c \<noteq> 0 \<and> Suc (length (ll c)) > MaxEntries c)"
      using lru_invD(6) [OF inv] by fastforce
    with False m show ?thesis by (auto simp: Add_def push_def Let_def)
  qed
qed

lemma removeElement_last:
  assumes inv: "lru_inv c" and "ll c \<noteq> []"
  shows "ll (fst (removeElement (last (ll c)) c)) = butlast (ll c)"
proof -
  from assms(2) have s: "ll c = butlast (ll c) @ [last (ll c)]" by simp
  have "el_id x \<noteq> el_id (last (ll c))" if "x \<in> set (butlast (ll c))" for x
    using lru_invD(4) [OF inv] that s
    by (metis (no_types, lifting) distinct_append imageI list.set_intros(1) list.set_map map_append
        disjoint_iff list.simps(9))
  then have "filter (\<lambda>x. el_id x \<noteq> el_id (last (ll c))) (butlast (ll c) @ [last (ll c)]) = butlast (ll c)"
    by (simp add: filter_id_conv)
  then show ?thesis using s by (simp add: removeElement_def)
qed

lemma lru_inv_Add: "lru_inv c \<Longrightarrow> lru_inv (fst (Add key v c))"
proof (cases "key \<in> el_key ` set (ll c)")
  case True
  assume inv: "lru_inv c"
  from True obtain e xs ys where s: "ll c = xs @ e # ys" "el_key e = key" by (auto dest: split_list)
  have "lru_inv (c\<lparr>ll := e\<lparr>el_value := v\<rparr> # xs @ ys\<rparr>)"
    by (rule lru_inv_permute [OF inv s(1), where v = v]) simp_all
  then show ?thesis by (simp add: Add_hit [OF inv s])
next
  case False
  assume inv: "lru_inv c"
  show ?thesis
  proof (cases "MaxEntries c \<noteq> 0 \<and> length (ll c) = MaxEntries c")
    case True
    then have ne: "ll c \<noteq> []" by auto
    let ?c = "fst (removeElement (last (ll c)) c)"
    have i: "lru_inv ?c" using ne inv by (intro lru_inv_removeElement) auto
    have "lru_inv (push key v ?c)" unfolding push_def
    proof (rule lru_inv_push [OF i])
      show "key \<notin> el_key ` set (ll ?c)"
        using False in_set_butlastD [of _ "ll c"] by (auto simp: removeElement_last [OF inv ne])
      show "MaxEntries ?c \<noteq> 0 \<longrightarrow> length (ll ?c) < MaxEntries ?c"
        using True ne unfolding removeElement_last [OF inv ne] by (simp add: removeElement_def)
    qed
    with True show ?thesis by (simp add: Add_miss [OF inv False])
  next
    case full: False
    with lru_invD(6) [OF inv] have "MaxEntries c \<noteq> 0 \<longrightarrow> length (ll c) < MaxEntries c" by fastforce
    then have "lru_inv (push key v c)" unfolding push_def by (rule lru_inv_push [OF inv False])
    with full show ?thesis unfolding Add_miss [OF inv False] by auto
  qed
qed

lemma Remove_miss: "lru_inv c \<Longrightarrow> key \<notin> el_key ` set (ll c) \<Longrightarrow> Remove key c = (c, [])"
  using not_cached [of c key] lru_invD(1) [of c] by (auto simp: Remove_def split: option.split)

lemma Remove_hit:
  assumes inv: "lru_inv c" and e: "e \<in> set (ll c)" "el_key e = key"
  shows "Remove key c = removeElement e c"
proof -
  have "the (cache c) key = Some (el_id e)" using lru_invD(2) [OF inv] e by auto
  moreover have "find (\<lambda>x. el_id x = el_id e) (ll c) = Some e"
  proof (cases "find (\<lambda>x. el_id x = el_id e) (ll c)")
    case None with e show ?thesis by (auto simp: find_None_iff)
  next
    case (Some x)
    then have "x \<in> set (ll c)" "el_id x = el_id e" by (auto simp: find_Some_iff)
    with e Some lru_invD(4) [OF inv] show ?thesis by (auto simp: distinct_map dest: inj_onD)
  qed
  ultimately show ?thesis using lru_invD(1) [OF inv] by (auto simp: Remove_def find_element_def)
qed

lemma lru_inv_Remove: "lru_inv c \<Longrightarrow> lru_inv (fst (Remove key c))"
  by (cases "key \<in> el_key ` set (ll c)")
    (auto simp: Remove_miss Remove_hit intro: lru_inv_removeElement)

section \<open>The cache as a recency list\<close>

lemma keys_entries: "fst ` set (entries c) = el_key ` set (ll c)"
  by (force simp: entries_def)

lemma distinct_entries: "lru_inv c \<Longrightarrow> distinct (map fst (entries c))"
  by (simp add: lru_invD(3) entries_def comp_def)

lemma entries_others:
  assumes "lru_inv c" "ll c = xs @ e # ys"
  shows "filter (\<lambda>p. fst p \<noteq> el_key e) (entries c)
    = map (\<lambda>e. (el_key e, el_value e)) (xs @ ys)"
proof -
  have "el_key e \<notin> el_key ` (set xs \<union> set ys)"
    using lru_invD(3) [OF assms(1)] by (auto simp: assms(2))
  then have "filter (\<lambda>x. el_key x \<noteq> el_key e) xs = xs" "filter (\<lambda>x. el_key x \<noteq> el_key e) ys = ys"
    unfolding filter_id_conv by (metis UnCI imageI)+
  then show ?thesis by (simp add: entries_def assms(2) filter_map comp_def)
qed

lemma entries_Add:
  assumes inv: "lru_inv c"
  shows "entries (fst (Add key v c))
    = capped (MaxEntries c) ((key, v) # filter (\<lambda>p. fst p \<noteq> key) (entries c))"
proof (cases "key \<in> el_key ` set (ll c)")
  case True
  then obtain e xs ys where s: "ll c = xs @ e # ys" "el_key e = key" by (auto dest: split_list)
  show ?thesis
    using lru_invD(6) [OF inv] entries_others [OF inv s(1)]
    by (auto simp: Add_hit [OF inv s] entries_def capped_def s)
next
  case False
  then have f: "filter (\<lambda>p. fst p \<noteq> key) (entries c) = entries c"
    unfolding filter_id_conv using keys_entries [of c] by force
  show ?thesis
  proof (cases "MaxEntries c \<noteq> 0 \<and> length (ll c) = MaxEntries c")
    case True
    then have ne: "ll c \<noteq> []" by auto
    obtain n where n: "MaxEntries c = Suc n" using True by (cases "MaxEntries c") auto
    have "entries (fst (Add key v c)) = (key, v) # map (\<lambda>e. (el_key e, el_value e)) (butlast (ll c))"
      using True by (simp add: Add_miss [OF inv False] removeElement_last [OF inv ne] entries_def push_def)
    also have "\<dots> = capped (MaxEntries c) ((key, v) # entries c)"
      using True n by (simp add: capped_def entries_def butlast_conv_take take_map)
    finally show ?thesis by (simp add: f)
  next
    case full: False
    have "entries (fst (Add key v c)) = (key, v) # entries c"
      unfolding Add_miss [OF inv False] using full by (auto simp: entries_def push_def)
    also have "\<dots> = capped (MaxEntries c) ((key, v) # entries c)"
      using full lru_invD(6) [OF inv] by (auto simp: capped_def entries_def)
    finally show ?thesis by (simp add: f)
  qed
qed

lemma entries_Get:
  assumes inv: "lru_inv c"
  shows "fst (Get key c) = lookup c key"
    "entries (snd (Get key c)) =
       (case lookup c key of None \<Rightarrow> entries c
        | Some v \<Rightarrow> (key, v) # filter (\<lambda>p. fst p \<noteq> key) (entries c))"
proof -
  have "fst (Get key c) = lookup c key \<and> entries (snd (Get key c)) =
       (case lookup c key of None \<Rightarrow> entries c
        | Some v \<Rightarrow> (key, v) # filter (\<lambda>p. fst p \<noteq> key) (entries c))"
  proof (cases "key \<in> el_key ` set (ll c)")
    case True
    then obtain e xs ys where s: "ll c = xs @ e # ys" "el_key e = key" by (auto dest: split_list)
    have "(key, el_value e) \<in> set (entries c)" using s by (force simp: entries_def)
    then have "lookup c key = Some (el_value e)"
      unfolding lookup_def by (simp add: distinct_entries [OF inv])
    with entries_others [OF inv s(1)] s show ?thesis
      by (simp add: Get_hit [OF inv s] entries_def)
  next
    case False
    then have "lookup c key = None" unfolding lookup_def map_of_eq_None_iff keys_entries by simp
    with False show ?thesis by (simp add: Get_miss [OF inv])
  qed
  then show "fst (Get key c) = lookup c key"
    "entries (snd (Get key c)) =
       (case lookup c key of None \<Rightarrow> entries c
        | Some v \<Rightarrow> (key, v) # filter (\<lambda>p. fst p \<noteq> key) (entries c))" by auto
qed

lemma frame_Add [frame]: "lru_inv c \<Longrightarrow> MaxEntries (fst (Add key v c)) = MaxEntries c"
  by (cases "key \<in> el_key ` set (ll c)")
    (auto simp: Add_hit Add_miss push_def removeElement_def dest!: split_list)

lemma frame_Get [frame]: "lru_inv c \<Longrightarrow> MaxEntries (snd (Get key c)) = MaxEntries c"
  by (cases "key \<in> el_key ` set (ll c)") (auto simp: Get_hit Get_miss dest!: split_list)


lemma lookup_Add:
  assumes "lru_inv c"
  shows "lookup (fst (Add key v c)) key = Some v"
    "lookup (fst (Add key v c)) k = Some w \<Longrightarrow> k \<noteq> key \<Longrightarrow> lookup c k = Some w"
proof -
  have e: "lookup (fst (Add key v c))
      = map_of (capped (MaxEntries c) ((key, v) # filter (\<lambda>p. fst p \<noteq> key) (entries c)))"
    using assms by (simp add: lookup_def entries_Add)
  show "lookup (fst (Add key v c)) key = Some v"
    unfolding e by (cases "MaxEntries c") (simp_all add: capped_def)
  assume s: "lookup (fst (Add key v c)) k = Some w" "k \<noteq> key"
  then have "(k, w) \<in> set ((key, v) # filter (\<lambda>p. fst p \<noteq> key) (entries c))"
    unfolding e capped_def by (auto dest!: map_of_SomeD in_set_takeD split: if_splits)
  with s(2) have "(k, w) \<in> set (entries c)" by simp
  with distinct_entries [OF assms] show "lookup c k = Some w" by (simp add: lookup_def)
qed

lemma lookup_Get: "lru_inv c \<Longrightarrow> lookup (snd (Get key c)) = lookup c"
proof (cases "lookup c key")
  case None
  assume "lru_inv c"
  with None show ?thesis using entries_Get(2) [of c key] by (simp add: lookup_def)
next
  case (Some v)
  assume inv: "lru_inv c"
  have "map_of ((key, v) # filter (\<lambda>p. fst p \<noteq> key) (entries c)) k = map_of (entries c) k" for k
    using Some distinct_entries [OF inv]
    by (cases "k = key") (auto simp: lookup_def map_of_filter_other)
  then show ?thesis using Some entries_Get(2) [OF inv, of key] by (auto simp: lookup_def)
qed

lemma evicted_by_Add:
  assumes inv: "lru_inv c" and "(k, w) \<in> set (snd (Add key v c))"
  shows "k \<noteq> key" "lookup c k = Some w"
proof -
  have m: "key \<notin> el_key ` set (ll c)"
    using assms(2) by (cases "key \<in> el_key ` set (ll c)") (auto simp: Add_hit [OF inv] dest!: split_list)
  with assms(2) have "ll c \<noteq> []" "k = el_key (last (ll c))" "w = el_value (last (ll c))"
    unfolding Add_miss [OF inv m] by (auto simp: removeElement_def split: if_splits)
  then have "(k, w) \<in> set (entries c)" by (simp add: entries_def)
  moreover from this m show "k \<noteq> key" using keys_entries [of c] by force
  ultimately show "lookup c k = Some w" using distinct_entries [OF inv] by (simp add: lookup_def)
qed

lemma entries_removeElement:
  assumes "lru_inv c" "e \<in> set (ll c)"
  shows "entries (fst (removeElement e c)) = filter (\<lambda>p. fst p \<noteq> el_key e) (entries c)"
proof -
  have "el_id x \<noteq> el_id e \<longleftrightarrow> el_key x \<noteq> el_key e" if "x \<in> set (ll c)" for x
    using lru_invD(3,4) [OF assms(1)] that assms(2) by (metis distinct_map inj_onD)
  then have "filter (\<lambda>x. el_id x \<noteq> el_id e) (ll c) = filter (\<lambda>x. el_key x \<noteq> el_key e) (ll c)"
    by (rule filter_cong [OF refl])
  then show ?thesis by (simp add: removeElement_def entries_def filter_map comp_def)
qed

lemma entries_Remove:
  assumes inv: "lru_inv c"
  shows "entries (fst (Remove key c)) = filter (\<lambda>p. fst p \<noteq> key) (entries c)"
proof (cases "key \<in> el_key ` set (ll c)")
  case True
  then obtain e where "e \<in> set (ll c)" "el_key e = key" by auto
  then show ?thesis using Remove_hit [OF inv] entries_removeElement [OF inv] by simp
next
  case False
  then have "filter (\<lambda>p. fst p \<noteq> key) (entries c) = entries c"
    unfolding filter_id_conv using keys_entries [of c] by blast
  with False show ?thesis by (simp add: Remove_miss [OF inv])
qed

lemma entries_RemoveOldest:
  assumes "lru_inv c"
  shows "entries (fst (RemoveOldest c)) = butlast (entries c)"
  using lru_invD(1) [OF assms] removeElement_last [OF assms]
  by (auto simp: RemoveOldest_def entries_def map_butlast)

section \<open>Any use of a cache\<close>

text \<open>
  The operations as data, what a cache answers to them, and the reference: a list of entries, the
  most recently used first.
\<close>

datatype ('k, 'v) cache_op = OpAdd 'k 'v | OpGet 'k | OpRemove 'k | OpRemoveOldest

fun cache_step :: "('k, 'v) cache_op \<Rightarrow> ('k, 'v) lru \<Rightarrow> 'v option \<times> ('k, 'v) lru" where
  "cache_step (OpAdd k v) c = (None, fst (Add k v c))"
| "cache_step (OpGet k) c = Get k c"
| "cache_step (OpRemove k) c = (None, fst (Remove k c))"
| "cache_step OpRemoveOldest c = (None, fst (RemoveOldest c))"

fun ref_step ::
  "nat \<Rightarrow> ('k, 'v) cache_op \<Rightarrow> ('k \<times> 'v) list \<Rightarrow> 'v option \<times> ('k \<times> 'v) list"
where
  "ref_step n (OpAdd k v) es = (None, capped n ((k, v) # filter (\<lambda>p. fst p \<noteq> k) es))"
| "ref_step n (OpGet k) es =
     (map_of es k,
      (case map_of es k of None \<Rightarrow> es | Some v \<Rightarrow> (k, v) # filter (\<lambda>p. fst p \<noteq> k) es))"
| "ref_step n (OpRemove k) es = (None, filter (\<lambda>p. fst p \<noteq> k) es)"
| "ref_step n OpRemoveOldest es = (None, butlast es)"

fun run_ops :: "('op \<Rightarrow> 's \<Rightarrow> 'r \<times> 's) \<Rightarrow> 'op list \<Rightarrow> 's \<Rightarrow> 'r list \<times> 's" where
  "run_ops step [] s = ([], s)"
| "run_ops step (op # ops) s =
     (let (r, s) = step op s; (rs, s) = run_ops step ops s in (r # rs, s))"

lemma frame_Remove [frame]: "MaxEntries (fst (Remove key c)) = MaxEntries c"
  "MaxEntries (fst (RemoveOldest c)) = MaxEntries c"
  by (auto simp: Remove_def RemoveOldest_def removeElement_def split: option.split)

lemma cache_step_ok:
  assumes "lru_inv c"
  shows "lru_inv (snd (cache_step op c))" "MaxEntries (snd (cache_step op c)) = MaxEntries c"
    "ref_step (MaxEntries c) op (entries c) = (fst (cache_step op c), entries (snd (cache_step op c)))"
  using assms
  by (cases op; simp add: lru_inv_Add lru_inv_Get lru_inv_Remove lru_inv_RemoveOldest frame entries_Add
      entries_Get entries_Remove entries_RemoveOldest lookup_def)+

lemma cache_run_ok:
  assumes "lru_inv c"
  shows "run_ops (ref_step (MaxEntries c)) ops (entries c)
      = (fst (run_ops cache_step ops c), entries (snd (run_ops cache_step ops c)))
    \<and> lru_inv (snd (run_ops cache_step ops c)) \<and> MaxEntries (snd (run_ops cache_step ops c)) = MaxEntries c"
  using assms
proof (induction ops arbitrary: c)
  case (Cons op ops)
  obtain r c1 where one: "cache_step op c = (r, c1)" by fastforce
  then have c1: "lru_inv c1" "MaxEntries c1 = MaxEntries c" "ref_step (MaxEntries c) op (entries c) = (r, entries c1)"
    using cache_step_ok [OF Cons.prems, of op] by simp_all
  obtain rs c2 where two: "run_ops cache_step ops c1 = (rs, c2)" by fastforce
  with Cons.IH [OF c1(1)] one c1 show ?case by simp
qed simp

section \<open>The interface of a cache\<close>

text \<open>
  What a client that reads through a cache relies on: a lookup keeps the contents, an addition
  keeps the new entry and invents no other, and what it evicts was an old entry.
\<close>

locale read_cache =
  fixes get :: "'k \<Rightarrow> 'c \<Rightarrow> 'v option \<times> 'c"
    and add :: "'k \<Rightarrow> 'v \<Rightarrow> 'c \<Rightarrow> 'c \<times> ('k \<times> 'v) list"
    and inv :: "'c \<Rightarrow> bool"
    and look :: "'c \<Rightarrow> 'k \<Rightarrow> 'v option"
  assumes inv_get: "inv c \<Longrightarrow> inv (snd (get k c))"
    and inv_add: "inv c \<Longrightarrow> inv (fst (add k v c))"
    and get_value: "inv c \<Longrightarrow> fst (get k c) = look c k"
    and get_keeps: "inv c \<Longrightarrow> look (snd (get k c)) = look c"
    and add_value: "inv c \<Longrightarrow> look (fst (add k v c)) k = Some v"
    and add_old: "inv c \<Longrightarrow> look (fst (add k v c)) k' = Some w \<Longrightarrow> k' \<noteq> k \<Longrightarrow> look c k' = Some w"
    and add_evicts: "inv c \<Longrightarrow> (k', w) \<in> set (snd (add k v c)) \<Longrightarrow> k' \<noteq> k \<and> look c k' = Some w"
begin

text \<open>Every cached value satisfies \<open>P\<close>: kept by lookups and by additions that satisfy it.\<close>

definition all_cached :: "('k \<Rightarrow> 'v \<Rightarrow> bool) \<Rightarrow> 'c \<Rightarrow> bool" where
  "all_cached P c \<longleftrightarrow> inv c \<and> (\<forall>k v. look c k = Some v \<longrightarrow> P k v)"

lemma all_cached_get: "all_cached P c \<Longrightarrow> all_cached P (snd (get k c))"
  by (simp add: all_cached_def inv_get get_keeps)

lemma all_cached_add: "all_cached P c \<Longrightarrow> P k v \<Longrightarrow> all_cached P (fst (add k v c))"
  unfolding all_cached_def by (metis inv_add add_value add_old option.inject)

lemma cached_value: "all_cached P c \<Longrightarrow> get k c = (Some v, c') \<Longrightarrow> P k v"
  unfolding all_cached_def by (metis fst_conv get_value)

lemma all_cached_mono: "all_cached P c \<Longrightarrow> (\<And>k v. P k v \<Longrightarrow> Q k v) \<Longrightarrow> all_cached Q c"
  by (auto simp: all_cached_def)

lemma evicted_cached: "all_cached P c \<Longrightarrow> (k', w) \<in> set (snd (add k v c)) \<Longrightarrow> P k' w"
  unfolding all_cached_def by (metis add_evicts)

end

interpretation lru: read_cache Get Add lru_inv lookup
  by unfold_locales
    (assumption | rule lru_inv_Get lru_inv_Add entries_Get(1) lookup_Get lookup_Add(1)
      | erule (2) lookup_Add(2) | rule conjI | erule (1) evicted_by_Add)+

end
