(* ===== verification/CoreProperties.thy ===== *)
theory CoreProperties
  imports Codec Lru
begin

text \<open>
  The properties of the wire format and of the cache of open files, and the sample messages of the
  witnesses.
\<close>

section \<open>Sample messages\<close>

definition hello :: message where
  "hello = Message MSG_IM 0 2 0
     (Some (BIM \<lparr>im_Sender = 1, im_Receiver = 42, im_Timestamp = 5, im_Msgid = 6, im_Content = [104, 105]\<rparr>)) None"

definition hello_group :: message where
  "hello_group = Message MSG_GROUP_IM 0 2 0
     (Some (BIM \<lparr>im_Sender = 1, im_Receiver = 9, im_Timestamp = 5, im_Msgid = 6, im_Content = [104, 105]\<rparr>)) None"

lemma creator_im: "creator MSG_IM = Some KIM" "creator MSG_GROUP_IM = Some KIM"
  by (simp_all add: creator_def core_creators_def route_creators_def storage_creators_def)

lemma hello_wire: "wire_ok hello" "canon hello = hello" "length (msg_ToData hello) = 26" "Cmd hello = MSG_IM"
  "wire_ok hello_group" "canon hello_group = hello_group" "length (msg_ToData hello_group) = 26"
  by (simp_all add: hello_def hello_group_def header_ok_def creator_im msg_ToData_def im_ToData_def im_ToDataV1_def)

section \<open>Wire format\<close>

text \<open>
  C21: a well-formed message below the size limit, of a command the reader accepts, is read back as
  its \<open>canon\<close>, and the reader stops at the end of its frame.
\<close>
theorem frame_roundtrip:
  assumes "wire_ok m" "int (length (msg_ToData m)) < lim" "lim \<le> 2 ^ 31" "ext \<Longrightarrow> external_message (Cmd m)"
  shows "ReceiveLimitMessage lim ext (WriteMessage m @ s) = Ret (Some (canon m), s)"
  by (rule receive_write [OF assms])

theorem frame_roundtrip_witness:
  "ReceiveLimitMessage (32 * 1024) True (WriteMessage hello @ [1, 2, 3]) = Ret (Some hello, [1, 2, 3])"
  using frame_roundtrip [of hello "32 * 1024" True "[1, 2, 3]"]
  by (simp add: hello_wire external_message_def)

text \<open>
  C35: what is received does not depend on what follows on the connection, and takes at least a
  header; a message accepted from a client has one of the external commands.
\<close>
theorem frame_prefix:
  assumes "ReceiveLimitMessage lim ext s = Ret (Some m, r)"
  shows "ReceiveLimitMessage lim ext (s @ t) = Ret (Some m, r @ t) \<and> length r + 12 \<le> length s
    \<and> (\<not> ext \<or> external_message (Cmd m)) \<and> Meta m = None"
  using receive_append [OF assms] receive_cmd_seq [OF assms] by blast

theorem frame_prefix_witness:
  "ReceiveLimitMessage (32 * 1024) True (WriteMessage hello @ [1, 2]) = Ret (Some hello, [1, 2])"
proof -
  have "ReceiveLimitMessage (32 * 1024) True (WriteMessage hello) = Ret (Some hello, [])"
    using receive_write [of hello "32 * 1024" True "[]"] by (simp add: hello_wire external_message_def)
  from frame_prefix [OF this, of "[1, 2]"] show ?thesis by simp
qed

text \<open>
  A frame whose body reaches the limit is refused, and its body is left on the connection, where
  the next read would take it for a header.
\<close>
theorem frame_too_long:
  assumes "lim \<le> int (length (msg_ToData m))" "length (msg_ToData m) < 2 ^ 31"
  shows "ReceiveLimitMessage lim ext (WriteMessage m @ s) = Ret (None, msg_ToData m @ s)"
  by (rule receive_too_long [OF assms])

theorem frame_too_long_witness:
  "ReceiveLimitMessage 26 False (WriteMessage hello) = Ret (None, msg_ToData hello)"
  using frame_too_long [of 26 hello False "[]"] by (simp add: hello_wire)

text \<open>
  A message that a server accepts from a client (a body below 32 KiB) reaches the other servers
  through the route server only if its body has at most 32713 bytes: the frame that publishes it is
  subject to the same limit, and a longer one is refused.
\<close>
theorem publish_limit:
  assumes "wire_ok m" "length (msg_ToData m) < 32768"
  shows "ReceiveMessage (WriteMessage (publish_frame a r i p t m)) =
    (if length (msg_ToData m) \<le> 32713
     then Ret (Some (canon (publish_frame a r i p t m)), [])
     else Ret (None, msg_ToData (publish_frame a r i p t m)))"
  by (rule receive_publish [OF assms])

theorem publish_limit_witness:
  "ReceiveMessage (WriteMessage (publish_frame 7 42 100 99 0 hello))
    = Ret (Some (publish_frame 7 42 100 0 0 hello), [])"
  using publish_limit [of hello 7 42 100 99 0] by (simp add: hello_wire publish_frame_def)

text \<open>
  C38: a pending group message of 4092 to 8187 members is written, but reading it back panics: its
  length check is computed in 16 bits and wraps.
\<close>
theorem pending_group_panics:
  assumes "4092 \<le> length (pg_Members g)" "length (pg_Members g) \<le> 8187"
  shows "pg_FromData (pg_ToData g) = Panic"
  by (rule pg_large_panics [OF assms])

theorem pending_group_panics_witness:
  "pg_FromData (pg_ToData \<lparr>pg_Appid = 7, pg_Sender = 1, pg_DeviceID = 2, pg_Gid = 3, pg_Timestamp = 4,
     pg_Members = replicate 4092 5, pg_Content = []\<rparr>) = Panic"
  by (rule pending_group_panics) simp_all

text \<open>
  C32: whatever is added to, looked up in and removed from a cache of \<open>n\<close> entries, it answers like
  a list of entries, the most recently used first, that is cut after \<open>n\<close>.
\<close>
theorem cache_is_recency_list:
  fixes ops :: "('k, 'v) cache_op list"
  shows "fst (run_ops cache_step ops (New n)) = fst (run_ops (ref_step n) ops [])"
proof -
  have "entries (New n :: ('k, 'v) lru) = []" "MaxEntries (New n :: ('k, 'v) lru) = n" by (simp_all add: entries_def New_def)
  with cache_run_ok [OF lru_inv_New, of n ops] show ?thesis by simp
qed

text \<open>
  An addition keeps at most the configured number of entries, the new one among them, and evicts
  only an entry that was in the cache.
\<close>
theorem cache_bound:
  assumes "lru_inv c"
  shows "lru_inv (fst (Add key v c)) \<and> fst (Get key (fst (Add key v c))) = Some v
    \<and> (MaxEntries c = 0 \<or> Len (fst (Add key v c)) \<le> MaxEntries c)
    \<and> set (snd (Add key v c)) \<subseteq> set (entries c)"
proof -
  let ?c = "fst (Add key v c)"
  have inv: "lru_inv ?c" by (rule lru_inv_Add [OF assms])
  have "(k, w) \<in> set (entries c)" if "(k, w) \<in> set (snd (Add key v c))" for k w
    using evicted_by_Add(2) [OF assms that] distinct_entries [OF assms] by (simp add: lookup_def)
  moreover have "MaxEntries c = 0 \<or> Len ?c \<le> MaxEntries c"
  proof -
    have "length (ll ?c) = length (entries ?c)" by (simp add: entries_def)
    then show ?thesis unfolding Len_def by (simp add: entries_Add [OF assms] capped_def)
  qed
  ultimately show ?thesis using inv entries_Get(1) [OF inv] lookup_Add(1) [OF assms] by auto
qed

theorem cache_bound_witness:
  "Len (fst (Add (3 :: int) (30 :: nat) (fst (Add 2 20 (fst (Add 1 10 (New 2))))))) \<le> 2"
proof -
  have "lru_inv (fst (Add (2 :: int) (20 :: nat) (fst (Add 1 10 (New 2)))))"
    by (intro lru_inv_Add lru_inv_New)
  moreover have "MaxEntries (fst (Add (2 :: int) (20 :: nat) (fst (Add 1 10 (New 2))))) = 2"
    by (simp add: frame lru_inv_Add lru_inv_New) (simp add: New_def)
  ultimately show ?thesis using cache_bound [of "fst (Add (2 :: int) (20 :: nat) (fst (Add 1 10 (New 2))))" 3 "30 :: nat"] by simp
qed

end
