(* ===== verification/StorageFile.thy ===== *)
theory StorageFile
  imports Codec Lru "HOL-Library.Signed_Division"
begin

text \<open>
  \<^verbatim>\<open>ims/storage_file.go\<close>: the message log, a directory of block files \<open>message_<n>\<close> of at most
  \<open>BLOCK_SIZE\<close> bytes. The record \<open>storage_file\<close> is the struct \<open>StorageFile\<close> together with the
  directory (\<open>disk\<close>, the contents of each block file) and what was sent to \<open>master.ewt\<close>. A file handle
  is the number of the block it was opened on: the files are only ever appended to, so a cached
  handle and a fresh one read the same bytes. An \<open>int64\<close> id keeps its width; Go's \<open>int\<close> block
  numbers and file offsets are \<open>int\<close>. Each operation that takes the mutex runs to its end.
\<close>

abbreviation HEADER_SIZE :: int where "HEADER_SIZE \<equiv> 32"
abbreviation MAGIC :: int32 where "MAGIC \<equiv> 0x494d494d"
abbreviation F_VERSION :: int32 where "F_VERSION \<equiv> 0x10000"
abbreviation BLOCK_SIZE :: int where "BLOCK_SIZE \<equiv> 134217728"
abbreviation LRU_SIZE :: nat where "LRU_SIZE \<equiv> 128"

record storage_file =
  disk :: "int \<rightharpoonup> bytes"
  dirty :: bool
  block_NO :: int
  files :: "(int, int) lru"
  last_id :: int64
  last_saved_id :: int64
  ewt :: "(int64 \<times> message) list"

section \<open>Message ids\<close>

definition getMsgId :: "int \<Rightarrow> int \<Rightarrow> int64" where
  "getMsgId b offset = word_of_int (b * BLOCK_SIZE + offset)"

text \<open>Go's \<open>/\<close> and \<open>%\<close> truncate towards zero.\<close>

definition getBlockNO :: "int64 \<Rightarrow> int" where
  "getBlockNO msg_id = sint msg_id sdiv BLOCK_SIZE"

definition getBlockOffset :: "int64 \<Rightarrow> int" where
  "getBlockOffset msg_id = sint msg_id smod BLOCK_SIZE"

section \<open>Files\<close>

text \<open>What \<open>WriteHeader\<close> writes, and what \<open>ReadHeader\<close> (\<open>ReadFileHeader\<close>) makes of the first bytes of a file.\<close>

definition file_header :: bytes where
  "file_header = binWrite MAGIC @ binWrite F_VERSION @ replicate 24 0"

definition ReadFileHeader :: "bytes \<Rightarrow> go_int \<times> go_int" where
  "ReadFileHeader file =
     (if length file < 32 then (0, 0)
      else let (m, buffer) = binRead (0 :: int32) (take 32 file); (v, buffer) = binRead (0 :: int32) buffer
           in (scast m, scast v))"

definition CheckFile :: "bytes \<Rightarrow> bool" where
  "CheckFile file =
     (if int (length file) = HEADER_SIZE then True
      else if int (length file) < HEADER_SIZE then False
      else fst (binRead (0 :: int32) (drop (length file - 4) file)) = MAGIC)"

definition openWriteFile :: "int \<Rightarrow> 'a storage_file_scheme \<Rightarrow> 'a storage_file_scheme" where
  "openWriteFile b s =
     (let file = (case disk s b of None \<Rightarrow> [] | Some file \<Rightarrow> file);
          file = (if int (length file) < HEADER_SIZE \<and> length file > 0 then [] else file);
          file = (if length file = 0 then file_header else file)
      in s\<lparr>disk := (disk s)(b \<mapsto> file), block_NO := b, dirty := False\<rparr>)"

definition openReadFile :: "int \<Rightarrow> 'a storage_file_scheme \<Rightarrow> int option" where
  "openReadFile b s = (case disk s b of None \<Rightarrow> None | Some file \<Rightarrow> Some b)"

definition getFile :: "int \<Rightarrow> 'a storage_file_scheme \<Rightarrow> int option \<times> 'a storage_file_scheme" where
  "getFile b s =
     (let (v, c) = Get b (files s); s = s\<lparr>files := c\<rparr>
      in case v of
           Some file \<Rightarrow> (Some file, s)
         | None \<Rightarrow>
             (case openReadFile b s of
                None \<Rightarrow> (None, s)
              | Some file \<Rightarrow> (Some file, s\<lparr>files := fst (Add b file (files s))\<rparr>)))"

text \<open>The bytes of an open file from a position on.\<close>

definition file_from :: "int \<Rightarrow> int \<Rightarrow> 'a storage_file_scheme \<Rightarrow> bytes" where
  "file_from file offset s = drop (nat offset) (the (disk s file))"

definition file_size :: "'a storage_file_scheme \<Rightarrow> int" where
  "file_size s = int (length (the (disk s (block_NO s))))"

text \<open>
  \<open>NewStorageFile\<close>: \<open>glob\<close> is the result of \<open>filepath.Glob\<close> on \<open>message_*\<close>, each file with the number
  \<open>ParseInt\<close> reads from its name (\<open>None\<close> when it fails) and its contents.
\<close>

definition last_block :: "(int option \<times> bytes) list \<Rightarrow> int go" where
  "last_block glob =
     go_fold (\<lambda>b (name, file).
       if \<not> CheckFile file then Fatal
       else case name of None \<Rightarrow> Fatal | Some n \<Rightarrow> Ret (if n > b then n else b)) 0 glob"

definition glob_disk :: "(int option \<times> bytes) list \<Rightarrow> (int \<rightharpoonup> bytes)" where
  "glob_disk glob b = map_of glob (Some b)"

definition NewStorageFile :: "(int option \<times> bytes) list \<Rightarrow> storage_file go" where
  "NewStorageFile glob =
     go_map (\<lambda>b. openWriteFile b
         \<lparr>disk = glob_disk glob, dirty = False, block_NO = 0,
          files = (New LRU_SIZE)\<lparr>OnEvicted := True\<rparr>, last_id = 0, last_saved_id = 0, ewt = []\<rparr>)
       (last_block glob)"

section \<open>Messages in a file\<close>

text \<open>The bytes \<open>StorageFile.WriteMessage\<close> and \<open>saveMessage\<close> write for a message.\<close>

definition stored :: "message \<Rightarrow> bytes" where
  "stored msg = binWrite MAGIC @ WriteMessage msg @ binWrite MAGIC"

definition read_magic :: "bytes \<Rightarrow> bool \<times> bytes" where
  "read_magic file =
     (if length file < 4 then (False, [])
      else (fst (binRead (0 :: int32) file) = MAGIC, drop 4 file))"

definition ReadMessage :: "bytes \<Rightarrow> (message option \<times> bytes) go" where
  "ReadMessage file =
     (let (ok, file) = read_magic file
      in if \<not> ok then Ret (None, file)
         else go_bind (ReceiveMessage file) (\<lambda>(msg, file).
           case msg of
             None \<Rightarrow> Ret (None, file)
           | Some m \<Rightarrow>
               (let (ok, file) = read_magic file
                in if ok then Ret (Some m, file) else Ret (None, file))))"

definition LoadMessage ::
  "int64 \<Rightarrow> 'a storage_file_scheme \<Rightarrow> (message option \<times> 'a storage_file_scheme) go"
where
  "LoadMessage msg_id s =
     (let (file, s) = getFile (getBlockNO msg_id) s; offset = getBlockOffset msg_id
      in case file of
           None \<Rightarrow> Ret (None, s)
         | Some f \<Rightarrow>
             if offset < 0 then Ret (None, s)
             else go_map (\<lambda>(msg, rest). (msg, s)) (ReadMessage (file_from f offset s)))"

definition append_file :: "bytes \<Rightarrow> 'a storage_file_scheme \<Rightarrow> 'a storage_file_scheme" where
  "append_file buf s =
     s\<lparr>disk := (disk s)(block_NO s \<mapsto> the (disk s (block_NO s)) @ buf)\<rparr>"

definition saveMessage ::
  "message \<Rightarrow> 'a storage_file_scheme \<Rightarrow> (int64 \<times> 'a storage_file_scheme) go"
where
  "saveMessage msg s =
     (let buf = stored msg;
          s = (if file_size s + int (length buf) > BLOCK_SIZE then openWriteFile (block_NO s + 1) s
               else s);
          msgid = file_size s
      in if msgid + int (length buf) > BLOCK_SIZE then Fatal
         else
           let s = (append_file buf s)\<lparr>dirty := True\<rparr>; msgid = getMsgId (block_NO s) msgid
           in Ret (msgid, s\<lparr>ewt := ewt s @ [(msgid, msg)]\<rparr>))"

definition SaveMessage ::
  "message \<Rightarrow> 'a storage_file_scheme \<Rightarrow> (int64 \<times> 'a storage_file_scheme) go"
where
  "SaveMessage msg s = saveMessage msg s"

definition Flush :: "'a storage_file_scheme \<Rightarrow> 'a storage_file_scheme" where
  "Flush s = (if dirty s then s\<lparr>dirty := False\<rparr> else s)"

section \<open>Arithmetic of ids\<close>

text \<open>A position below \<open>2 ^ 63\<close> bytes has an id, from which block and offset are read back.\<close>

definition position_ok :: "int \<Rightarrow> int \<Rightarrow> bool" where
  "position_ok b offset \<longleftrightarrow> 0 \<le> b \<and> b < 2 ^ 36 \<and> 0 \<le> offset \<and> offset < BLOCK_SIZE"

lemma sint_getMsgId:
  assumes "position_ok b offset"
  shows "sint (getMsgId b offset) = b * BLOCK_SIZE + offset"
proof -
  have "b * BLOCK_SIZE + offset < 2 ^ 63" "0 \<le> b * BLOCK_SIZE + offset"
    using assms by (auto simp: position_ok_def)
  then show ?thesis unfolding getMsgId_def by (simp only: sint_of_int64)
qed

lemma getBlock_getMsgId:
  assumes "position_ok b offset"
  shows "getBlockNO (getMsgId b offset) = b" "getBlockOffset (getMsgId b offset) = offset"
proof -
  have "0 \<le> b * BLOCK_SIZE + offset" using assms by (auto simp: position_ok_def)
  then show "getBlockNO (getMsgId b offset) = b" "getBlockOffset (getMsgId b offset) = offset"
    unfolding getBlockNO_def getBlockOffset_def sint_getMsgId [OF assms] using assms
    by (auto simp: signed_divide_int_def signed_modulo_int_def position_ok_def sgn_if)
qed

section \<open>Reading what was stored\<close>

text \<open>A message the log can give back: well formed, and within the limit of \<open>ReceiveMessage\<close>.\<close>

definition storable :: "message \<Rightarrow> bool" where
  "storable m \<longleftrightarrow> wire_ok m \<and> length (msg_ToData m) < 32768"

lemma length_stored: "length (stored m) = 20 + length (msg_ToData m)"
  by (simp add: stored_def length_WriteMessage)

lemma storable_size: "storable m \<Longrightarrow> int (length (stored m)) \<le> 32787"
  by (simp add: storable_def length_stored)

lemma read_magic_write [simp]: "read_magic (binWrite MAGIC @ s) = (True, s)"
  by (simp add: read_magic_def binRead_append binWrite_binRead)

lemma read_magic_append:
  "read_magic file = (True, r) \<Longrightarrow> read_magic (file @ t) = (True, r @ t)"
  by (auto simp: read_magic_def binRead_append split: if_splits)

lemma ReadMessage_stored: "storable m \<Longrightarrow> ReadMessage (stored m @ s) = Ret (Some (canon m), s)"
  by (simp add: ReadMessage_def stored_def storable_def ReceiveMessage_WriteMessage)

lemma ReadMessage_Nil [simp]: "ReadMessage [] = Ret (None, [])"
  by (simp add: ReadMessage_def read_magic_def)

lemma ReadMessage_append:
  assumes "ReadMessage file = Ret (Some m, r)"
  shows "ReadMessage (file @ t) = Ret (Some m, r @ t)"
proof -
  obtain a where a: "read_magic file = (True, a)"
    using assms by (auto simp: ReadMessage_def Let_def split: prod.splits if_splits)
  then obtain msg b where b: "ReceiveMessage a = Ret (Some msg, b)"
    using assms by (auto simp: ReadMessage_def split: option.splits)
  with a assms have "read_magic b = (True, r)" "msg = m"
    by (auto simp: ReadMessage_def Let_def split: prod.splits if_splits)
  moreover have "ReceiveMessage (a @ t) = Ret (Some msg, b @ t)"
    using b unfolding ReceiveMessage_def by (rule receive_append)
  ultimately show ?thesis using a by (simp add: ReadMessage_def read_magic_append)
qed

lemma ReadMessage_shorter:
  assumes "ReadMessage file = Ret (Some m, r)"
  shows "length r < length file"
proof -
  obtain a where a: "read_magic file = (True, a)"
    using assms by (auto simp: ReadMessage_def Let_def split: prod.splits if_splits)
  then obtain msg b where b: "ReceiveMessage a = Ret (Some msg, b)"
    using assms by (auto simp: ReadMessage_def split: option.splits)
  with a assms have "read_magic b = (True, r)"
    by (auto simp: ReadMessage_def Let_def split: prod.splits if_splits)
  moreover have "length b < length a"
    using b receive_cmd_seq(1) [of "32 * 1024" False a msg b] by (simp add: ReceiveMessage_def)
  ultimately show ?thesis using a by (auto simp: read_magic_def split: if_splits)
qed

text \<open>\<open>LoadMessage\<close> without the cache of open files.\<close>

definition load_at :: "(int \<rightharpoonup> bytes) \<Rightarrow> int64 \<Rightarrow> message option go" where
  "load_at d msg_id =
     (case d (getBlockNO msg_id) of
        None \<Rightarrow> Ret None
      | Some file \<Rightarrow>
          if getBlockOffset msg_id < 0 then Ret None
          else go_map fst (ReadMessage (drop (nat (getBlockOffset msg_id)) file)))"

text \<open>Every cached handle is one of its own block's file, which exists.\<close>

definition cache_ok :: "'a storage_file_scheme \<Rightarrow> bool" where
  "cache_ok s \<longleftrightarrow> lru.all_cached (\<lambda>b file. file = b \<and> disk s b \<noteq> None) (files s)"

lemma getFile_eq:
  assumes "cache_ok s"
  obtains c where "getFile b s = (openReadFile b s, s\<lparr>files := c\<rparr>)" "cache_ok (s\<lparr>files := c\<rparr>)"
proof (cases "Get b (files s)")
  case (Pair v c)
  have c: "lru.all_cached (\<lambda>b file. file = b \<and> disk s b \<noteq> None) c"
    using lru.all_cached_get [OF assms [unfolded cache_ok_def], of b] Pair by simp
  show thesis
  proof (cases v)
    case (Some f)
    then have "f = b \<and> disk s b \<noteq> None"
      using lru.cached_value [OF assms [unfolded cache_ok_def], of b f c] Pair by simp
    then have "f = b" "disk s b \<noteq> None" by simp_all
    with c Some Pair show ?thesis
      by (intro that [of c]) (auto simp: getFile_def openReadFile_def cache_ok_def)
  next
    case None
    show ?thesis
    proof (cases "openReadFile b s")
      case None
      with c Pair \<open>v = None\<close> show ?thesis
        by (intro that [of c]) (auto simp: getFile_def openReadFile_def cache_ok_def split: option.splits)
    next
      case (Some f)
      then have "f = b \<and> disk s b \<noteq> None" by (auto simp: openReadFile_def split: option.splits)
      with c have "lru.all_cached (\<lambda>b file. file = b \<and> disk s b \<noteq> None) (fst (Add b f c))"
        by (intro lru.all_cached_add) auto
      with c Pair \<open>v = None\<close> Some show ?thesis
        by (intro that [of "fst (Add b f c)"])
          (auto simp: getFile_def openReadFile_def cache_ok_def split: option.splits)
    qed
  qed
qed

lemma LoadMessage_eq:
  assumes "cache_ok s"
  obtains c where "LoadMessage msg_id s = go_map (\<lambda>msg. (msg, s\<lparr>files := c\<rparr>)) (load_at (disk s) msg_id)"
    "cache_ok (s\<lparr>files := c\<rparr>)"
proof -
  obtain c where c: "getFile (getBlockNO msg_id) s
      = (openReadFile (getBlockNO msg_id) s, s\<lparr>files := c\<rparr>)" "cache_ok (s\<lparr>files := c\<rparr>)"
    using getFile_eq [OF assms] by metis
  show thesis
  proof (rule that [OF _ c(2)])
    show "LoadMessage msg_id s = go_map (\<lambda>msg. (msg, s\<lparr>files := c\<rparr>)) (load_at (disk s) msg_id)"
      by (cases "ReadMessage (drop (nat (getBlockOffset msg_id)) (the (disk s (getBlockNO msg_id))))")
        (auto simp: LoadMessage_def c openReadFile_def load_at_def file_from_def split: option.splits)
  qed
qed

end
