(* ===== verification/StorageLog.thy ===== *)
theory StorageLog
  imports StorageFile
begin

text \<open>
  The log as a whole. A directory written by this code is a list of blocks, each a list of
  messages; \<open>log_of\<close> lists every message with its id, in the order in which the scans of
  \<open>createPeerIndex\<close> and \<open>createGroupIndex\<close> meet them. \<open>saveMessage\<close> appends to the log,
  \<open>LoadMessage\<close> looks an id up, and the loop the scans share folds over it.
\<close>

section \<open>The scan of a block file\<close>

text \<open>
  The loop shared by \<open>createPeerIndex\<close>, \<open>repairPeerIndex\<close>, \<open>createGroupIndex\<close> and
  \<open>repairGroupIndex\<close>: read message after message from \<open>rest\<close>, a suffix of \<open>file\<close>, until one cannot
  be read, and run \<open>body\<close> on each with its id.
\<close>

function scan_file ::
  "(message \<Rightarrow> int64 \<Rightarrow> 's \<Rightarrow> 's go) \<Rightarrow> int \<Rightarrow> bytes \<Rightarrow> bytes \<Rightarrow> 's \<Rightarrow> 's go"
where
  "scan_file body b file rest s =
     go_bind (ReadMessage rest) (\<lambda>(msg, rest').
       case msg of
         None \<Rightarrow> Ret s
       | Some m \<Rightarrow>
           go_bind (body m (getMsgId b (int (length file) - int (length rest))) s)
             (\<lambda>s. scan_file body b file rest' s))"
  by pat_completeness auto
termination
  by (relation "measure (\<lambda>(body, b, file, rest, s). length rest)") (auto dest: ReadMessage_shorter)

declare scan_file.simps [simp del]

section \<open>Blocks\<close>

definition file_of :: "message list \<Rightarrow> bytes" where
  "file_of ms = file_header @ concat (map stored ms)"

definition disk_of :: "message list list \<Rightarrow> (int \<rightharpoonup> bytes)" where
  "disk_of bs b = (if 0 \<le> b \<and> b < int (length bs) then Some (file_of (bs ! nat b)) else None)"

fun block_log :: "int \<Rightarrow> int \<Rightarrow> message list \<Rightarrow> (int64 \<times> message) list" where
  "block_log b offset [] = []"
| "block_log b offset (m # ms) =
     (getMsgId b offset, m) # block_log b (offset + int (length (stored m))) ms"

definition log_of :: "message list list \<Rightarrow> (int64 \<times> message) list" where
  "log_of bs = concat (map (\<lambda>b. block_log (int b) HEADER_SIZE (bs ! b)) [0..<length bs])"

text \<open>A block after the first one is only opened to write a message to it.\<close>

definition blocks_ok :: "message list list \<Rightarrow> bool" where
  "blocks_ok bs \<longleftrightarrow> bs \<noteq> [] \<and> length bs \<le> 2 ^ 36 \<and> [] \<notin> set (tl bs)
     \<and> (\<forall>ms \<in> set bs. (\<forall>m \<in> set ms. storable m) \<and> int (length (file_of ms)) \<le> BLOCK_SIZE)"

definition layout :: "message list list \<Rightarrow> 'a storage_file_scheme \<Rightarrow> bool" where
  "layout bs s \<longleftrightarrow>
     blocks_ok bs \<and> disk s = disk_of bs \<and> block_NO s = int (length bs) - 1 \<and> cache_ok s"

lemma length_file_header [simp]: "length file_header = 32"
  by (simp add: file_header_def)

lemma file_of_snoc: "file_of (ms @ [m]) = file_of ms @ stored m"
  by (simp add: file_of_def)

lemma length_file_of: "32 \<le> length (file_of ms)"
  by (simp add: file_of_def)

lemma disk_of_append:
  "disk_of (bs @ [ms]) = (disk_of bs)(int (length bs) \<mapsto> file_of ms)"
  by (rule ext) (auto simp: disk_of_def nth_append nat_less_iff)

lemma block_log_append:
  "block_log b offset (ms @ ns) =
     block_log b offset ms @ block_log b (offset + int (length (concat (map stored ms)))) ns"
  by (induction ms arbitrary: offset) (simp_all add: algebra_simps)

lemma log_of_append: "log_of (bs @ [ms]) = log_of bs @ block_log (int (length bs)) HEADER_SIZE ms"
proof -
  have "map (\<lambda>b. block_log (int b) HEADER_SIZE ((bs @ [ms]) ! b)) [0..<length bs]
      = map (\<lambda>b. block_log (int b) HEADER_SIZE (bs ! b)) [0..<length bs]"
    by (simp add: nth_append)
  then show ?thesis by (simp add: log_of_def del: map_eq_conv)
qed

section \<open>Ids are positions, in increasing order\<close>

lemma block_log_range:
  assumes "(i, m) \<in> set (block_log b offset ms)"
  obtains xs ys where "ms = xs @ m # ys" "i = getMsgId b (offset + int (length (concat (map stored xs))))"
  using assms
proof (induction ms arbitrary: offset thesis)
  case (Cons x ms)
  show ?case
  proof (cases "(i, m) = (getMsgId b offset, x)")
    case True then show ?thesis by (intro Cons.prems(1) [of "[]" ms]) auto
  next
    case False
    with Cons.prems(2) have "(i, m) \<in> set (block_log b (offset + int (length (stored x))) ms)" by auto
    then obtain xs ys where "ms = xs @ m # ys"
      "i = getMsgId b (offset + int (length (stored x)) + int (length (concat (map stored xs))))"
      by (rule Cons.IH [rotated])
    then show ?thesis by (intro Cons.prems(1) [of "x # xs" ys]) (auto simp: algebra_simps)
  qed
qed simp

lemma log_of_member:
  assumes "(i, m) \<in> set (log_of bs)"
  obtains b xs ys where "b < length bs" "bs ! b = xs @ m # ys"
    "i = getMsgId (int b) (int (length (file_of xs)))"
proof -
  from assms obtain b where "b < length bs" "(i, m) \<in> set (block_log (int b) HEADER_SIZE (bs ! b))"
    by (auto simp: log_of_def)
  then show thesis
    by (elim block_log_range) (rule that, auto simp: file_of_def)
qed

text \<open>A message of a well-formed block starts inside it.\<close>

lemma position_in_block:
  assumes "blocks_ok bs" "b < length bs" "bs ! b = xs @ m # ys"
  shows "position_ok (int b) (int (length (file_of xs)))" "storable m"
proof -
  have "bs ! b \<in> set bs" using assms(2) by simp
  then have "storable m" and l: "int (length (file_of (xs @ m # ys))) \<le> BLOCK_SIZE"
    using assms(1) unfolding blocks_ok_def assms(3) by auto
  have "length (file_of xs) + length (stored m) \<le> length (file_of (xs @ m # ys))"
    by (simp add: file_of_def)
  with l have "int (length (file_of xs)) < BLOCK_SIZE" by (simp add: length_stored)
  then show "position_ok (int b) (int (length (file_of xs)))"
    using assms(1,2) by (simp add: position_ok_def blocks_ok_def)
  show "storable m" by fact
qed

theorem load_log:
  assumes "blocks_ok bs" and "(i, m) \<in> set (log_of bs)"
  shows "load_at (disk_of bs) i = Ret (Some (canon m))"
proof -
  from assms(2) obtain b xs ys where b: "b < length bs" "bs ! b = xs @ m # ys"
    "i = getMsgId (int b) (int (length (file_of xs)))" by (rule log_of_member)
  note p = position_in_block [OF assms(1) b(1,2)]
  have "file_of (xs @ m # ys) = file_of xs @ stored m @ concat (map stored ys)"
    by (simp add: file_of_def)
  with b p show ?thesis
    by (simp add: load_at_def getBlock_getMsgId disk_of_def ReadMessage_stored)
qed

lemma block_log_lower:
  "(i, m) \<in> set (block_log b offset ms) \<Longrightarrow>
   \<exists>k. i = getMsgId b (offset + k) \<and> 0 \<le> k \<and> k + int (length (stored m)) \<le> int (length (concat (map stored ms)))"
  by (elim block_log_range) auto

lemma sorted_block_log:
  assumes "0 \<le> b" "b < 2 ^ 36" "0 \<le> offset"
    and "offset + int (length (concat (map stored ms))) \<le> BLOCK_SIZE"
  shows "sorted_wrt (<) (map (\<lambda>e. sint (fst e)) (block_log b offset ms))"
  using assms(3,4)
proof (induction ms arbitrary: offset)
  case (Cons m ms)
  let ?next = "offset + int (length (stored m))"
  have "sint (getMsgId b offset) < sint i"
    if mem: "(i, x) \<in> set (block_log b ?next ms)" for i x
  proof -
    obtain k where k: "i = getMsgId b (?next + k)" "0 \<le> k"
      "k + int (length (stored x)) \<le> int (length (concat (map stored ms)))"
      using block_log_lower [OF mem] by blast
    then have "position_ok b (?next + k)" "position_ok b offset"
      using Cons.prems assms(1,2) by (auto simp: position_ok_def length_stored)
    with k(1,2) show ?thesis by (simp add: sint_getMsgId length_stored)
  qed
  with Cons show ?case by force
qed simp

lemma log_of_bounds:
  assumes "blocks_ok bs" "(i, m) \<in> set (log_of bs)"
  shows "0 < sint i" "sint i < int (length bs) * BLOCK_SIZE"
proof -
  from assms(2) obtain b xs ys where b: "b < length bs" "bs ! b = xs @ m # ys"
    "i = getMsgId (int b) (int (length (file_of xs)))" by (rule log_of_member)
  note p = position_in_block [OF assms(1) b(1,2)]
  have "int b * BLOCK_SIZE + BLOCK_SIZE \<le> int (length bs) * BLOCK_SIZE" using b(1) by simp
  then show "0 < sint i" "sint i < int (length bs) * BLOCK_SIZE"
    unfolding b(3) sint_getMsgId [OF p(1)] using p length_file_of [of xs]
    by (auto simp: position_ok_def)
qed

lemma sorted_log_of: "blocks_ok bs \<Longrightarrow> sorted_wrt (<) (map (\<lambda>e. sint (fst e)) (log_of bs))"
proof (induction bs rule: rev_induct)
  case (snoc ms bs)
  have ms: "int (length (file_of ms)) \<le> BLOCK_SIZE" "length bs < 2 ^ 36"
    using snoc.prems by (auto simp: blocks_ok_def)
  let ?new = "block_log (int (length bs)) HEADER_SIZE ms"
  have new: "sorted_wrt (<) (map (\<lambda>e. sint (fst e)) ?new)"
    using ms by (intro sorted_block_log) (auto simp: file_of_def)
  show ?case
  proof (cases "bs = []")
    case True
    with new show ?thesis by (simp add: log_of_def)
  next
    case False
    with snoc.prems have ok: "blocks_ok bs" by (cases bs) (auto simp: blocks_ok_def)
    have "sint i < sint j" if mem: "(i, x) \<in> set (log_of bs)" "(j, y) \<in> set ?new" for i j x y
    proof -
      obtain k where k: "j = getMsgId (int (length bs)) (HEADER_SIZE + k)" "0 \<le> k"
        "k + int (length (stored y)) \<le> int (length (concat (map stored ms)))"
        using block_log_lower [OF mem(2)] by blast
      with ms have "position_ok (int (length bs)) (HEADER_SIZE + k)"
        by (auto simp: position_ok_def file_of_def length_stored)
      with k(1,2) show ?thesis
        using log_of_bounds(2) [OF ok mem(1)] by (simp add: sint_getMsgId)
    qed
    with snoc.IH [OF ok] new show ?thesis
      by (auto simp: log_of_append sorted_wrt_append)
  qed
qed (simp add: blocks_ok_def)

section \<open>Saving\<close>

definition add_message :: "message \<Rightarrow> message list list \<Rightarrow> message list list" where
  "add_message m bs =
     (if int (length (file_of (last bs))) + int (length (stored m)) > BLOCK_SIZE then bs @ [[m]]
      else butlast bs @ [last bs @ [m]])"

text \<open>The id the next message gets.\<close>

definition next_id :: "message \<Rightarrow> message list list \<Rightarrow> int64" where
  "next_id m bs =
     (if int (length (file_of (last bs))) + int (length (stored m)) > BLOCK_SIZE
      then getMsgId (int (length bs)) HEADER_SIZE
      else getMsgId (int (length bs) - 1) (int (length (file_of (last bs)))))"

lemma log_of_add_message:
  assumes "bs \<noteq> []"
  shows "log_of (add_message m bs) = log_of bs @ [(next_id m bs, m)]"
proof (cases bs rule: rev_cases)
  case (snoc cs ms)
  then show ?thesis
    using log_of_append [of "cs @ [ms]" "[m]"]
    by (simp add: add_message_def next_id_def log_of_append block_log_append file_of_def)
qed (use assms in simp)

lemma file_of_last:
  "bs \<noteq> [] \<Longrightarrow> disk_of bs (int (length bs) - 1) = Some (file_of (last bs))"
  by (cases bs rule: rev_cases) (auto simp: disk_of_def)

lemma file_size_layout: "layout bs s \<Longrightarrow> file_size s = int (length (file_of (last bs)))"
  by (auto simp: file_size_def layout_def blocks_ok_def file_of_last)

lemma cache_ok_mono:
  assumes "cache_ok s" "\<And>b. disk s b \<noteq> None \<Longrightarrow> disk s' b \<noteq> None" "files s' = files s"
  shows "cache_ok s'"
  using assms lru.all_cached_mono [of "\<lambda>b file. file = b \<and> disk s b \<noteq> None" "files s"
      "\<lambda>b file. file = b \<and> disk s' b \<noteq> None"]
  by (auto simp: cache_ok_def)

lemma blocks_ok_add_message:
  assumes "blocks_ok bs" "storable m" "length bs < 2 ^ 36"
  shows "blocks_ok (add_message m bs)"
proof -
  obtain cs ms where bs: "bs = cs @ [ms]"
    using assms(1) by (cases bs rule: rev_cases) (auto simp: blocks_ok_def)
  have "int (length (file_of [m])) \<le> BLOCK_SIZE"
    using storable_size [OF assms(2)] by (simp add: file_of_def)
  then show ?thesis
    using assms by (cases cs) (auto simp: blocks_ok_def add_message_def bs file_of_snoc)
qed

text \<open>The state after a save, field by field.\<close>

definition saved :: "message \<Rightarrow> message list list \<Rightarrow> 'a storage_file_scheme \<Rightarrow> 'a storage_file_scheme"
where
  "saved m bs s = s\<lparr>disk := disk_of (add_message m bs), dirty := True,
     block_NO := int (length (add_message m bs)) - 1, ewt := ewt s @ [(next_id m bs, m)]\<rparr>"

lemma saveMessage_layout:
  assumes "layout bs s" "storable m" "length bs < 2 ^ 36"
  shows "saveMessage m s = Ret (next_id m bs, saved m bs s)" "layout (add_message m bs) (saved m bs s)"
proof -
  obtain cs ms where bs: "bs = cs @ [ms]"
    using assms(1) by (cases bs rule: rev_cases) (auto simp: layout_def blocks_ok_def)
  have d: "disk s = disk_of (cs @ [ms])" "block_NO s = int (length cs)"
    using assms(1) by (auto simp: layout_def bs)
  have sz: "file_size s = int (length (file_of ms))"
    using file_size_layout [OF assms(1)] by (simp add: bs)
  show save: "saveMessage m s = Ret (next_id m bs, saved m bs s)"
  proof (cases "int (length (file_of ms)) + int (length (stored m)) > BLOCK_SIZE")
    case True
    have "disk s (int (length cs) + 1) = None" by (simp add: d disk_of_def)
    with True storable_size [OF assms(2)] disk_of_append [of "cs @ [ms]" "[m]"] show ?thesis
      by (simp add: saveMessage_def sz Let_def openWriteFile_def d append_file_def
          saved_def next_id_def add_message_def bs disk_of_append file_of_def file_size_def ac_simps)
  next
    case False
    have "disk s (block_NO s) = Some (file_of ms)" by (simp add: d disk_of_append)
    with False show ?thesis
      by (simp add: saveMessage_def sz Let_def append_file_def d saved_def next_id_def
          add_message_def bs disk_of_append file_of_snoc file_size_def)
  qed
  have "cache_ok (saved m bs s)"
    using assms(1) unfolding layout_def
    using disk_of_append [of "cs @ [ms]" "[m]"]
    by (elim conjE cache_ok_mono) (auto simp: saved_def bs add_message_def disk_of_append)
  then show "layout (add_message m bs) (saved m bs s)"
    using assms blocks_ok_add_message [of bs m] by (simp add: layout_def saved_def)
qed

lemma LoadMessage_layout:
  assumes "layout bs s" "(i, m) \<in> set (log_of bs)"
  obtains c where "LoadMessage i s = Ret (Some (canon m), s\<lparr>files := c\<rparr>)" "layout bs (s\<lparr>files := c\<rparr>)"
proof -
  from assms(1) have "cache_ok s" by (simp add: layout_def)
  then obtain c where "LoadMessage i s = go_map (\<lambda>msg. (msg, s\<lparr>files := c\<rparr>)) (load_at (disk s) i)"
    "cache_ok (s\<lparr>files := c\<rparr>)" by (rule LoadMessage_eq)
  with assms show thesis by (intro that [of c]) (auto simp: layout_def load_log)
qed

section \<open>Scanning\<close>

definition replay :: "(message \<Rightarrow> int64 \<Rightarrow> 's \<Rightarrow> 's go) \<Rightarrow> (int64 \<times> message) list \<Rightarrow> 's \<Rightarrow> 's go" where
  "replay body log s = go_fold (\<lambda>s (i, m). body (canon m) i s) s log"

lemma replay_simps [simp]:
  "replay body [] = Ret"
  "replay body ((i, m) # log) = (\<lambda>s. go_bind (body (canon m) i s) (replay body log))"
  by (simp_all add: replay_def [abs_def])

lemma replay_append:
  "replay body (xs @ ys) s = go_bind (replay body xs s) (\<lambda>s'. replay body ys s')"
  by (simp add: replay_def go_fold_append)

lemma scan_file_stored:
  assumes "\<forall>m \<in> set ms. storable m"
    and "length file = offset + length (concat (map stored ms))"
  shows "scan_file body b file (concat (map stored ms)) s = replay body (block_log b (int offset) ms) s"
  using assms
proof (induction ms arbitrary: offset s)
  case Nil
  then show ?case by (simp add: scan_file.simps [where rest = "[]"])
next
  case (Cons m ms)
  let ?rest = "concat (map stored (m # ms))"
  have pos: "int (length file) - int (length ?rest) = int offset" using Cons.prems(2) by simp
  have r: "ReadMessage ?rest = Ret (Some (canon m), concat (map stored ms))"
    using Cons.prems(1) by (simp add: ReadMessage_stored)
  have IH: "scan_file body b file (concat (map stored ms))
      = replay body (block_log b (int offset + int (length (stored m))) ms)"
    using Cons.IH [of "offset + length (stored m)"] Cons.prems by (intro ext) simp
  show ?case
    unfolding scan_file.simps [where rest = ?rest] r pos
    by (simp add: IH)
qed

lemma scan_file_from_header:
  assumes "\<forall>m \<in> set ms. storable m"
  shows "scan_file body b (file_of ms) (drop 32 (file_of ms)) s = replay body (block_log b HEADER_SIZE ms) s"
  using scan_file_stored [OF assms, of "file_of ms" 32 body b s] by (simp add: file_of_def)

end
