(* ===== verification/PeerStorage.thy ===== *)
theory PeerStorage
  imports StorageLog
begin

text \<open>
  \<^verbatim>\<open>ims/peer_storage.go\<close>: the index of each user's last offline record, and the chains of offline
  records in the message log that it heads. The record \<open>peer_storage\<close> extends the state of the
  embedded \<open>StorageFile\<close> as the struct does, and holds the index file \<open>peer_index.v3\<close> too.
  A \<open>map[UserID]*UserIndex\<close> whose \<open>UserIndex\<close> values are never changed in place is a map to values.
\<close>

abbreviation BATCH_SIZE :: int where "BATCH_SIZE \<equiv> 1000"

record user_id =
  u_appid :: int64
  u_uid :: int64

record user_index =
  ui_last_msgid :: int64
  ui_last_id :: int64
  ui_last_peer_id :: int64
  ui_last_batch_id :: int64
  ui_last_seq_id :: int64

record peer_storage = storage_file +
  message_index :: "user_id \<rightharpoonup> user_index"
  peer_index_file :: "bytes option"

text \<open>An \<open>EMessage\<close> returned by a load: message id, device id and message.\<close>

type_synonym emessage = "int64 \<times> int64 \<times> message"

definition ui_zero :: user_index where
  "ui_zero = \<lparr>ui_last_msgid = 0, ui_last_id = 0, ui_last_peer_id = 0, ui_last_batch_id = 0,
     ui_last_seq_id = 0\<rparr>"

section \<open>The index\<close>

definition getPeerIndex :: "int64 \<Rightarrow> int64 \<Rightarrow> 'a peer_storage_scheme \<Rightarrow> user_index" where
  "getPeerIndex appid receiver s =
     (case message_index s \<lparr>u_appid = appid, u_uid = receiver\<rparr> of
        Some ui \<Rightarrow> ui
      | None \<Rightarrow> ui_zero)"

definition GetPeerIndex :: "int64 \<Rightarrow> int64 \<Rightarrow> 'a peer_storage_scheme \<Rightarrow> user_index" where
  "GetPeerIndex appid receiver s = getPeerIndex appid receiver s"

definition setPeerIndex ::
  "int64 \<Rightarrow> int64 \<Rightarrow> user_index \<Rightarrow> 'a peer_storage_scheme \<Rightarrow> 'a peer_storage_scheme"
where
  "setPeerIndex appid receiver ui s =
     (let s = s\<lparr>message_index := (message_index s)(\<lparr>u_appid = appid, u_uid = receiver\<rparr> \<mapsto> ui)\<rparr>
      in if sint (ui_last_id ui) > sint (last_id s) then s\<lparr>last_id := ui_last_id ui\<rparr> else s)"

definition getLastMessageID :: "int64 \<Rightarrow> int64 \<Rightarrow> 'a peer_storage_scheme \<Rightarrow> int64 \<times> int64" where
  "getLastMessageID appid receiver s =
     (case message_index s \<lparr>u_appid = appid, u_uid = receiver\<rparr> of
        Some ui \<Rightarrow> (ui_last_id ui, ui_last_peer_id ui)
      | None \<Rightarrow> (0, 0))"

definition GetLastMessageID :: "int64 \<Rightarrow> int64 \<Rightarrow> 'a peer_storage_scheme \<Rightarrow> int64 \<times> int64" where
  "GetLastMessageID appid receiver s = getLastMessageID appid receiver s"

section \<open>Classification of messages\<close>

definition isGroupMessage :: "message \<Rightarrow> bool" where
  "isGroupMessage msg \<longleftrightarrow> Cmd msg = MSG_GROUP_IM \<or> and (Flag msg) MESSAGE_FLAG_GROUP \<noteq> 0"

definition is_sender_im :: "message \<Rightarrow> int64 \<Rightarrow> bool go" where
  "is_sender_im msg uid =
     (case Body msg of Some (BIM m) \<Rightarrow> Ret (im_Sender m = uid) | _ \<Rightarrow> Panic)"

definition is_sender_customer ::
  "(customer_message \<Rightarrow> bool) \<Rightarrow> message \<Rightarrow> bool go"
where
  "is_sender_customer p msg = (case Body msg of Some (BCustomer m) \<Rightarrow> Ret (p m) | _ \<Rightarrow> Panic)"

text \<open>A failing type assertion panics; \<open>kefu_appid\<close> is the field of the configuration.\<close>

definition isSender :: "int64 \<Rightarrow> message \<Rightarrow> int64 \<Rightarrow> int64 \<Rightarrow> bool go" where
  "isSender kefu_appid msg appid uid =
     go_bind
       (if Cmd msg = MSG_IM \<or> Cmd msg = MSG_GROUP_IM then is_sender_im msg uid else Ret False)
       (\<lambda>r. if r then Ret True
         else if Cmd msg = MSG_CUSTOMER
         then is_sender_customer (\<lambda>m. cs_CustomerAppid m = appid \<and> cs_CustomerId m = uid) msg
         else if Cmd msg = MSG_CUSTOMER_SUPPORT
         then is_sender_customer (\<lambda>m. kefu_appid = appid \<and> cs_SellerId m = uid) msg
         else Ret False)"

text \<open>The assertion to \<open>IOfflineMessage\<close>, which the five offline bodies implement.\<close>

definition offline_of :: "message \<Rightarrow> offline_message option" where
  "offline_of msg =
     (case Body msg of
        Some (BOffline1 off) \<Rightarrow> Some off
      | Some (BOffline2 off) \<Rightarrow> Some off
      | Some (BOffline3 off) \<Rightarrow> Some off
      | Some (BOffline4 off) \<Rightarrow> Some off
      | Some (BGroupOffline off) \<Rightarrow> Some off
      | _ \<Rightarrow> None)"

definition latest_cmd :: "go_int \<Rightarrow> bool" where
  "latest_cmd cmd \<longleftrightarrow> cmd \<in> set
     [MSG_GROUP_IM, MSG_GROUP_NOTIFICATION, MSG_IM, MSG_CUSTOMER, MSG_CUSTOMER_SUPPORT]"

definition history_cmd :: "go_int \<Rightarrow> bool" where
  "history_cmd cmd \<longleftrightarrow> latest_cmd cmd \<or> cmd = MSG_SYSTEM"

section \<open>Saving\<close>

definition next_batch :: "int64 \<Rightarrow> int64 \<Rightarrow> int64 \<Rightarrow> int64" where
  "next_batch seq_id msgid batch_id = (if sint seq_id smod BATCH_SIZE = 0 then msgid else batch_id)"

definition SavePeerMessage ::
  "int64 \<Rightarrow> int64 \<Rightarrow> int64 \<Rightarrow> message \<Rightarrow> 'a peer_storage_scheme
   \<Rightarrow> ((int64 \<times> int64) \<times> 'a peer_storage_scheme) go"
where
  "SavePeerMessage appid uid device_id msg s =
     go_bind (saveMessage msg s) (\<lambda>(msgid, s).
       let user_index = getPeerIndex appid uid s;
           off = \<lparr>off_Appid = appid, off_Receiver = uid, off_Msgid = msgid, off_DeviceId = device_id,
             off_SeqId = ui_last_seq_id user_index + 1, off_PrevMsgid = ui_last_id user_index,
             off_PrevPeerMsgid = ui_last_peer_id user_index,
             off_PrevBatchMsgid = ui_last_batch_id user_index\<rparr>;
           flag = (if isGroupMessage msg then MESSAGE_FLAG_GROUP else 0);
           m = Message MSG_OFFLINE_V4 0 0 flag (Some (BOffline4 off)) None
       in go_bind (saveMessage m s) (\<lambda>(last_id, s).
            let last_peer_id =
                  (if isGroupMessage msg then ui_last_peer_id user_index else last_id);
                last_seq_id = ui_last_seq_id user_index + 1;
                last_batch_id = next_batch last_seq_id last_id (ui_last_batch_id user_index);
                ui = \<lparr>ui_last_msgid = msgid, ui_last_id = last_id, ui_last_peer_id = last_peer_id,
                  ui_last_batch_id = last_batch_id, ui_last_seq_id = last_seq_id\<rparr>
            in Ret ((msgid, ui_last_msgid user_index), setPeerIndex appid uid ui s)))"

fun SavePeerGroupMessage ::
  "int64 \<Rightarrow> int64 list \<Rightarrow> int64 \<Rightarrow> message \<Rightarrow> 'a peer_storage_scheme
   \<Rightarrow> (int64 list \<times> 'a peer_storage_scheme) go"
where
  "SavePeerGroupMessage appid [] device_id msg s = Ret ([], s)"
| "SavePeerGroupMessage appid (uid # members) device_id msg s =
     go_bind (SavePeerMessage appid uid device_id msg s) (\<lambda>((msgid, prev_msgid), s).
       go_map (\<lambda>(r, s). (msgid # prev_msgid # r, s))
         (SavePeerGroupMessage appid members device_id msg s))"

section \<open>Replaying a message\<close>

definition execPeerMessage :: "message \<Rightarrow> int64 \<Rightarrow> 'a peer_storage_scheme \<Rightarrow> 'a peer_storage_scheme go"
where
  "execPeerMessage msg msgid s =
     (if Cmd msg = MSG_OFFLINE then
        (case offline_of msg of
           None \<Rightarrow> Panic
         | Some off \<Rightarrow>
             Ret (setPeerIndex (off_Appid off) (off_Receiver off)
               \<lparr>ui_last_msgid = off_Msgid off, ui_last_id = msgid, ui_last_peer_id = msgid,
                 ui_last_batch_id = 0, ui_last_seq_id = 0\<rparr> s))
      else if Cmd msg = MSG_OFFLINE_V2 then
        (case offline_of msg of
           None \<Rightarrow> Panic
         | Some off \<Rightarrow>
             let last_peer_id = (if and (Flag msg) MESSAGE_FLAG_GROUP \<noteq> 0
                   then snd (getLastMessageID (off_Appid off) (off_Receiver off) s) else msgid)
             in Ret (setPeerIndex (off_Appid off) (off_Receiver off)
                  \<lparr>ui_last_msgid = off_Msgid off, ui_last_id = msgid, ui_last_peer_id = last_peer_id,
                    ui_last_batch_id = 0, ui_last_seq_id = 0\<rparr> s))
      else if Cmd msg = MSG_OFFLINE_V3 \<or> Cmd msg = MSG_OFFLINE_V4 then
        (case offline_of msg of
           None \<Rightarrow> Panic
         | Some off \<Rightarrow>
             let index = getPeerIndex (off_Appid off) (off_Receiver off) s;
                 last_peer_id = (if and (Flag msg) MESSAGE_FLAG_GROUP \<noteq> 0
                   then ui_last_peer_id index else msgid);
                 last_seq_id = ui_last_seq_id index + 1;
                 last_batch_id = next_batch last_seq_id msgid (ui_last_batch_id index)
             in Ret (setPeerIndex (off_Appid off) (off_Receiver off)
                  \<lparr>ui_last_msgid = off_Msgid off, ui_last_id = msgid, ui_last_peer_id = last_peer_id,
                    ui_last_batch_id = last_batch_id, ui_last_seq_id = last_seq_id\<rparr> s))
      else Ret s)"

text \<open>\<open>createPeerIndex\<close> and \<open>repairPeerIndex\<close> scan the block files from a first one on.\<close>

definition createPeerIndex :: "'a peer_storage_scheme \<Rightarrow> 'a peer_storage_scheme go" where
  "createPeerIndex s =
     go_fold (\<lambda>s i. case openReadFile i s of
         None \<Rightarrow> Ret s
       | Some file \<Rightarrow>
           scan_file execPeerMessage i (the (disk s file)) (file_from file HEADER_SIZE s) s)
       s [0..block_NO s]"

text \<open>The id at which the repair started is skipped as long as it is the last id.\<close>

definition repair_peer_message ::
  "message \<Rightarrow> int64 \<Rightarrow> 'a peer_storage_scheme \<Rightarrow> 'a peer_storage_scheme go"
where
  "repair_peer_message msg msgid s = (if msgid = last_id s then Ret s else execPeerMessage msg msgid s)"

text \<open>\<open>repair_blocks\<close>: the loop over the blocks, left when the seek to a negative offset fails.\<close>

fun repair_blocks ::
  "(message \<Rightarrow> int64 \<Rightarrow> 'a storage_file_scheme \<Rightarrow> 'a storage_file_scheme go) \<Rightarrow> int \<Rightarrow> int
   \<Rightarrow> int list \<Rightarrow> 'a storage_file_scheme \<Rightarrow> 'a storage_file_scheme go"
where
  "repair_blocks body first off [] s = Ret s"
| "repair_blocks body first off (i # is) s =
     (case openReadFile i s of
        None \<Rightarrow> repair_blocks body first off is s
      | Some file \<Rightarrow>
          let offset = (if i = first then off else HEADER_SIZE)
          in if offset < 0 then Ret s
             else go_bind (scan_file body i (the (disk s file)) (file_from file offset s) s)
                    (repair_blocks body first off is))"

definition repairPeerIndex :: "'a peer_storage_scheme \<Rightarrow> 'a peer_storage_scheme go" where
  "repairPeerIndex s =
     (let first = getBlockNO (last_id s); off = getBlockOffset (last_id s)
      in repair_blocks repair_peer_message first off [first..block_NO s] s)"

section \<open>Loading\<close>

text \<open>The loop of \<open>LoadHistoryMessages\<close>; it returns the messages and \<open>last_msgid\<close>.\<close>

partial_function (option) history_loop ::
  "int64 \<Rightarrow> int \<Rightarrow> int \<Rightarrow> int64 \<Rightarrow> int64 \<Rightarrow> emessage list \<Rightarrow> 'a storage_file_scheme
   \<Rightarrow> (emessage list \<times> int64 \<times> 'a storage_file_scheme) go option"
where
  "history_loop sync_msgid group_limit limit lastid last_msgid messages s =
     (if lastid = 0 then Some (Ret (messages, last_msgid, s))
      else loop_bind (LoadMessage lastid s) (\<lambda>(msg, s).
        case (case msg of None \<Rightarrow> None | Some m \<Rightarrow> offline_of m) of
          None \<Rightarrow> Some (Ret (messages, last_msgid, s))
        | Some off \<Rightarrow>
            let last_msgid = (if last_msgid = 0 then off_Msgid off else last_msgid)
            in if sint (off_Msgid off) \<le> sint sync_msgid then Some (Ret (messages, last_msgid, s))
               else loop_bind (LoadMessage (off_Msgid off) s) (\<lambda>(msg, s).
                 case msg of
                   None \<Rightarrow> Some (Ret (messages, last_msgid, s))
                 | Some m \<Rightarrow>
                     let messages' = (if history_cmd (Cmd m)
                           then messages @ [(off_Msgid off, off_DeviceId off, m)] else messages);
                         lastid = (if group_limit > 0 \<and> int (length messages') \<ge> group_limit
                           then off_PrevPeerMsgid off else off_PrevMsgid off)
                     in if history_cmd (Cmd m) \<and> limit > 0 \<and> int (length messages') \<ge> limit
                        then Some (Ret (messages', last_msgid, s))
                        else history_loop sync_msgid group_limit limit lastid last_msgid messages' s)))"

definition LoadHistoryMessages ::
  "int64 \<Rightarrow> int64 \<Rightarrow> int64 \<Rightarrow> int \<Rightarrow> int \<Rightarrow> 'a peer_storage_scheme
   \<Rightarrow> ((emessage list \<times> int64 \<times> bool) \<times> 'a peer_storage_scheme) go option"
where
  "LoadHistoryMessages appid receiver sync_msgid group_limit limit s =
     (let (lastid, _) = GetLastMessageID appid receiver s
      in map_option (go_map (\<lambda>(messages, last_msgid, s). ((messages, last_msgid, False), s)))
           (history_loop sync_msgid group_limit limit lastid 0 [] s))"

text \<open>
  The two loops of \<open>LoadHistoryMessagesV3\<close>: the batch ids after \<open>sync_msgid\<close>, newest first, then
  the messages, whose chain the second loop leaves only when a load fails.
\<close>

partial_function (option) batch_loop ::
  "int64 \<Rightarrow> int \<Rightarrow> int64 \<Rightarrow> int64 list \<Rightarrow> 'a storage_file_scheme
   \<Rightarrow> (int64 list \<times> 'a storage_file_scheme) go option"
where
  "batch_loop sync_msgid hard_batch_count last_batch_id batch_ids s =
     (if sint last_batch_id \<le> sint sync_msgid then Some (Ret (batch_ids, s))
      else loop_bind (LoadMessage last_batch_id s) (\<lambda>(msg, s).
        case (case msg of None \<Rightarrow> None | Some m \<Rightarrow> offline_of m) of
          None \<Rightarrow> Some (Ret (batch_ids, s))
        | Some off \<Rightarrow>
            if sint (off_Msgid off) \<le> sint sync_msgid then Some (Ret (batch_ids, s))
            else
              let batch_ids = batch_ids @ [last_batch_id]
              in if hard_batch_count > 0 \<and> int (length batch_ids) \<ge> hard_batch_count
                 then Some (Ret (batch_ids, s))
                 else batch_loop sync_msgid hard_batch_count (off_PrevBatchMsgid off) batch_ids s))"

partial_function (option) v3_loop ::
  "int64 \<Rightarrow> int \<Rightarrow> bool \<Rightarrow> int64 \<Rightarrow> int64 \<Rightarrow> int64 \<Rightarrow> emessage list \<Rightarrow> 'a storage_file_scheme
   \<Rightarrow> (emessage list \<times> int64 \<times> int64 \<times> 'a storage_file_scheme) go option"
where
  "v3_loop sync_msgid limit is_peer lastid last_msgid last_offline_msgid messages s =
     loop_bind (LoadMessage lastid s) (\<lambda>(msg, s).
        case (case msg of None \<Rightarrow> None | Some m \<Rightarrow> offline_of m) of
          None \<Rightarrow> Some (Ret (messages, last_msgid, last_offline_msgid, s))
        | Some off \<Rightarrow>
            let (last_msgid, last_offline_msgid) =
                  (if last_msgid = 0 then (off_Msgid off, lastid) else (last_msgid, last_offline_msgid))
            in if sint (off_Msgid off) \<le> sint sync_msgid
               then Some (Ret (messages, last_msgid, last_offline_msgid, s))
               else loop_bind (LoadMessage (off_Msgid off) s) (\<lambda>(msg, s).
                 case msg of
                   None \<Rightarrow> Some (Ret (messages, last_msgid, last_offline_msgid, s))
                 | Some m \<Rightarrow>
                     let messages' = (if history_cmd (Cmd m)
                           then messages @ [(off_Msgid off, off_DeviceId off, m)] else messages);
                         lastid = (if is_peer then off_PrevPeerMsgid off else off_PrevMsgid off)
                     in if history_cmd (Cmd m) \<and> limit > 0 \<and> int (length messages') \<ge> limit
                        then Some (Ret (messages', last_msgid, last_offline_msgid, s))
                        else v3_loop sync_msgid limit is_peer lastid last_msgid last_offline_msgid
                               messages' s))"

text \<open>Where the second loop starts, and whether it follows the peer chain.\<close>

definition v3_start ::
  "int64 list \<Rightarrow> int \<Rightarrow> int \<Rightarrow> int64 \<Rightarrow> (int64 \<times> bool) go"
where
  "v3_start batch_ids hard_batch_count batch_count index_last_id =
     (let n = int (length batch_ids); index = n - batch_count;
          at_index = (\<lambda>is_peer. if index < 0 \<or> index \<ge> n then Panic
            else Ret (batch_ids ! nat index, is_peer))
      in if hard_batch_count > 0 \<and> n \<ge> hard_batch_count \<and> hard_batch_count \<ge> batch_count
         then at_index True
         else if n \<ge> batch_count then at_index False
         else Ret (index_last_id, False))"

definition LoadHistoryMessagesV3 ::
  "int64 \<Rightarrow> int64 \<Rightarrow> int64 \<Rightarrow> int \<Rightarrow> int \<Rightarrow> 'a peer_storage_scheme
   \<Rightarrow> ((emessage list \<times> int64 \<times> bool) \<times> 'a peer_storage_scheme) go option"
where
  "LoadHistoryMessagesV3 appid receiver sync_msgid limit hard_limit s =
     (let msg_index = GetPeerIndex appid receiver s;
          hard_batch_count = hard_limit sdiv BATCH_SIZE;
          batch_count = limit sdiv BATCH_SIZE;
          batch_count = (if batch_count = 0 then 1 else batch_count)
      in case batch_loop sync_msgid hard_batch_count (ui_last_batch_id msg_index) [] s of
           None \<Rightarrow> None
         | Some r \<Rightarrow> loop_bind r (\<lambda>(batch_ids, s).
             loop_bind (v3_start batch_ids hard_batch_count batch_count (ui_last_id msg_index))
               (\<lambda>(lastid, is_peer).
                 map_option (go_map (\<lambda>(messages, last_msgid, last_offline_msgid, s).
                     ((messages, last_msgid,
                       sint last_offline_msgid > 0
                         \<and> sint last_offline_msgid < sint (ui_last_id msg_index)), s)))
                   (v3_loop sync_msgid limit is_peer lastid 0 0 [] s))))"

partial_function (option) latest_loop ::
  "int \<Rightarrow> int64 \<Rightarrow> emessage list \<Rightarrow> 'a storage_file_scheme
   \<Rightarrow> (emessage list \<times> 'a storage_file_scheme) go option"
where
  "latest_loop limit lastid messages s =
     (if lastid = 0 then Some (Ret (messages, s))
      else loop_bind (LoadMessage lastid s) (\<lambda>(msg, s).
        case (case msg of None \<Rightarrow> None | Some m \<Rightarrow> offline_of m) of
          None \<Rightarrow> Some (Ret (messages, s))
        | Some off \<Rightarrow>
            loop_bind (LoadMessage (off_Msgid off) s) (\<lambda>(msg, s).
              case msg of
                None \<Rightarrow> Some (Ret (messages, s))
              | Some m \<Rightarrow>
                  let messages' = (if latest_cmd (Cmd m)
                        then messages @ [(off_Msgid off, off_DeviceId off, m)] else messages)
                  in if latest_cmd (Cmd m) \<and> int (length messages') \<ge> limit
                     then Some (Ret (messages', s))
                     else latest_loop limit (off_PrevMsgid off) messages' s)))"

definition LoadLatestMessages ::
  "int64 \<Rightarrow> int64 \<Rightarrow> int \<Rightarrow> 'a peer_storage_scheme
   \<Rightarrow> (emessage list \<times> 'a peer_storage_scheme) go option"
where
  "LoadLatestMessages appid receiver limit s =
     (let (lastid, _) = GetLastMessageID appid receiver s in latest_loop limit lastid [] s)"

text \<open>
  \<open>GetNewCount\<close> reads the message with the received id and the offline record that follows it,
  which may be the first of the next block.
\<close>

definition new_count_from ::
  "int64 \<Rightarrow> int64 \<Rightarrow> int64 \<Rightarrow> int64 \<Rightarrow> message \<Rightarrow> go_int"
where
  "new_count_from appid uid last_received_id last_seq_id off_m =
     (case offline_of off_m of
        None \<Rightarrow> 0
      | Some off \<Rightarrow>
          if off_Msgid off \<noteq> last_received_id then 0
          else if off_Appid off \<noteq> appid \<or> off_Receiver off \<noteq> uid then 0
          else if sint last_seq_id < sint (off_SeqId off) then 0
          else last_seq_id - off_SeqId off)"

definition GetNewCount ::
  "int64 \<Rightarrow> int64 \<Rightarrow> int64 \<Rightarrow> 'a peer_storage_scheme \<Rightarrow> (go_int \<times> 'a peer_storage_scheme) go"
where
  "GetNewCount appid uid last_received_id s =
     (let last_seq_id = ui_last_seq_id (getPeerIndex appid uid s)
      in if last_received_id = 0 then Ret (last_seq_id, s)
         else
           let blockNO = getBlockNO last_received_id; blockOffset = getBlockOffset last_received_id;
               (file, s) = getFile blockNO s
           in case file of
                None \<Rightarrow> Ret (0, s)
              | Some f \<Rightarrow>
                  if blockOffset < 0 then Ret (0, s)
                  else go_bind (ReadMessage (file_from f blockOffset s)) (\<lambda>(m, rest).
                    if m = None then Ret (0, s)
                    else go_bind (ReadMessage rest) (\<lambda>(off_m, _).
                      case off_m of
                        Some o' \<Rightarrow> Ret (new_count_from appid uid last_received_id last_seq_id o', s)
                      | None \<Rightarrow>
                          (let (file, s) = getFile (blockNO + 1) s
                           in case file of
                                None \<Rightarrow> Ret (0, s)
                              | Some f \<Rightarrow>
                                  go_map (\<lambda>(off_m, _).
                                      (case off_m of
                                         None \<Rightarrow> 0
                                       | Some o' \<Rightarrow>
                                           new_count_from appid uid last_received_id last_seq_id o', s))
                                    (ReadMessage (file_from f HEADER_SIZE s))))))"

section \<open>The index file\<close>

definition peer_index_record :: "user_id \<Rightarrow> user_index \<Rightarrow> bytes" where
  "peer_index_record k value =
     binWrite (u_appid k) @ binWrite (u_uid k) @ binWrite (ui_last_msgid value)
     @ binWrite (ui_last_id value) @ binWrite (ui_last_peer_id value)
     @ binWrite (ui_last_batch_id value) @ binWrite (ui_last_seq_id value)"

text \<open>
  \<open>savePeerIndex\<close>: \<open>entries\<close> is the map in the order in which \<open>range\<close> visits it. The file is written in
  chunks of 1000 records to \<open>peer_index_t\<close> and renamed when it is complete.
\<close>

definition savePeerIndex ::
  "(user_id \<times> user_index) list \<Rightarrow> 'a peer_storage_scheme \<Rightarrow> 'a peer_storage_scheme"
where
  "savePeerIndex es s =
     s\<lparr>peer_index_file := Some (concat (map (\<lambda>(k, value). peer_index_record k value) es))\<rparr>"

definition clonePeerIndex :: "'a peer_storage_scheme \<Rightarrow> (user_id \<rightharpoonup> user_index)" where
  "clonePeerIndex s = message_index s"

definition removePeerIndex :: "'a peer_storage_scheme \<Rightarrow> 'a peer_storage_scheme" where
  "removePeerIndex s = s\<lparr>peer_index_file := None\<rparr>"

text \<open>The records of the file, up to a last incomplete one.\<close>

fun read_peer_records :: "bytes \<Rightarrow> 'a peer_storage_scheme \<Rightarrow> 'a peer_storage_scheme" where
  "read_peer_records data s =
     (if length data < 56 then s
      else
        let (appid, buffer) = binRead 0 data; (uid, buffer) = binRead 0 buffer;
            (msgid, buffer) = binRead 0 buffer; (lastid, buffer) = binRead 0 buffer;
            (peer_msgid, buffer) = binRead 0 buffer; (batch_id, buffer) = binRead 0 buffer;
            (seq_id, buffer) = binRead 0 buffer
        in read_peer_records (drop 56 data)
             (setPeerIndex appid uid
               \<lparr>ui_last_msgid = msgid, ui_last_id = lastid, ui_last_peer_id = peer_msgid,
                 ui_last_batch_id = batch_id, ui_last_seq_id = seq_id\<rparr> s))"

declare read_peer_records.simps [simp del]

definition readPeerIndex :: "'a peer_storage_scheme \<Rightarrow> bool \<times> 'a peer_storage_scheme" where
  "readPeerIndex s =
     (case peer_index_file s of
        None \<Rightarrow> (False, s)
      | Some data \<Rightarrow> (True, read_peer_records data s))"

end
