(* ===== verification/GroupStorage.thy ===== *)
theory GroupStorage
  imports PeerStorage
begin

text \<open>
  \<^verbatim>\<open>ims/group_storage.go\<close>: the index of each super group's last record and its chain, over the same
  message log. \<open>Storage\<close> embeds one \<open>PeerStorage\<close> and one \<open>GroupStorage\<close> that share their
  \<open>StorageFile\<close>: the record \<open>storage\<close> extends \<open>peer_storage\<close> by the fields of \<open>GroupStorage\<close> and by
  the index file \<open>group_index.v2\<close>.
\<close>

record group_id =
  g_appid :: int64
  g_gid :: int64

record group_index =
  gi_LastMsgid :: int64
  gi_LastId :: int64
  gi_LastBatchId :: int64
  gi_LastSeqId :: int64

record storage = peer_storage +
  group_message_index :: "group_id \<rightharpoonup> group_index"
  group_index_file :: "bytes option"

definition gi_zero :: group_index where
  "gi_zero = \<lparr>gi_LastMsgid = 0, gi_LastId = 0, gi_LastBatchId = 0, gi_LastSeqId = 0\<rparr>"

section \<open>The index\<close>

definition getGroupIndex :: "int64 \<Rightarrow> int64 \<Rightarrow> 'a storage_scheme \<Rightarrow> group_index" where
  "getGroupIndex appid gid s =
     (case group_message_index s \<lparr>g_appid = appid, g_gid = gid\<rparr> of
        Some gi \<Rightarrow> gi
      | None \<Rightarrow> gi_zero)"

definition GetGroupIndex :: "int64 \<Rightarrow> int64 \<Rightarrow> 'a storage_scheme \<Rightarrow> group_index" where
  "GetGroupIndex appid gid s = getGroupIndex appid gid s"

definition setGroupIndex ::
  "int64 \<Rightarrow> int64 \<Rightarrow> group_index \<Rightarrow> 'a storage_scheme \<Rightarrow> 'a storage_scheme"
where
  "setGroupIndex appid gid gi s =
     (let s = s\<lparr>group_message_index := (group_message_index s)(\<lparr>g_appid = appid, g_gid = gid\<rparr> \<mapsto> gi)\<rparr>
      in if sint (gi_LastId gi) > sint (last_id s) then s\<lparr>last_id := gi_LastId gi\<rparr> else s)"

section \<open>Saving\<close>

definition SaveGroupMessage ::
  "int64 \<Rightarrow> int64 \<Rightarrow> int64 \<Rightarrow> message \<Rightarrow> 'a storage_scheme
   \<Rightarrow> ((int64 \<times> int64) \<times> 'a storage_scheme) go"
where
  "SaveGroupMessage appid gid device_id msg s =
     go_bind (saveMessage msg s) (\<lambda>(msgid, s).
       let index = getGroupIndex appid gid s;
           off = \<lparr>off_Appid = appid, off_Receiver = gid, off_Msgid = msgid, off_DeviceId = device_id,
             off_SeqId = gi_LastSeqId index + 1, off_PrevMsgid = gi_LastId index,
             off_PrevPeerMsgid = 0, off_PrevBatchMsgid = gi_LastBatchId index\<rparr>;
           m = Message MSG_GROUP_OFFLINE 0 0 0 (Some (BOffline4 off)) None
       in go_bind (saveMessage m s) (\<lambda>(last_id, s).
            let last_seq_id = gi_LastSeqId index + 1;
                last_batch_id = next_batch last_seq_id last_id (gi_LastBatchId index);
                gi = \<lparr>gi_LastMsgid = msgid, gi_LastId = last_id, gi_LastBatchId = last_batch_id,
                  gi_LastSeqId = last_seq_id\<rparr>
            in Ret ((msgid, gi_LastMsgid index), setGroupIndex appid gid gi s)))"

section \<open>Loading\<close>

text \<open>
  The loop of \<open>LoadGroupHistoryMessages\<close>; \<open>ts\<close> is the time the user joined the group. A message body
  that cannot be loaded is kept as a nil \<open>Msg\<close>, and a nil dereference when \<open>msgid\<close> is 0 panics.
\<close>

partial_function (option) group_history_loop ::
  "int64 \<Rightarrow> int32 \<Rightarrow> int \<Rightarrow> int64 \<Rightarrow> int64 \<Rightarrow> (int64 \<times> int64 \<times> message option) list
   \<Rightarrow> 'a storage_file_scheme
   \<Rightarrow> ((int64 \<times> int64 \<times> message option) list \<times> int64 \<times> 'a storage_file_scheme) go option"
where
  "group_history_loop msgid ts limit lastid last_msgid c s =
     (if \<not> sint lastid > 0 then Some (Ret (c, last_msgid, s))
      else loop_bind (LoadMessage lastid s) (\<lambda>(msg, s).
        case (case msg of None \<Rightarrow> None | Some m \<Rightarrow> offline_of m) of
          None \<Rightarrow> Some (Ret (c, last_msgid, s))
        | Some off \<Rightarrow>
            let last_msgid = (if last_msgid = 0 then off_Msgid off else last_msgid)
            in if off_Msgid off = 0 \<or> sint (off_Msgid off) \<le> sint msgid
               then Some (Ret (c, last_msgid, s))
               else loop_bind (LoadMessage (off_Msgid off) s) (\<lambda>(m, s).
                 loop_bind
                   (if msgid = 0 then
                      (case m of
                         None \<Rightarrow> Panic
                       | Some m \<Rightarrow>
                           if Cmd m = MSG_GROUP_IM then
                             (case Body m of
                                Some (BIM im) \<Rightarrow> Ret (sint (im_Timestamp im) < sint ts)
                              | _ \<Rightarrow> Panic)
                           else Ret False)
                    else Ret False)
                   (\<lambda>before_join.
                     if before_join then Some (Ret (c, last_msgid, s))
                     else
                       let c = c @ [(off_Msgid off, off_DeviceId off, m)]
                       in if int (length c) \<ge> limit then Some (Ret (c, last_msgid, s))
                          else group_history_loop msgid ts limit (off_PrevMsgid off) last_msgid c s))))"

definition LoadGroupHistoryMessages ::
  "int64 \<Rightarrow> int64 \<Rightarrow> int64 \<Rightarrow> int64 \<Rightarrow> int32 \<Rightarrow> int \<Rightarrow> 'a storage_scheme
   \<Rightarrow> ((int64 \<times> int64 \<times> message option) list \<times> int64 \<times> 'a storage_scheme) go option"
where
  "LoadGroupHistoryMessages appid uid gid msgid ts limit s =
     group_history_loop msgid ts limit (gi_LastId (GetGroupIndex appid gid s)) 0 [] s"

section \<open>Replaying\<close>

definition execGroupMessage :: "message \<Rightarrow> int64 \<Rightarrow> 'a storage_scheme \<Rightarrow> 'a storage_scheme go" where
  "execGroupMessage msg msgid s =
     (if Cmd msg = MSG_GROUP_IM_LIST then
        (case Body msg of
           Some (BGroupOffline off) \<Rightarrow>
             Ret (setGroupIndex (off_Appid off) (off_Receiver off)
               \<lparr>gi_LastMsgid = off_Msgid off, gi_LastId = msgid, gi_LastBatchId = 0,
                 gi_LastSeqId = 0\<rparr> s)
         | _ \<Rightarrow> Panic)
      else if Cmd msg = MSG_GROUP_OFFLINE then
        (case offline_of msg of
           None \<Rightarrow> Panic
         | Some off \<Rightarrow>
             let index = getGroupIndex (off_Appid off) (off_Receiver off) s;
                 last_seq_id = gi_LastSeqId index + 1;
                 last_batch_id = next_batch last_seq_id msgid (gi_LastBatchId index)
             in Ret (setGroupIndex (off_Appid off) (off_Receiver off)
                  \<lparr>gi_LastMsgid = off_Msgid off, gi_LastId = msgid, gi_LastBatchId = last_batch_id,
                    gi_LastSeqId = last_seq_id\<rparr> s))
      else Ret s)"

definition createGroupIndex :: "'a storage_scheme \<Rightarrow> 'a storage_scheme go" where
  "createGroupIndex s =
     go_fold (\<lambda>s i. case openReadFile i s of
         None \<Rightarrow> Ret s
       | Some file \<Rightarrow>
           scan_file execGroupMessage i (the (disk s file)) (file_from file HEADER_SIZE s) s)
       s [0..block_NO s]"

definition repairGroupIndex :: "'a storage_scheme \<Rightarrow> 'a storage_scheme go" where
  "repairGroupIndex s =
     (let first = getBlockNO (last_id s); off = getBlockOffset (last_id s)
      in repair_blocks execGroupMessage first off [first..block_NO s] s)"

section \<open>The index file\<close>

definition group_index_record :: "group_id \<Rightarrow> group_index \<Rightarrow> bytes" where
  "group_index_record k value =
     binWrite (g_appid k) @ binWrite (g_gid k) @ binWrite (gi_LastMsgid value)
     @ binWrite (gi_LastId value) @ binWrite (gi_LastBatchId value) @ binWrite (gi_LastSeqId value)"

definition saveGroupIndex ::
  "(group_id \<times> group_index) list \<Rightarrow> 'a storage_scheme \<Rightarrow> 'a storage_scheme"
where
  "saveGroupIndex es s =
     s\<lparr>group_index_file := Some (concat (map (\<lambda>(k, value). group_index_record k value) es))\<rparr>"

definition cloneGroupIndex :: "'a storage_scheme \<Rightarrow> (group_id \<rightharpoonup> group_index)" where
  "cloneGroupIndex s = group_message_index s"

definition removeGroupIndex :: "'a storage_scheme \<Rightarrow> 'a storage_scheme" where
  "removeGroupIndex s = s\<lparr>group_index_file := None\<rparr>"

fun read_group_records :: "bytes \<Rightarrow> 'a storage_scheme \<Rightarrow> 'a storage_scheme" where
  "read_group_records data s =
     (if length data < 48 then s
      else
        let (appid, buffer) = binRead 0 data; (gid, buffer) = binRead 0 buffer;
            (msgid, buffer) = binRead 0 buffer; (lastid, buffer) = binRead 0 buffer;
            (batch_id, buffer) = binRead 0 buffer; (seq_id, buffer) = binRead 0 buffer
        in read_group_records (drop 48 data)
             (setGroupIndex appid gid
               \<lparr>gi_LastMsgid = msgid, gi_LastId = lastid, gi_LastBatchId = batch_id,
                 gi_LastSeqId = seq_id\<rparr> s))"

declare read_group_records.simps [simp del]

definition readGroupIndex :: "'a storage_scheme \<Rightarrow> bool \<times> 'a storage_scheme" where
  "readGroupIndex s =
     (case group_index_file s of
        None \<Rightarrow> (False, s)
      | Some data \<Rightarrow> (True, read_group_records data s))"

end
