(* ===== verification/Storage.thy ===== *)
theory Storage
  imports GroupStorage
begin

text \<open>
  \<^verbatim>\<open>ims/storage.go\<close>, the replication of \<^verbatim>\<open>ims/storage_sync.go\<close> and the remote procedures of
  \<^verbatim>\<open>ims/rpc.go\<close>: the whole storage server over the state \<open>storage\<close>.
\<close>

section \<open>Starting and flushing\<close>

definition execMessage :: "message \<Rightarrow> int64 \<Rightarrow> 'a storage_scheme \<Rightarrow> 'a storage_scheme go" where
  "execMessage msg msgid s = go_bind (execPeerMessage msg msgid s) (execGroupMessage msg msgid)"

definition ExecMessage :: "message \<Rightarrow> int64 \<Rightarrow> 'a storage_scheme \<Rightarrow> 'a storage_scheme go" where
  "ExecMessage msg msgid s = execMessage msg msgid s"

text \<open>
  \<open>peers\<close> and \<open>groups\<close> are the orders in which \<open>range\<close> visits the two cloned index maps.
\<close>

definition flushIndex ::
  "(user_id \<times> user_index) list \<Rightarrow> (group_id \<times> group_index) list \<Rightarrow> 'a storage_scheme \<Rightarrow> 'a storage_scheme"
where
  "flushIndex peers groups s =
     (let lastid = last_id s; s = savePeerIndex peers s; s = saveGroupIndex groups s
      in s\<lparr>last_saved_id := lastid\<rparr>)"

text \<open>The difference of the two ids wraps as an \<open>int64\<close>.\<close>

definition FlushIndex ::
  "(user_id \<times> user_index) list \<Rightarrow> (group_id \<times> group_index) list \<Rightarrow> 'a storage_scheme \<Rightarrow> 'a storage_scheme"
where
  "FlushIndex peers groups s =
     (if sint (last_id s - last_saved_id s) > 2 * BLOCK_SIZE then flushIndex peers groups s else s)"

text \<open>
  \<open>NewStorage\<close> on a directory: its block files and its two index files. The visiting orders of the
  final \<open>FlushIndex\<close> are functions of the state, since they depend on the maps built before it.
\<close>

definition new_storage ::
  "(int option \<times> bytes) list \<Rightarrow> bytes option \<Rightarrow> bytes option \<Rightarrow> storage go"
where
  "new_storage glob peer_file group_file =
     go_map (\<lambda>f. \<lparr>disk = disk f, dirty = dirty f, block_NO = block_NO f, files = files f,
         last_id = last_id f, last_saved_id = last_saved_id f, ewt = ewt f,
         message_index = Map.empty, peer_index_file = peer_file,
         group_message_index = Map.empty, group_index_file = group_file\<rparr>)
       (NewStorageFile glob)"

definition build_index :: "'a storage_scheme \<Rightarrow> 'a storage_scheme go" where
  "build_index s =
     (let (r1, s) = readPeerIndex s; (r2, s) = readGroupIndex s; s = s\<lparr>last_saved_id := last_id s\<rparr>
      in go_bind (if r1 then repairPeerIndex s else Ret s) (\<lambda>s.
         go_bind (if r2 then repairGroupIndex s else Ret s) (\<lambda>s.
         go_bind (if \<not> r1 then createPeerIndex s else Ret s) (\<lambda>s.
         if \<not> r2 then createGroupIndex s else Ret s))))"

definition NewStorage ::
  "(storage \<Rightarrow> (user_id \<times> user_index) list) \<Rightarrow> (storage \<Rightarrow> (group_id \<times> group_index) list)
   \<Rightarrow> (int option \<times> bytes) list \<Rightarrow> bytes option \<Rightarrow> bytes option \<Rightarrow> storage go"
where
  "NewStorage peers groups glob peer_file group_file =
     go_bind (new_storage glob peer_file group_file) (\<lambda>s.
       go_map (\<lambda>s. FlushIndex (peers s) (groups s) s) (build_index s))"

definition NextMessageID :: "'a storage_file_scheme \<Rightarrow> int64" where
  "NextMessageID s = word_of_int (file_size s + block_NO s * BLOCK_SIZE)"

section \<open>Replication\<close>

definition pad_file :: "int \<Rightarrow> 'a storage_file_scheme \<Rightarrow> 'a storage_file_scheme" where
  "pad_file n s = append_file (replicate (nat n) 0) s"

text \<open>Neither the padding nor the message marks the file dirty or goes to \<open>master.ewt\<close>.\<close>

definition SaveSyncMessage :: "int64 \<Rightarrow> message \<Rightarrow> 'a storage_scheme \<Rightarrow> 'a storage_scheme go" where
  "SaveSyncMessage msgid msg s =
     (let n = getBlockNO msgid; off = getBlockOffset msgid
      in if n < block_NO s \<or> n - block_NO s > 1 then Ret s
         else
           let s = (if n - block_NO s = 1 then openWriteFile n s else s); offset = file_size s
           in if off < offset then Ret s
              else
                let s = (if off > offset then pad_file (off - offset) s else s)
                in execMessage msg msgid (append_file (stored msg) s))"

fun SaveSyncMessageBatch :: "int64 \<Rightarrow> message list \<Rightarrow> 'a storage_scheme \<Rightarrow> 'a storage_scheme go" where
  "SaveSyncMessageBatch msgid [] s = Ret s"
| "SaveSyncMessageBatch msgid (m # ms) s =
     go_bind (SaveSyncMessage msgid m s)
       (SaveSyncMessageBatch (msgid + word_of_nat (length (stored m))) ms)"

text \<open>
  \<open>LoadSyncMessagesInBackground\<close>: the batches sent to the channel, each with its first id, last id
  and messages. \<open>batch_block\<close> is the inner loop over one block file, \<open>sync_from\<close> the loop over the
  blocks, which ends at the first block without a file.
\<close>

type_synonym batch = "int64 \<times> int64 \<times> message list"

abbreviation BATCH_COUNT :: nat where "BATCH_COUNT \<equiv> 5000"

definition empty_batch :: batch where
  "empty_batch = (0, 0, [])"

definition add_to_batch :: "int64 \<Rightarrow> message \<Rightarrow> batch \<Rightarrow> batch" where
  "add_to_batch msgid msg batch =
     (let (first_id, last_id, msgs) = batch
      in (if first_id = 0 then msgid else first_id, msgid, msgs @ [msg]))"

definition batch_step :: "message \<Rightarrow> int64 \<Rightarrow> batch list \<times> batch \<Rightarrow> (batch list \<times> batch) go" where
  "batch_step msg msgid cb =
     (let (c, batch) = cb; batch = add_to_batch msgid msg batch
      in Ret (if length (snd (snd batch)) \<ge> BATCH_COUNT then (c @ [batch], empty_batch)
              else (c, batch)))"

definition batch_block :: "int \<Rightarrow> bytes \<Rightarrow> bytes \<Rightarrow> batch list \<Rightarrow> batch list go" where
  "batch_block n file rest c =
     go_map (\<lambda>(c, batch). if length (snd (snd batch)) > 0 then c @ [batch] else c)
       (scan_file batch_step n file rest (c, empty_batch))"

partial_function (option) sync_from ::
  "int \<Rightarrow> int \<Rightarrow> int \<Rightarrow> batch list \<Rightarrow> 'a storage_file_scheme \<Rightarrow> batch list go option"
where
  "sync_from block offset n c s =
     (case openReadFile n s of
        None \<Rightarrow> Some (Ret c)
      | Some f \<Rightarrow>
          (let file = the (disk s f); size = int (length file);
               pos = (if n = block then offset else HEADER_SIZE)
           in if size < offset \<or> pos < 0 then Some (Ret c)
              else loop_bind (batch_block n file (drop (nat pos) file) c)
                     (\<lambda>c. sync_from block offset (n + 1) c s)))"

definition LoadSyncMessagesInBackground :: "int64 \<Rightarrow> 'a storage_file_scheme \<Rightarrow> batch list go option" where
  "LoadSyncMessagesInBackground cursor s =
     sync_from (getBlockNO cursor) (getBlockOffset cursor) (getBlockNO cursor) [] s"

end
