(* ===== verification/StorageSpec.thy ===== *)
theory StorageSpec
  imports Storage
begin

text \<open>
  What the storage server promises. The abstract state of a receiver (a user, or a super group) is
  the list of its offline records, newest first, read off the log; the index entry of the receiver
  is a function of that list, and the fields of each record link the list up. The invariant
  \<open>storage_ok\<close> says so for every receiver, and that replaying the log rebuilds both indexes.
\<close>

section \<open>Offline records of a receiver\<close>

type_synonym offline_rec = "int64 \<times> offline_message \<times> bool"

definition offline_rec :: "go_int \<Rightarrow> int64 \<Rightarrow> int64 \<Rightarrow> int64 \<times> message \<Rightarrow> offline_rec option" where
  "offline_rec cmd appid receiver e =
     (case Body (snd e) of
        Some (BOffline4 off) \<Rightarrow>
          if Cmd (snd e) = cmd \<and> off_Appid off = appid \<and> off_Receiver off = receiver
          then Some (fst e, off, and (Flag (snd e)) MESSAGE_FLAG_GROUP \<noteq> 0) else None
      | _ \<Rightarrow> None)"

definition records :: "go_int \<Rightarrow> int64 \<Rightarrow> int64 \<Rightarrow> (int64 \<times> message) list \<Rightarrow> offline_rec list" where
  "records cmd appid receiver log = rev (List.map_filter (offline_rec cmd appid receiver) log)"

definition head_id :: "offline_rec list \<Rightarrow> int64" where
  "head_id rs = (case rs of [] \<Rightarrow> 0 | (i, _) # _ \<Rightarrow> i)"

definition head_msgid :: "offline_rec list \<Rightarrow> int64" where
  "head_msgid rs = (case rs of [] \<Rightarrow> 0 | (_, off, _) # _ \<Rightarrow> off_Msgid off)"

definition peer_records :: "offline_rec list \<Rightarrow> offline_rec list" where
  "peer_records rs = filter (\<lambda>(_, _, grp). \<not> grp) rs"

definition batch_records :: "offline_rec list \<Rightarrow> offline_rec list" where
  "batch_records rs = filter (\<lambda>(_, off, _). sint (off_SeqId off) smod BATCH_SIZE = 0) rs"

text \<open>The index entries that a list of records stands for.\<close>

definition user_index_of :: "offline_rec list \<Rightarrow> user_index" where
  "user_index_of rs =
     \<lparr>ui_last_msgid = head_msgid rs, ui_last_id = head_id rs,
       ui_last_peer_id = head_id (peer_records rs), ui_last_batch_id = head_id (batch_records rs),
       ui_last_seq_id = word_of_nat (length rs)\<rparr>"

definition group_index_of :: "offline_rec list \<Rightarrow> group_index" where
  "group_index_of rs =
     \<lparr>gi_LastMsgid = head_msgid rs, gi_LastId = head_id rs,
       gi_LastBatchId = head_id (batch_records rs), gi_LastSeqId = word_of_nat (length rs)\<rparr>"

text \<open>
  Each record links to the one before it, to the last peer record and the last batch record before
  it, numbers the records from 1, and points to a message stored after the previous record and
  right before the record itself. \<open>peer\<close> is the link to the peer record: 0 in the records of a group.
\<close>

definition adjacent :: "int64 \<Rightarrow> int64 \<Rightarrow> (int64 \<times> message) list \<Rightarrow> bool" where
  "adjacent i j log \<longleftrightarrow> (i, j) \<in> set (zip (map fst log) (tl (map fst log)))"

fun chained ::
  "(offline_rec list \<Rightarrow> int64) \<Rightarrow> (int64 \<times> message) list \<Rightarrow> offline_rec list \<Rightarrow> bool"
where
  "chained peer log [] \<longleftrightarrow> True"
| "chained peer log ((i, off, grp) # rs) \<longleftrightarrow>
     off_PrevMsgid off = head_id rs \<and> off_PrevPeerMsgid off = peer rs
     \<and> off_PrevBatchMsgid off = head_id (batch_records rs)
     \<and> off_SeqId off = word_of_nat (length rs) + 1
     \<and> sint (head_id rs) < sint (off_Msgid off) \<and> sint (off_Msgid off) < sint i
     \<and> adjacent (off_Msgid off) i log
     \<and> chained peer log rs"

definition peer_link :: "offline_rec list \<Rightarrow> int64" where
  "peer_link rs = head_id (peer_records rs)"

definition group_link :: "offline_rec list \<Rightarrow> int64" where
  "group_link rs = 0"

section \<open>The invariant\<close>

definition reset_index :: "'a storage_scheme \<Rightarrow> 'a storage_scheme" where
  "reset_index s =
     s\<lparr>message_index := Map.empty, group_message_index := Map.empty, last_id := 0\<rparr>"

definition storage_ok :: "message list list \<Rightarrow> 'a storage_scheme \<Rightarrow> bool" where
  "storage_ok bs s \<longleftrightarrow>
     layout bs s
     \<and> replay execMessage (log_of bs) (reset_index s) = Ret s
     \<and> (\<forall>a u. chained peer_link (log_of bs) (records MSG_OFFLINE_V4 a u (log_of bs))
          \<and> getPeerIndex a u s = user_index_of (records MSG_OFFLINE_V4 a u (log_of bs)))
     \<and> (\<forall>a g. chained group_link (log_of bs) (records MSG_GROUP_OFFLINE a g (log_of bs))
          \<and> getGroupIndex a g s = group_index_of (records MSG_GROUP_OFFLINE a g (log_of bs)))"

text \<open>A message that is no offline record: what the clients of the server save.\<close>

definition plain :: "message \<Rightarrow> bool" where
  "plain m \<longleftrightarrow> storable m \<and> Cmd m \<notin> set
     [MSG_OFFLINE, MSG_OFFLINE_V2, MSG_OFFLINE_V3, MSG_OFFLINE_V4, MSG_GROUP_OFFLINE, MSG_GROUP_IM_LIST]"

lemma storage_okD:
  assumes "storage_ok bs s"
  shows "layout bs s" "replay execMessage (log_of bs) (reset_index s) = Ret s"
    "chained peer_link (log_of bs) (records MSG_OFFLINE_V4 a u (log_of bs))"
    "getPeerIndex a u s = user_index_of (records MSG_OFFLINE_V4 a u (log_of bs))"
    "chained group_link (log_of bs) (records MSG_GROUP_OFFLINE a g (log_of bs))"
    "getGroupIndex a g s = group_index_of (records MSG_GROUP_OFFLINE a g (log_of bs))"
  using assms by (simp_all add: storage_ok_def)

lemma records_snoc:
  "records cmd a r (log @ [e]) =
     (case offline_rec cmd a r e of None \<Rightarrow> records cmd a r log
      | Some x \<Rightarrow> x # records cmd a r log)"
  by (simp add: records_def List.map_filter_def split: option.split)

lemma offline_rec_other: "Cmd m \<noteq> cmd \<Longrightarrow> offline_rec cmd a r (i, m) = None"
  by (simp add: offline_rec_def split: option.split body.split)

lemma plain_storable: "plain m \<Longrightarrow> storable m"
  by (simp add: plain_def)

lemma records_plain:
  "plain m \<Longrightarrow> cmd = MSG_OFFLINE_V4 \<or> cmd = MSG_GROUP_OFFLINE \<Longrightarrow>
   records cmd a r (log @ [(i, m)]) = records cmd a r log"
  by (auto simp: records_snoc plain_def offline_rec_other)

lemma adjacent_append: "adjacent i j log \<Longrightarrow> adjacent i j (log @ log')"
proof (induction log)
  case (Cons e log)
  then show ?case by (cases log) (auto simp: adjacent_def)
qed (simp add: adjacent_def)

lemma adjacent_snoc: "adjacent i j (log @ [(i, m), (j, n)])"
proof (induction log)
  case (Cons e log)
  then show ?case by (cases log) (auto simp: adjacent_def)
qed (simp add: adjacent_def)

lemma adjacent_split:
  assumes "adjacent i j log"
  obtains xs m n ys where "log = xs @ (i, m) # (j, n) # ys"
  using assms
proof (induction log arbitrary: thesis)
  case (Cons e log)
  show ?case
  proof (cases log)
    case Nil with Cons.prems show ?thesis by (simp add: adjacent_def)
  next
    case (Cons d ds)
    with Cons.prems(2) consider "i = fst e" "j = fst d" | "adjacent i j log"
      by (auto simp: adjacent_def)
    then show ?thesis
    proof cases
      case 1 with Cons show ?thesis by (intro Cons.prems(1) [of "[]" "snd e" "snd d" ds]) auto
    next
      case 2
      then obtain xs m n ys where "log = xs @ (i, m) # (j, n) # ys" by (rule Cons.IH [rotated])
      then show ?thesis by (intro Cons.prems(1) [of "e # xs" m n ys]) auto
    qed
  qed
qed (simp add: adjacent_def)

lemma chained_mono: "chained p log rs \<Longrightarrow> chained p (log @ log') rs"
  by (induction p log rs rule: chained.induct) (auto simp: adjacent_append)

section \<open>Replaying\<close>

lemma Cmd_canon [simp]: "Cmd (canon m) = Cmd m"
  by (cases m) simp

lemma exec_plain:
  assumes "plain m"
  shows "execMessage (canon m) i s = Ret s"
  using assms by (auto simp: plain_def execMessage_def execPeerMessage_def execGroupMessage_def)

text \<open>Executing touches the two indexes and \<open>last_id\<close> only, and does not look at the other fields.\<close>

definition with_log :: "'b storage_scheme \<Rightarrow> 'a storage_scheme \<Rightarrow> 'a storage_scheme" where
  "with_log f s =
     s\<lparr>disk := disk f, dirty := dirty f, block_NO := block_NO f, files := files f,
       last_saved_id := last_saved_id f, ewt := ewt f, peer_index_file := peer_index_file f,
       group_index_file := group_index_file f\<rparr>"

lemma with_log_index [simp]:
  "getPeerIndex a u (with_log f s) = getPeerIndex a u s"
  "getLastMessageID a u (with_log f s) = getLastMessageID a u s"
  "getGroupIndex a g (with_log f s) = getGroupIndex a g s"
  "setPeerIndex a u ui (with_log f s) = with_log f (setPeerIndex a u ui s)"
  "setGroupIndex a g gi (with_log f s) = with_log f (setGroupIndex a g gi s)"
  by (simp_all add: with_log_def getPeerIndex_def getLastMessageID_def getGroupIndex_def
      setPeerIndex_def setGroupIndex_def Let_def)

lemma exec_with_log: "execMessage m i (with_log f s) = go_map (with_log f) (execMessage m i s)"
  by (simp add: execMessage_def execPeerMessage_def execGroupMessage_def Let_def
      split: option.split body.split)

lemma replay_with_log:
  "replay execMessage log (with_log f s) = go_map (with_log f) (replay execMessage log s)"
proof (induction log arbitrary: s)
  case (Cons e log)
  then show ?case by (cases e; cases "execMessage (canon (snd e)) (fst e) s") (simp_all add: exec_with_log)
qed simp

lemma with_log_saved: "with_log (saved m bs s) s = saved m bs s"
  by (simp add: with_log_def saved_def)

lemma reset_saved: "reset_index (saved m bs s) = with_log (saved m bs s) (reset_index s)"
  by (simp add: with_log_def saved_def reset_index_def)

lemma reset_set [simp]:
  "reset_index (setPeerIndex a u ui s) = reset_index s"
  "reset_index (setGroupIndex a g gi s) = reset_index s"
  by (simp_all add: reset_index_def setPeerIndex_def setGroupIndex_def Let_def)

text \<open>Saving a plain message and then a record: the replay reaches the record in the live index.\<close>

lemma replay_saved:
  assumes "replay execMessage (log_of bs) (reset_index s) = Ret s"
  shows "replay execMessage (log_of bs) (reset_index (saved m bs' s)) = Ret (saved m bs' s)"
  using assms by (simp add: reset_saved replay_with_log with_log_saved)

lemma get_set_index [simp]:
  "getPeerIndex a u (setPeerIndex a' u' ui s) = (if a = a' \<and> u = u' then ui else getPeerIndex a u s)"
  "getGroupIndex a g (setGroupIndex a' g' gi s) = (if a = a' \<and> g = g' then gi else getGroupIndex a g s)"
  "getPeerIndex a u (setGroupIndex a' g' gi s) = getPeerIndex a u s"
  "getGroupIndex a g (setPeerIndex a' u' ui s) = getGroupIndex a g s"
  by (simp_all add: getPeerIndex_def getGroupIndex_def setPeerIndex_def setGroupIndex_def Let_def)

lemma get_index_saved [simp]:
  "getPeerIndex a u (saved m bs s) = getPeerIndex a u s"
  "getGroupIndex a g (saved m bs s) = getGroupIndex a g s"
  by (simp_all add: getPeerIndex_def getGroupIndex_def saved_def)

lemma layout_set [simp]:
  "layout bs (setPeerIndex a u ui s) = layout bs s" "layout bs (setGroupIndex a g gi s) = layout bs s"
  "layout bs (s\<lparr>last_id := i\<rparr>) = layout bs s" "layout bs (reset_index t) = layout bs t"
  by (simp_all add: layout_def cache_ok_def setPeerIndex_def setGroupIndex_def reset_index_def Let_def)

section \<open>Ids of records\<close>

lemma offline_rec_Some:
  "offline_rec cmd a r (i, m) = Some (j, off, g) \<longleftrightarrow>
     j = i \<and> Cmd m = cmd \<and> Body m = Some (BOffline4 off) \<and> off_Appid off = a
     \<and> off_Receiver off = r \<and> g = (and (Flag m) MESSAGE_FLAG_GROUP \<noteq> 0)"
proof (cases "Body m")
  case (Some x)
  then show ?thesis by (cases x) (auto simp: offline_rec_def)
qed (simp add: offline_rec_def)

lemma records_in_log:
  "(i, off, g) \<in> set (records cmd a r log) \<Longrightarrow>
   \<exists>m. (i, m) \<in> set log \<and> Cmd m = cmd \<and> Body m = Some (BOffline4 off)
     \<and> off_Appid off = a \<and> off_Receiver off = r \<and> g = (and (Flag m) MESSAGE_FLAG_GROUP \<noteq> 0)"
  by (force simp: records_def List.map_filter_def offline_rec_Some)

lemma head_id_before:
  assumes "blocks_ok bs" "log_of bs = log @ [(i, m)]"
  shows "sint (head_id (records cmd a r log)) < sint i"
proof (cases "records cmd a r log")
  case Nil
  then show ?thesis using log_of_bounds(1) [OF assms(1), of i m] assms(2) by (simp add: head_id_def)
next
  case (Cons x xs)
  obtain j off g where x: "x = (j, off, g)" by (cases x)
  then obtain m' where "(j, m') \<in> set log"
    using records_in_log [of j off g cmd a r log] Cons by auto
  then show ?thesis using sorted_log_of [OF assms(1)] x Cons assms(2)
    by (auto simp: head_id_def sorted_wrt_append)
qed

section \<open>Saving a message for a user\<close>

definition record_message :: "go_int \<Rightarrow> go_int \<Rightarrow> offline_message \<Rightarrow> message" where
  "record_message cmd flag off = Message cmd 0 0 flag (Some (BOffline4 off)) None"

lemma storable_record:
  "cmd = MSG_OFFLINE_V4 \<or> cmd = MSG_GROUP_OFFLINE \<Longrightarrow> flag = 0 \<or> flag = MESSAGE_FLAG_GROUP \<Longrightarrow>
   storable (record_message cmd flag off)"
  by (auto simp: storable_def record_message_def header_ok_def creator_def core_creators_def
      route_creators_def storage_creators_def msg_ToData_def off4_ToData_def)

lemma canon_record [simp]: "canon (record_message cmd flag off) = record_message cmd flag off"
  by (simp add: record_message_def)

lemma records_record:
  "records cmd a r (log @ [(i, record_message cmd' flag off)]) =
     (if cmd = cmd' \<and> off_Appid off = a \<and> off_Receiver off = r
      then (i, off, and flag MESSAGE_FLAG_GROUP \<noteq> 0) # records cmd a r log else records cmd a r log)"
  by (auto simp: records_snoc offline_rec_def record_message_def)

lemma length_add_message: "length (add_message m bs) \<le> length bs + 1"
  by (cases bs) (simp_all add: add_message_def)

text \<open>
  Both kinds of save store a plain message \<open>m\<close> and then a record that points to it: the calls, and
  the log they leave.
\<close>

lemma two_saves:
  assumes ok: "storage_ok bs s" and m: "plain m" and room: "length bs + 2 \<le> 2 ^ 36"
    and cmd: "cmd = MSG_OFFLINE_V4 \<or> cmd = MSG_GROUP_OFFLINE"
    and flag: "flag = 0 \<or> flag = MESSAGE_FLAG_GROUP"
    and rec: "rec = record_message cmd flag off"
    and bs1: "bs1 = add_message m bs" and bs2: "bs2 = add_message rec bs1"
    and i: "i = next_id m bs" and j: "j = next_id rec bs1"
    and s1: "s1 = saved m bs s" and s2: "s2 = saved rec bs1 s1"
  shows "saveMessage m s = Ret (i, s1)" "saveMessage rec s1 = Ret (j, s2)" "layout bs2 s2"
    "log_of bs2 = log_of bs @ [(i, m), (j, rec)]"
    "replay execMessage (log_of bs2) (reset_index s2) = execMessage rec j s2"
    "sint (head_id (records c a r (log_of bs))) < sint i" "sint i < sint j"
proof -
  have ne: "bs \<noteq> []" "bs1 \<noteq> []"
    using storage_okD(1) [OF ok] by (auto simp: layout_def blocks_ok_def add_message_def bs1)
  have first: "saveMessage m s = Ret (i, s1)" "layout bs1 s1"
    using saveMessage_layout [OF storage_okD(1) [OF ok] plain_storable [OF m]] room
    by (auto simp: i s1 bs1)
  have "length bs1 < 2 ^ 36" using room ne(1) by (auto simp: add_message_def bs1)
  then have second: "saveMessage rec s1 = Ret (j, s2)" "layout bs2 s2"
    using saveMessage_layout [OF first(2), of rec] storable_record [OF cmd flag]
    by (auto simp: j s2 bs2 rec)
  have log1: "log_of bs1 = log_of bs @ [(i, m)]"
    using ne(1) by (simp add: log_of_add_message bs1 i)
  show log2: "log_of bs2 = log_of bs @ [(i, m), (j, rec)]"
    using ne(2) by (simp add: log_of_add_message log1 bs2 j)
  have "canon rec = rec" by (simp add: rec)
  then show "replay execMessage (log_of bs2) (reset_index s2) = execMessage rec j s2"
    using replay_saved [OF replay_saved [OF storage_okD(2) [OF ok], of m bs], of rec bs1]
    by (cases "execMessage rec j s2") (simp_all add: log2 replay_append exec_plain [OF m] s2 s1)
  have b: "blocks_ok bs1" "blocks_ok bs2" using first(2) second(2) by (simp_all add: layout_def)
  show "sint (head_id (records c a r (log_of bs))) < sint i" using b(1) log1 by (rule head_id_before)
  show "sint i < sint j" using sorted_log_of [OF b(2)] by (simp add: log2 sorted_wrt_append)
  show "saveMessage m s = Ret (i, s1)" "saveMessage rec s1 = Ret (j, s2)" "layout bs2 s2"
    by fact+
qed

lemma records_two_saves:
  assumes m: "plain m" and flag: "flag = 0 \<or> flag = MESSAGE_FLAG_GROUP"
    and c: "c = MSG_OFFLINE_V4 \<or> c = MSG_GROUP_OFFLINE"
  shows "records c a r (log @ [(i, m), (j, record_message cmd flag off)]) =
     (if c = cmd \<and> off_Appid off = a \<and> off_Receiver off = r
      then (j, off, flag \<noteq> 0) # records c a r log else records c a r log)"
proof -
  have "records c a r (log @ [(i, m)]) = records c a r log" by (rule records_plain [OF m c])
  with flag records_record [of c a r "log @ [(i, m)]" j cmd flag off] show ?thesis by auto
qed

text \<open>A record filled from the index entry of its receiver heads a longer chain.\<close>

lemma chained_new:
  assumes "chained p log rs" and "off_Msgid off = i" "off_PrevMsgid off = head_id rs"
    "off_PrevPeerMsgid off = p rs" "off_PrevBatchMsgid off = head_id (batch_records rs)"
    "off_SeqId off = word_of_nat (length rs) + 1" "sint (head_id rs) < sint i" "sint i < sint j"
  shows "chained p (log @ [(i, m), (j, rec)]) ((j, off, g) # rs)"
  using assms chained_mono [OF assms(1)] by (auto simp: adjacent_snoc)

lemma exec_peer_record:
  "flag = 0 \<or> flag = MESSAGE_FLAG_GROUP \<Longrightarrow>
   execMessage (record_message MSG_OFFLINE_V4 flag off) i s =
     (let index = getPeerIndex (off_Appid off) (off_Receiver off) s; seq = ui_last_seq_id index + 1
      in Ret (setPeerIndex (off_Appid off) (off_Receiver off)
           \<lparr>ui_last_msgid = off_Msgid off, ui_last_id = i,
             ui_last_peer_id = (if flag = 0 then i else ui_last_peer_id index),
             ui_last_batch_id = next_batch seq i (ui_last_batch_id index), ui_last_seq_id = seq\<rparr> s))"
  by (auto simp: execMessage_def execPeerMessage_def execGroupMessage_def record_message_def
      offline_of_def Let_def)

lemma exec_group_record:
  "execMessage (record_message MSG_GROUP_OFFLINE flag off) i s =
     (let index = getGroupIndex (off_Appid off) (off_Receiver off) s; seq = gi_LastSeqId index + 1
      in Ret (setGroupIndex (off_Appid off) (off_Receiver off)
           \<lparr>gi_LastMsgid = off_Msgid off, gi_LastId = i,
             gi_LastBatchId = next_batch seq i (gi_LastBatchId index), gi_LastSeqId = seq\<rparr> s))"
  by (auto simp: execMessage_def execPeerMessage_def execGroupMessage_def record_message_def
      offline_of_def Let_def)

lemma index_of_Cons:
  assumes "off_SeqId off = word_of_nat (length rs) + 1"
  shows "user_index_of ((i, off, grp) # rs) =
    \<lparr>ui_last_msgid = off_Msgid off, ui_last_id = i,
      ui_last_peer_id = (if grp then ui_last_peer_id (user_index_of rs) else i),
      ui_last_batch_id = next_batch (off_SeqId off) i (ui_last_batch_id (user_index_of rs)),
      ui_last_seq_id = off_SeqId off\<rparr>"
    "group_index_of ((i, off, grp) # rs) =
    \<lparr>gi_LastMsgid = off_Msgid off, gi_LastId = i,
      gi_LastBatchId = next_batch (off_SeqId off) i (gi_LastBatchId (group_index_of rs)),
      gi_LastSeqId = off_SeqId off\<rparr>"
  using assms
  by (simp_all add: user_index_of_def group_index_of_def head_msgid_def head_id_def peer_records_def
      batch_records_def next_batch_def)

definition peer_record ::
  "int64 \<Rightarrow> int64 \<Rightarrow> int64 \<Rightarrow> int64 \<Rightarrow> user_index \<Rightarrow> offline_message"
where
  "peer_record a u dev msgid ui =
     \<lparr>off_Appid = a, off_Receiver = u, off_Msgid = msgid, off_DeviceId = dev,
       off_SeqId = ui_last_seq_id ui + 1, off_PrevMsgid = ui_last_id ui,
       off_PrevPeerMsgid = ui_last_peer_id ui, off_PrevBatchMsgid = ui_last_batch_id ui\<rparr>"

definition group_record ::
  "int64 \<Rightarrow> int64 \<Rightarrow> int64 \<Rightarrow> int64 \<Rightarrow> group_index \<Rightarrow> offline_message"
where
  "group_record a g dev msgid gi =
     \<lparr>off_Appid = a, off_Receiver = g, off_Msgid = msgid, off_DeviceId = dev,
       off_SeqId = gi_LastSeqId gi + 1, off_PrevMsgid = gi_LastId gi,
       off_PrevPeerMsgid = 0, off_PrevBatchMsgid = gi_LastBatchId gi\<rparr>"

definition group_flag :: "message \<Rightarrow> go_int" where
  "group_flag m = (if isGroupMessage m then MESSAGE_FLAG_GROUP else 0)"

theorem SavePeerMessage_ok:
  assumes ok: "storage_ok bs s" and m: "plain m" and room: "length bs + 2 \<le> 2 ^ 36"
  obtains s' bs' j where
    "SavePeerMessage a u dev m s
      = Ret ((next_id m bs, head_msgid (records MSG_OFFLINE_V4 a u (log_of bs))), s')"
    "storage_ok bs' s'" "length bs' \<le> length bs + 2"
    "log_of bs' = log_of bs @ [(next_id m bs, m), (j, record_message MSG_OFFLINE_V4 (group_flag m)
       (peer_record a u dev (next_id m bs) (user_index_of (records MSG_OFFLINE_V4 a u (log_of bs)))))]"
proof -
  define R where "R = records MSG_OFFLINE_V4 a u (log_of bs)"
  define i where "i = next_id m bs"
  define off where "off = peer_record a u dev i (user_index_of R)"
  define rec where "rec = record_message MSG_OFFLINE_V4 (group_flag m) off"
  define bs1 where "bs1 = add_message m bs"
  define bs2 where "bs2 = add_message rec bs1"
  define j where "j = next_id rec bs1"
  define s1 where "s1 = saved m bs s"
  define s2 where "s2 = saved rec bs1 s1"
  define s' where "s' = setPeerIndex a u (user_index_of ((j, off, group_flag m \<noteq> 0) # R)) s2"
  have f: "group_flag m = 0 \<or> group_flag m = MESSAGE_FLAG_GROUP" by (simp add: group_flag_def)
  note ctx = two_saves [OF ok m room disjI1 [OF refl] f rec_def bs1_def bs2_def i_def j_def s1_def s2_def]
  have idx: "getPeerIndex a u s1 = user_index_of R" "getPeerIndex a u s2 = user_index_of R"
    using storage_okD(4) [OF ok] by (simp_all add: s1_def s2_def R_def)
  have last: "ui_last_msgid (user_index_of R) = head_msgid R"
    by (simp add: user_index_of_def)
  have seq: "off_SeqId off = word_of_nat (length R) + 1"
    by (simp add: off_def peer_record_def user_index_of_def)
  have exec: "execMessage rec j s2 = Ret s'"
    unfolding rec_def exec_peer_record [OF f] s'_def index_of_Cons(1) [OF seq]
    by (simp add: off_def peer_record_def idx Let_def)
  have "chained peer_link (log_of bs) R" using storage_okD(3) [OF ok] by (simp add: R_def)
  then have new: "chained peer_link (log_of bs2) ((j, off, group_flag m \<noteq> 0) # R)"
    unfolding ctx(4) using ctx(6) [of MSG_OFFLINE_V4 a u] ctx(7) seq
    by (intro chained_new)
      (simp_all add: off_def peer_record_def user_index_of_def peer_link_def R_def [symmetric])
  have old: "chained p (log_of bs2) rs" if "chained p (log_of bs) rs" for p rs
    using that unfolding ctx(4) by (rule chained_mono)
  note recs = records_two_saves [OF m f, of _ _ _ "log_of bs" i j MSG_OFFLINE_V4 off, folded rec_def ctx(4)]
  have oar: "off_Appid off = a" "off_Receiver off = u" by (simp_all add: off_def peer_record_def)
  have "storage_ok bs2 s'"
    unfolding storage_ok_def
  proof (intro conjI allI)
    show "layout bs2 s'" using ctx(3) by (simp add: s'_def)
    show "replay execMessage (log_of bs2) (reset_index s') = Ret s'"
      using ctx(5) exec by (simp add: s'_def)
  qed (use storage_okD [OF ok] new old in \<open>auto simp: recs oar s'_def s2_def s1_def R_def\<close>)
  moreover have "SavePeerMessage a u dev m s = Ret ((i, head_msgid R), s')"
    using ctx(1,2) unfolding SavePeerMessage_def s'_def index_of_Cons(1) [OF seq] last [symmetric]
    by (simp add: idx Let_def rec_def record_message_def off_def peer_record_def group_flag_def)
  moreover have "length bs2 \<le> length bs + 2"
    using length_add_message [of m bs] length_add_message [of rec bs1] by (simp add: bs2_def bs1_def)
  ultimately show thesis using that ctx(4) by (simp add: i_def R_def rec_def off_def)
qed

section \<open>Saving a message for a group\<close>

theorem SaveGroupMessage_ok:
  assumes ok: "storage_ok bs s" and m: "plain m" and room: "length bs + 2 \<le> 2 ^ 36"
  obtains s' bs' j where
    "SaveGroupMessage a g dev m s
      = Ret ((next_id m bs, head_msgid (records MSG_GROUP_OFFLINE a g (log_of bs))), s')"
    "storage_ok bs' s'" "length bs' \<le> length bs + 2"
    "log_of bs' = log_of bs @ [(next_id m bs, m), (j, record_message MSG_GROUP_OFFLINE 0
       (group_record a g dev (next_id m bs) (group_index_of (records MSG_GROUP_OFFLINE a g (log_of bs)))))]"
proof -
  define R where "R = records MSG_GROUP_OFFLINE a g (log_of bs)"
  define i where "i = next_id m bs"
  define off where "off = group_record a g dev i (group_index_of R)"
  define rec where "rec = record_message MSG_GROUP_OFFLINE 0 off"
  define bs1 where "bs1 = add_message m bs"
  define bs2 where "bs2 = add_message rec bs1"
  define j where "j = next_id rec bs1"
  define s1 where "s1 = saved m bs s"
  define s2 where "s2 = saved rec bs1 s1"
  define s' where "s' = setGroupIndex a g (group_index_of ((j, off, False) # R)) s2"
  note f = disjI1 [OF refl, of "0 :: go_int" "0 = MESSAGE_FLAG_GROUP"]
  note ctx = two_saves [OF ok m room disjI2 [OF refl] f rec_def bs1_def bs2_def i_def j_def s1_def s2_def]
  have idx: "getGroupIndex a g s1 = group_index_of R" "getGroupIndex a g s2 = group_index_of R"
    using storage_okD(6) [OF ok] by (simp_all add: s1_def s2_def R_def)
  have last: "gi_LastMsgid (group_index_of R) = head_msgid R"
    by (simp add: group_index_of_def)
  have seq: "off_SeqId off = word_of_nat (length R) + 1"
    by (simp add: off_def group_record_def group_index_of_def)
  have exec: "execMessage rec j s2 = Ret s'"
    unfolding rec_def exec_group_record s'_def index_of_Cons(2) [OF seq]
    by (simp add: off_def group_record_def idx Let_def)
  have "chained group_link (log_of bs) R" using storage_okD(5) [OF ok] by (simp add: R_def)
  then have new: "chained group_link (log_of bs2) ((j, off, False) # R)"
    unfolding ctx(4) using ctx(6) [of MSG_GROUP_OFFLINE a g] ctx(7) seq
    by (intro chained_new)
      (simp_all add: off_def group_record_def group_index_of_def group_link_def R_def [symmetric])
  have old: "chained p (log_of bs2) rs" if "chained p (log_of bs) rs" for p rs
    using that unfolding ctx(4) by (rule chained_mono)
  note recs = records_two_saves [OF m f, of _ _ _ "log_of bs" i j MSG_GROUP_OFFLINE off, folded rec_def ctx(4)]
  have oar: "off_Appid off = a" "off_Receiver off = g" by (simp_all add: off_def group_record_def)
  have "storage_ok bs2 s'"
    unfolding storage_ok_def
  proof (intro conjI allI)
    show "layout bs2 s'" using ctx(3) by (simp add: s'_def)
    show "replay execMessage (log_of bs2) (reset_index s') = Ret s'"
      using ctx(5) exec by (simp add: s'_def)
  qed (use storage_okD [OF ok] new old in \<open>auto simp: recs oar s'_def s2_def s1_def R_def\<close>)
  moreover have "SaveGroupMessage a g dev m s = Ret ((i, head_msgid R), s')"
    using ctx(1,2) unfolding SaveGroupMessage_def s'_def index_of_Cons(2) [OF seq] last [symmetric]
    by (simp add: idx Let_def rec_def record_message_def off_def group_record_def)
  moreover have "length bs2 \<le> length bs + 2"
    using length_add_message [of m bs] length_add_message [of rec bs1] by (simp add: bs2_def bs1_def)
  ultimately show thesis using that ctx(4) by (simp add: i_def R_def rec_def off_def)
qed

end
