(* ===== verification/StorageLoad.thy ===== *)
theory StorageLoad
  imports StorageSpec
begin

text \<open>
  What the loads return in a state that satisfies \<open>storage_ok\<close>: every loop over the log ends, and
  returns a segment of the receiver's records, newest first, with the messages they point to.
\<close>

section \<open>Linked records\<close>

text \<open>\<open>next\<close> of each record is the id of the record that follows it in the list, 0 at its end.\<close>

fun linked ::
  "(offline_message \<Rightarrow> int64) \<Rightarrow> (int64 \<times> message) list \<Rightarrow> offline_rec list \<Rightarrow> bool"
where
  "linked next log [] \<longleftrightarrow> True"
| "linked next log ((i, off, grp) # rs) \<longleftrightarrow>
     next off = head_id rs
     \<and> (\<exists>m. (i, m) \<in> set log \<and> Body m = Some (BOffline4 off))
     \<and> off_Msgid off \<in> fst ` set log
     \<and> linked next log rs"

definition message_at :: "(int64 \<times> message) list \<Rightarrow> int64 \<Rightarrow> message" where
  "message_at log i = the (map_of log i)"

text \<open>The records after \<open>sync\<close>, and the messages a load makes of a list of records.\<close>

definition newer :: "int64 \<Rightarrow> offline_rec list \<Rightarrow> offline_rec list" where
  "newer sync rs = takeWhile (\<lambda>(_, off, _). sint sync < sint (off_Msgid off)) rs"

definition messages_of ::
  "(go_int \<Rightarrow> bool) \<Rightarrow> (int64 \<times> message) list \<Rightarrow> offline_rec list \<Rightarrow> emessage list"
where
  "messages_of wanted log rs =
     map (\<lambda>(_, off, _). (off_Msgid off, off_DeviceId off, canon (message_at log (off_Msgid off))))
       (filter (\<lambda>(_, off, _). wanted (Cmd (message_at log (off_Msgid off)))) rs)"

definition limited :: "int \<Rightarrow> 'a list \<Rightarrow> 'a list" where
  "limited n xs = (if n > 0 then take (nat n) xs else xs)"

lemma adjacent_member: "adjacent i j log \<Longrightarrow> i \<in> fst ` set log \<and> (\<exists>n. (j, n) \<in> set log)"
  by (erule adjacent_split) force

lemma chained_linked:
  assumes "chained p log rs"
    and "\<forall>(i, off, grp) \<in> set rs. \<exists>m. (i, m) \<in> set log \<and> Body m = Some (BOffline4 off)"
  shows "linked off_PrevMsgid log rs"
  using assms by (induction p log rs rule: chained.induct) (auto dest: adjacent_member)

text \<open>The links to batch records and to peer records skip the other records.\<close>

lemma chained_linked_batch:
  assumes "chained p log rs"
    and "\<forall>(i, off, grp) \<in> set rs. \<exists>m. (i, m) \<in> set log \<and> Body m = Some (BOffline4 off)"
  shows "linked off_PrevBatchMsgid log (batch_records rs)"
  using assms
  by (induction p log rs rule: chained.induct) (auto simp: batch_records_def dest: adjacent_member)

lemma chained_linked_peer:
  assumes "chained peer_link log rs"
    and "\<forall>(i, off, grp) \<in> set rs. \<exists>m. (i, m) \<in> set log \<and> Body m = Some (BOffline4 off)"
  shows "linked off_PrevPeerMsgid log (peer_records rs)"
  using assms
proof (induction rs)
  case (Cons r rs)
  obtain i off grp where r: "r = (i, off, grp)" by (cases r)
  have "linked off_PrevPeerMsgid log (peer_records rs)" using Cons by (simp add: r)
  with Cons.prems show ?case
    by (auto simp: r peer_records_def peer_link_def dest: adjacent_member)
qed (simp add: peer_records_def)

lemma records_stored:
  "\<forall>(i, off, grp) \<in> set (records cmd a r log). \<exists>m. (i, m) \<in> set log \<and> Body m = Some (BOffline4 off)"
  using records_in_log [of _ _ _ cmd a r log] by fast

section \<open>Single loads\<close>

lemma distinct_ids: "blocks_ok bs \<Longrightarrow> distinct (map fst (log_of bs))"
proof -
  assume "blocks_ok bs"
  then have "distinct (map sint (map fst (log_of bs)))"
    using sorted_log_of [of bs] by (simp only: strict_sorted_iff map_map comp_def)
  then show ?thesis by (rule distinct_map [THEN iffD1, THEN conjunct1])
qed

lemma message_at_eq: "blocks_ok bs \<Longrightarrow> (i, m) \<in> set (log_of bs) \<Longrightarrow> message_at (log_of bs) i = m"
  by (simp add: message_at_def distinct_ids)

lemma message_at_member:
  "blocks_ok bs \<Longrightarrow> i \<in> fst ` set (log_of bs) \<Longrightarrow> (i, message_at (log_of bs) i) \<in> set (log_of bs)"
  by (auto simp: message_at_eq)

lemma offline_canon: "Body m = Some (BOffline4 off) \<Longrightarrow> offline_of (canon m) = Some off"
  by (cases m) (simp add: offline_of_def)

lemma load_record:
  assumes "layout bs s" "linked nx (log_of bs) ((i, off, grp) # rs)"
  obtains c c' n where "LoadMessage i s = Ret (Some n, s\<lparr>files := c\<rparr>)" "offline_of n = Some off"
    "LoadMessage (off_Msgid off) (s\<lparr>files := c\<rparr>)
      = Ret (Some (canon (message_at (log_of bs) (off_Msgid off))), s\<lparr>files := c'\<rparr>)"
    "layout bs (s\<lparr>files := c\<rparr>)" "layout bs (s\<lparr>files := c'\<rparr>)" "0 < sint i" "0 < sint (off_Msgid off)"
proof -
  have b: "blocks_ok bs" using assms(1) by (simp add: layout_def)
  obtain m where m: "(i, m) \<in> set (log_of bs)" "Body m = Some (BOffline4 off)" using assms(2) by auto
  have d: "(off_Msgid off, message_at (log_of bs) (off_Msgid off)) \<in> set (log_of bs)"
    using assms(2) b by (intro message_at_member) auto
  obtain c where c: "LoadMessage i s = Ret (Some (canon m), s\<lparr>files := c\<rparr>)" "layout bs (s\<lparr>files := c\<rparr>)"
    using LoadMessage_layout [OF assms(1) m(1)] .
  obtain c' where c': "LoadMessage (off_Msgid off) (s\<lparr>files := c\<rparr>)
      = Ret (Some (canon (message_at (log_of bs) (off_Msgid off))), s\<lparr>files := c, files := c'\<rparr>)"
    "layout bs (s\<lparr>files := c, files := c'\<rparr>)"
    using LoadMessage_layout [OF c(2) d] .
  show thesis
    by (rule that [OF c(1) offline_canon [OF m(2)], of c'])
      (use c' c log_of_bounds(1) [OF b m(1)] log_of_bounds(1) [OF b d] in simp_all)
qed

text \<open>Position 0 holds the file header, which cannot be read as a message.\<close>

lemma be_enc_zero: "be_enc n 0 = replicate n 0"
  by (induction n) (simp_all flip: replicate_append_same)

lemma header_as_frame: "file_header = binWrite MAGIC @ WriteHeader F_VERSION 0 0 0 0 @ replicate 16 0"
proof -
  have "[0, 0, 0, 0 :: byte] = replicate 4 0" by (simp add: numeral_eq_Suc)
  moreover have "binWrite (0 :: int32) = replicate 4 0" by (simp add: binWrite_def be_enc_zero)
  moreover have "replicate 24 (0 :: byte) = replicate 4 0 @ replicate 4 0 @ replicate 16 0"
    by (simp flip: replicate_add)
  ultimately show ?thesis by (simp add: file_header_def WriteHeader_def)
qed

lemma ReadMessage_header: "\<exists>r. ReadMessage (file_of ms) = Ret (None, r)"
proof -
  have "sint (scast F_VERSION :: go_int) = 65536" by simp
  then have "read_frame (32 * 1024) False (WriteHeader F_VERSION 0 0 0 0 @ x) = (None, x)" for x
    by (simp add: read_frame_def ReadHeader_WriteHeader Let_def)
  then have "\<exists>r. ReadMessage (file_header @ x) = Ret (None, r)" for x
    by (simp add: header_as_frame ReadMessage_def ReceiveMessage_def ReceiveLimitMessage_def receive_with_def)
  then show ?thesis unfolding file_of_def .
qed

lemma load_zero: "blocks_ok bs \<Longrightarrow> load_at (disk_of bs) 0 = Ret None"
  using ReadMessage_header [of "bs ! 0"]
  by (auto simp: load_at_def disk_of_def getBlockNO_def getBlockOffset_def blocks_ok_def)

lemma LoadMessage_zero:
  assumes "layout bs s"
  obtains c where "LoadMessage 0 s = Ret (None, s\<lparr>files := c\<rparr>)" "layout bs (s\<lparr>files := c\<rparr>)"
proof -
  from assms have "cache_ok s" by (simp add: layout_def)
  then obtain c where "LoadMessage 0 s = go_map (\<lambda>msg. (msg, s\<lparr>files := c\<rparr>)) (load_at (disk s) 0)"
    "cache_ok (s\<lparr>files := c\<rparr>)" by (rule LoadMessage_eq)
  with assms load_zero [of bs] show thesis by (intro that [of c]) (auto simp: layout_def)
qed

section \<open>The loops\<close>

lemma newer_Cons:
  "newer sync ((i, off, grp) # rs) =
     (if sint (off_Msgid off) \<le> sint sync then [] else (i, off, grp) # newer sync rs)"
  by (simp add: newer_def not_less)

lemma newer_Nil [simp]: "newer sync [] = []"
  by (simp add: newer_def)

lemma messages_of_Cons:
  "messages_of wanted log ((i, off, grp) # rs) =
     (if wanted (Cmd (message_at log (off_Msgid off)))
      then (off_Msgid off, off_DeviceId off, canon (message_at log (off_Msgid off))) # messages_of wanted log rs
      else messages_of wanted log rs)"
  by (simp add: messages_of_def)

lemma messages_of_Nil [simp]: "messages_of wanted log [] = []"
  by (simp add: messages_of_def)

lemma head_id_Nil [simp]: "head_id [] = 0" and head_id_Cons [simp]: "head_id ((i, off, grp) # rs) = i"
  by (simp_all add: head_id_def)

lemma head_msgid_Nil [simp]: "head_msgid [] = 0"
  and head_msgid_Cons [simp]: "head_msgid ((i, off, grp) # rs) = off_Msgid off"
  by (simp_all add: head_msgid_def)

lemma limited_full: "limit > 0 \<Longrightarrow> int (length xs) = limit \<Longrightarrow> limited limit (xs @ ys) = xs"
  by (auto simp: limited_def)

lemma limited_short: "\<not> (limit > 0 \<and> int (length xs) \<ge> limit) \<Longrightarrow> limited limit xs = xs"
  by (auto simp: limited_def)

text \<open>\<open>lm\<close> is \<open>last_msgid\<close>: the message of the first record, once set.\<close>

definition first_msgid :: "int64 \<Rightarrow> offline_rec list \<Rightarrow> int64" where
  "first_msgid lm rs = (if lm = 0 then head_msgid rs else lm)"

lemma history_loop_linked:
  assumes "layout bs s" "linked off_PrevMsgid (log_of bs) rs"
    and "\<not> (limit > 0 \<and> int (length ms) \<ge> limit)"
  shows "\<exists>c. history_loop sync 0 limit (head_id rs) lm ms s =
      Some (Ret (limited limit (ms @ messages_of history_cmd (log_of bs) (newer sync rs)),
        first_msgid lm rs, s\<lparr>files := c\<rparr>)) \<and> layout bs (s\<lparr>files := c\<rparr>)"
  using assms
proof (induction rs arbitrary: lm ms s)
  case Nil
  then show ?case
    by (intro exI [of _ "files s"]) (simp add: history_loop.simps [of _ _ _ 0] first_msgid_def limited_short)
next
  case (Cons r rs)
  obtain i off grp where r: "r = (i, off, grp)" by (cases r)
  obtain c c' n where l: "LoadMessage i s = Ret (Some n, s\<lparr>files := c\<rparr>)" "offline_of n = Some off"
    "LoadMessage (off_Msgid off) (s\<lparr>files := c\<rparr>)
      = Ret (Some (canon (message_at (log_of bs) (off_Msgid off))), s\<lparr>files := c'\<rparr>)"
    "layout bs (s\<lparr>files := c\<rparr>)" "layout bs (s\<lparr>files := c'\<rparr>)" "0 < sint i" "0 < sint (off_Msgid off)"
    using load_record [OF Cons.prems(1)] Cons.prems(2) unfolding r by metis
  then have nz: "i \<noteq> 0" "off_Msgid off \<noteq> 0" by auto
  let ?m = "message_at (log_of bs) (off_Msgid off)"
  let ?ms = "if history_cmd (Cmd ?m) then ms @ [(off_Msgid off, off_DeviceId off, canon ?m)] else ms"
  let ?lm = "if lm = 0 then off_Msgid off else lm"
  note step = history_loop.simps [of sync 0 limit "head_id (r # rs)" lm ms s]
  show ?case
  proof (cases "sint (off_Msgid off) \<le> sint sync")
    case True
    with l nz Cons.prems(3) show ?thesis unfolding step
      by (intro exI [of _ c]) (simp add: r newer_Cons first_msgid_def limited_short Let_def)
  next
    case new: False
    show ?thesis
    proof (cases "history_cmd (Cmd ?m) \<and> limit > 0 \<and> int (length ?ms) \<ge> limit")
      case True
      then have "limited limit (?ms @ x) = ?ms" for x
        using Cons.prems(3) by (intro limited_full) auto
      moreover have "limit = 1 + int (length ms)" using True Cons.prems(3) by auto
      ultimately show ?thesis using True new l nz unfolding step
        by (intro exI [of _ c']) (simp add: r newer_Cons first_msgid_def messages_of_Cons Let_def)
    next
      case False
      then have "\<not> (limit > 0 \<and> int (length ?ms) \<ge> limit)" using Cons.prems(3) by auto
      moreover have "linked off_PrevMsgid (log_of bs) rs" "off_PrevMsgid off = head_id rs"
        using Cons.prems(2) by (simp_all add: r)
      ultimately show ?thesis
        using Cons.IH [OF l(5), of ?ms ?lm] False new l nz unfolding step
        by (auto simp: r newer_Cons first_msgid_def messages_of_Cons Let_def)
    qed
  qed
qed

lemma latest_loop_linked:
  assumes "layout bs s" "linked off_PrevMsgid (log_of bs) rs" "int (length ms) < limit"
  shows "\<exists>c. latest_loop limit (head_id rs) ms s =
      Some (Ret (limited limit (ms @ messages_of latest_cmd (log_of bs) rs), s\<lparr>files := c\<rparr>))
      \<and> layout bs (s\<lparr>files := c\<rparr>)"
  using assms
proof (induction rs arbitrary: ms s)
  case Nil
  then show ?case
    by (intro exI [of _ "files s"]) (simp add: latest_loop.simps [of _ 0] limited_short)
next
  case (Cons r rs)
  obtain i off grp where r: "r = (i, off, grp)" by (cases r)
  obtain c c' n where l: "LoadMessage i s = Ret (Some n, s\<lparr>files := c\<rparr>)" "offline_of n = Some off"
    "LoadMessage (off_Msgid off) (s\<lparr>files := c\<rparr>)
      = Ret (Some (canon (message_at (log_of bs) (off_Msgid off))), s\<lparr>files := c'\<rparr>)"
    "layout bs (s\<lparr>files := c\<rparr>)" "layout bs (s\<lparr>files := c'\<rparr>)" "0 < sint i" "0 < sint (off_Msgid off)"
    using load_record [OF Cons.prems(1)] Cons.prems(2) unfolding r by metis
  then have nz: "i \<noteq> 0" by auto
  let ?m = "message_at (log_of bs) (off_Msgid off)"
  let ?ms = "if latest_cmd (Cmd ?m) then ms @ [(off_Msgid off, off_DeviceId off, canon ?m)] else ms"
  note step = latest_loop.simps [of limit "head_id (r # rs)" ms s]
  show ?case
  proof (cases "latest_cmd (Cmd ?m) \<and> int (length ?ms) \<ge> limit")
    case True
    with Cons.prems(3) have "limit = 1 + int (length ms)" by auto
    moreover have "limited limit (?ms @ x) = ?ms" for x
      using True Cons.prems(3) by (intro limited_full) auto
    ultimately show ?thesis using True l nz unfolding step
      by (intro exI [of _ c']) (simp add: r messages_of_Cons Let_def)
  next
    case False
    then have "int (length ?ms) < limit" using Cons.prems(3) by auto
    moreover have "linked off_PrevMsgid (log_of bs) rs" "off_PrevMsgid off = head_id rs"
      using Cons.prems(2) by (simp_all add: r)
    ultimately show ?thesis
      using Cons.IH [OF l(5), of ?ms] False l nz unfolding step
      by (auto simp: r messages_of_Cons Let_def)
  qed
qed

lemma batch_loop_linked:
  assumes "layout bs s" "linked off_PrevBatchMsgid (log_of bs) rs" "0 \<le> sint sync"
    and "\<And>i off grp. (i, off, grp) \<in> set rs \<Longrightarrow> sint (off_Msgid off) < sint i"
  shows "\<exists>c. batch_loop sync 0 (head_id rs) ids s =
      Some (Ret (ids @ map fst (newer sync rs), s\<lparr>files := c\<rparr>)) \<and> layout bs (s\<lparr>files := c\<rparr>)"
  using assms
proof (induction rs arbitrary: ids s)
  case Nil
  then show ?case
    by (intro exI [of _ "files s"]) (simp add: batch_loop.simps [of _ _ 0])
next
  case (Cons r rs)
  obtain i off grp where r: "r = (i, off, grp)" by (cases r)
  obtain c c' n where l: "LoadMessage i s = Ret (Some n, s\<lparr>files := c\<rparr>)" "offline_of n = Some off"
    "layout bs (s\<lparr>files := c\<rparr>)"
    using load_record [OF Cons.prems(1)] Cons.prems(2) unfolding r by metis
  have less: "sint (off_Msgid off) < sint i" using Cons.prems(4) [of i off grp] by (simp add: r)
  note step = batch_loop.simps [of sync 0 "head_id (r # rs)" ids s]
  show ?case
  proof (cases "sint (off_Msgid off) \<le> sint sync")
    case True
    then show ?thesis
    proof (cases "sint i \<le> sint sync")
      case True
      with \<open>sint (off_Msgid off) \<le> sint sync\<close> Cons.prems(1) show ?thesis unfolding step
        by (intro exI [of _ "files s"]) (simp add: r newer_Cons)
    next
      case False
      with \<open>sint (off_Msgid off) \<le> sint sync\<close> l show ?thesis unfolding step
        by (intro exI [of _ c]) (simp add: r newer_Cons)
    qed
  next
    case False
    have "linked off_PrevBatchMsgid (log_of bs) rs" "off_PrevBatchMsgid off = head_id rs"
      "\<And>i off grp. (i, off, grp) \<in> set rs \<Longrightarrow> sint (off_Msgid off) < sint i"
      using Cons.prems(2,4) by (auto simp: r)
    with Cons.IH [OF l(3) _ Cons.prems(3), of "ids @ [i]"] False less l show ?thesis unfolding step
      by (auto simp: r newer_Cons)
  qed
qed

lemma v3_loop_linked:
  assumes "layout bs s" "linked (if is_peer then off_PrevPeerMsgid else off_PrevMsgid) (log_of bs) rs"
    and "\<not> (limit > 0 \<and> int (length ms) \<ge> limit)"
  shows "\<exists>c. v3_loop sync limit is_peer (head_id rs) lm lo ms s =
      Some (Ret (limited limit (ms @ messages_of history_cmd (log_of bs) (newer sync rs)),
        first_msgid lm rs, if lm = 0 \<and> rs \<noteq> [] then head_id rs else lo, s\<lparr>files := c\<rparr>))
      \<and> layout bs (s\<lparr>files := c\<rparr>)"
  using assms
proof (induction rs arbitrary: lm lo ms s)
  case Nil
  obtain c where "LoadMessage 0 s = Ret (None, s\<lparr>files := c\<rparr>)" "layout bs (s\<lparr>files := c\<rparr>)"
    using LoadMessage_zero [OF Nil.prems(1)] .
  with Nil.prems(3) show ?case
    by (intro exI [of _ c]) (simp add: v3_loop.simps [of _ _ _ 0] first_msgid_def limited_short)
next
  case (Cons r rs)
  obtain i off grp where r: "r = (i, off, grp)" by (cases r)
  obtain c c' n where l: "LoadMessage i s = Ret (Some n, s\<lparr>files := c\<rparr>)" "offline_of n = Some off"
    "LoadMessage (off_Msgid off) (s\<lparr>files := c\<rparr>)
      = Ret (Some (canon (message_at (log_of bs) (off_Msgid off))), s\<lparr>files := c'\<rparr>)"
    "layout bs (s\<lparr>files := c\<rparr>)" "layout bs (s\<lparr>files := c'\<rparr>)" "0 < sint i" "0 < sint (off_Msgid off)"
    using load_record [OF Cons.prems(1)] Cons.prems(2) unfolding r by metis
  then have nz: "i \<noteq> 0" "off_Msgid off \<noteq> 0" by auto
  let ?m = "message_at (log_of bs) (off_Msgid off)"
  let ?ms = "if history_cmd (Cmd ?m) then ms @ [(off_Msgid off, off_DeviceId off, canon ?m)] else ms"
  let ?lm = "if lm = 0 then off_Msgid off else lm"
  let ?lo = "if lm = 0 then i else lo"
  note step = v3_loop.simps [of sync limit is_peer "head_id (r # rs)" lm lo ms s]
  show ?case
  proof (cases "sint (off_Msgid off) \<le> sint sync")
    case True
    with l nz Cons.prems(3) show ?thesis unfolding step
      by (intro exI [of _ c]) (simp add: r newer_Cons first_msgid_def limited_short Let_def)
  next
    case new: False
    show ?thesis
    proof (cases "history_cmd (Cmd ?m) \<and> limit > 0 \<and> int (length ?ms) \<ge> limit")
      case True
      then have "limited limit (?ms @ x) = ?ms" for x
        using Cons.prems(3) by (intro limited_full) auto
      moreover have "limit = 1 + int (length ms)" using True Cons.prems(3) by auto
      ultimately show ?thesis using True new l nz unfolding step
        by (intro exI [of _ c']) (simp add: r newer_Cons first_msgid_def messages_of_Cons Let_def)
    next
      case False
      then have "\<not> (limit > 0 \<and> int (length ?ms) \<ge> limit)" using Cons.prems(3) by auto
      moreover have "linked (if is_peer then off_PrevPeerMsgid else off_PrevMsgid) (log_of bs) rs"
        "(if is_peer then off_PrevPeerMsgid off else off_PrevMsgid off) = head_id rs"
        using Cons.prems(2) by (auto simp: r split: if_splits)
      ultimately show ?thesis
        using Cons.IH [OF l(5), of ?ms ?lm ?lo] False new l nz unfolding step
        by (auto simp: r newer_Cons first_msgid_def messages_of_Cons Let_def)
    qed
  qed
qed

section \<open>Loading a user's history\<close>

lemma storage_ok_with_log:
  assumes ok: "storage_ok bs s" and l: "layout bs (with_log f s)"
  shows "storage_ok bs (with_log f s)"
proof -
  have "reset_index (with_log f s) = with_log f (reset_index s)"
    by (simp add: with_log_def reset_index_def)
  then have "replay execMessage (log_of bs) (reset_index (with_log f s)) = Ret (with_log f s)"
    by (simp add: replay_with_log storage_okD(2) [OF ok])
  then show ?thesis using ok l by (simp add: storage_ok_def)
qed

lemma storage_ok_files:
  assumes "storage_ok bs s" "layout bs (s\<lparr>files := c\<rparr>)"
  shows "storage_ok bs (s\<lparr>files := c\<rparr>)"
proof -
  have "with_log (s\<lparr>files := c\<rparr>) s = s\<lparr>files := c\<rparr>" by (simp add: with_log_def)
  with storage_ok_with_log [OF assms(1), of "s\<lparr>files := c\<rparr>"] assms(2) show ?thesis by simp
qed

lemma GetLastMessageID_eq:
  "fst (GetLastMessageID a u s) = ui_last_id (getPeerIndex a u s)"
  by (simp add: GetLastMessageID_def getLastMessageID_def getPeerIndex_def ui_zero_def split: option.split)

lemma records_linked:
  assumes "storage_ok bs s"
  shows "linked off_PrevMsgid (log_of bs) (records MSG_OFFLINE_V4 a u (log_of bs))"
    "linked off_PrevMsgid (log_of bs) (records MSG_GROUP_OFFLINE a u (log_of bs))"
    "linked off_PrevBatchMsgid (log_of bs) (batch_records (records MSG_OFFLINE_V4 a u (log_of bs)))"
  using storage_okD(3,5) [OF assms] records_stored
  by (blast intro: chained_linked chained_linked_batch)+

lemma LoadHistoryMessages_ok:
  fixes a u :: int64
  assumes ok: "storage_ok bs s"
  defines "R \<equiv> records MSG_OFFLINE_V4 a u (log_of bs)"
  shows "\<exists>s'. LoadHistoryMessages a u sync 0 limit s =
      Some (Ret ((limited limit (messages_of history_cmd (log_of bs) (newer sync R)), head_msgid R, False), s'))
      \<and> storage_ok bs s'"
proof -
  have "GetLastMessageID a u s = (head_id R, snd (GetLastMessageID a u s))"
    using GetLastMessageID_eq [of a u s] storage_okD(4) [OF ok, of a u]
    by (simp add: prod_eq_iff user_index_of_def R_def)
  moreover obtain c where "history_loop sync 0 limit (head_id R) 0 [] s =
      Some (Ret (limited limit (messages_of history_cmd (log_of bs) (newer sync R)), head_msgid R, s\<lparr>files := c\<rparr>))"
    "layout bs (s\<lparr>files := c\<rparr>)"
    using history_loop_linked [OF storage_okD(1) [OF ok] records_linked(1) [OF ok], of limit "[]" sync a u 0]
    by (auto simp: first_msgid_def R_def)
  ultimately show ?thesis
    using storage_ok_files [OF ok] by (auto simp: LoadHistoryMessages_def split: prod.split)
qed

lemma LoadLatestMessages_ok:
  assumes ok: "storage_ok bs s" and "0 < limit"
  shows "\<exists>s'. LoadLatestMessages a u limit s =
      Some (Ret (take (nat limit) (messages_of latest_cmd (log_of bs) (records MSG_OFFLINE_V4 a u (log_of bs))), s'))
      \<and> storage_ok bs s'"
proof -
  let ?R = "records MSG_OFFLINE_V4 a u (log_of bs)"
  have "GetLastMessageID a u s = (head_id ?R, snd (GetLastMessageID a u s))"
    using GetLastMessageID_eq [of a u s] storage_okD(4) [OF ok, of a u]
    by (simp add: prod_eq_iff user_index_of_def)
  moreover obtain c where "latest_loop limit (head_id ?R) [] s =
      Some (Ret (take (nat limit) (messages_of latest_cmd (log_of bs) ?R), s\<lparr>files := c\<rparr>))"
    "layout bs (s\<lparr>files := c\<rparr>)"
    using latest_loop_linked [OF storage_okD(1) [OF ok] records_linked(1) [OF ok], of "[]" limit a u] assms(2)
    by (auto simp: limited_def)
  ultimately show ?thesis
    using storage_ok_files [OF ok] by (auto simp: LoadLatestMessages_def split: prod.split)
qed

section \<open>Order of the records\<close>

lemma chained_below:
  "chained p log rs \<Longrightarrow> (i, off, grp) \<in> set rs \<Longrightarrow>
   sint (off_Msgid off) < sint i \<and> sint i \<le> sint (head_id rs)"
proof (induction rs)
  case (Cons r rs)
  obtain j o' g' where r: "r = (j, o', g')" by (cases r)
  with Cons show ?case by fastforce
qed simp

lemma newer_eq_filter:
  "chained p log rs \<Longrightarrow> newer sync rs = filter (\<lambda>(_, off, _). sint sync < sint (off_Msgid off)) rs"
proof (induction rs)
  case (Cons r rs)
  obtain i off grp where r: "r = (i, off, grp)" by (cases r)
  show ?case
  proof (cases "sint (off_Msgid off) \<le> sint sync")
    case True
    have "\<not> sint sync < sint (off_Msgid o')" if "(i', o', g') \<in> set rs" for i' o' g'
      using True Cons.prems chained_below [OF _ that, of p log] by (fastforce simp: r)
    then have "filter (\<lambda>(_, off, _). sint sync < sint (off_Msgid off)) rs = []"
      by (auto simp: filter_empty_conv)
    with True show ?thesis by (simp add: r newer_Cons)
  qed (use Cons in \<open>simp add: r newer_Cons\<close>)
qed simp

lemma newer_batch:
  "chained p log rs \<Longrightarrow> newer sync (batch_records rs) = batch_records (newer sync rs)"
proof (induction rs)
  case (Cons r rs)
  obtain i off grp where r: "r = (i, off, grp)" by (cases r)
  show ?case
  proof (cases "sint (off_Msgid off) \<le> sint sync")
    case True
    have "\<not> sint sync < sint (off_Msgid o')" if "(i', o', g') \<in> set (batch_records rs)" for i' o' g'
      using True Cons.prems chained_below [of p log rs i' o' g'] that
      by (fastforce simp: r batch_records_def)
    then have "newer sync (batch_records rs) = []"
      by (cases "batch_records rs") (auto simp: newer_def)
    with True show ?thesis by (simp add: r newer_Cons batch_records_def)
  qed (use Cons in \<open>simp add: r newer_Cons batch_records_def\<close>)
qed (simp add: batch_records_def)

text \<open>A receiver has fewer than \<open>2 ^ 63\<close> records, so sequence numbers do not wrap.\<close>

lemma length_log: "blocks_ok bs \<Longrightarrow> length (log_of bs) < 2 ^ 63"
proof -
  assume b: "blocks_ok bs"
  let ?ids = "map (\<lambda>e. sint (fst e)) (log_of bs)"
  have d: "distinct ?ids" using sorted_log_of [OF b] by (simp add: strict_sorted_iff)
  have "set ?ids \<subseteq> {1..2 ^ 63 - 1}"
  proof (rule subsetI)
    fix x assume "x \<in> set ?ids"
    then obtain i m where "(i, m) \<in> set (log_of bs)" "x = sint i" by auto
    with log_of_bounds(1) [OF b] sint_lt [of i] show "x \<in> {1..2 ^ 63 - 1}" by fastforce
  qed
  then have "card (set ?ids) \<le> card {1..2 ^ 63 - 1 :: int}" by (intro card_mono) auto
  then show ?thesis using distinct_card [OF d] by simp
qed

lemma length_records: "length (records cmd a r log) \<le> length log"
  unfolding records_def List.map_filter_def by simp

lemma sint_seq: "n < 2 ^ 63 \<Longrightarrow> sint (word_of_nat n :: int64) = int n"
  using sint_small [where 'a = 64, of n] by simp

section \<open>Paging through the history\<close>

lemma multiples_in_range: "n div 1000 \<le> length (filter (\<lambda>k. k mod 1000 = 0) [a..<a + n])"
proof (induction "n div 1000" arbitrary: n a)
  case (Suc q)
  then have n: "1000 \<le> n" by simp
  let ?k = "(a + 999) div 1000 * 1000"
  have "?k \<in> set (filter (\<lambda>k. k mod 1000 = 0) [a..<a + 1000])" by auto
  then have one: "1 \<le> length (filter (\<lambda>k. k mod 1000 = 0) [a..<a + 1000])"
    by (metis length_greater_0_conv less_eq_Suc_le One_nat_def empty_iff list.set(1))
  have "[a..<a + n] = [a..<a + 1000] @ [a + 1000..<(a + 1000) + (n - 1000)]"
    using n upt_add_eq_append [of a "a + 1000" "n - 1000"] by simp
  moreover have "(n - 1000) div 1000 \<le> length (filter (\<lambda>k. k mod 1000 = 0) [a + 1000..<(a + 1000) + (n - 1000)])"
    using Suc n by (intro Suc.hyps) (simp add: le_div_geq)
  ultimately show ?case using one n by (simp add: le_div_geq)
qed simp

lemma smod_batch: "int n smod BATCH_SIZE = int (n mod 1000)"
  by (simp add: signed_modulo_int_def sgn_if of_nat_mod)

text \<open>Among \<open>n\<close> consecutive records at least \<open>n div 1000\<close> are batch records.\<close>

lemma batch_records_count:
  assumes "chained p log (xs @ ys)" "length (xs @ ys) < 2 ^ 63"
  shows "length (batch_records xs)
    = length (filter (\<lambda>k. k mod 1000 = 0) [Suc (length ys)..<Suc (length ys) + length xs])"
  using assms
proof (induction xs)
  case (Cons r xs)
  obtain i off grp where r: "r = (i, off, grp)" by (cases r)
  let ?n = "length (xs @ ys)"
  have "off_SeqId off = word_of_nat (Suc ?n)" using Cons.prems(1) by (simp add: r)
  then have "sint (off_SeqId off) = int (Suc ?n)" using sint_seq [of "Suc ?n"] Cons.prems(2) by simp
  then have "sint (off_SeqId off) smod BATCH_SIZE = 0 \<longleftrightarrow> Suc ?n mod 1000 = 0"
    by (simp only: smod_batch of_nat_eq_0_iff)
  with Cons show ?case by (simp add: r batch_records_def add.commute)
qed (simp add: batch_records_def)

lemma batch_records_ge:
  "chained p log (xs @ ys) \<Longrightarrow> length (xs @ ys) < 2 ^ 63 \<Longrightarrow> length xs div 1000 \<le> length (batch_records xs)"
  using batch_records_count [of p log xs ys] multiples_in_range [of "length xs" "Suc (length ys)"] by simp

lemma filter_nth_split:
  assumes "k < length (filter P xs)"
  obtains ys x zs where "xs = ys @ x # zs" "x = filter P xs ! k"
    "length (filter P zs) = length (filter P xs) - Suc k"
  using assms
proof (induction xs arbitrary: k thesis)
  case (Cons y xs)
  show ?case
  proof (cases "P y \<and> k = 0")
    case True
    then show ?thesis by (intro Cons.prems(1) [of "[]" y xs]) auto
  next
    case False
    let ?k = "if P y then k - 1 else k"
    have "?k < length (filter P xs)" using Cons.prems(2) False by (auto split: if_splits)
    then obtain ys x zs where s: "xs = ys @ x # zs" "x = filter P xs ! ?k"
      "length (filter P zs) = length (filter P xs) - Suc ?k" by (rule Cons.IH [rotated])
    show ?thesis
      by (rule Cons.prems(1) [of "y # ys" x zs]) (use s False in \<open>auto simp: nth_Cons'\<close>)
  qed
qed simp

lemma chained_suffix: "chained p log (xs @ ys) \<Longrightarrow> chained p log ys"
proof (induction xs)
  case (Cons r xs)
  then show ?case by (cases r) auto
qed simp

text \<open>The page of \<open>LoadHistoryMessagesV3\<close>: the oldest \<open>batch_count\<close> batches of the new records.\<close>

lemma page_split:
  fixes sync :: int64
  assumes ch: "chained p log R" and len: "length R < 2 ^ 63" and bc: "1 \<le> bc"
  defines "W \<equiv> newer sync R" and "n \<equiv> length (batch_records (newer sync R))"
  obtains P Q where "W = P @ Q" "length Q \<le> 1000 * bc"
    "if bc \<le> n then Q \<noteq> [] \<and> head_id Q = fst (batch_records W ! (n - bc)) else P = []"
proof -
  define Z where "Z = dropWhile (\<lambda>(_, off, _). sint sync < sint (off_Msgid off)) R"
  have R: "R = W @ Z" by (simp add: W_def newer_def Z_def)
  have nW: "n = length (batch_records W)" by (simp add: n_def W_def)
  show thesis
  proof (cases "bc \<le> n")
    case True
    then have "n - bc < length (batch_records W)" using bc by (simp add: nW)
    then obtain P x Q where s: "W = P @ x # Q" "x = batch_records W ! (n - bc)"
      "length (batch_records Q) = n - Suc (n - bc)"
      unfolding nW batch_records_def by (rule filter_nth_split)
    have "chained p log (Q @ Z)" "length (Q @ Z) < 2 ^ 63"
      using chained_suffix [of p log "P @ [x]" "Q @ Z"] ch len by (simp_all add: R s(1))
    then have "length Q div 1000 \<le> bc - 1" using batch_records_ge [of p log Q Z] s(3) True bc by simp
    then have "length Q div 1000 < bc" using bc by linarith
    then have "length Q < 1000 * bc" by (simp add: div_less_iff_less_mult)
    moreover have "head_id (x # Q) = fst x" by (cases x) simp
    ultimately show thesis
      using True s(1) s(2) [symmetric] by (intro that [of P "x # Q"]) simp_all
  next
    case False
    have "length W div 1000 \<le> n"
      using batch_records_ge [of p log W Z] ch len by (simp only: R nW)
    with False have "length W div 1000 < bc" by simp
    then have "length W \<le> 1000 * bc" by (simp add: div_less_iff_less_mult)
    with False show thesis by (intro that [of "[]" W]) auto
  qed
qed

lemma head_id_append: "Q \<noteq> [] \<Longrightarrow> head_id (Q @ Z) = head_id Q"
  by (cases Q) (auto simp: head_id_def)

lemma linked_suffix: "linked nx log (xs @ ys) \<Longrightarrow> linked nx log ys"
proof (induction xs)
  case (Cons r xs)
  then show ?case by (cases r) auto
qed simp

lemma linked_id_pos: "blocks_ok bs \<Longrightarrow> linked nx (log_of bs) ((i, off, grp) # rs) \<Longrightarrow> 0 < sint i"
  using log_of_bounds(1) [of bs i] by auto

lemma newer_split: "newer sync R = P @ Q \<Longrightarrow> \<exists>Z. R = P @ Z \<and> newer sync Z = Q"
proof (induction P arbitrary: R)
  case (Cons r P)
  obtain i off grp where r: "r = (i, off, grp)" by (cases r)
  from Cons.prems obtain R' where R: "R = (i, off, grp) # R'"
    by (cases R) (auto simp: r newer_def split: if_splits)
  with Cons.prems have "newer sync R' = P @ Q" by (simp add: r newer_Cons split: if_splits)
  with Cons.IH R r show ?case by fastforce
qed simp

lemma newer_head:
  "newer sync Z \<noteq> [] \<Longrightarrow>
   head_id (newer sync Z) = head_id Z \<and> head_msgid (newer sync Z) = head_msgid Z"
  by (cases Z) (auto simp: newer_Cons split: if_splits)

lemma head_id_first:
  assumes "chained p log (P @ Z)" "Z \<noteq> []"
  shows "sint (head_id Z) < sint (head_id (P @ Z)) \<longleftrightarrow> P \<noteq> []"
proof (cases P)
  case (Cons r P')
  obtain i off grp where r: "r = (i, off, grp)" by (cases r)
  obtain j o' g' Q' where z: "Z = (j, o', g') # Q'" using assms(2) by (cases Z) auto
  have "chained p log (P' @ Z)" "sint (head_id (P' @ Z)) < sint i"
    using assms(1) by (auto simp: Cons r)
  with chained_below [of p log "P' @ Z" j o' g'] show ?thesis by (auto simp: Cons r z)
qed simp

text \<open>
  Without a hard limit, a page is the oldest part of the new records, complete, and the page after
  it is what is newer than the message id it returns.
\<close>

lemma LoadHistoryMessagesV3_ok:
  fixes a u sync :: int64
  assumes ok: "storage_ok bs s" and sync: "0 \<le> sint sync" and limit: "1000 \<le> limit"
  defines "R \<equiv> records MSG_OFFLINE_V4 a u (log_of bs)"
  shows "\<exists>P Q s'. newer sync R = P @ Q \<and> (Q = [] \<longrightarrow> P = []) \<and> int (length Q) \<le> limit
     \<and> LoadHistoryMessagesV3 a u sync limit 0 s =
         Some (Ret ((messages_of history_cmd (log_of bs) Q, if Q = [] then head_msgid R else head_msgid Q,
           P \<noteq> []), s'))
     \<and> storage_ok bs s'"
proof -
  have b: "blocks_ok bs" using storage_okD(1) [OF ok] by (simp add: layout_def)
  have ch: "chained peer_link (log_of bs) R" using storage_okD(3) [OF ok] by (simp add: R_def)
  have len: "length R < 2 ^ 63"
    using length_log [OF b] length_records [of MSG_OFFLINE_V4 a u "log_of bs"] by (simp add: R_def)
  define B where "B = batch_records (newer sync R)"
  define bc where "bc = nat (limit sdiv BATCH_SIZE)"
  have "limit sdiv BATCH_SIZE = limit div 1000"
    using limit by (simp add: signed_divide_int_def sgn_if)
  then have bc: "1 \<le> bc" "limit sdiv BATCH_SIZE = int bc" "1000 * int bc \<le> limit"
    using limit by (auto simp: bc_def)
  obtain P Q where pq: "newer sync R = P @ Q" "length Q \<le> 1000 * bc"
    "if bc \<le> length B then Q \<noteq> [] \<and> head_id Q = fst (B ! (length B - bc)) else P = []"
    using page_split [OF ch len bc(1), of sync] unfolding B_def by metis
  obtain Z where Z: "R = P @ Z" "newer sync Z = Q" using newer_split [OF pq(1)] by blast
  have Q: "Q = [] \<longrightarrow> P = [] \<and> Z = R" "Q \<noteq> [] \<longrightarrow> head_id Z = head_id Q \<and> head_msgid Z = head_msgid Q"
    using pq(3) Z newer_head [of sync Z] by (auto split: if_splits)
  have idx: "GetPeerIndex a u s = user_index_of R"
    using storage_okD(4) [OF ok] by (simp add: GetPeerIndex_def R_def)
  obtain c where c: "batch_loop sync 0 (head_id (batch_records R)) [] s = Some (Ret (map fst B, s\<lparr>files := c\<rparr>))"
    "layout bs (s\<lparr>files := c\<rparr>)"
    using batch_loop_linked [OF storage_okD(1) [OF ok] records_linked(3) [OF ok] sync, of a u "[]"]
      chained_below [OF ch] newer_batch [OF ch, of sync]
    by (fastforce simp: R_def B_def batch_records_def)
  have start: "v3_start (map fst B) 0 (int bc) (head_id R) = Ret (head_id Z, False)"
    using bc(1) pq(3) Q Z by (auto simp: v3_start_def Let_def nat_diff_distrib split: if_splits)
  have lZ: "linked off_PrevMsgid (log_of bs) Z"
    using linked_suffix [of _ _ P Z] records_linked(1) [OF ok, of a u] by (simp add: R_def [symmetric] Z(1))
  moreover have "\<not> (limit > 0 \<and> int (length ([] :: emessage list)) \<ge> limit)" using limit by simp
  ultimately obtain c' where c': "v3_loop sync limit False (head_id Z) 0 0 [] (s\<lparr>files := c\<rparr>) =
      Some (Ret (limited limit ([] @ messages_of history_cmd (log_of bs) (newer sync Z)), first_msgid 0 Z,
        if (0 :: int64) = 0 \<and> Z \<noteq> [] then head_id Z else 0, s\<lparr>files := c, files := c'\<rparr>))"
    "layout bs (s\<lparr>files := c, files := c'\<rparr>)"
    using v3_loop_linked [OF c(2), of False Z limit "[]" sync 0 0] by auto
  have "(if (0 :: int64) = 0 \<and> Z \<noteq> [] then head_id Z else 0) = head_id Z" by (cases Z) auto
  moreover have "limited limit (messages_of history_cmd (log_of bs) Q) = messages_of history_cmd (log_of bs) Q"
  proof -
    have "length (messages_of history_cmd (log_of bs) Q) \<le> length Q" by (simp add: messages_of_def)
    with pq(2) bc(3) show ?thesis by (simp add: limited_def)
  qed
  ultimately have loop: "v3_loop sync limit False (head_id Z) 0 0 [] (s\<lparr>files := c\<rparr>) =
      Some (Ret (messages_of history_cmd (log_of bs) Q, head_msgid Z, head_id Z, s\<lparr>files := c'\<rparr>))"
    using c'(1) by (simp add: first_msgid_def Z(2))
  have more: "0 < sint (head_id Z) \<and> sint (head_id Z) < sint (head_id R) \<longleftrightarrow> P \<noteq> []"
  proof (cases "Z = []")
    case True
    then have "P = []" using Z(2) Q(1) by simp
    with True show ?thesis by simp
  next
    case False
    then obtain i off grp Z' where z: "Z = (i, off, grp) # Z'" by (cases Z) auto
    have "0 < sint i" using linked_id_pos [OF b] lZ unfolding z by blast
    with head_id_first [OF ch [unfolded Z(1)] False] show ?thesis by (simp add: Z(1) z)
  qed
  have hard: "(0 :: int) sdiv BATCH_SIZE = 0" by (simp add: signed_divide_int_def)
  have one: "(if int bc = 0 then 1 else int bc) = int bc" using bc(1) by simp
  have fields: "ui_last_batch_id (user_index_of R) = head_id (batch_records R)"
    "ui_last_id (user_index_of R) = head_id R" by (simp_all add: user_index_of_def)
  have "LoadHistoryMessagesV3 a u sync limit 0 s =
      Some (Ret ((messages_of history_cmd (log_of bs) Q, head_msgid Z, P \<noteq> []), s\<lparr>files := c'\<rparr>))"
    unfolding LoadHistoryMessagesV3_def idx Let_def hard bc(2) one fields c(1) option.case
      loop_bind.simps prod.case start loop option.map go_map.simps more by simp
  moreover have "head_msgid Z = (if Q = [] then head_msgid R else head_msgid Q)" using Q by auto
  moreover have "storage_ok bs (s\<lparr>files := c'\<rparr>)" using storage_ok_files [OF ok] c'(2) by simp
  moreover have "int (length Q) \<le> limit" using pq(2) bc(3) by linarith
  moreover have "Q = [] \<longrightarrow> P = []" using Q(1) by blast
  ultimately show ?thesis using pq(1)
    by (intro exI [of _ P] exI [of _ Q] exI [of _ "s\<lparr>files := c'\<rparr>"] conjI) simp_all
qed

section \<open>Counting new messages\<close>

text \<open>The log around a message, in terms of its block and of the blocks that follow.\<close>

lemma log_position:
  assumes b: "blocks_ok bs" and log: "log_of bs = A @ (i, m) # B"
  obtains k X Y where "k < length bs" "bs ! k = X @ m # Y" "i = getMsgId (int k) (int (length (file_of X)))"
    "B = block_log (int k) (int (length (file_of (X @ [m])))) Y
      @ concat (map (\<lambda>k. block_log (int k) HEADER_SIZE (bs ! k)) [Suc k..<length bs])"
proof -
  have "(i, m) \<in> set (log_of bs)" by (simp add: log)
  then obtain k X Y where k: "k < length bs" "bs ! k = X @ m # Y"
    "i = getMsgId (int k) (int (length (file_of X)))" by (rule log_of_member)
  let ?bl = "\<lambda>k. block_log (int k) HEADER_SIZE (bs ! k)"
  let ?post = "concat (map ?bl [Suc k..<length bs])"
  have "[0..<length bs] = [0..<k] @ k # [Suc k..<length bs]"
    using k(1) upt_add_eq_append [of 0 k "length bs - k"] upt_conv_Cons [of k "length bs"] by simp
  then have "log_of bs = concat (map ?bl [0..<k]) @ ?bl k @ ?post" by (simp add: log_of_def)
  also have "?bl k = block_log (int k) HEADER_SIZE X
      @ (i, m) # block_log (int k) (int (length (file_of (X @ [m])))) Y"
    using k(3) by (simp add: k(2) block_log_append file_of_def algebra_simps)
  finally have eq: "A @ (i, m) # B = (concat (map ?bl [0..<k]) @ block_log (int k) HEADER_SIZE X)
      @ (i, m) # (block_log (int k) (int (length (file_of (X @ [m])))) Y @ ?post)"
    by (simp add: log)
  have "(i, m) \<notin> set A" "(i, m) \<notin> set B"
    using distinct_ids [OF b] by (force simp: log)+
  with eq have "B = block_log (int k) (int (length (file_of (X @ [m])))) Y @ ?post"
    by (rule append_Cons_eq_iff [THEN iffD1, THEN conjunct2, rotated 2])
  with k show thesis by (rule that)
qed

text \<open>Two neighbours of the log are neighbours in a block, or the end and the start of two blocks.\<close>

lemma log_successor:
  assumes b: "blocks_ok bs" and log: "log_of bs = A @ (i, m) # (j, n) # B"
  obtains k X Y where "k < length bs" "bs ! k = X @ m # Y" "i = getMsgId (int k) (int (length (file_of X)))"
    "(\<exists>Y'. Y = n # Y') \<or> (Y = [] \<and> Suc k < length bs \<and> (\<exists>Y'. bs ! Suc k = n # Y'))"
proof -
  let ?bl = "\<lambda>k. block_log (int k) HEADER_SIZE (bs ! k)"
  obtain k X Y where k: "k < length bs" "bs ! k = X @ m # Y" "i = getMsgId (int k) (int (length (file_of X)))"
    and tail: "(j, n) # B = block_log (int k) (int (length (file_of (X @ [m])))) Y
      @ concat (map ?bl [Suc k..<length bs])"
    using log_position [OF b log] .
  show thesis
  proof (cases Y)
    case (Cons y Y')
    with tail show thesis by (intro that [OF k]) simp
  next
    case Nil
    with tail have post: "(j, n) # B = concat (map ?bl [Suc k..<length bs])" by simp
    then have sk: "Suc k < length bs" by (cases "Suc k < length bs") auto
    then have "bs ! Suc k \<in> set (tl bs)"
      by (cases bs) auto
    with b obtain y Y' where y: "bs ! Suc k = y # Y'" by (cases "bs ! Suc k") (auto simp: blocks_ok_def)
    have "concat (map ?bl [Suc k..<length bs])
        = ?bl (Suc k) @ concat (map ?bl [Suc (Suc k)..<length bs])"
      using sk by (simp add: upt_conv_Cons)
    with post y have "n = y" by simp
    with Nil sk y k show thesis by (intro that [OF k]) auto
  qed
qed

lemma new_count_from_eq:
  assumes "offline_of o' = Some off" "off_Msgid off = i" "off_Appid off = a" "off_Receiver off = u"
    and "off_SeqId off = word_of_nat (length ys) + 1" "length xs + length ys + 1 < 2 ^ 63"
  shows "new_count_from a u i (word_of_nat (length xs + length ys + 1)) o' = word_of_nat (length xs)"
proof -
  have "off_SeqId off = word_of_nat (length ys + 1)" using assms(5) by simp
  moreover have "sint (word_of_nat (length ys + 1) :: int64) = int (length ys + 1)"
    "sint (word_of_nat (length xs + length ys + 1) :: int64) = int (length xs + length ys + 1)"
    using assms(6) by (intro sint_seq; simp)+
  moreover have "(word_of_nat (length xs + length ys + 1) :: int64) - word_of_nat (length ys + 1)
      = word_of_nat (length xs)" by simp
  ultimately show ?thesis using assms(1-4) by (simp only: new_count_from_def) simp
qed

lemma GetNewCount_ok:
  fixes a u :: int64
  assumes ok: "storage_ok bs s"
    and R: "records MSG_OFFLINE_V4 a u (log_of bs) = xs @ (i, off, grp) # ys"
  shows "\<exists>s'. GetNewCount a u (off_Msgid off) s = Ret (word_of_nat (length xs), s') \<and> storage_ok bs s'"
proof -
  let ?id = "off_Msgid off"
  have l: "layout bs s" and b: "blocks_ok bs" using storage_okD(1) [OF ok] by (simp_all add: layout_def)
  have ch: "chained peer_link (log_of bs) ((i, off, grp) # ys)"
    using storage_okD(3) [OF ok, of a u] chained_suffix unfolding R by blast
  then have "adjacent ?id i (log_of bs)" by simp
  then obtain A m n B where log: "log_of bs = A @ (?id, m) # (i, n) # B" by (rule adjacent_split)
  have mem: "(i, off, grp) \<in> set (records MSG_OFFLINE_V4 a u (log_of bs))" by (simp add: R)
  then obtain n' where n': "(i, n') \<in> set (log_of bs)" "Body n' = Some (BOffline4 off)"
    "off_Appid off = a" "off_Receiver off = u" using records_in_log by blast
  have "n' = n" using message_at_eq [OF b n'(1)] message_at_eq [OF b, of i n] log by auto
  with n' have n: "offline_of (canon n) = Some off" by (simp add: offline_canon)
  have id: "0 < sint ?id" using log_of_bounds(1) [OF b, of ?id m] log by simp
  then have nz: "?id \<noteq> 0" by auto
  have seq: "ui_last_seq_id (getPeerIndex a u s) = word_of_nat (length xs + length ys + 1)"
    using storage_okD(4) [OF ok, of a u] R by (simp add: user_index_of_def)
  have len: "length xs + length ys + 1 < 2 ^ 63"
    using length_log [OF b] length_records [of MSG_OFFLINE_V4 a u "log_of bs"] by (simp add: R)
  have count: "new_count_from a u ?id (word_of_nat (length xs + length ys + 1)) (canon n) = word_of_nat (length xs)"
  proof (rule new_count_from_eq)
    show "off_SeqId off = word_of_nat (length ys) + 1" using ch by simp
  qed (use n n'(3,4) len in simp_all)
  obtain k X Y where k: "k < length bs" "bs ! k = X @ m # Y"
    "?id = getMsgId (int k) (int (length (file_of X)))"
    "(\<exists>Y'. Y = n # Y') \<or> (Y = [] \<and> Suc k < length bs \<and> (\<exists>Y'. bs ! Suc k = n # Y'))"
    using log_successor [OF b log] .
  note p = position_in_block [OF b k(1,2)]
  have blk: "getBlockNO ?id = int k" "getBlockOffset ?id = int (length (file_of X))"
    using getBlock_getMsgId [OF p(1)] by (simp_all add: k(3))
  obtain c where c: "getFile (int k) s = (openReadFile (int k) s, s\<lparr>files := c\<rparr>)" "cache_ok (s\<lparr>files := c\<rparr>)"
    using getFile_eq l unfolding layout_def by metis
  have lc: "layout bs (s\<lparr>files := c\<rparr>)" using l c(2) by (simp add: layout_def)
  have d: "disk s = disk_of bs" using l by (simp add: layout_def)
  have open1: "openReadFile (int k) s = Some (int k)" using k(1) by (simp add: openReadFile_def d disk_of_def)
  have "file_of (X @ m # Y) = file_of X @ stored m @ concat (map stored Y)" by (simp add: file_of_def)
  then have read1: "ReadMessage (file_from (int k) (int (length (file_of X))) (s\<lparr>files := c\<rparr>))
      = Ret (Some (canon m), concat (map stored Y))"
    using k(1,2) p(2) by (simp add: file_from_def d disk_of_def ReadMessage_stored)
  have stn: "storable n"
  proof -
    have "(i, n) \<in> set (log_of bs)" by (simp add: log)
    then show ?thesis by (rule log_of_member) (auto dest: position_in_block [OF b])
  qed
  show ?thesis
  proof (cases "Y = []")
    case False
    then obtain Y' where "Y = n # Y'" using k(4) by auto
    then have "ReadMessage (concat (map stored Y)) = Ret (Some (canon n), concat (map stored Y'))"
      using stn by (simp add: ReadMessage_stored)
    then have "GetNewCount a u ?id s = Ret (word_of_nat (length xs), s\<lparr>files := c\<rparr>)"
      using nz seq blk c(1) open1 read1 count by (simp add: GetNewCount_def Let_def)
    then show ?thesis using storage_ok_files [OF ok lc] by blast
  next
    case True
    then obtain Y' where next_block: "Suc k < length bs" "bs ! Suc k = n # Y'" using k(4) by auto
    obtain c' where c': "getFile (int k + 1) (s\<lparr>files := c\<rparr>)
        = (openReadFile (int k + 1) (s\<lparr>files := c\<rparr>), s\<lparr>files := c, files := c'\<rparr>)"
      "cache_ok (s\<lparr>files := c, files := c'\<rparr>)"
      using getFile_eq [OF c(2)] by metis
    have lc': "layout bs (s\<lparr>files := c'\<rparr>)" using l c'(2) by (simp add: layout_def)
    have nk: "nat (int k + 1) = Suc k" by simp
    have open2: "openReadFile (int k + 1) (s\<lparr>files := c\<rparr>) = Some (int k + 1)"
      using next_block by (simp add: openReadFile_def d disk_of_def)
    have "ReadMessage (file_from (int k + 1) HEADER_SIZE (s\<lparr>files := c'\<rparr>))
        = Ret (Some (canon n), concat (map stored Y'))"
      using next_block stn
      by (simp add: file_from_def d disk_of_def file_of_def ReadMessage_stored nk)
    then have "GetNewCount a u ?id s = Ret (word_of_nat (length xs), s\<lparr>files := c'\<rparr>)"
      using nz seq blk c(1) open1 read1 count c'(1) open2 True by (simp add: GetNewCount_def Let_def)
    then show ?thesis using storage_ok_files [OF ok lc'] by blast
  qed
qed

section \<open>Loading a group's history\<close>

text \<open>
  A user who has no message of the group yet (\<open>msgid\<close> is 0) gets none from before the time stamp
  \<open>ts\<close> at which he joined; the messages are those up to the first that is old or too early.
\<close>

definition sent_before :: "int32 \<Rightarrow> message \<Rightarrow> bool" where
  "sent_before ts m \<longleftrightarrow> Cmd m = MSG_GROUP_IM \<and>
     (case Body m of Some (BIM im) \<Rightarrow> sint (im_Timestamp im) < sint ts | _ \<Rightarrow> False)"

definition visible ::
  "int64 \<Rightarrow> int32 \<Rightarrow> (int64 \<times> message) list \<Rightarrow> offline_rec list \<Rightarrow> offline_rec list"
where
  "visible msgid ts log rs =
     takeWhile (\<lambda>(_, off, _). sint msgid < sint (off_Msgid off)
       \<and> \<not> (msgid = 0 \<and> sent_before ts (canon (message_at log (off_Msgid off))))) rs"

definition group_messages_of ::
  "(int64 \<times> message) list \<Rightarrow> offline_rec list \<Rightarrow> (int64 \<times> int64 \<times> message option) list"
where
  "group_messages_of log rs =
     map (\<lambda>(_, off, _). (off_Msgid off, off_DeviceId off, Some (canon (message_at log (off_Msgid off))))) rs"

text \<open>The body of a stored group message is an \<open>IMMessage\<close>.\<close>

lemma kind_of_KIM: "kind_of x = KIM \<Longrightarrow> \<exists>im. x = BIM im"
  by (cases x) auto

lemma group_im_body:
  assumes "storable m" "Cmd m = MSG_GROUP_IM"
  shows "\<exists>im. Body (canon m) = Some (BIM im)"
proof -
  obtain cmd sq v f b me where m: "m = Message cmd sq v f b me" by (cases m)
  have "creator MSG_GROUP_IM = Some KIM"
    by (simp add: creator_def core_creators_def route_creators_def storage_creators_def)
  with assms obtain x where "b = Some x" "kind_of x = KIM"
    by (cases b) (auto simp: m storable_def)
  with kind_of_KIM [of x] show ?thesis by (auto simp: m)
qed

lemma storable_at:
  assumes "blocks_ok bs" "i \<in> fst ` set (log_of bs)"
  shows "storable (message_at (log_of bs) i)"
  using message_at_member [OF assms]
  by (rule log_of_member) (auto dest: position_in_block [OF assms(1)])

lemma group_loop_linked:
  assumes "layout bs s" "linked off_PrevMsgid (log_of bs) rs" "int (length c) < limit" "0 \<le> sint msgid"
  shows "\<exists>f. group_history_loop msgid ts limit (head_id rs) lm c s =
      Some (Ret (take (nat limit) (c @ group_messages_of (log_of bs) (visible msgid ts (log_of bs) rs)),
        first_msgid lm rs, s\<lparr>files := f\<rparr>)) \<and> layout bs (s\<lparr>files := f\<rparr>)"
  using assms
proof (induction rs arbitrary: lm c s)
  case Nil
  then show ?case
    by (intro exI [of _ "files s"])
      (simp add: group_history_loop.simps [of _ _ _ 0] first_msgid_def visible_def group_messages_of_def)
next
  case (Cons r rs)
  obtain i off grp where r: "r = (i, off, grp)" by (cases r)
  obtain f f' n where l: "LoadMessage i s = Ret (Some n, s\<lparr>files := f\<rparr>)" "offline_of n = Some off"
    "LoadMessage (off_Msgid off) (s\<lparr>files := f\<rparr>)
      = Ret (Some (canon (message_at (log_of bs) (off_Msgid off))), s\<lparr>files := f'\<rparr>)"
    "layout bs (s\<lparr>files := f\<rparr>)" "layout bs (s\<lparr>files := f'\<rparr>)" "0 < sint i" "0 < sint (off_Msgid off)"
    using load_record [OF Cons.prems(1)] Cons.prems(2) unfolding r by metis
  then have nz: "off_Msgid off \<noteq> 0" by auto
  have b: "blocks_ok bs" using Cons.prems(1) by (simp add: layout_def)
  let ?m = "message_at (log_of bs) (off_Msgid off)"
  let ?c = "c @ [(off_Msgid off, off_DeviceId off, Some (canon ?m))]"
  let ?lm = "if lm = 0 then off_Msgid off else lm"
  have "storable ?m" using Cons.prems(2) by (intro storable_at [OF b]) (simp add: r)
  then have test: "(if Cmd (canon ?m) = MSG_GROUP_IM then
       (case Body (canon ?m) of Some (BIM im) \<Rightarrow> Ret (sint (im_Timestamp im) < sint ts) | _ \<Rightarrow> Panic)
      else Ret False) = Ret (sent_before ts (canon ?m))"
    using group_im_body [of ?m] by (auto simp: sent_before_def)
  note step = group_history_loop.simps [of msgid ts limit "head_id (r # rs)" lm c s]
  show ?case
  proof (cases "sint (off_Msgid off) \<le> sint msgid")
    case True
    with l nz Cons.prems(3) show ?thesis unfolding step
      by (intro exI [of _ f])
        (simp add: r first_msgid_def Let_def visible_def group_messages_of_def)
  next
    case new: False
    have first: "group_history_loop msgid ts limit i lm c s =
      (if msgid = 0 \<and> sent_before ts (canon ?m) then Some (Ret (c, ?lm, s\<lparr>files := f'\<rparr>))
       else if int (length ?c) \<ge> limit then Some (Ret (?c, ?lm, s\<lparr>files := f'\<rparr>))
       else group_history_loop msgid ts limit (off_PrevMsgid off) ?lm ?c (s\<lparr>files := f'\<rparr>))"
      using l(1-3) l(6) nz new test
      by (subst group_history_loop.simps) (auto simp: Let_def)
    consider "msgid = 0 \<and> sent_before ts (canon ?m)"
      | "\<not> (msgid = 0 \<and> sent_before ts (canon ?m))" "int (length ?c) \<ge> limit"
      | "\<not> (msgid = 0 \<and> sent_before ts (canon ?m))" "int (length ?c) < limit" by linarith
    then show ?thesis
    proof cases
      case 1
      with first l(5) nz Cons.prems(3) show ?thesis
        by (intro exI [of _ f']) (simp add: r first_msgid_def visible_def group_messages_of_def)
    next
      case 2
      then have "nat limit = Suc (length c)" using Cons.prems(3) by simp
      with 2 first l(5) nz new show ?thesis
        by (intro exI [of _ f']) (simp add: r first_msgid_def visible_def group_messages_of_def not_le)
    next
      case 3
      have "linked off_PrevMsgid (log_of bs) rs" "off_PrevMsgid off = head_id rs"
        using Cons.prems(2) by (simp_all add: r)
      moreover have "nat limit - length c = Suc (nat limit - Suc (length c))" using 3(2) by simp
      ultimately show ?thesis
        using Cons.IH [OF l(5) _ 3(2) Cons.prems(4), of ?lm] first 3 new nz
        by (auto simp: r first_msgid_def visible_def group_messages_of_def not_le)
    qed
  qed
qed

lemma LoadGroupHistoryMessages_ok:
  assumes ok: "storage_ok bs s" and "0 < limit" "0 \<le> sint msgid"
  shows "\<exists>s'. LoadGroupHistoryMessages a uid g msgid ts limit s =
      Some (Ret (group_messages_of (log_of bs)
          (take (nat limit) (visible msgid ts (log_of bs) (records MSG_GROUP_OFFLINE a g (log_of bs)))),
        head_msgid (records MSG_GROUP_OFFLINE a g (log_of bs)), s'))
      \<and> storage_ok bs s'"
proof -
  let ?R = "records MSG_GROUP_OFFLINE a g (log_of bs)"
  have "gi_LastId (GetGroupIndex a g s) = head_id ?R"
    using storage_okD(6) [OF ok, of a g] by (simp add: GetGroupIndex_def group_index_of_def)
  moreover have "int (length ([] :: (int64 \<times> int64 \<times> message option) list)) < limit" using assms(2) by simp
  ultimately show ?thesis
    using group_loop_linked [OF storage_okD(1) [OF ok] records_linked(2) [OF ok, of a g] _ assms(3),
        of "[]" limit ts 0] storage_ok_files [OF ok]
    by (auto simp: LoadGroupHistoryMessages_def first_msgid_def group_messages_of_def take_map)
qed

end
