(* ===== verification/StorageRestart.thy ===== *)
theory StorageRestart
  imports StorageLoad
begin

text \<open>
  Restarts of the storage server: rebuilding both indexes from the log, the index files, and the
  repair of the indexes after a crash.
\<close>

section \<open>Both scans together replay the log\<close>

lemma set_index_commute:
  "setPeerIndex a u ui (setGroupIndex a' g gi s) = setGroupIndex a' g gi (setPeerIndex a u ui s)"
  by (auto simp: setPeerIndex_def setGroupIndex_def Let_def dest: signed_word_eqI)

lemma getLast_set_group [simp]:
  "getLastMessageID a u (setGroupIndex a' g gi s) = getLastMessageID a u s"
  by (simp add: getLastMessageID_def setGroupIndex_def Let_def)

fun group_body :: "body option \<Rightarrow> offline_message option" where
  "group_body (Some (BGroupOffline off)) = Some off"
| "group_body _ = None"

lemma case_group_body:
  "(case b of Some (BGroupOffline off) \<Rightarrow> f off | _ \<Rightarrow> d)
    = (case group_body b of None \<Rightarrow> d | Some off \<Rightarrow> f off)"
  by (cases b rule: group_body.cases) auto

lemma exec_commute:
  "go_bind (execGroupMessage m i s) (execPeerMessage m' j)
    = go_bind (execPeerMessage m' j s) (execGroupMessage m i)"
  unfolding execGroupMessage_def case_group_body execPeerMessage_def
  by (simp add: Let_def set_index_commute split: option.split)

lemma group_commute_replay:
  "go_bind (execGroupMessage m i s) (replay execPeerMessage log)
    = go_bind (replay execPeerMessage log s) (execGroupMessage m i)"
proof (induction log arbitrary: s)
  case (Cons e log)
  obtain j n where e: "e = (j, n)" by (cases e)
  have "go_bind (execGroupMessage m i s) (replay execPeerMessage (e # log))
      = go_bind (go_bind (execGroupMessage m i s) (execPeerMessage (canon n) j)) (replay execPeerMessage log)"
    by (simp add: e go_bind_assoc)
  also have "\<dots> = go_bind (execPeerMessage (canon n) j s)
      (\<lambda>s. go_bind (execGroupMessage m i s) (replay execPeerMessage log))"
    by (simp add: exec_commute go_bind_assoc)
  finally show ?case by (simp add: e Cons.IH go_bind_assoc)
qed simp

lemma replay_both:
  "go_bind (replay execPeerMessage log s) (replay execGroupMessage log) = replay execMessage log s"
proof (induction log arbitrary: s)
  case (Cons e log)
  obtain j n where e: "e = (j, n)" by (cases e)
  have "go_bind (replay execPeerMessage (e # log) s) (replay execGroupMessage (e # log))
      = go_bind (execPeerMessage (canon n) j s)
         (\<lambda>s. go_bind (go_bind (replay execPeerMessage log s) (execGroupMessage (canon n) j))
            (replay execGroupMessage log))"
    by (simp add: e go_bind_assoc)
  also have "\<dots> = go_bind (execMessage (canon n) j s)
      (\<lambda>s. go_bind (replay execPeerMessage log s) (replay execGroupMessage log))"
    by (simp add: execMessage_def go_bind_assoc flip: group_commute_replay)
  finally show ?case by (simp add: e Cons.IH)
qed simp

lemma exec_layout:
  "layout bs s \<Longrightarrow> execPeerMessage m i s = Ret s' \<Longrightarrow> layout bs s'"
  "layout bs s \<Longrightarrow> execGroupMessage m i s = Ret s' \<Longrightarrow> layout bs s'"
  by (auto simp: execPeerMessage_def execGroupMessage_def case_group_body Let_def
      split: if_splits option.splits)

lemma replay_layout:
  assumes "\<And>m i s s'. layout bs s \<Longrightarrow> body m i s = Ret s' \<Longrightarrow> layout bs s'"
  shows "layout bs s \<Longrightarrow> replay body log s = Ret s' \<Longrightarrow> layout bs s'"
proof (induction log arbitrary: s)
  case (Cons e log)
  obtain j n where e: "e = (j, n)" by (cases e)
  with Cons.prems obtain t where t: "body (canon n) j s = Ret t" "replay body log t = Ret s'" by auto
  show ?case by (rule Cons.IH [OF assms [OF Cons.prems(1) t(1)] t(2)])
qed simp

definition scan_block ::
  "(message \<Rightarrow> int64 \<Rightarrow> 'a storage_file_scheme \<Rightarrow> 'a storage_file_scheme go)
   \<Rightarrow> 'a storage_file_scheme \<Rightarrow> int \<Rightarrow> 'a storage_file_scheme go"
where
  "scan_block body s i =
     (case openReadFile i s of
        None \<Rightarrow> Ret s
      | Some file \<Rightarrow> scan_file body i (the (disk s file)) (file_from file HEADER_SIZE s) s)"

lemma scan_blocks:
  assumes ks: "\<forall>k \<in> set ks. k < length bs" and l: "layout bs s"
    and keep: "\<And>m i s s'. layout bs s \<Longrightarrow> body m i s = Ret s' \<Longrightarrow> layout bs s'"
  shows "go_fold (scan_block body) s (map int ks)
    = replay body (concat (map (\<lambda>k. block_log (int k) HEADER_SIZE (bs ! k)) ks)) s"
  using ks l
proof (induction ks arbitrary: s)
  case (Cons k ks)
  then have k: "k < length bs" by simp
  have st: "\<forall>m \<in> set (bs ! k). storable m" "disk s = disk_of bs"
    using Cons.prems(2) k by (auto simp: layout_def blocks_ok_def)
  have scan: "scan_block body s (int k) = replay body (block_log (int k) HEADER_SIZE (bs ! k)) s"
    using k st(2) scan_file_from_header [OF st(1), of body "int k" s]
    by (simp add: scan_block_def openReadFile_def file_from_def disk_of_def)
  show ?case
  proof (cases "replay body (block_log (int k) HEADER_SIZE (bs ! k)) s")
    case (Ret t)
    have "layout bs t" by (rule replay_layout [OF keep Cons.prems(2) Ret])
    then show ?thesis using Cons.IH [of t] Cons.prems(1) Ret scan by (simp add: replay_append)
  qed (use scan in \<open>simp_all add: replay_append\<close>)
qed simp

lemma upto_int_from: "a \<le> n \<Longrightarrow> [int a..int n - 1] = map int [a..<n]"
proof (induction "n - a" arbitrary: n)
  case (Suc d)
  then obtain k where k: "n = Suc k" "a \<le> k" by (cases n) auto
  then have "[int a..int n - 1] = [int a..int k - 1] @ [int k]" by (simp add: upto_rec2)
  with Suc.hyps(1) [of k] Suc.hyps(2) k show ?case by simp
qed simp

lemma upto_int: "[0..int n - 1] = map int [0..<n]"
  using upto_int_from [of 0 n] by simp

lemma scan_all:
  assumes "layout bs s" and "\<And>m i s s'. layout bs s \<Longrightarrow> body m i s = Ret s' \<Longrightarrow> layout bs s'"
  shows "go_fold (scan_block body) s [0..block_NO s] = replay body (log_of bs) s"
proof -
  have "block_NO s = int (length bs) - 1" using assms(1) by (simp add: layout_def)
  then show ?thesis
    using scan_blocks [of "[0..<length bs]" bs s body, OF _ assms] by (simp add: upto_int log_of_def)
qed

lemma create_indexes_eq:
  "createPeerIndex s = go_fold (scan_block execPeerMessage) s [0..block_NO s]"
  "createGroupIndex t = go_fold (scan_block execGroupMessage) t [0..block_NO t]"
  by (simp_all add: createPeerIndex_def createGroupIndex_def scan_block_def [abs_def])

lemma create_indexes:
  assumes l: "layout bs s"
  shows "go_bind (createPeerIndex s) createGroupIndex = replay execMessage (log_of bs) s"
proof -
  have p: "createPeerIndex s = replay execPeerMessage (log_of bs) s"
    unfolding create_indexes_eq by (rule scan_all [OF l exec_layout(1)])
  show ?thesis
  proof (cases "replay execPeerMessage (log_of bs) s")
    case (Ret t)
    have "layout bs t" by (rule replay_layout [OF exec_layout(1) l Ret])
    then have "createGroupIndex t = replay execGroupMessage (log_of bs) t"
      unfolding create_indexes_eq by (rule scan_all [OF _ exec_layout(2)])
    then show ?thesis using replay_both [of "log_of bs" s] Ret by (simp add: p)
  qed (use replay_both [of "log_of bs" s] p in simp_all)
qed

section \<open>Starting without index files\<close>

text \<open>The result of \<open>Glob\<close> on a directory written by this code, in any order.\<close>

definition lists_blocks :: "(int option \<times> bytes) list \<Rightarrow> message list list \<Rightarrow> bool" where
  "lists_blocks glob bs \<longleftrightarrow> distinct (map fst glob)
     \<and> set glob = set (map (\<lambda>k. (Some (int k), file_of (bs ! k))) [0..<length bs])"

lemma CheckFile_file_of: "CheckFile (file_of ms)"
proof (cases ms rule: rev_cases)
  case (snoc ns m)
  have "file_of ms = (file_of ns @ binWrite MAGIC @ WriteMessage m) @ binWrite MAGIC"
    by (simp add: snoc file_of_def stored_def)
  then show ?thesis using length_file_of [of ns] by (simp add: CheckFile_def)
qed (simp add: CheckFile_def file_of_def)

lemma glob_disk_eq: "lists_blocks glob bs \<Longrightarrow> glob_disk glob = disk_of bs"
proof (rule ext)
  fix b
  assume l: "lists_blocks glob bs"
  then have d: "distinct (map fst glob)" by (simp add: lists_blocks_def)
  show "glob_disk glob b = disk_of bs b"
  proof (cases "0 \<le> b \<and> b < int (length bs)")
    case True
    then have "(Some b, file_of (bs ! nat b)) \<in> set glob"
      using l by (force simp: lists_blocks_def image_iff intro: bexI [of _ "nat b"])
    with d True show ?thesis by (simp add: glob_disk_def disk_of_def)
  next
    case False
    then have "map_of glob (Some b) = None"
      using l unfolding map_of_eq_None_iff by (auto simp: lists_blocks_def)
    with False show ?thesis by (simp add: glob_disk_def disk_of_def)
  qed
qed

lemma last_block_fold:
  fixes glob :: "(int option \<times> bytes) list"
  assumes "\<forall>(name, file) \<in> set glob. CheckFile file \<and> (\<exists>k. name = Some k)"
  shows "go_fold (\<lambda>b (name, file).
       if \<not> CheckFile file then Fatal
       else case name of None \<Rightarrow> Fatal | Some n \<Rightarrow> Ret (if n > b then n else b)) b glob
    = Ret (Max (insert b ((the \<circ> fst) ` set glob)))"
  using assms
proof (induction glob arbitrary: b)
  case (Cons e glob)
  obtain k f where e: "e = (Some k, f)" "CheckFile f" using Cons.prems by (cases e) auto
  have "Max (insert b (insert k X)) = Max (insert (if k > b then k else b) X)" if "finite X" for X :: "int set"
    using that by (cases "X = {}") (auto simp: Max_insert max_def)
  with Cons e show ?case by (simp add: insert_commute)
qed simp

lemma last_block_eq:
  assumes "lists_blocks glob bs" "bs \<noteq> []"
  shows "last_block glob = Ret (int (length bs) - 1)"
proof -
  have s: "set glob = set (map (\<lambda>k. (Some (int k), file_of (bs ! k))) [0..<length bs])"
    using assms(1) by (simp add: lists_blocks_def)
  have "(the \<circ> fst) ` set glob = int ` {0..<length bs}" unfolding s by (auto simp: image_iff)
  moreover have "Max (insert 0 (int ` {0..<length bs})) = int (length bs) - 1"
    using assms(2)
    by (intro Max_eqI) (auto simp: image_iff of_nat_diff Suc_le_eq intro!: bexI [of _ "length bs - 1"])
  ultimately show ?thesis
    unfolding last_block_def using CheckFile_file_of by (subst last_block_fold) (auto simp: s)
qed

definition empty_storage :: "(int \<rightharpoonup> bytes) \<Rightarrow> int \<Rightarrow> bytes option \<Rightarrow> bytes option \<Rightarrow> storage" where
  "empty_storage d n peer_file group_file =
     \<lparr>disk = d, dirty = False, block_NO = n, files = (New LRU_SIZE)\<lparr>OnEvicted := True\<rparr>,
       last_id = 0, last_saved_id = 0, ewt = [], message_index = Map.empty,
       peer_index_file = peer_file, group_message_index = Map.empty, group_index_file = group_file\<rparr>"

lemma cache_ok_empty: "cache_ok (empty_storage d n p g)"
proof -
  have "lru_inv ((New LRU_SIZE)\<lparr>OnEvicted := True\<rparr> :: (int, int) lru)"
    by (simp add: lru_inv_def New_def)
  then show ?thesis
    by (simp add: cache_ok_def lru.all_cached_def empty_storage_def lookup_def entries_def New_def)
qed

lemma new_storage_empty: "new_storage [] p g = Ret (empty_storage (disk_of [[]]) 0 p g)"
proof -
  have "disk_of [[]] = [0 \<mapsto> file_header]"
    by (rule ext) (auto simp: disk_of_def file_of_def)
  then show ?thesis
    by (simp add: new_storage_def NewStorageFile_def last_block_def openWriteFile_def
        glob_disk_def [abs_def] empty_storage_def)
qed

lemma new_storage_blocks:
  assumes "lists_blocks glob bs" "blocks_ok bs"
  shows "new_storage glob p g = Ret (empty_storage (disk_of bs) (int (length bs) - 1) p g)"
proof -
  have ne: "bs \<noteq> []" using assms(2) by (simp add: blocks_ok_def)
  have "disk_of bs (int (length bs) - 1) = Some (file_of (last bs))" by (rule file_of_last [OF ne])
  moreover from this have "(disk_of bs)(int (length bs) - 1 \<mapsto> file_of (last bs)) = disk_of bs"
    by (auto simp: fun_eq_iff)
  moreover have "32 \<le> length (file_of (last bs))" by (rule length_file_of)
  moreover from this have "file_of (last bs) \<noteq> []" by auto
  ultimately show ?thesis
    by (simp add: new_storage_def NewStorageFile_def last_block_eq [OF assms(1) ne]
        glob_disk_eq [OF assms(1)] openWriteFile_def empty_storage_def Let_def)
qed

lemma storage_ok_empty: "storage_ok [[]] (empty_storage (disk_of [[]]) 0 p g)"
proof -
  have "blocks_ok [[]]" by (simp add: blocks_ok_def file_of_def)
  moreover have log: "log_of [[]] = []" by (simp add: log_of_def)
  moreover have "reset_index (empty_storage d n p g) = empty_storage d n p g" for d n
    by (simp add: reset_index_def empty_storage_def)
  moreover have "getPeerIndex a u (empty_storage d n p g) = user_index_of []"
    "getGroupIndex a u (empty_storage d n p g) = group_index_of []" for a u d n
    by (simp_all add: getPeerIndex_def getGroupIndex_def empty_storage_def user_index_of_def
        group_index_of_def ui_zero_def gi_zero_def peer_records_def batch_records_def)
  ultimately show ?thesis
    using cache_ok_empty [of "disk_of [[]]" 0 p g]
    by (simp add: storage_ok_def layout_def records_def List.map_filter_def empty_storage_def)
qed

text \<open>
  Without index files a restart rebuilds the live state: whatever the indexes were when the server
  stopped, they are the same after it started again on its block files.
\<close>

lemma FlushIndex_frame:
  fixes s :: "'a storage_scheme"
  shows "\<exists>f :: 'a storage_scheme. FlushIndex es gs s = with_log f s \<and> disk f = disk s \<and> block_NO f = block_NO s \<and> files f = files s"
proof -
  have "FlushIndex es gs s = with_log (FlushIndex es gs s) s"
    "disk (FlushIndex es gs s) = disk s" "block_NO (FlushIndex es gs s) = block_NO s"
    "files (FlushIndex es gs s) = files s"
    by (auto simp: FlushIndex_def flushIndex_def with_log_def savePeerIndex_def saveGroupIndex_def Let_def)
  then show ?thesis by blast
qed

lemma layout_with_log:
  "disk f = disk s \<Longrightarrow> block_NO f = block_NO s \<Longrightarrow> files f = files s \<Longrightarrow>
   layout bs (with_log f s) = layout bs s"
  by (simp add: layout_def with_log_def cache_ok_def)

lemma with_log_fields:
  "message_index (with_log f s) = message_index s"
  "group_message_index (with_log f s) = group_message_index s" "last_id (with_log f s) = last_id s"
  by (simp_all add: with_log_def)

lemma restart_rebuilds:
  fixes s :: storage
  assumes ok: "storage_ok bs s" and glob: "lists_blocks glob bs"
  obtains t where "NewStorage peers groups glob None None = Ret t" "storage_ok bs t"
    "message_index t = message_index s" "group_message_index t = group_message_index s"
    "last_id t = last_id s"
proof -
  have l: "layout bs s" and b: "blocks_ok bs" using storage_okD(1) [OF ok] by (simp_all add: layout_def)
  let ?e = "empty_storage (disk_of bs) (int (length bs) - 1) None None"
  let ?t = "with_log ?e s"
  have le: "layout bs ?e"
    using b cache_ok_empty by (simp add: layout_def empty_storage_def cache_ok_def)
  have e: "?e = with_log ?e (reset_index s)" by (simp add: empty_storage_def with_log_def reset_index_def)
  have read: "readPeerIndex ?e = (False, ?e)" "readGroupIndex ?e = (False, ?e)"
    "?e\<lparr>last_saved_id := last_id ?e\<rparr> = ?e"
    by (simp_all add: readPeerIndex_def readGroupIndex_def empty_storage_def)
  have "build_index ?e = go_bind (createPeerIndex ?e) createGroupIndex"
    by (simp add: build_index_def read)
  also have "\<dots> = replay execMessage (log_of bs) (with_log ?e (reset_index s))"
    using create_indexes [OF le] e by simp
  also have "\<dots> = Ret ?t" by (simp add: replay_with_log storage_okD(2) [OF ok])
  finally have build: "build_index ?e = Ret ?t" .
  have "layout bs ?t" using le by (simp add: layout_def with_log_def empty_storage_def cache_ok_def)
  then have okt: "storage_ok bs ?t" by (rule storage_ok_with_log [OF ok])
  obtain f :: storage where f: "FlushIndex (peers ?t) (groups ?t) ?t = with_log f ?t" "disk f = disk ?t"
    "block_NO f = block_NO ?t" "files f = files ?t" using FlushIndex_frame by blast
  have "layout bs (with_log f ?t)"
    unfolding layout_with_log [OF f(2-4)] by (rule storage_okD(1) [OF okt])
  then have "storage_ok bs (with_log f ?t)" by (rule storage_ok_with_log [OF okt])
  then show thesis
    by (intro that [of "with_log f ?t"])
      (simp_all add: NewStorage_def new_storage_blocks [OF glob b] build f(1) with_log_fields)
qed

end
