(* ===== verification/StorageRepair.thy ===== *)
theory StorageRepair
  imports StorageRestart
begin

text \<open>
  The index files and the repair of the indexes by the part of the log that was written after the
  index files: what a restart restores, and what it misses.
\<close>

section \<open>The index files\<close>

lemma read_peer_records_Cons:
  "read_peer_records (peer_index_record k v @ data) s =
     read_peer_records data (setPeerIndex (u_appid k) (u_uid k) v s)"
  by (cases v, subst read_peer_records.simps) (simp add: peer_index_record_def Let_def)

lemma read_group_records_Cons:
  "read_group_records (group_index_record k v @ data) s =
     read_group_records data (setGroupIndex (g_appid k) (g_gid k) v s)"
  by (cases v, subst read_group_records.simps) (simp add: group_index_record_def Let_def)

definition set_peers :: "(user_id \<times> user_index) list \<Rightarrow> 'a peer_storage_scheme \<Rightarrow> 'a peer_storage_scheme" where
  "set_peers es s = foldl (\<lambda>s (k, v). setPeerIndex (u_appid k) (u_uid k) v s) s es"

definition set_groups :: "(group_id \<times> group_index) list \<Rightarrow> 'a storage_scheme \<Rightarrow> 'a storage_scheme" where
  "set_groups es s = foldl (\<lambda>s (k, v). setGroupIndex (g_appid k) (g_gid k) v s) s es"

lemma read_peer_file:
  "length junk < 56 \<Longrightarrow>
   read_peer_records (concat (map (\<lambda>(k, v). peer_index_record k v) es) @ junk) s = set_peers es s"
proof (induction es arbitrary: s)
  case Nil
  then show ?case by (subst read_peer_records.simps) (simp add: set_peers_def)
qed (auto simp: read_peer_records_Cons set_peers_def)

lemma read_group_file:
  "length junk < 48 \<Longrightarrow>
   read_group_records (concat (map (\<lambda>(k, v). group_index_record k v) es) @ junk) s = set_groups es s"
proof (induction es arbitrary: s)
  case Nil
  then show ?case by (subst read_group_records.simps) (simp add: set_groups_def)
qed (auto simp: read_group_records_Cons set_groups_def)

lemma message_index_set:
  "message_index (setPeerIndex (u_appid k) (u_uid k) v s) = (message_index s)(k \<mapsto> v)"
  by (cases k) (simp add: setPeerIndex_def Let_def)

lemma group_index_set:
  "group_message_index (setGroupIndex (g_appid k) (g_gid k) v s) = (group_message_index s)(k \<mapsto> v)"
  by (cases k) (simp add: setGroupIndex_def Let_def)

lemma set_peers_index: "message_index (set_peers es s) = message_index s ++ map_of (rev es)"
proof (induction es arbitrary: s)
  case (Cons e es)
  then show ?case by (cases e) (simp add: set_peers_def message_index_set map_add_def fun_eq_iff split: option.split)
qed (simp add: set_peers_def)

lemma set_groups_index: "group_message_index (set_groups es s) = group_message_index s ++ map_of (rev es)"
proof (induction es arbitrary: s)
  case (Cons e es)
  then show ?case by (cases e) (simp add: set_groups_def group_index_set map_add_def fun_eq_iff split: option.split)
qed (simp add: set_groups_def)

lemma map_of_rev: "distinct (map fst es) \<Longrightarrow> map_of (rev es) = map_of es"
  by (rule map_of_eqI) (auto simp: rev_map [symmetric] map_of_eq_None_iff dest!: map_of_SomeD)

text \<open>What \<open>savePeerIndex\<close> wrote is read back, with or without a torn last record.\<close>

lemma peer_index_file_roundtrip:
  assumes "distinct (map fst es)" "map_of es = message_index s" "length junk < 56"
    and "message_index t = Map.empty"
    and "peer_index_file t = map_option (\<lambda>d. d @ junk) (peer_index_file (savePeerIndex es s))"
  shows "fst (readPeerIndex t)" "message_index (snd (readPeerIndex t)) = message_index s"
  using assms
  by (simp_all add: readPeerIndex_def savePeerIndex_def read_peer_file set_peers_index map_of_rev)

lemma group_index_file_roundtrip:
  assumes "distinct (map fst es)" "map_of es = group_message_index s" "length junk < 48"
    and "group_message_index t = Map.empty"
    and "group_index_file t = map_option (\<lambda>d. d @ junk) (group_index_file (saveGroupIndex es s))"
  shows "fst (readGroupIndex t)" "group_message_index (snd (readGroupIndex t)) = group_message_index s"
  using assms
  by (simp_all add: readGroupIndex_def saveGroupIndex_def read_group_file set_groups_index map_of_rev)

section \<open>Repair\<close>

lemma repair_blocks_from_header:
  assumes "\<And>m i s s'. layout bs s \<Longrightarrow> body m i s = Ret s' \<Longrightarrow> layout bs s'"
    and "layout bs s" "\<forall>k \<in> set ks. k < length bs" "first \<notin> int ` set ks"
  shows "repair_blocks body first off (map int ks) s
    = replay body (concat (map (\<lambda>k. block_log (int k) HEADER_SIZE (bs ! k)) ks)) s"
  using assms(2-)
proof (induction ks arbitrary: s)
  case (Cons k ks)
  then have k: "k < length bs" by simp
  have st: "\<forall>m \<in> set (bs ! k). storable m" "disk s = disk_of bs"
    using Cons.prems(1) k by (auto simp: layout_def blocks_ok_def)
  have scan: "scan_file body (int k) (the (disk s (int k))) (file_from (int k) HEADER_SIZE s) s
      = replay body (block_log (int k) HEADER_SIZE (bs ! k)) s"
    using k st(2) scan_file_from_header [OF st(1), of body "int k" s]
    by (simp add: file_from_def disk_of_def)
  have open_k: "openReadFile (int k) s = Some (int k)" using k st(2) by (simp add: openReadFile_def disk_of_def)
  show ?case
  proof (cases "replay body (block_log (int k) HEADER_SIZE (bs ! k)) s")
    case (Ret t)
    have "layout bs t" by (rule replay_layout [OF assms(1) Cons.prems(1) Ret])
    then show ?thesis using Cons.IH [of t] Cons.prems(2,3) Ret scan open_k by (auto simp: replay_append Let_def)
  qed (use scan open_k Cons.prems(3) in \<open>auto simp: replay_append Let_def\<close>)
qed simp

text \<open>The scan that starts at message \<open>i\<close> replays the log from \<open>i\<close> on.\<close>

lemma repair_from:
  assumes keep: "\<And>m i s s'. layout bs s \<Longrightarrow> body m i s = Ret s' \<Longrightarrow> layout bs s'"
    and l: "layout bs s" and log: "log_of bs = A @ (i, m) # B"
  shows "repair_blocks body (getBlockNO i) (getBlockOffset i) [getBlockNO i..block_NO s] s
    = replay body ((i, m) # B) s"
proof -
  have b: "blocks_ok bs" and d: "disk s = disk_of bs" and n: "block_NO s = int (length bs) - 1"
    using l by (simp_all add: layout_def)
  obtain k X Y where k: "k < length bs" "bs ! k = X @ m # Y" "i = getMsgId (int k) (int (length (file_of X)))"
    and tail: "B = block_log (int k) (int (length (file_of (X @ [m])))) Y
      @ concat (map (\<lambda>k. block_log (int k) HEADER_SIZE (bs ! k)) [Suc k..<length bs])"
    using log_position [OF b log] .
  note p = position_in_block [OF b k(1,2)]
  have pos: "getBlockNO i = int k" "getBlockOffset i = int (length (file_of X))"
    using getBlock_getMsgId [OF p(1)] by (simp_all add: k(3))
  have st: "\<forall>x \<in> set (m # Y). storable x" using b k(1,2) nth_mem [OF k(1)] by (fastforce simp: blocks_ok_def)
  have bytes_k: "the (disk s (int k)) = file_of X @ concat (map stored (m # Y))"
    using k(1,2) by (simp add: d disk_of_def file_of_def)
  have scan: "scan_file body (int k) (the (disk s (int k))) (file_from (int k) (int (length (file_of X))) s) s
      = replay body (block_log (int k) (int (length (file_of X))) (m # Y)) s"
    using scan_file_stored [OF st, of "the (disk s (int k))" "length (file_of X)" body "int k" s]
    by (simp add: bytes_k file_from_def)
  have ks: "[int k..block_NO s] = int k # map int [Suc k..<length bs]"
    using k(1) upto_int_from [of k "length bs"] by (simp add: n upt_conv_Cons)
  have open_k: "openReadFile (int k) s = Some (int k)" using k(1) by (simp add: openReadFile_def d disk_of_def)
  let ?first = "block_log (int k) (int (length (file_of X))) (m # Y)"
  let ?post = "concat (map (\<lambda>k. block_log (int k) HEADER_SIZE (bs ! k)) [Suc k..<length bs])"
  have split: "(i, m) # B = ?first @ ?post"
    by (simp add: tail k(3) file_of_snoc)
  have "repair_blocks body (getBlockNO i) (getBlockOffset i) [getBlockNO i..block_NO s] s
      = go_bind (replay body ?first s)
          (repair_blocks body (int k) (int (length (file_of X))) (map int [Suc k..<length bs]))"
    unfolding pos ks scan [symmetric] by (simp add: open_k Let_def)
  also have "\<dots> = go_bind (replay body ?first s) (replay body ?post)"
  proof (cases "replay body ?first s")
    case (Ret t)
    have lt: "layout bs t" by (rule replay_layout [OF keep l Ret])
    have "repair_blocks body (int k) (int (length (file_of X))) (map int [Suc k..<length bs]) t
        = replay body ?post t"
      by (rule repair_blocks_from_header, erule (1) keep) (use lt in auto)
    with Ret show ?thesis by (simp only: go_bind.simps)
  qed (simp_all only: go_bind.simps)
  finally show ?thesis unfolding split replay_append .
qed

text \<open>While the log is replayed in order, \<open>last_id\<close> stays below the ids still to come.\<close>

lemma exec_last_id:
  assumes "execPeerMessage m i s = Ret s'" "sint (last_id s) \<le> sint i"
  shows "sint (last_id s') \<le> sint i"
  using assms
  by (auto simp: execPeerMessage_def setPeerIndex_def Let_def split: if_splits option.splits)

lemma repair_peer_replay:
  assumes "sorted_wrt (<) (map (\<lambda>e. sint (fst e)) log)" "\<forall>e \<in> set log. sint (last_id s) < sint (fst e)"
  shows "replay repair_peer_message log s = replay execPeerMessage log s"
  using assms
proof (induction log arbitrary: s)
  case (Cons e log)
  obtain i m where e: "e = (i, m)" by (cases e)
  have "i \<noteq> last_id s" using Cons.prems(2) by (auto simp: e)
  then have first: "repair_peer_message (canon m) i s = execPeerMessage (canon m) i s"
    by (simp add: repair_peer_message_def)
  show ?case
  proof (cases "execPeerMessage (canon m) i s")
    case (Ret t)
    have "sint (last_id t) \<le> sint i"
      using exec_last_id [OF Ret] Cons.prems(2) by (simp add: e)
    then have "\<forall>e \<in> set log. sint (last_id t) < sint (fst e)"
      using Cons.prems(1) by (force simp: e)
    then show ?thesis using Cons.IH [of t] Cons.prems(1) Ret first by (simp add: e)
  qed (simp_all add: e first)
qed simp

lemma repair_peer_layout:
  fixes s :: "'a storage_scheme"
  shows "layout bs s \<Longrightarrow> repair_peer_message m i s = Ret s' \<Longrightarrow> layout bs s'"
  by (auto simp: repair_peer_message_def split: if_splits dest: exec_layout)

text \<open>
  \<open>repairPeerIndex\<close> from a \<open>last_id\<close> that is in the log executes exactly the messages after it.
\<close>

lemma repairPeerIndex_eq:
  fixes s :: "'a storage_scheme"
  assumes l: "layout bs s" and log: "log_of bs = A @ (last_id s, m) # B"
  shows "repairPeerIndex s = replay execPeerMessage B s"
proof -
  have b: "blocks_ok bs" using l by (simp add: layout_def)
  have "sorted_wrt (<) (map (\<lambda>e. sint (fst e)) B)" "\<forall>e \<in> set B. sint (last_id s) < sint (fst e)"
    using sorted_log_of [OF b] by (auto simp: log sorted_wrt_append)
  then have "replay repair_peer_message B s = replay execPeerMessage B s" by (rule repair_peer_replay)
  moreover have "repair_peer_message (canon m) (last_id s) s = Ret s"
    by (simp add: repair_peer_message_def)
  ultimately show ?thesis
    using repair_from [OF repair_peer_layout l log] by (simp add: repairPeerIndex_def Let_def)
qed

text \<open>\<open>repairGroupIndex\<close> executes the message at \<open>last_id\<close> again, and those after it.\<close>

lemma repairGroupIndex_eq:
  assumes "layout bs s" and "log_of bs = A @ (last_id s, m) # B"
  shows "repairGroupIndex s = replay execGroupMessage ((last_id s, m) # B) s"
  unfolding repairGroupIndex_def Let_def by (rule repair_from [OF exec_layout(2) assms])

text \<open>From a \<open>last_id\<close> of 0 the scan of block 0 starts in the file header and stops there.\<close>

lemma repair_from_zero:
  assumes keep: "\<And>m i s s'. layout bs s \<Longrightarrow> body m i s = Ret s' \<Longrightarrow> layout bs s'"
    and l: "layout bs s"
  shows "repair_blocks body (getBlockNO 0) (getBlockOffset 0) [getBlockNO 0..block_NO s] s
    = replay body (concat (map (\<lambda>k. block_log (int k) HEADER_SIZE (bs ! k)) [1..<length bs])) s"
proof -
  have b: "blocks_ok bs" and d: "disk s = disk_of bs" and n: "block_NO s = int (length bs) - 1"
    using l by (simp_all add: layout_def)
  have z: "getBlockNO 0 = 0" "getBlockOffset 0 = 0" by (simp_all add: getBlockNO_def getBlockOffset_def)
  have ne: "0 < length bs" using b by (auto simp: blocks_ok_def)
  have "[0..block_NO s] = 0 # map int [1..<length bs]"
    using ne upto_int [of "length bs"] by (simp add: n upt_conv_Cons)
  moreover have open0: "openReadFile 0 s = Some 0" using ne by (simp add: openReadFile_def d disk_of_def)
  moreover obtain r where "ReadMessage (the (disk s 0)) = Ret (None, r)"
    using load_zero [OF b] ne
    by (auto simp: load_at_def d disk_of_def z dest!: go_map_Ret_iff [THEN iffD1])
  then have "scan_file body 0 (the (disk s 0)) (file_from 0 0 s) s = Ret s"
    by (subst scan_file.simps) (simp add: file_from_def)
  moreover have "repair_blocks body 0 0 (map int [1..<length bs]) s
      = replay body (concat (map (\<lambda>k. block_log (int k) HEADER_SIZE (bs ! k)) [1..<length bs])) s"
    by (rule repair_blocks_from_header, erule (1) keep) (use l in auto)
  ultimately show ?thesis by (simp add: z)
qed

text \<open>Both repairs in a row: the second starts at the last id the first has left.\<close>

lemma execPeer_groups:
  fixes s :: "'a storage_scheme"
  assumes "execPeerMessage m i s = Ret s'"
  shows "group_message_index s' = group_message_index s"
  using assms
  by (auto simp: execPeerMessage_def setPeerIndex_def Let_def split: if_splits option.splits)

lemma replay_execPeer_groups:
  fixes s :: "'a storage_scheme"
  shows "replay execPeerMessage log s = Ret s' \<Longrightarrow> group_message_index s' = group_message_index s"
proof (induction log arbitrary: s)
  case (Cons e log)
  obtain i m where e: "e = (i, m)" by (cases e)
  with Cons.prems obtain t where "execPeerMessage (canon m) i s = Ret t" "replay execPeerMessage log t = Ret s'"
    by (cases "execPeerMessage (canon m) i s") auto
  with Cons.IH execPeer_groups show ?case by metis
qed simp

lemma execPeer_last_id:
  "execPeerMessage m i s = Ret s' \<Longrightarrow> last_id s' = last_id s \<or> last_id s' = i"
  by (auto simp: execPeerMessage_def setPeerIndex_def Let_def split: if_splits option.splits)

lemma replay_execPeer_last_id:
  "replay execPeerMessage log s = Ret s' \<Longrightarrow> last_id s' = last_id s \<or> last_id s' \<in> fst ` set log"
proof (induction log arbitrary: s)
  case (Cons e log)
  obtain i m where e: "e = (i, m)" by (cases e)
  with Cons.prems obtain t where "execPeerMessage (canon m) i s = Ret t" "replay execPeerMessage log t = Ret s'"
    by (cases "execPeerMessage (canon m) i s") auto
  with Cons.IH [of t] execPeer_last_id [of "canon m" i s t] show ?case by (auto simp: e)
qed simp

lemma repair_skips_groups:
  fixes s s' :: "'a storage_scheme"
  assumes l: "layout bs s"
    and log: "log_of bs = A @ (last_id s, m) # B @ [(j, record_message MSG_OFFLINE_V4 flag off)]"
    and r: "repairPeerIndex s = Ret s'"
  shows "repairGroupIndex s' = Ret s' \<and> group_message_index s' = group_message_index s"
proof -
  let ?rec = "record_message MSG_OFFLINE_V4 flag off"
  have p: "replay execPeerMessage (B @ [(j, ?rec)]) s = Ret s'"
    using repairPeerIndex_eq [OF l log] r by simp
  then obtain t where t: "replay execPeerMessage B s = Ret t" "execPeerMessage (canon ?rec) j t = Ret s'"
    by (auto simp: replay_append)
  have "sorted_wrt (<) (map (\<lambda>e. sint (fst e)) (log_of bs))"
    using l sorted_log_of by (simp add: layout_def)
  then have "sint (last_id t) < sint j"
    using replay_execPeer_last_id [OF t(1)] by (auto simp: log sorted_wrt_append)
  then have "last_id s' = j"
    using t(2) by (auto simp: execPeerMessage_def record_message_def offline_of_def setPeerIndex_def Let_def)
  then have "log_of bs = (A @ (last_id s, m) # B) @ (last_id s', ?rec) # []" by (simp add: log)
  moreover have "layout bs s'" by (rule replay_layout [OF exec_layout(1) l p])
  ultimately have "repairGroupIndex s' = replay execGroupMessage [(last_id s', ?rec)] s'"
    by (intro repairGroupIndex_eq)
  moreover have "execGroupMessage (canon ?rec) (last_id s') s' = Ret s'"
    by (simp add: execGroupMessage_def record_message_def)
  ultimately show ?thesis using replay_execPeer_groups [OF p] by simp
qed

end
