(* ===== verification/StorageServer.thy ===== *)
theory StorageServer
  imports StorageRepair
begin

text \<open>
  The storage server as a state machine: a start on an empty directory and then any sequence of the
  remote procedures and of the flushes. Every state it reaches satisfies \<open>storage_ok\<close>.
\<close>

section \<open>Loads only move entries of the file cache\<close>

definition touched :: "message list list \<Rightarrow> 'a storage_file_scheme \<Rightarrow> 'a storage_file_scheme \<Rightarrow> bool" where
  "touched bs s s' \<longleftrightarrow> (\<exists>c. s' = s\<lparr>files := c\<rparr>) \<and> layout bs s'"

lemma touched_refl: "layout bs s \<Longrightarrow> touched bs s s"
  by (auto simp: touched_def intro: exI [of _ "files s"])

lemma touched_trans: "touched bs s t \<Longrightarrow> touched bs t u \<Longrightarrow> touched bs s u"
  by (auto simp: touched_def)

lemma touched_layout: "touched bs s t \<Longrightarrow> layout bs t"
  by (simp add: touched_def)

lemma LoadMessage_touched:
  assumes "layout bs s" "LoadMessage i s = Ret (x, s')"
  shows "touched bs s s'"
proof -
  from assms(1) have "cache_ok s" by (simp add: layout_def)
  then obtain c where "LoadMessage i s = go_map (\<lambda>msg. (msg, s\<lparr>files := c\<rparr>)) (load_at (disk s) i)"
    "cache_ok (s\<lparr>files := c\<rparr>)" by (rule LoadMessage_eq)
  with assms show ?thesis by (auto simp: touched_def layout_def)
qed

text \<open>
  \<open>ends_in bs s st x\<close>: if the call \<open>x\<close>, made in state \<open>s\<close>, returns, then \<open>st\<close> of what it returns is a
  state that differs from \<open>s\<close> in the file cache at most. One rule for each construct of a loop.
\<close>

definition ends_in ::
  "message list list \<Rightarrow> 'a storage_file_scheme \<Rightarrow> ('r \<Rightarrow> 'a storage_file_scheme) \<Rightarrow> 'r go option \<Rightarrow> bool"
where
  "ends_in bs s st x \<longleftrightarrow> layout bs s \<longrightarrow> (\<forall>r. x = Some (Ret r) \<longrightarrow> touched bs s (st r))"

lemma ends_in_Ret: "st r = s \<Longrightarrow> ends_in bs s st (Some (Ret r))"
  by (auto simp: ends_in_def touched_refl)

lemma ends_in_load:
  assumes "\<And>m t. ends_in bs t st (f m t)"
  shows "ends_in bs s st (loop_bind (LoadMessage i s) (\<lambda>(m, t). f m t))"
proof (cases "LoadMessage i s")
  case (Ret z)
  obtain m t where z: "z = (m, t)" by (cases z)
  show ?thesis
    using assms [of t m] LoadMessage_touched [of bs s i m t] touched_layout touched_trans
    unfolding ends_in_def Ret z loop_bind.simps prod.case by metis
qed (simp_all add: ends_in_def)

lemma ends_in_bind: "(\<And>z. x = Ret z \<Longrightarrow> ends_in bs s st (f z)) \<Longrightarrow> ends_in bs s st (loop_bind x f)"
  by (cases x) (simp_all add: ends_in_def)

lemma ends_in_if:
  "(c \<Longrightarrow> ends_in bs s st x) \<Longrightarrow> (\<not> c \<Longrightarrow> ends_in bs s st y) \<Longrightarrow> ends_in bs s st (if c then x else y)"
  by simp

lemma ends_in_case:
  "ends_in bs s st x \<Longrightarrow> (\<And>z. ends_in bs s st (y z)) \<Longrightarrow>
   ends_in bs s st (case v of None \<Rightarrow> x | Some z \<Rightarrow> y z)"
  by (cases v) auto

lemma ends_in_let: "ends_in bs s st (f v) \<Longrightarrow> ends_in bs s st (let x = v in f x)"
  by (simp add: Let_def)

lemma ends_in_prod: "(\<And>a b. ends_in bs s st (f a b)) \<Longrightarrow> ends_in bs s st (case p of (a, b) \<Rightarrow> f a b)"
  by (cases p) auto

lemmas ends_in_rules = ends_in_if ends_in_case ends_in_let ends_in_prod ends_in_load

lemma ends_in_rec:
  "(\<And>y. x = Some y \<Longrightarrow> ends_in bs s st (Some y)) \<Longrightarrow> ends_in bs s st x"
  by (cases x) (simp_all add: ends_in_def)

lemma history_loop_ends_Some:
  assumes "history_loop sync gl limit i lm ms s = Some y"
  shows "ends_in bs s (\<lambda>(_, _, t). t) (Some y)"
proof (rule history_loop.raw_induct [where P = "\<lambda>sync gl limit i lm ms s y. ends_in bs s (\<lambda>(_, _, t). t) (Some y)",
      OF _ assms], goal_cases)
  case (1 loop sync gl limit i lm ms s y)
  have rec: "ends_in bs s (\<lambda>(_, _, t). t) (loop sync gl limit i lm ms s)" for sync gl limit i lm ms s
    by (rule ends_in_rec) (rule 1(1))
  show ?case unfolding 1(2) [symmetric]
    by (intro ends_in_rules rec) (auto intro: ends_in_Ret)
qed

lemma history_loop_ends: "ends_in bs s (\<lambda>(_, _, t). t) (history_loop sync gl limit i lm ms s)"
  by (rule ends_in_rec) (rule history_loop_ends_Some)

lemma batch_loop_ends_Some:
  assumes "batch_loop sync n i ids s = Some y"
  shows "ends_in bs s (\<lambda>(_, t). t) (Some y)"
proof (rule batch_loop.raw_induct [where P = "\<lambda>sync n i ids s y. ends_in bs s (\<lambda>(_, t). t) (Some y)",
      OF _ assms], goal_cases)
  case (1 loop sync n i ids s y)
  have rec: "ends_in bs s (\<lambda>(_, t). t) (loop sync n i ids s)" for sync n i ids s
    by (rule ends_in_rec) (rule 1(1))
  show ?case unfolding 1(2) [symmetric]
    by (intro ends_in_rules rec) (auto intro: ends_in_Ret)
qed

lemma batch_loop_ends: "ends_in bs s (\<lambda>(_, t). t) (batch_loop sync n i ids s)"
  by (rule ends_in_rec) (rule batch_loop_ends_Some)

lemma v3_loop_ends_Some:
  assumes "v3_loop sync limit p i lm lo ms s = Some y"
  shows "ends_in bs s (\<lambda>(_, _, _, t). t) (Some y)"
proof (rule v3_loop.raw_induct [where P = "\<lambda>sync limit p i lm lo ms s y. ends_in bs s (\<lambda>(_, _, _, t). t) (Some y)",
      OF _ assms], goal_cases)
  case (1 loop sync limit p i lm lo ms s y)
  have rec: "ends_in bs s (\<lambda>(_, _, _, t). t) (loop sync limit p i lm lo ms s)" for sync limit p i lm lo ms s
    by (rule ends_in_rec) (rule 1(1))
  show ?case unfolding 1(2) [symmetric]
    by (intro ends_in_rules rec) (auto intro: ends_in_Ret)
qed

lemma v3_loop_ends: "ends_in bs s (\<lambda>(_, _, _, t). t) (v3_loop sync limit p i lm lo ms s)"
  by (rule ends_in_rec) (rule v3_loop_ends_Some)

lemma latest_loop_ends_Some:
  assumes "latest_loop limit i ms s = Some y"
  shows "ends_in bs s (\<lambda>(_, t). t) (Some y)"
proof (rule latest_loop.raw_induct [where P = "\<lambda>limit i ms s y. ends_in bs s (\<lambda>(_, t). t) (Some y)",
      OF _ assms], goal_cases)
  case (1 loop limit i ms s y)
  have rec: "ends_in bs s (\<lambda>(_, t). t) (loop limit i ms s)" for limit i ms s
    by (rule ends_in_rec) (rule 1(1))
  show ?case unfolding 1(2) [symmetric]
    by (intro ends_in_rules rec) (auto intro: ends_in_Ret)
qed

lemma latest_loop_ends: "ends_in bs s (\<lambda>(_, t). t) (latest_loop limit i ms s)"
  by (rule ends_in_rec) (rule latest_loop_ends_Some)

lemma group_history_loop_ends_Some:
  assumes "group_history_loop msgid ts limit i lm ms s = Some y"
  shows "ends_in bs s (\<lambda>(_, _, t). t) (Some y)"
proof (rule group_history_loop.raw_induct [where P = "\<lambda>msgid ts limit i lm ms s y. ends_in bs s (\<lambda>(_, _, t). t) (Some y)",
      OF _ assms], goal_cases)
  case (1 loop msgid ts limit i lm ms s y)
  have rec: "ends_in bs s (\<lambda>(_, _, t). t) (loop msgid ts limit i lm ms s)" for msgid ts limit i lm ms s
    by (rule ends_in_rec) (rule 1(1))
  show ?case unfolding 1(2) [symmetric]
    by (intro ends_in_rules rec ends_in_bind) (auto intro: ends_in_Ret)
qed

lemma group_history_loop_ends: "ends_in bs s (\<lambda>(_, _, t). t) (group_history_loop msgid ts limit i lm ms s)"
  by (rule ends_in_rec) (rule group_history_loop_ends_Some)

section \<open>Saving for the members of a group\<close>

lemma SavePeerGroupMessage_ok:
  assumes "storage_ok bs s" "plain m" "length bs + 2 * length members \<le> 2 ^ 36"
  shows "\<exists>r s' bs'. SavePeerGroupMessage a members dev m s = Ret (r, s') \<and> storage_ok bs' s'
    \<and> length r = 2 * length members
    \<and> (\<forall>u. length (records MSG_OFFLINE_V4 a u (log_of bs'))
        = length (records MSG_OFFLINE_V4 a u (log_of bs)) + count_list members u)
    \<and> length bs' \<le> length bs + 2 * length members"
  using assms(1,3)
proof (induction members arbitrary: bs s)
  case Nil
  then show ?case by auto
next
  case (Cons v members)
  have room: "length bs + 2 \<le> 2 ^ 36" using Cons.prems(2) by simp
  obtain s1 bs1 j where one: "SavePeerMessage a v dev m s
      = Ret ((next_id m bs, head_msgid (records MSG_OFFLINE_V4 a v (log_of bs))), s1)"
    "storage_ok bs1 s1" "length bs1 \<le> length bs + 2"
    "log_of bs1 = log_of bs @ [(next_id m bs, m), (j, record_message MSG_OFFLINE_V4 (group_flag m)
       (peer_record a v dev (next_id m bs) (user_index_of (records MSG_OFFLINE_V4 a v (log_of bs)))))]"
    using SavePeerMessage_ok [OF Cons.prems(1) assms(2) room] .
  have f: "group_flag m = 0 \<or> group_flag m = MESSAGE_FLAG_GROUP" by (simp add: group_flag_def)
  have recs: "length (records MSG_OFFLINE_V4 a u (log_of bs1))
      = length (records MSG_OFFLINE_V4 a u (log_of bs)) + (if u = v then 1 else 0)" for u
    unfolding one(4) records_two_saves [OF assms(2) f disjI1 [OF refl]] by (auto simp: peer_record_def)
  have "length bs1 + 2 * length members \<le> 2 ^ 36" using one(3) Cons.prems(2) by simp
  from Cons.IH [OF one(2) this] obtain r s' bs' where
    "SavePeerGroupMessage a members dev m s1 = Ret (r, s')" "storage_ok bs' s'" "length r = 2 * length members"
    "\<forall>u. length (records MSG_OFFLINE_V4 a u (log_of bs'))
        = length (records MSG_OFFLINE_V4 a u (log_of bs1)) + count_list members u"
    "length bs' \<le> length bs1 + 2 * length members" by blast
  with one(1,3) recs show ?case by (intro exI [of _ "_ # _ # r"] exI [of _ s'] exI [of _ bs']) auto
qed

section \<open>The state machine\<close>

inductive server :: "storage \<Rightarrow> bool" where
  start: "NewStorage peers groups [] None None = Ret s \<Longrightarrow> server s"
| save_peer: "server s \<Longrightarrow> plain m \<Longrightarrow> block_NO s + 3 \<le> 2 ^ 36 \<Longrightarrow>
    SavePeerMessage a u dev m s = Ret (r, s') \<Longrightarrow> server s'"
| save_members: "server s \<Longrightarrow> plain m \<Longrightarrow> block_NO s + 1 + 2 * int (length members) \<le> 2 ^ 36 \<Longrightarrow>
    SavePeerGroupMessage a members dev m s = Ret (rs, s') \<Longrightarrow> server s'"
| save_group: "server s \<Longrightarrow> plain m \<Longrightarrow> block_NO s + 3 \<le> 2 ^ 36 \<Longrightarrow>
    SaveGroupMessage a g dev m s = Ret (r, s') \<Longrightarrow> server s'"
| history: "server s \<Longrightarrow> LoadHistoryMessages a u sync group_limit limit s = Some (Ret (h, s')) \<Longrightarrow> server s'"
| history_v3: "server s \<Longrightarrow> LoadHistoryMessagesV3 a u sync limit hard_limit s = Some (Ret (h, s')) \<Longrightarrow> server s'"
| latest: "server s \<Longrightarrow> LoadLatestMessages a u limit s = Some (Ret (ms, s')) \<Longrightarrow> server s'"
| group_history: "server s \<Longrightarrow>
    LoadGroupHistoryMessages a u g msgid ts limit s = Some (Ret (gs, last_msgid, s')) \<Longrightarrow> server s'"
| new_count: "server s \<Longrightarrow> GetNewCount a u msgid s = Ret (n, s') \<Longrightarrow> server s'"
| flush: "server s \<Longrightarrow> server (Flush s)"
| flush_index: "server s \<Longrightarrow> server (FlushIndex es gs s)"

inductive_cases server_startE: "server s"

text \<open>A load keeps the invariant whatever its arguments are.\<close>

lemma storage_ok_touched: "storage_ok bs s \<Longrightarrow> touched bs s s' \<Longrightarrow> storage_ok bs s'"
  unfolding touched_def using storage_ok_files by blast

lemma ends_inD:
  "ends_in bs s st x \<Longrightarrow> storage_ok bs s \<Longrightarrow> x = Some (Ret r) \<Longrightarrow> storage_ok bs (st r)"
  unfolding ends_in_def using storage_ok_touched storage_okD(1) by metis

lemma LoadHistoryMessages_keeps:
  assumes "storage_ok bs s" "LoadHistoryMessages a u sync gl limit s = Some (Ret (h, s'))"
  shows "storage_ok bs s'"
proof -
  obtain ms lm where "history_loop sync gl limit (fst (GetLastMessageID a u s)) 0 [] s = Some (Ret (ms, lm, s'))"
    using assms(2) by (auto simp: LoadHistoryMessages_def split: prod.splits)
  from ends_inD [OF history_loop_ends assms(1) this] show ?thesis by simp
qed

lemma LoadLatestMessages_keeps:
  assumes "storage_ok bs s" "LoadLatestMessages a u limit s = Some (Ret (ms, s'))"
  shows "storage_ok bs s'"
proof -
  obtain i where "latest_loop limit i [] s = Some (Ret (ms, s'))"
    using assms(2) by (auto simp: LoadLatestMessages_def split: prod.splits)
  from ends_inD [OF latest_loop_ends assms(1) this] show ?thesis by simp
qed

lemma LoadGroupHistoryMessages_keeps:
  assumes "storage_ok bs s" "LoadGroupHistoryMessages a u g msgid ts limit s = Some (Ret (ms, lm, s'))"
  shows "storage_ok bs s'"
  using ends_inD [OF group_history_loop_ends assms(1)] assms(2)
  by (fastforce simp: LoadGroupHistoryMessages_def)

lemma loop_bind_Some_Ret:
  "loop_bind x f = Some (Ret y) \<longleftrightarrow> (\<exists>z. x = Ret z \<and> f z = Some (Ret y))"
  by (cases x) auto

lemma LoadHistoryMessagesV3_keeps:
  assumes "storage_ok bs s" "LoadHistoryMessagesV3 a u sync limit hard s = Some (Ret (h, s'))"
  shows "storage_ok bs s'"
proof -
  obtain n i ids s1 where one: "batch_loop sync n i [] s = Some (Ret (ids, s1))"
    and two: "\<exists>p k ms lm lo. v3_loop sync limit p k 0 0 [] s1 = Some (Ret (ms, lm, lo, s'))"
    using assms(2)
    by (fastforce simp: LoadHistoryMessagesV3_def Let_def loop_bind_Some_Ret split: option.splits prod.splits)
  have "storage_ok bs s1" using ends_inD [OF batch_loop_ends assms(1) one] by simp
  with two show ?thesis using ends_inD [OF v3_loop_ends] by fastforce
qed

lemma getFile_touched:
  assumes "layout bs s" "getFile b s = (file, s')"
  shows "touched bs s s'"
proof -
  from assms(1) have "cache_ok s" by (simp add: layout_def)
  then obtain c where "getFile b s = (openReadFile b s, s\<lparr>files := c\<rparr>)" "cache_ok (s\<lparr>files := c\<rparr>)"
    by (rule getFile_eq)
  with assms show ?thesis by (auto simp: touched_def layout_def)
qed

lemma GetNewCount_keeps:
  assumes ok: "storage_ok bs s" and r: "GetNewCount a u i s = Ret (n, s')"
  shows "storage_ok bs s'"
proof -
  obtain f1 s1 where one: "getFile (getBlockNO i) s = (f1, s1)" by fastforce
  obtain f2 s2 where two: "getFile (getBlockNO i + 1) s1 = (f2, s2)" by fastforce
  have t1: "touched bs s s1" using storage_okD(1) [OF ok] one by (rule getFile_touched)
  have t2: "touched bs s s2"
    using touched_trans [OF t1 getFile_touched [OF touched_layout [OF t1] two]] .
  have "s' = s \<or> s' = s1 \<or> s' = s2"
    using r by (auto simp: GetNewCount_def Let_def one two split: if_splits option.splits)
  with t1 t2 touched_refl [OF storage_okD(1) [OF ok]] storage_ok_touched [OF ok] show ?thesis by blast
qed

lemma NewStorage_fresh:
  "NewStorage peers groups [] None None = Ret (empty_storage (disk_of [[]]) 0 None None)"
proof -
  let ?e = "empty_storage (disk_of [[]]) 0 None None"
  have read: "readPeerIndex ?e = (False, ?e)" "readGroupIndex ?e = (False, ?e)"
    "?e\<lparr>last_saved_id := last_id ?e\<rparr> = ?e"
    by (simp_all add: readPeerIndex_def readGroupIndex_def empty_storage_def)
  have "log_of [[]] = []" by (simp add: log_of_def)
  then have "build_index ?e = Ret ?e"
    using create_indexes [OF storage_okD(1) [OF storage_ok_empty]]
    by (simp add: build_index_def read)
  moreover have "FlushIndex (peers ?e) (groups ?e) ?e = ?e" by (simp add: FlushIndex_def empty_storage_def)
  ultimately show ?thesis by (simp add: NewStorage_def new_storage_empty)
qed

lemma storage_ok_start: "NewStorage peers groups [] None None = Ret s \<Longrightarrow> storage_ok [[]] s"
  using storage_ok_empty by (auto simp: NewStorage_fresh)

lemma storage_ok_Flush:
  assumes "storage_ok bs s"
  shows "storage_ok bs (Flush s)"
proof -
  have w: "Flush s = with_log (Flush s) s" by (simp add: Flush_def with_log_def)
  have "layout bs (Flush s)"
    using storage_okD(1) [OF assms] by (auto simp: Flush_def layout_def cache_ok_def)
  then show ?thesis using storage_ok_with_log [OF assms, of "Flush s"] w by simp
qed

lemma storage_ok_FlushIndex:
  assumes ok: "storage_ok bs s"
  shows "storage_ok bs (FlushIndex es gs s)"
proof -
  obtain f :: "'a storage_scheme" where f: "FlushIndex es gs s = with_log f s" "disk f = disk s"
    "block_NO f = block_NO s" "files f = files s" using FlushIndex_frame by blast
  have "layout bs (with_log f s)"
    unfolding layout_with_log [OF f(2-4)] by (rule storage_okD(1) [OF ok])
  then show ?thesis unfolding f(1) by (rule storage_ok_with_log [OF ok])
qed

lemma storage_ok_blocks: "storage_ok bs s \<Longrightarrow> block_NO s = int (length bs) - 1"
  by (simp add: storage_ok_def layout_def)

lemma server_storage_ok: "server s \<Longrightarrow> \<exists>bs. storage_ok bs s"
proof (induction rule: server.induct)
  case (start peers groups s)
  then show ?case using storage_ok_start by blast
next
  case (save_peer s m a u dev r s')
  then obtain bs where bs: "storage_ok bs s" by blast
  have "length bs + 2 \<le> 2 ^ 36" using save_peer(3) storage_ok_blocks [OF bs] by simp
  with SavePeerMessage_ok [OF bs save_peer(2), of a u dev] save_peer(4) show ?case by (metis go.inject prod.inject)
next
  case (save_members s m members a dev rs s')
  then obtain bs where bs: "storage_ok bs s" by blast
  have "length bs + 2 * length members \<le> 2 ^ 36"
    using save_members(3) storage_ok_blocks [OF bs] by simp
  with SavePeerGroupMessage_ok [OF bs save_members(2), of members a dev] save_members(4) show ?case
    by (metis go.inject prod.inject)
next
  case (save_group s m a g dev r s')
  then obtain bs where bs: "storage_ok bs s" by blast
  have "length bs + 2 \<le> 2 ^ 36" using save_group(3) storage_ok_blocks [OF bs] by simp
  with SaveGroupMessage_ok [OF bs save_group(2), of a g dev] save_group(4) show ?case by (metis go.inject prod.inject)
qed (blast intro: LoadHistoryMessages_keeps LoadHistoryMessagesV3_keeps LoadLatestMessages_keeps
      LoadGroupHistoryMessages_keeps GetNewCount_keeps storage_ok_Flush storage_ok_FlushIndex)+

end
