(* ===== verification/StorageSync.thy ===== *)
theory StorageSync
  imports StorageServer
begin

text \<open>
  Replication: a slave that applies \<open>SaveSyncMessage\<close> to the messages of the master's log, and the
  batches by which \<open>LoadSyncMessagesInBackground\<close> lets a slave catch up.
\<close>

section \<open>A message over the wire\<close>

text \<open>What \<open>canon\<close> drops is not serialised: the slave stores the bytes the master stored.\<close>

lemma WriteMessage_canon:
  "WriteMessage (canon m) = WriteMessage m" "body_ToData v (canon_body v b) = body_ToData v b"
  by (induction m and v b rule: canon_canon_body.induct)
    (auto simp: WriteMessage.simps im_ToData_def im_ToDataV0_def ack_ToData_def off1_ToData_def
      off2_ToData_def off3_ToData_def goff_ToData_def split: option.splits cong: map_cong)

lemma stored_canon [simp]: "stored (canon m) = stored m"
  by (simp add: stored_def WriteMessage_canon)

lemma msg_ToData_canon: "msg_ToData (canon m) = msg_ToData m"
  by (cases m) (simp add: msg_ToData_def WriteMessage_canon split: option.split)

lemma header_ok_canon: "header_ok (canon m) = header_ok m"
  by (cases m) (simp add: header_ok_def)

lemma wire_ok_canon:
  "wire_ok m \<Longrightarrow> wire_ok (canon m)"
  "kind_of (canon_body v b) = kind_of b \<and> (body_ok b \<longrightarrow> body_ok (canon_body v b))"
  by (induction m and v b rule: canon_canon_body.induct)
    (auto simp: header_ok_def WriteMessage_canon msg_ToData_canon split: option.splits)

section \<open>Growing a log by one message\<close>

definition grown :: "message \<Rightarrow> message list list \<Rightarrow> message list list \<Rightarrow> bool" where
  "grown m bs bs' \<longleftrightarrow> bs' = butlast bs @ [last bs @ [m]] \<or> bs' = bs @ [[m]]"

definition grown_id :: "message list list \<Rightarrow> message list list \<Rightarrow> int64" where
  "grown_id bs bs' =
     (if length bs' = length bs then getMsgId (int (length bs) - 1) (int (length (file_of (last bs))))
      else getMsgId (int (length bs)) HEADER_SIZE)"

lemma log_of_grown:
  assumes "bs \<noteq> []" "grown m bs bs'"
  shows "log_of bs' = log_of bs @ [(grown_id bs bs', m)]"
proof (cases bs rule: rev_cases)
  case (snoc cs ms)
  from assms(2) consider "bs' = cs @ [ms @ [m]]" | "bs' = (cs @ [ms]) @ [[m]]"
    by (auto simp: grown_def snoc)
  then show ?thesis
  proof cases
    case 1
    then show ?thesis by (simp add: snoc grown_id_def log_of_append block_log_append file_of_def)
  next
    case 2
    then show ?thesis
      using log_of_append [of "cs @ [ms]" "[m]"] by (simp add: snoc grown_id_def)
  qed
qed (use assms in simp)

lemma blocks_induct [consumes 1, case_names empty grow]:
  assumes "blocks_ok bs" and "P [[]]"
    and "\<And>bs bs' m. blocks_ok bs \<Longrightarrow> P bs \<Longrightarrow> blocks_ok bs' \<Longrightarrow> grown m bs bs' \<Longrightarrow> P bs'"
  shows "P bs"
  using assms(1)
proof (induction "length (concat bs)" arbitrary: bs)
  case 0
  have "bs \<noteq> []" "[] \<notin> set (tl bs)" using 0(2) by (auto simp: blocks_ok_def)
  then have "bs = [[]]" using 0(1) by (cases bs; cases "tl bs") auto
  with assms(2) show ?case by simp
next
  case (Suc n)
  obtain cs ms where bs: "bs = cs @ [ms]"
    using Suc.prems by (cases bs rule: rev_cases) (auto simp: blocks_ok_def)
  have "ms \<noteq> []"
  proof
    assume "ms = []"
    with Suc.prems bs have "cs = []" by (cases cs) (auto simp: blocks_ok_def)
    with \<open>ms = []\<close> Suc.hyps(2) bs show False by simp
  qed
  then obtain ns m where ms: "ms = ns @ [m]" by (cases ms rule: rev_cases) auto
  have small: "int (length (file_of ns)) \<le> BLOCK_SIZE"
    using Suc.prems by (auto simp: blocks_ok_def bs ms file_of_snoc)
  show ?case
  proof (cases "ns = [] \<and> cs \<noteq> []")
    case True
    then have "blocks_ok cs" using Suc.prems bs ms by (cases cs) (auto simp: blocks_ok_def)
    moreover have "n = length (concat cs)" using Suc.hyps(2) True bs ms by simp
    ultimately show ?thesis
      using assms(3) [of cs bs m] Suc.hyps(1) [of cs] Suc.prems True bs ms by (simp add: grown_def)
  next
    case False
    then have "blocks_ok (cs @ [ns])"
      using Suc.prems small by (cases cs) (auto simp: blocks_ok_def bs ms)
    moreover have "n = length (concat (cs @ [ns]))" using Suc.hyps(2) bs ms by simp
    ultimately show ?thesis
      using assms(3) [of "cs @ [ns]" bs m] Suc.hyps(1) [of "cs @ [ns]"] Suc.prems bs ms
      by (simp add: grown_def)
  qed
qed

section \<open>One message on the slave\<close>

text \<open>The slave writes the message at its own place, and executes it.\<close>

lemma SaveSyncMessage_grown:
  fixes s :: "'a storage_scheme"
  assumes l: "layout bs s" and ok: "blocks_ok bs'" and g: "grown m bs bs'"
  shows "\<exists>f :: 'a storage_scheme. disk f = disk_of bs' \<and> block_NO f = int (length bs') - 1 \<and> files f = files s
    \<and> SaveSyncMessage (grown_id bs bs') (canon m) s
      = execMessage (canon m) (grown_id bs bs') (with_log f s)
    \<and> layout bs' (with_log f s)"
proof -
  obtain cs ms where bs: "bs = cs @ [ms]"
    using l by (cases bs rule: rev_cases) (auto simp: layout_def blocks_ok_def)
  have d: "disk s = disk_of (cs @ [ms])" "block_NO s = int (length cs)"
    using l by (auto simp: layout_def bs)
  have sz: "file_size s = int (length (file_of ms))"
    using file_size_layout [OF l] by (simp add: bs)
  have cache: "cache_ok s" using l by (simp add: layout_def)
  from g consider "bs' = cs @ [ms @ [m]]" | "bs' = (cs @ [ms]) @ [[m]]"
    by (auto simp: grown_def bs)
  then show ?thesis
  proof cases
    case 1
    let ?f = "append_file (stored m) s"
    have p: "position_ok (int (length cs)) (int (length (file_of ms)))"
      using position_in_block(1) [OF ok, of "length cs" ms m "[]"] by (simp add: 1)
    have id: "grown_id bs bs' = getMsgId (int (length cs)) (int (length (file_of ms)))"
      by (simp add: grown_id_def bs 1)
    have "disk s (block_NO s) = Some (file_of ms)" by (simp add: d disk_of_append)
    then have f: "disk ?f = disk_of bs'" "block_NO ?f = int (length bs') - 1" "files ?f = files s"
      by (simp_all add: append_file_def d 1 disk_of_append file_of_snoc)
    have w: "with_log ?f s = ?f" by (simp add: with_log_def append_file_def)
    have "SaveSyncMessage (grown_id bs bs') (canon m) s = execMessage (canon m) (grown_id bs bs') ?f"
      by (simp add: SaveSyncMessage_def id getBlock_getMsgId [OF p] d(2) sz)
    moreover have "layout bs' ?f"
      using ok f cache by (auto simp: layout_def disk_of_append 1 d elim!: cache_ok_mono)
    ultimately show ?thesis using f w by (intro exI [of _ ?f]) simp
  next
    case 2
    let ?n = "int (length cs) + 1"
    let ?o = "openWriteFile ?n s"
    let ?f = "append_file (stored m) ?o"
    have p: "position_ok ?n HEADER_SIZE"
      using position_in_block(1) [OF ok, of "length cs + 1" "[]" m "[]"]
      by (simp add: 2 nth_append file_of_def add.commute)
    have id: "grown_id bs bs' = getMsgId ?n HEADER_SIZE"
      by (simp add: grown_id_def bs 2 add.commute)
    have none: "disk s ?n = None" by (simp add: d disk_of_def)
    then have o: "disk ?o = (disk_of (cs @ [ms]))(?n \<mapsto> file_header)" "block_NO ?o = ?n" "files ?o = files s"
      by (simp_all add: openWriteFile_def d)
    then have f: "disk ?f = disk_of bs'" "block_NO ?f = int (length bs') - 1" "files ?f = files s"
      using disk_of_append [of "cs @ [ms]" "[m]"] unfolding 2
      by (simp_all add: append_file_def file_of_def add.commute)
    have w: "with_log ?f s = ?f" by (simp add: with_log_def append_file_def openWriteFile_def Let_def)
    have so: "file_size ?o = HEADER_SIZE" by (simp add: file_size_def o)
    have "SaveSyncMessage (grown_id bs bs') (canon m) s = execMessage (canon m) (grown_id bs bs') ?f"
      by (simp add: SaveSyncMessage_def id getBlock_getMsgId [OF p] d(2) so Let_def)
    moreover have "layout bs' ?f"
      using ok f cache disk_of_append [of "cs @ [ms]" "[m]"]
      by (auto simp: layout_def 2 d elim!: cache_ok_mono)
    ultimately show ?thesis using f w by (intro exI [of _ ?f]) simp
  qed
qed

text \<open>A message the slave has already is skipped, whatever it holds.\<close>

lemma SaveSyncMessage_known:
  assumes l: "layout bs s" and m: "(i, m) \<in> set (log_of bs)"
  shows "SaveSyncMessage i x s = Ret s"
proof -
  have b: "blocks_ok bs" using l by (simp add: layout_def)
  obtain k X Y where k: "k < length bs" "bs ! k = X @ m # Y"
    "i = getMsgId (int k) (int (length (file_of X)))"
    using m by (rule log_of_member)
  note p = position_in_block [OF b k(1,2)]
  note pos = getBlock_getMsgId [OF p(1), folded k(3)]
  have n: "block_NO s = int (length bs) - 1" using l by (simp add: layout_def)
  show ?thesis
  proof (cases "k = length bs - 1")
    case True
    have "last bs = X @ m # Y" using k(1,2) True by (cases bs) (auto simp: last_conv_nth)
    then have "int (length (file_of X)) < file_size s"
      by (simp add: file_size_layout [OF l] file_of_def length_stored)
    moreover have "int k = block_NO s" using True k(1) n by auto
    ultimately show ?thesis by (simp add: SaveSyncMessage_def pos)
  next
    case False
    then have "int k < block_NO s" using k(1) n by auto
    then show ?thesis by (simp add: SaveSyncMessage_def pos)
  qed
qed

section \<open>The whole log on a slave\<close>

abbreviation sync_message :: "message \<Rightarrow> int64 \<Rightarrow> 'a storage_scheme \<Rightarrow> 'a storage_scheme go" where
  "sync_message m i s \<equiv> SaveSyncMessage i m s"

lemma exec_keeps_layout:
  assumes "layout bs s" "execMessage m i s = Ret s'"
  shows "layout bs s'"
  using assms(2) exec_layout(1) [OF assms(1)] exec_layout(2) [of bs _ m i s']
  by (cases "execPeerMessage m i s") (auto simp: execMessage_def)

text \<open>An empty slave that gets the log of \<open>bs\<close> has the blocks \<open>bs\<close>, and executed every message.\<close>

lemma sync_log:
  fixes e :: "'a storage_scheme"
  assumes "blocks_ok bs" and e: "layout [[]] e"
  shows "replay execMessage (log_of bs) e = Ret u \<Longrightarrow>
    \<exists>f :: 'a storage_scheme. replay sync_message (log_of bs) e = Ret (with_log f u) \<and> layout bs (with_log f u)"
  using assms(1)
proof (induction arbitrary: u rule: blocks_induct)
  case empty
  have "with_log u u = u" for u :: "'a storage_scheme" by (simp add: with_log_def)
  with empty e show ?case by (intro exI [of _ u]) (simp add: log_of_def)
next
  case (grow bs bs' m)
  have ne: "bs \<noteq> []" using grow.hyps(1) by (simp add: blocks_ok_def)
  let ?i = "grown_id bs bs'"
  have log: "log_of bs' = log_of bs @ [(?i, m)]" by (rule log_of_grown [OF ne grow.hyps(3)])
  with grow.prems obtain v where v: "replay execMessage (log_of bs) e = Ret v"
    "execMessage (canon m) ?i v = Ret u"
    by (auto simp: replay_append)
  obtain f :: "'a storage_scheme" where f: "replay sync_message (log_of bs) e = Ret (with_log f v)"
    "layout bs (with_log f v)" using grow.IH [OF v(1)] by blast
  obtain g :: "'a storage_scheme" where
    g: "SaveSyncMessage ?i (canon m) (with_log f v) = execMessage (canon m) ?i (with_log g (with_log f v))"
    "layout bs' (with_log g (with_log f v))"
    using SaveSyncMessage_grown [OF f(2) grow.hyps(2,3)] by blast
  have gg: "with_log g (with_log f v) = with_log g v" by (simp add: with_log_def)
  have "execMessage (canon m) ?i (with_log g v) = Ret (with_log g u)" by (simp add: exec_with_log v(2))
  moreover from this have "layout bs' (with_log g u)"
    using exec_keeps_layout [of bs' "with_log g v"] g(2) by (simp add: gg)
  ultimately show ?case using f(1) g(1) by (intro exI [of _ g]) (simp add: log replay_append gg)
qed

text \<open>The slave ends with the files and the indexes of the master.\<close>

abbreviation fresh_storage :: storage where
  "fresh_storage \<equiv> empty_storage (disk_of [[]]) 0 None None"

lemma replica_of_log:
  fixes s :: storage
  assumes ok: "storage_ok bs s"
  obtains t where "replay sync_message (log_of bs) fresh_storage = Ret t" "storage_ok bs t"
    "disk t = disk s" "block_NO t = block_NO s" "message_index t = message_index s"
    "group_message_index t = group_message_index s" "last_id t = last_id s"
proof -
  have b: "blocks_ok bs" and d: "disk s = disk_of bs" "block_NO s = int (length bs) - 1"
    using storage_okD(1) [OF ok] by (simp_all add: layout_def)
  have e: "fresh_storage = with_log fresh_storage (reset_index s)"
    by (simp add: empty_storage_def with_log_def reset_index_def)
  have "replay execMessage (log_of bs) fresh_storage = Ret (with_log fresh_storage s)"
    using storage_okD(2) [OF ok] by (subst e) (simp add: replay_with_log)
  from sync_log [OF b storage_okD(1) [OF storage_ok_empty] this] obtain f :: storage where
    f: "replay sync_message (log_of bs) fresh_storage = Ret (with_log f (with_log fresh_storage s))"
    "layout bs (with_log f (with_log fresh_storage s))" by blast
  have ff: "with_log f (with_log fresh_storage s) = with_log f s" by (simp add: with_log_def)
  show thesis
    by (rule that [OF f(1)])
      (use f(2) storage_ok_with_log [OF ok, of f] d in \<open>auto simp: ff layout_def with_log_def\<close>)
qed

section \<open>Batches\<close>

text \<open>What a slave does with the batches of a channel.\<close>

definition deliver :: "batch list \<Rightarrow> 'a storage_scheme \<Rightarrow> 'a storage_scheme go" where
  "deliver c s = go_fold (\<lambda>s (f, l, ms). SaveSyncMessageBatch f ms s) s c"

lemma deliver_append: "deliver (c @ d) s = go_bind (deliver c s) (deliver d)"
  by (simp add: deliver_def [abs_def] go_fold_append)

lemma SaveSyncMessageBatch_append:
  "SaveSyncMessageBatch i (ms @ ns) s =
     go_bind (SaveSyncMessageBatch i ms s)
       (SaveSyncMessageBatch (i + word_of_nat (length (concat (map stored ms)))) ns)"
proof (induction ms arbitrary: i s)
  case (Cons m ms)
  then show ?case by (cases "SaveSyncMessage i m s") (simp_all add: add.assoc)
qed simp

lemma getMsgId_add: "getMsgId b off + word_of_nat n = getMsgId b (off + int n)"
  by (simp add: getMsgId_def)

lemma SaveSyncMessageBatch_one: "SaveSyncMessageBatch i [m] = SaveSyncMessage i m"
proof (rule ext)
  fix s show "SaveSyncMessageBatch i [m] s = SaveSyncMessage i m s"
    by (cases "SaveSyncMessage i m s") simp_all
qed

lemma SaveSyncMessageBatch_replay:
  fixes s :: "'a storage_scheme"
  shows "SaveSyncMessageBatch (getMsgId b off) (map canon ms) s = replay sync_message (block_log b off ms) s"
proof (induction ms arbitrary: off s)
  case (Cons m ms)
  let ?off = "off + int (length (stored m))"
  have "SaveSyncMessageBatch (getMsgId b ?off) (map canon ms)
      = (replay sync_message (block_log b ?off ms) :: 'a storage_scheme \<Rightarrow> _)"
    by (rule ext) (rule Cons.IH)
  then show ?case by (simp add: getMsgId_add)
qed simp

text \<open>
  \<open>sent\<close> is the channel once the batch under construction is sent too. That batch holds the messages
  \<open>ms\<close> from \<open>off\<close> on.
\<close>

definition sent :: "batch list \<times> batch \<Rightarrow> batch list" where
  "sent cb = (let (c, batch) = cb in if length (snd (snd batch)) > 0 then c @ [batch] else c)"

definition pending :: "int \<Rightarrow> int \<Rightarrow> message list \<Rightarrow> batch \<Rightarrow> bool" where
  "pending b off ms batch \<longleftrightarrow>
     (if ms = [] then batch = empty_batch
      else (\<exists>l. batch = (getMsgId b off, l, map canon ms)))"

lemma deliver_one: "deliver [(f, l, ms)] s = SaveSyncMessageBatch f ms s"
  by (cases "SaveSyncMessageBatch f ms s") (simp_all add: deliver_def)

lemma deliver_pending:
  assumes "pending b off ms batch"
  shows "deliver (sent (c, batch)) s =
    go_bind (deliver c s) (SaveSyncMessageBatch (getMsgId b off) (map canon ms))"
proof (cases "ms = []")
  case True
  with assms show ?thesis
    by (cases "deliver c s") (simp_all add: pending_def sent_def empty_batch_def)
next
  case False
  with assms obtain l where "batch = (getMsgId b off, l, map canon ms)" by (auto simp: pending_def)
  with False show ?thesis by (cases "deliver c s") (simp_all add: sent_def deliver_append deliver_one)
qed

text \<open>One message more.\<close>

lemma pending_add:
  assumes "pending b off ms batch" "position_ok b off" "HEADER_SIZE \<le> off"
  shows "pending b off (ms @ [m])
    (add_to_batch (getMsgId b (off + int (length (concat (map stored ms))))) (canon m) batch)"
proof -
  have "sint (getMsgId b off) \<noteq> 0"
    using assms(2,3) by (simp add: sint_getMsgId position_ok_def)
  then have "getMsgId b off \<noteq> 0" by auto
  with assms(1) show ?thesis
    by (auto simp: pending_def add_to_batch_def empty_batch_def split: if_splits)
qed

lemma batch_steps:
  assumes "0 \<le> b" "b < 2 ^ 36" and "pending b off ns batch" "HEADER_SIZE \<le> off"
    and "at = off + int (length (concat (map stored ns)))"
    and "at + int (length (concat (map stored ms))) \<le> BLOCK_SIZE"
  shows "\<exists>cb. replay batch_step (block_log b at ms) (c, batch) = Ret cb
    \<and> (\<forall>s :: 'a storage_scheme. deliver (sent cb) s
        = go_bind (deliver (sent (c, batch)) s) (replay sync_message (block_log b at ms)))"
  using assms(3-)
proof (induction ms arbitrary: at off ns batch c)
  case Nil
  then show ?case by (auto simp: go_bind_Ret_right)
next
  case (Cons m ms)
  let ?i = "getMsgId b at" and ?next = "at + int (length (stored m))"
  let ?batch = "add_to_batch ?i (canon m) batch"
  have "position_ok b off"
    using Cons.prems assms(1,2) by (auto simp: position_ok_def length_stored)
  then have p: "pending b off (ns @ [m]) ?batch"
    unfolding Cons.prems(3) using Cons.prems(1,2) by (intro pending_add)
  have room: "?next + int (length (concat (map stored ms))) \<le> BLOCK_SIZE"
    using Cons.prems(4) by simp
  have one: "deliver (sent (c, ?batch)) s
      = go_bind (deliver (sent (c, batch)) s) (SaveSyncMessage ?i (canon m))" for s :: "'a storage_scheme"
  proof (cases "deliver c s")
    case (Ret t)
    then show ?thesis
      unfolding deliver_pending [OF p] deliver_pending [OF Cons.prems(1)]
      using SaveSyncMessageBatch_append [of "getMsgId b off" "map canon ns" "[canon m]" t]
      by (simp add: getMsgId_add Cons.prems(3) comp_def SaveSyncMessageBatch_one
          del: SaveSyncMessageBatch.simps)
  qed (simp_all add: deliver_pending [OF p] deliver_pending [OF Cons.prems(1)])
  have all: "go_bind (go_bind (deliver (sent (c, batch)) s) (SaveSyncMessage ?i (canon m)))
        (replay sync_message (block_log b ?next ms))
      = go_bind (deliver (sent (c, batch)) s) (replay sync_message (block_log b at (m # ms)))"
    for s :: "'a storage_scheme"
    by (simp add: go_bind_assoc)
  show ?case
  proof (cases "length (snd (snd ?batch)) \<ge> BATCH_COUNT")
    case True
    have e: "pending b ?next [] empty_batch" by (simp add: pending_def)
    have h: "HEADER_SIZE \<le> ?next" using Cons.prems(2,3) by simp
    have "sent (c @ [?batch], empty_batch) = sent (c, ?batch)"
      using True by (cases "snd (snd ?batch)") (simp_all add: sent_def empty_batch_def)
    with Cons.IH [OF e h _ room, of "c @ [?batch]"] True one all show ?thesis
      by (simp add: batch_step_def Let_def)
  next
    case False
    have "?next = off + int (length (concat (map stored (ns @ [m]))))" by (simp add: Cons.prems(3))
    from Cons.IH [OF p Cons.prems(2) this room, of c] False one all show ?thesis
      by (simp add: batch_step_def Let_def)
  qed
qed

text \<open>One block of the log, from the message at \<open>off\<close> on.\<close>

lemma batch_block_ok:
  assumes "b < length bs" "blocks_ok bs" "bs ! b = X @ Y"
  shows "\<exists>c'. batch_block (int b) (file_of (bs ! b)) (drop (length (file_of X)) (file_of (bs ! b))) c = Ret c'
    \<and> (\<forall>s :: 'a storage_scheme. deliver c' s = go_bind (deliver c s)
        (replay sync_message (block_log (int b) (int (length (file_of X))) Y)))"
proof -
  let ?off = "int (length (file_of X))"
  have mem: "bs ! b \<in> set bs" using assms(1) by simp
  then have st: "\<forall>m \<in> set Y. storable m" and small: "int (length (file_of (X @ Y))) \<le> BLOCK_SIZE"
    using assms(2) unfolding blocks_ok_def assms(3) [symmetric] by (auto simp: assms(3))
  have b: "0 \<le> int b" "int b < 2 ^ 36" using assms(1,2) by (auto simp: blocks_ok_def)
  have p: "pending (int b) ?off [] empty_batch" by (simp add: pending_def)
  have h: "HEADER_SIZE \<le> ?off" using length_file_of [of X] by simp
  have room: "?off + int (length (concat (map stored Y))) \<le> BLOCK_SIZE"
    using small by (simp add: file_of_def)
  have bytes: "drop (length (file_of X)) (file_of (X @ Y)) = concat (map stored Y)"
    "length (file_of (X @ Y)) = length (file_of X) + length (concat (map stored Y))"
    by (simp_all add: file_of_def)
  have at: "?off = ?off + int (length (concat (map stored [])))" by simp
  obtain cb where cb: "replay batch_step (block_log (int b) ?off Y) (c, empty_batch) = Ret cb"
    "\<And>s :: 'a storage_scheme. deliver (sent cb) s
        = go_bind (deliver (sent (c, empty_batch)) s) (replay sync_message (block_log (int b) ?off Y))"
    using batch_steps [OF b p h at room, of c] by blast
  have "sent (c, empty_batch) = c" by (simp add: sent_def empty_batch_def)
  moreover have "batch_block (int b) (file_of (bs ! b)) (drop (length (file_of X)) (file_of (bs ! b))) c
      = Ret (sent cb)"
    using cb(1) scan_file_stored [OF st bytes(2), of batch_step "int b" "(c, empty_batch)"]
    by (simp add: batch_block_def assms(3) bytes(1) sent_def [abs_def])
  ultimately show ?thesis using cb(2) by (intro exI [of _ "sent cb"]) simp
qed

section \<open>Catching up\<close>

text \<open>
  The loop goes on from block to block as long as each block is at least as long as the offset of the
  cursor; a shorter block ends it.
\<close>

lemma sync_from_end:
  "layout bs s \<Longrightarrow> sync_from block offset (int (length bs)) c s = Some (Ret c)"
  by (subst sync_from.simps) (simp add: openReadFile_def layout_def disk_of_def)

lemma sync_from_short:
  assumes "layout bs s" "n < length bs" "int (length (file_of (bs ! n))) < offset"
  shows "sync_from block offset (int n) c s = Some (Ret c)"
  using assms by (subst sync_from.simps) (simp add: openReadFile_def layout_def disk_of_def Let_def)

lemma sync_from_block:
  assumes "layout bs s" "n < length bs" "offset \<le> int (length (file_of (bs ! n)))"
    and "bs ! n = X @ Y" "(if int n = block then offset else HEADER_SIZE) = int (length (file_of X))"
  shows "\<exists>c'. sync_from block offset (int n) c s = sync_from block offset (int n + 1) c' s
    \<and> (\<forall>t :: 'a storage_scheme. deliver c' t = go_bind (deliver c t)
        (replay sync_message (block_log (int n) (int (length (file_of X))) Y)))"
proof -
  have b: "blocks_ok bs" and d: "disk s = disk_of bs" using assms(1) by (simp_all add: layout_def)
  obtain c' where c': "batch_block (int n) (file_of (bs ! n)) (drop (length (file_of X)) (file_of (bs ! n))) c = Ret c'"
    "\<forall>t :: 'a storage_scheme. deliver c' t = go_bind (deliver c t)
        (replay sync_message (block_log (int n) (int (length (file_of X))) Y))"
    using batch_block_ok [OF assms(2) b assms(4), of c] by blast
  have "sync_from block offset (int n) c s = sync_from block offset (int n + 1) c' s"
    using assms(2,3) c'(1)
    by (subst sync_from.simps) (simp add: openReadFile_def d disk_of_def Let_def assms(5))
  with c'(2) show ?thesis by blast
qed

lemma sync_from_later:
  assumes "layout bs s" "k < n" "n \<le> length bs"
    and "\<forall>b \<in> {n..<length bs}. offset \<le> int (length (file_of (bs ! b)))"
  shows "\<exists>c'. sync_from (int k) offset (int n) c s = Some (Ret c')
    \<and> (\<forall>t :: 'a storage_scheme. deliver c' t = go_bind (deliver c t)
        (replay sync_message (concat (map (\<lambda>b. block_log (int b) HEADER_SIZE (bs ! b)) [n..<length bs]))))"
  using assms(2-)
proof (induction "length bs - n" arbitrary: n c)
  case 0
  then show ?case
    using sync_from_end [OF assms(1), of "int k" offset c]
    by (intro exI [of _ c]) (simp add: go_bind_Ret_right)
next
  case (Suc d)
  then have n: "n < length bs" by simp
  have off: "offset \<le> int (length (file_of (bs ! n)))" using Suc.prems n by simp
  obtain c1 where c1: "sync_from (int k) offset (int n) c s = sync_from (int k) offset (int n + 1) c1 s"
    "\<And>t :: 'a storage_scheme. deliver c1 t
      = go_bind (deliver c t) (replay sync_message (block_log (int n) HEADER_SIZE (bs ! n)))"
    using sync_from_block [OF assms(1) n off, of "[]" "bs ! n" "int k" c] Suc.prems(1)
    by (auto simp: file_of_def)
  have "d = length bs - Suc n" "k < Suc n" "Suc n \<le> length bs"
    "\<forall>b \<in> {Suc n..<length bs}. offset \<le> int (length (file_of (bs ! b)))"
    using Suc.hyps(2) Suc.prems n by auto
  from Suc.hyps(1) [OF this, of c1] obtain c2 where
    c2: "sync_from (int k) offset (int n + 1) c1 s = Some (Ret c2)"
    "\<And>t :: 'a storage_scheme. deliver c2 t = go_bind (deliver c1 t)
      (replay sync_message (concat (map (\<lambda>b. block_log (int b) HEADER_SIZE (bs ! b)) [Suc n..<length bs])))"
    by (auto simp: add.commute)
  have "replay sync_message (concat (map (\<lambda>b. block_log (int b) HEADER_SIZE (bs ! b)) [n..<length bs]))
      = (\<lambda>t :: 'a storage_scheme. go_bind (replay sync_message (block_log (int n) HEADER_SIZE (bs ! n)) t)
          (replay sync_message (concat (map (\<lambda>b. block_log (int b) HEADER_SIZE (bs ! b)) [Suc n..<length bs]))))"
    using n by (simp add: upt_conv_Cons replay_append fun_eq_iff)
  with c1 c2 show ?case by (intro exI [of _ c2]) (simp add: go_bind_assoc)
qed

text \<open>
  A cursor in the first \<open>X\<close> of block \<open>k\<close>: the batches deliver the rest \<open>Y\<close> of the block and the later
  blocks, in order and each message once.
\<close>

lemma LoadSync_ok:
  assumes l: "layout bs s" and k: "k < length bs" "bs ! k = X @ Y"
    and p: "int (length (file_of X)) < BLOCK_SIZE"
    and long: "\<forall>b \<in> {Suc k..<length bs}. length (file_of X) \<le> length (file_of (bs ! b))"
  shows "\<exists>c. LoadSyncMessagesInBackground (getMsgId (int k) (int (length (file_of X)))) s = Some (Ret c)
    \<and> (\<forall>t :: 'a storage_scheme. deliver c t =
        replay sync_message (block_log (int k) (int (length (file_of X))) Y
          @ concat (map (\<lambda>b. block_log (int b) HEADER_SIZE (bs ! b)) [Suc k..<length bs])) t)"
proof -
  let ?off = "int (length (file_of X))"
  have "position_ok (int k) ?off"
    using l k(1) p by (simp add: position_ok_def layout_def blocks_ok_def)
  note pos = getBlock_getMsgId [OF this]
  have "?off \<le> int (length (file_of (bs ! k)))" by (simp add: k(2) file_of_def)
  then obtain c1 where c1: "sync_from (int k) ?off (int k) [] s = sync_from (int k) ?off (int k + 1) c1 s"
    "\<And>t :: 'a storage_scheme. deliver c1 t
      = go_bind (deliver [] t) (replay sync_message (block_log (int k) ?off Y))"
    using sync_from_block [OF l k(1) _ k(2), of ?off "int k" "[]"] by auto
  have "Suc k \<le> length bs" "\<forall>b \<in> {Suc k..<length bs}. ?off \<le> int (length (file_of (bs ! b)))"
    using k(1) long by auto
  from sync_from_later [OF l lessI this, of c1] obtain c2 where
    "sync_from (int k) ?off (int k + 1) c1 s = Some (Ret c2)"
    "\<And>t :: 'a storage_scheme. deliver c2 t = go_bind (deliver c1 t)
      (replay sync_message (concat (map (\<lambda>b. block_log (int b) HEADER_SIZE (bs ! b)) [Suc k..<length bs])))"
    by (auto simp: add.commute)
  with c1 show ?thesis
    by (intro exI [of _ c2]) (simp add: LoadSyncMessagesInBackground_def pos replay_append deliver_def)
qed

text \<open>If the next block is shorter than the offset of the cursor, nothing after block \<open>k\<close> is delivered.\<close>

lemma LoadSync_short:
  assumes l: "layout bs s" and k: "Suc k < length bs" "bs ! k = X @ Y"
    and p: "int (length (file_of X)) < BLOCK_SIZE"
    and short: "length (file_of (bs ! Suc k)) < length (file_of X)"
  shows "\<exists>c. LoadSyncMessagesInBackground (getMsgId (int k) (int (length (file_of X)))) s = Some (Ret c)
    \<and> (\<forall>t :: 'a storage_scheme.
        deliver c t = replay sync_message (block_log (int k) (int (length (file_of X))) Y) t)"
proof -
  let ?off = "int (length (file_of X))"
  have "position_ok (int k) ?off"
    using l k(1) p by (simp add: position_ok_def layout_def blocks_ok_def)
  note pos = getBlock_getMsgId [OF this]
  have "?off \<le> int (length (file_of (bs ! k)))" by (simp add: k(2) file_of_def)
  then obtain c1 where c1: "sync_from (int k) ?off (int k) [] s = sync_from (int k) ?off (int k + 1) c1 s"
    "\<And>t :: 'a storage_scheme. deliver c1 t
      = go_bind (deliver [] t) (replay sync_message (block_log (int k) ?off Y))"
    using sync_from_block [OF l _ _ k(2), of ?off "int k" "[]"] k(1) by auto
  have "sync_from (int k) ?off (int k + 1) c1 s = Some (Ret c1)"
    using sync_from_short [OF l k(1), of ?off "int k" c1] short by (simp add: add.commute)
  with c1 show ?thesis
    by (intro exI [of _ c1]) (simp add: LoadSyncMessagesInBackground_def pos deliver_def)
qed

text \<open>
  A slave whose log ends where a block is full asks for position 0 of the next block, which is its
  file header: that block is not delivered.
\<close>

lemma LoadSync_full:
  assumes l: "layout bs s" and k: "k < length bs"
  shows "\<exists>c. LoadSyncMessagesInBackground (getMsgId (int k) 0) s = Some (Ret c)
    \<and> (\<forall>t :: 'a storage_scheme. deliver c t =
        replay sync_message (concat (map (\<lambda>b. block_log (int b) HEADER_SIZE (bs ! b)) [Suc k..<length bs])) t)"
proof -
  have b: "blocks_ok bs" and d: "disk s = disk_of bs" using l by (simp_all add: layout_def)
  have "position_ok (int k) 0" using b k by (simp add: position_ok_def blocks_ok_def)
  note pos = getBlock_getMsgId [OF this]
  obtain r where "ReadMessage (file_of (bs ! k)) = Ret (None, r)" using ReadMessage_header by blast
  then have "batch_block (int k) (file_of (bs ! k)) (file_of (bs ! k)) [] = Ret []"
    by (simp add: batch_block_def scan_file.simps [where rest = "file_of (bs ! k)"] empty_batch_def)
  then have "sync_from (int k) 0 (int k) [] s = sync_from (int k) 0 (int k + 1) [] s"
    using k by (subst sync_from.simps) (simp add: openReadFile_def d disk_of_def)
  moreover have "Suc k \<le> length bs" using k by simp
  from sync_from_later [OF l lessI this, of 0 "[]"] obtain c where
    "sync_from (int k) 0 (int k + 1) [] s = Some (Ret c)"
    "\<And>t :: 'a storage_scheme. deliver c t = go_bind (deliver [] t)
      (replay sync_message (concat (map (\<lambda>b. block_log (int b) HEADER_SIZE (bs ! b)) [Suc k..<length bs])))"
    by (auto simp: add.commute)
  ultimately show ?thesis
    by (intro exI [of _ c]) (simp add: LoadSyncMessagesInBackground_def pos deliver_def)
qed

text \<open>The cursor a slave sends is the end of its own log.\<close>

lemma NextMessageID_layout:
  "layout (bs @ [X]) t \<Longrightarrow> NextMessageID t = getMsgId (int (length bs)) (int (length (file_of X)))"
  using file_size_layout [of "bs @ [X]" t]
  by (simp add: NextMessageID_def getMsgId_def layout_def add.commute)

lemma log_of_take:
  assumes "k < length bs" "bs ! k = X @ Y"
  shows "log_of bs = log_of (take k bs @ [X]) @ block_log (int k) (int (length (file_of X))) Y
    @ concat (map (\<lambda>b. block_log (int b) HEADER_SIZE (bs ! b)) [Suc k..<length bs])"
proof -
  let ?bl = "\<lambda>b. block_log (int b) HEADER_SIZE (bs ! b)"
  have "[0..<length bs] = [0..<k] @ k # [Suc k..<length bs]"
    using assms(1) upt_add_eq_append [of 0 k "length bs - k"] upt_conv_Cons [of k "length bs"] by simp
  then have "log_of bs = concat (map ?bl [0..<k]) @ ?bl k @ concat (map ?bl [Suc k..<length bs])"
    by (simp add: log_of_def)
  moreover have "log_of (take k bs) = concat (map ?bl [0..<k])"
    unfolding log_of_def by (rule arg_cong [of _ _ concat]) (use assms(1) in auto)
  ultimately show ?thesis
    using assms(1) by (simp add: log_of_append assms(2) block_log_append file_of_def min_absorb2)
qed

text \<open>A slave that holds the first messages of the master's log, up to \<open>X\<close> in block \<open>k\<close>.\<close>

lemma slave_cursor:
  fixes s t :: storage
  assumes ok: "storage_ok bs s" and k: "k < length bs" "bs ! k = X @ Y"
    and p: "int (length (file_of X)) < BLOCK_SIZE" and X: "X \<noteq> [] \<or> k = 0"
    and t: "replay sync_message (log_of (take k bs @ [X])) fresh_storage = Ret t"
  shows "NextMessageID t = getMsgId (int k) (int (length (file_of X)))"
proof -
  let ?A = "take k bs @ [X]"
  have b: "blocks_ok bs" using storage_okD(1) [OF ok] by (simp add: layout_def)
  have log: "\<exists>B. log_of bs = log_of ?A @ B" using log_of_take [OF k] by blast
  have kk: "bs ! k \<in> set bs" using k(1) by simp
  have "blocks_ok ?A"
  proof -
    have small: "int (length (file_of X)) \<le> BLOCK_SIZE" using p by simp
    have "tl (take k bs @ [X]) = (if k = 0 then [] else take (k - 1) (tl bs) @ [X])"
      using k(1) by (cases bs; cases k) auto
    moreover have "[] \<notin> set (take (k - 1) (tl bs))" using b in_set_takeD unfolding blocks_ok_def by metis
    moreover have "\<forall>m \<in> set X. storable m" using b kk unfolding blocks_ok_def k(2) by auto
    moreover have "\<forall>ms \<in> set (take k bs). ms \<in> set bs" using in_set_takeD by metis
    ultimately show ?thesis using b k(1) X small by (auto simp: blocks_ok_def)
  qed
  have e: "fresh_storage = with_log fresh_storage (reset_index s)"
    by (simp add: empty_storage_def with_log_def reset_index_def)
  have "replay execMessage (log_of bs) fresh_storage = Ret (with_log fresh_storage s)"
    using storage_okD(2) [OF ok] by (subst e) (simp add: replay_with_log)
  then obtain u where "replay execMessage (log_of ?A) fresh_storage = Ret u"
    using log by (auto simp: replay_append)
  from sync_log [OF \<open>blocks_ok ?A\<close> storage_okD(1) [OF storage_ok_empty] this] t
  have "layout ?A t" by auto
  from NextMessageID_layout [OF this] show ?thesis using k(1) by (simp add: min_absorb2)
qed

text \<open>
  It asks with its cursor and applies the batches: it ends with the files and the indexes of the master.
\<close>

lemma slave_catches_up:
  fixes s t :: storage
  assumes ok: "storage_ok bs s" and k: "k < length bs" "bs ! k = X @ Y"
    and p: "int (length (file_of X)) < BLOCK_SIZE" and X: "X \<noteq> [] \<or> k = 0"
    and long: "\<forall>b \<in> {Suc k..<length bs}. length (file_of X) \<le> length (file_of (bs ! b))"
    and t: "replay sync_message (log_of (take k bs @ [X])) fresh_storage = Ret t"
  shows "\<exists>c t'. LoadSyncMessagesInBackground (NextMessageID t) s = Some (Ret c)
    \<and> deliver c t = Ret t' \<and> storage_ok bs t' \<and> disk t' = disk s
    \<and> message_index t' = message_index s \<and> group_message_index t' = group_message_index s"
proof -
  let ?B = "block_log (int k) (int (length (file_of X))) Y
    @ concat (map (\<lambda>b. block_log (int b) HEADER_SIZE (bs ! b)) [Suc k..<length bs])"
  have log: "log_of bs = log_of (take k bs @ [X]) @ ?B" by (rule log_of_take [OF k])
  obtain c where c: "LoadSyncMessagesInBackground (NextMessageID t) s = Some (Ret c)"
    "deliver c t = replay sync_message ?B t"
    using LoadSync_ok [OF storage_okD(1) [OF ok] k p long] unfolding slave_cursor [OF ok k p X t] by blast
  obtain t' where t': "replay sync_message (log_of bs) fresh_storage = Ret t'" "storage_ok bs t'"
    "disk t' = disk s" "message_index t' = message_index s" "group_message_index t' = group_message_index s"
    using replica_of_log [OF ok] by metis
  have "deliver c t = Ret t'" using t'(1) t unfolding c(2) log by (simp add: replay_append)
  with c(1) t' show ?thesis by blast
qed

end
