(* ===== verification/StorageRpc.thy ===== *)
theory StorageRpc
  imports StorageSync
begin

text \<open>
  \<^verbatim>\<open>ims/rpc.go\<close> with the structs of \<^verbatim>\<open>core/storage_rpc.go\<close>: the remote procedures of the storage
  server, over its storage and the counters of \<open>server_summary\<close>. The arguments of a procedure are the
  fields of its struct.
\<close>

section \<open>State and data\<close>

record ims = storage +
  nrequests :: int64
  peer_message_count :: int64
  group_message_count :: int64

record history_message =
  hm_MsgID :: int64
  hm_DeviceID :: int64
  hm_Cmd :: int32
  hm_Raw :: bytes

record history_reply =
  hr_Messages :: "history_message list"
  hr_LastMsgID :: int64
  hr_HasMore :: bool

abbreviation DEFAULT_VERSION :: go_int where "DEFAULT_VERSION \<equiv> 2"
abbreviation GROUP_OFFLINE_LIMIT :: int where "GROUP_OFFLINE_LIMIT \<equiv> 100"

definition count_request :: "'a ims_scheme \<Rightarrow> 'a ims_scheme" where
  "count_request s = s\<lparr>nrequests := nrequests s + 1\<rparr>"

definition count_peer :: "'a ims_scheme \<Rightarrow> 'a ims_scheme" where
  "count_peer s = (count_request s)\<lparr>peer_message_count := peer_message_count s + 1\<rparr>"

definition count_group :: "'a ims_scheme \<Rightarrow> 'a ims_scheme" where
  "count_group s = (count_request s)\<lparr>group_message_count := group_message_count s + 1\<rparr>"

text \<open>The message a save makes of its arguments; the result of \<open>FromData\<close> is not tested.\<close>

definition raw_message :: "int32 \<Rightarrow> bytes \<Rightarrow> message go" where
  "raw_message cmd raw =
     go_map (\<lambda>(b, ok). Message (scast cmd) 0 DEFAULT_VERSION 0 b None)
       (message_FromData body_FromData (scast cmd) DEFAULT_VERSION raw)"

fun with_version :: "go_int \<Rightarrow> message \<Rightarrow> message" where
  "with_version v (Message cmd seq ver flag b meta) = Message cmd seq v flag b meta"

definition history_of :: "int64 \<Rightarrow> int64 \<Rightarrow> message \<Rightarrow> history_message" where
  "history_of msgid device m =
     \<lparr>hm_MsgID = msgid, hm_DeviceID = device, hm_Cmd = ucast (Cmd m),
       hm_Raw = msg_ToData (with_version DEFAULT_VERSION m)\<rparr>"

section \<open>Saving\<close>

definition rpc_SavePeerMessage ::
  "int64 \<Rightarrow> int64 \<Rightarrow> int64 \<Rightarrow> int32 \<Rightarrow> bytes \<Rightarrow> 'a ims_scheme \<Rightarrow> ((int64 \<times> int64) \<times> 'a ims_scheme) go"
where
  "rpc_SavePeerMessage appid uid device cmd raw s =
     (let s = count_peer s
      in go_bind (raw_message cmd raw) (\<lambda>msg. SavePeerMessage appid uid device msg s))"

definition rpc_SavePeerGroupMessage ::
  "int64 \<Rightarrow> int64 list \<Rightarrow> int64 \<Rightarrow> int32 \<Rightarrow> bytes \<Rightarrow> 'a ims_scheme \<Rightarrow> (int64 list \<times> 'a ims_scheme) go"
where
  "rpc_SavePeerGroupMessage appid members device cmd raw s =
     (let s = count_peer s
      in go_bind (raw_message cmd raw) (\<lambda>msg. SavePeerGroupMessage appid members device msg s))"

definition rpc_SaveGroupMessage ::
  "int64 \<Rightarrow> int64 \<Rightarrow> int64 \<Rightarrow> int32 \<Rightarrow> bytes \<Rightarrow> 'a ims_scheme \<Rightarrow> ((int64 \<times> int64) \<times> 'a ims_scheme) go"
where
  "rpc_SaveGroupMessage appid gid device cmd raw s =
     (let s = count_group s
      in go_bind (raw_message cmd raw) (\<lambda>msg. SaveGroupMessage appid gid device msg s))"

section \<open>Reading\<close>

text \<open>\<open>limit\<close> and \<open>hard_limit\<close> are those of the configuration.\<close>

definition rpc_SyncMessage ::
  "int \<Rightarrow> int \<Rightarrow> int64 \<Rightarrow> int64 \<Rightarrow> int64 \<Rightarrow> 'a ims_scheme \<Rightarrow> (history_reply \<times> 'a ims_scheme) go option"
where
  "rpc_SyncMessage limit hard_limit appid uid last_msgid s =
     map_option
       (go_map (\<lambda>((messages, last, more), s).
          (\<lparr>hr_Messages = map (\<lambda>(i, d, m). history_of i d m) messages, hr_LastMsgID = last, hr_HasMore = more\<rparr>, s)))
       (LoadHistoryMessagesV3 appid uid last_msgid limit hard_limit (count_request s))"

text \<open>A group message that could not be read is a \<open>nil\<close> in the list, and \<open>emsg.Msg.Cmd\<close> panics.\<close>

fun group_history_of :: "(int64 \<times> int64 \<times> message option) list \<Rightarrow> history_message list go" where
  "group_history_of [] = Ret []"
| "group_history_of ((i, d, m) # es) =
     (case m of
        None \<Rightarrow> Panic
      | Some m \<Rightarrow> go_map (\<lambda>hs. history_of i d m # hs) (group_history_of es))"

definition rpc_SyncGroupMessage ::
  "int64 \<Rightarrow> int64 \<Rightarrow> int64 \<Rightarrow> int64 \<Rightarrow> int32 \<Rightarrow> 'a ims_scheme
   \<Rightarrow> (history_reply \<times> 'a ims_scheme) go option"
where
  "rpc_SyncGroupMessage appid uid gid last_msgid ts s =
     map_option
       (\<lambda>r. go_bind r (\<lambda>(messages, last, s).
          go_map (\<lambda>hs. (\<lparr>hr_Messages = hs, hr_LastMsgID = last, hr_HasMore = False\<rparr>, s))
            (group_history_of messages)))
       (LoadGroupHistoryMessages appid uid gid last_msgid ts GROUP_OFFLINE_LIMIT (count_request s))"

definition rpc_GetNewCount ::
  "int64 \<Rightarrow> int64 \<Rightarrow> int64 \<Rightarrow> 'a ims_scheme \<Rightarrow> (int64 \<times> 'a ims_scheme) go"
where
  "rpc_GetNewCount appid uid last_msgid s = GetNewCount appid uid last_msgid (count_request s)"

definition rpc_GetLatestMessage ::
  "int64 \<Rightarrow> int64 \<Rightarrow> int32 \<Rightarrow> 'a ims_scheme \<Rightarrow> (history_message list \<times> 'a ims_scheme) go option"
where
  "rpc_GetLatestMessage appid uid limit s =
     map_option (go_map (\<lambda>(messages, s). (map (\<lambda>(i, d, m). history_of i d m) messages, s)))
       (LoadLatestMessages appid uid (sint limit) (count_request s))"

section \<open>The counters do not matter to the storage\<close>

definition counted :: "int64 \<Rightarrow> int64 \<Rightarrow> int64 \<Rightarrow> 'a ims_scheme \<Rightarrow> 'a ims_scheme" where
  "counted r p g s = s\<lparr>nrequests := r, peer_message_count := p, group_message_count := g\<rparr>"

lemma counted_index:
  "getPeerIndex a u (counted r p g s) = getPeerIndex a u s"
  "getLastMessageID a u (counted r p g s) = getLastMessageID a u s"
  "getGroupIndex a gid (counted r p g s) = getGroupIndex a gid s"
  "setPeerIndex a u ui (counted r p g s) = counted r p g (setPeerIndex a u ui s)"
  "setGroupIndex a gid gi (counted r p g s) = counted r p g (setGroupIndex a gid gi s)"
  "reset_index (counted r p g s) = counted r p g (reset_index s)"
  "layout bs (counted r p g s) = layout bs s"
  by (simp_all add: counted_def getPeerIndex_def getLastMessageID_def getGroupIndex_def
      setPeerIndex_def setGroupIndex_def reset_index_def layout_def cache_ok_def Let_def)

lemma exec_counted:
  "execMessage m i (counted r p g s) = go_map (counted r p g) (execMessage m i s)"
  by (simp add: execMessage_def execPeerMessage_def execGroupMessage_def counted_index Let_def
      split: option.split body.split)

lemma replay_counted:
  "replay execMessage log (counted r p g s) = go_map (counted r p g) (replay execMessage log s)"
proof (induction log arbitrary: s)
  case (Cons e log)
  then show ?case
    by (cases e; cases "execMessage (canon (snd e)) (fst e) s") (simp_all add: exec_counted)
qed simp

lemma storage_ok_counted: "storage_ok bs s \<Longrightarrow> storage_ok bs (counted r p g s)"
  by (simp add: storage_ok_def counted_index replay_counted)

lemma storage_ok_count:
  assumes "storage_ok bs s"
  shows "storage_ok bs (count_request s)" "storage_ok bs (count_peer s)" "storage_ok bs (count_group s)"
proof -
  have "count_request s = counted (nrequests s + 1) (peer_message_count s) (group_message_count s) s"
    "count_peer s = counted (nrequests s + 1) (peer_message_count s + 1) (group_message_count s) s"
    "count_group s = counted (nrequests s + 1) (peer_message_count s) (group_message_count s + 1) s"
    by (simp_all add: count_request_def count_peer_def count_group_def counted_def)
  with storage_ok_counted [OF assms] show "storage_ok bs (count_request s)" "storage_ok bs (count_peer s)"
    "storage_ok bs (count_group s)" by simp_all
qed

section \<open>From a save to a sync\<close>

text \<open>The bytes of a body come back as they were sent, for a message in the default version.\<close>

lemma bit_byte: "bit (c :: byte) n \<Longrightarrow> n < 8"
  using bit_imp_le_length [of c n] by simp

lemma scast_cmd: "scast (ucast (ucast (c :: byte) :: go_int) :: int32) = (ucast c :: go_int)"
  by (rule bit_word_eqI) (auto simp: bit_simps min_def dest: bit_byte)

lemma raw_message_ToData:
  assumes "wire_ok m" "Version m = DEFAULT_VERSION"
  shows "raw_message (ucast (Cmd m)) (msg_ToData m)
    = Ret (Message (Cmd m) 0 DEFAULT_VERSION 0 (map_option (canon_body DEFAULT_VERSION) (Body m)) None)"
proof -
  obtain cmd seq ver flag b meta where m: "m = Message cmd seq ver flag b meta" by (cases m)
  have "cmd = ucast (ucast cmd :: byte)" using assms(1) by (simp add: m header_ok_def)
  then have h: "scast (ucast cmd :: int32) = cmd" using scast_cmd [of "ucast cmd"] by simp
  show ?thesis
  proof (cases b)
    case None
    with assms h show ?thesis by (simp add: m raw_message_def message_FromData_def msg_ToData_def)
  next
    case (Some x)
    with assms h show ?thesis
      by (simp add: m raw_message_def message_FromData_def msg_ToData_def body_roundtrip)
  qed
qed

lemma plain_resent:
  assumes "plain m" "Version m = DEFAULT_VERSION"
  defines "m' \<equiv> Message (Cmd m) 0 DEFAULT_VERSION 0 (map_option (canon_body DEFAULT_VERSION) (Body m)) None"
  shows "plain m'" "msg_ToData m' = msg_ToData m"
    "msg_ToData (with_version DEFAULT_VERSION (canon m')) = msg_ToData m"
proof -
  obtain seq b flag meta where m: "m = Message (Cmd m) seq DEFAULT_VERSION flag b meta"
    using assms(2) by (cases m) auto
  have c: "canon m = Message (Cmd m) seq DEFAULT_VERSION flag (map_option (canon_body DEFAULT_VERSION) b) None"
    by (subst m) simp
  have "wire_ok (canon m)" using assms(1) by (intro wire_ok_canon) (simp add: plain_def storable_def)
  moreover have b: "Body m = b" by (subst m) simp
  ultimately have "wire_ok m'" by (simp add: m'_def c header_ok_def)
  moreover show d: "msg_ToData m' = msg_ToData m"
    using msg_ToData_canon [of m] assms(2) by (auto simp: m'_def c b msg_ToData_def split: option.splits)
  ultimately show "plain m'" using assms(1) by (simp add: plain_def storable_def m'_def)
  have "with_version DEFAULT_VERSION (canon m') = canon m'" by (simp add: m'_def)
  then show "msg_ToData (with_version DEFAULT_VERSION (canon m')) = msg_ToData m"
    by (simp only: msg_ToData_canon d)
qed

lemma head_msgid_bounds:
  assumes "blocks_ok bs" "chained p (log_of bs) (records cmd a r (log_of bs))"
  shows "0 \<le> sint (head_msgid (records cmd a r (log_of bs)))"
    "sint (head_msgid (records cmd a r (log_of bs))) \<le> sint (head_id (records cmd a r (log_of bs)))"
proof -
  consider "records cmd a r (log_of bs) = []"
    | i off g rs where "records cmd a r (log_of bs) = (i, off, g) # rs" by (metis list.exhaust prod_cases3)
  then have "0 \<le> sint (head_msgid (records cmd a r (log_of bs)))
    \<and> sint (head_msgid (records cmd a r (log_of bs))) \<le> sint (head_id (records cmd a r (log_of bs)))"
  proof cases
    case 2
    with assms(2) have "adjacent (off_Msgid off) i (log_of bs)" "sint (off_Msgid off) < sint i" by simp_all
    moreover from this(1) obtain m where "(off_Msgid off, m) \<in> set (log_of bs)"
      using adjacent_member by fastforce
    ultimately show ?thesis
      using log_of_bounds(1) [OF assms(1)] by (force simp: 2 head_msgid_def head_id_def)
  qed (simp add: head_msgid_def head_id_def)
  then show "0 \<le> sint (head_msgid (records cmd a r (log_of bs)))"
    "sint (head_msgid (records cmd a r (log_of bs))) \<le> sint (head_id (records cmd a r (log_of bs)))" by simp_all
qed

text \<open>A record that is added for a user is newer than the user's former message.\<close>

lemma newest_after:
  fixes s :: "'a ims_scheme" and s' :: "'b ims_scheme"
  assumes "storage_ok bs s" "storage_ok bs' s'"
    and r: "records MSG_OFFLINE_V4 a u (log_of bs') = (j, off, g) # records MSG_OFFLINE_V4 a u (log_of bs)"
  defines "prev \<equiv> head_msgid (records MSG_OFFLINE_V4 a u (log_of bs))"
  shows "0 \<le> sint prev" "sint prev < sint (off_Msgid off)"
    "newer prev (records MSG_OFFLINE_V4 a u (log_of bs)) = []"
proof -
  have b: "blocks_ok bs" using storage_okD(1) [OF assms(1)] by (simp add: layout_def)
  note bounds = head_msgid_bounds [OF b storage_okD(3) [OF assms(1), of a u], folded prev_def]
  show "0 \<le> sint prev" by (rule bounds)
  have "chained peer_link (log_of bs') (records MSG_OFFLINE_V4 a u (log_of bs'))" by (rule storage_okD(3) [OF assms(2)])
  then show "sint prev < sint (off_Msgid off)" using bounds unfolding r by auto
  show "newer prev (records MSG_OFFLINE_V4 a u (log_of bs)) = []"
    by (cases "records MSG_OFFLINE_V4 a u (log_of bs)") (auto simp: newer_def prev_def head_msgid_def)
qed

text \<open>A user whose newest record is the only one after \<open>sync\<close> gets the message of that record.\<close>

lemma rpc_sync_newest:
  fixes s :: "'a ims_scheme" and a u :: int64
  assumes ok: "storage_ok bs s" and limit: "1000 \<le> limit"
    and r: "records MSG_OFFLINE_V4 a u (log_of bs) = (j, off, g) # rs"
    and sync: "0 \<le> sint sync" "sint sync < sint (off_Msgid off)" "newer sync rs = []"
    and m: "message_at (log_of bs) (off_Msgid off) = m" "history_cmd (Cmd m)"
  shows "\<exists>s'. rpc_SyncMessage limit 0 a u sync s = Some (Ret
    (\<lparr>hr_Messages = [history_of (off_Msgid off) (off_DeviceId off) (canon m)], hr_LastMsgID = off_Msgid off,
      hr_HasMore = False\<rparr>, s'))"
proof -
  let ?r = "(j, off, g)"
  have new: "newer sync (?r # rs) = [?r]" using sync by (simp add: newer_def)
  obtain P Q s' where h: "[?r] = P @ Q" "Q = [] \<longrightarrow> P = []"
    "LoadHistoryMessagesV3 a u sync limit 0 (count_request s) = Some (Ret ((messages_of history_cmd (log_of bs) Q,
        if Q = [] then head_msgid (records MSG_OFFLINE_V4 a u (log_of bs)) else head_msgid Q, P \<noteq> []), s'))"
    using LoadHistoryMessagesV3_ok [OF storage_ok_count(1) [OF ok] sync(1) limit, of a u]
    unfolding r new by blast
  then have Q: "Q = [?r]" "P = []" by (cases P; auto)+
  have "messages_of history_cmd (log_of bs) Q = [(off_Msgid off, off_DeviceId off, canon m)]"
    using m by (simp add: Q messages_of_def)
  then show ?thesis using h(3) by (simp add: rpc_SyncMessage_def Q head_msgid_def)
qed

text \<open>
  A user that is up to date gets exactly the message saved next, as the bytes that were sent.
\<close>

lemma rpc_save_then_sync:
  fixes s :: "'a ims_scheme" and a u :: int64
  assumes ok: "storage_ok bs s" and room: "length bs + 2 \<le> 2 ^ 36" and limit: "1000 \<le> limit"
    and m: "plain m" "Version m = DEFAULT_VERSION" "history_cmd (Cmd m)"
  defines "prev \<equiv> head_msgid (records MSG_OFFLINE_V4 a u (log_of bs))"
  shows "\<exists>i s1 s2. rpc_SavePeerMessage a u dev (ucast (Cmd m)) (msg_ToData m) s = Ret ((i, prev), s1)
    \<and> rpc_SyncMessage limit 0 a u prev s1 = Some (Ret
        (\<lparr>hr_Messages = [\<lparr>hm_MsgID = i, hm_DeviceID = dev, hm_Cmd = ucast (Cmd m), hm_Raw = msg_ToData m\<rparr>],
          hr_LastMsgID = i, hr_HasMore = False\<rparr>, s2))"
proof -
  let ?m = "Message (Cmd m) 0 DEFAULT_VERSION 0 (map_option (canon_body DEFAULT_VERSION) (Body m)) None"
  let ?R = "records MSG_OFFLINE_V4 a u (log_of bs)"
  note re = plain_resent [OF m(1,2)]
  have raw: "raw_message (ucast (Cmd m)) (msg_ToData m) = Ret ?m"
    using raw_message_ToData [of m] m(1,2) by (simp add: plain_def storable_def)
  define i where "i = next_id ?m bs"
  define off where "off = peer_record a u dev i (user_index_of ?R)"
  obtain s1 bs1 j where s1: "SavePeerMessage a u dev ?m (count_peer s) = Ret ((i, prev), s1)"
    "storage_ok bs1 s1"
    "log_of bs1 = log_of bs @ [(i, ?m), (j, record_message MSG_OFFLINE_V4 (group_flag ?m) off)]"
    using SavePeerMessage_ok [OF storage_ok_count(2) [OF ok] re(1) room]
    unfolding i_def off_def prev_def by metis
  have f: "group_flag ?m = 0 \<or> group_flag ?m = MESSAGE_FLAG_GROUP" by (simp add: group_flag_def)
  let ?r = "(j, off, group_flag ?m \<noteq> 0)"
  have R1: "records MSG_OFFLINE_V4 a u (log_of bs1) = ?r # ?R"
    unfolding s1(3) records_two_saves [OF re(1) f disjI1 [OF refl]] by (simp add: off_def peer_record_def)
  have b: "blocks_ok bs1" using storage_okD(1) [OF s1(2)] by (simp add: layout_def)
  have oi: "off_Msgid off = i" "off_DeviceId off = dev" by (simp_all add: off_def peer_record_def)
  note newest = newest_after [OF ok s1(2) R1, folded prev_def]
  have msg: "message_at (log_of bs1) (off_Msgid off) = ?m"
    by (rule message_at_eq [OF b]) (simp add: s1(3) oi)
  have h: "history_of i dev (canon ?m)
      = \<lparr>hm_MsgID = i, hm_DeviceID = dev, hm_Cmd = ucast (Cmd m), hm_Raw = msg_ToData m\<rparr>"
    by (simp only: history_of_def Cmd_canon message.sel re(3))
  have "history_cmd (Cmd ?m)" using m(3) by simp
  from rpc_sync_newest [OF s1(2) limit R1 newest msg this] show ?thesis
    using s1(1) unfolding oi h by (auto simp: rpc_SavePeerMessage_def raw)
qed

end
