(* ===== verification/StorageReturns.thy ===== *)
theory StorageReturns
  imports StorageRpc
begin

text \<open>
  The remote procedures that read return, whatever their arguments: every link of an offline record goes
  to a record of the same chain with a smaller id or is 0, so that each of the five loops ends. The
  theories of the loads say what is returned for the arguments of a correct client.
\<close>

section \<open>Links go down\<close>

definition links :: "offline_message \<Rightarrow> int64 set" where
  "links off = {off_PrevMsgid off, off_PrevPeerMsgid off, off_PrevBatchMsgid off}"

lemma head_id_filter: "head_id (filter P rs) = 0 \<or> head_id (filter P rs) \<in> fst ` set rs"
  by (cases "filter P rs") (auto simp: head_id_def dest: filter_eq_ConsD intro!: rev_image_eqI split: prod.splits
      intro: filter_set [THEN equalityD2, THEN subsetD])

lemma links_down:
  assumes "chained p log R" "p = peer_link \<or> p = group_link" "(i, off, grp) \<in> set R" "j \<in> links off"
  shows "j = 0 \<or> (j \<in> fst ` set R \<and> sint j < sint i)"
  using assms
proof (induction R)
  case (Cons r R)
  obtain i' off' grp' where r: "r = (i', off', grp')" by (cases r)
  show ?case
  proof (cases "(i, off, grp) = r")
    case True
    have ch: "chained p log R" "sint (head_id R) < sint i" using Cons.prems(1) True by (auto simp: r)
    have below: "sint j < sint i" if "j \<in> fst ` set R" for j
      using that chained_below [OF ch(1)] ch(2) by fastforce
    have "j = 0 \<or> j = head_id (filter (\<lambda>_. True) R) \<or> j = head_id (peer_records R) \<or> j = head_id (batch_records R)"
      using Cons.prems(1,2,4) True by (auto simp: r links_def peer_link_def group_link_def)
    then have "j = 0 \<or> j \<in> fst ` set R"
      unfolding peer_records_def batch_records_def using head_id_filter [of _ R] by blast
    with below show ?thesis by auto
  next
    case False
    then show ?thesis using Cons by (auto simp: r)
  qed
qed simp

text \<open>Induction along the links, from any record of a chain or from the end.\<close>

lemma link_induct [consumes 3, case_names zero link]:
  assumes ch: "chained p log R" "p = peer_link \<or> p = group_link"
    and i: "i = 0 \<or> i \<in> fst ` set R"
    and zero: "P 0"
    and link: "\<And>i off grp. (i, off, grp) \<in> set R \<Longrightarrow> (\<And>j. j \<in> links off \<Longrightarrow> P j) \<Longrightarrow> P i"
  shows "P i"
  using i
proof (induction "nat (sint i + 2 ^ 63)" arbitrary: i rule: less_induct)
  case less
  show ?case
  proof (cases "i = 0")
    case False
    then obtain off grp where r: "(i, off, grp) \<in> set R" using less.prems by force
    have "P j" if "j \<in> links off" for j
    proof (cases "j = 0")
      case nz: False
      with links_down [OF ch r that] have j: "j \<in> fst ` set R" "sint j < sint i" by auto
      moreover have "- (2 ^ 63) \<le> sint j" "- (2 ^ 63) \<le> sint i"
        using sint_greater_eq [of j] sint_greater_eq [of i] by simp_all
      ultimately show ?thesis by (intro less.hyps) auto
    qed (simp add: zero)
    with r show ?thesis by (rule link)
  qed (simp add: zero)
qed

section \<open>The loops\<close>

text \<open>What both chains of a log give to the loops.\<close>

definition chain_of :: "message list list \<Rightarrow> offline_rec list \<Rightarrow> bool" where
  "chain_of bs R \<longleftrightarrow> (chained peer_link (log_of bs) R \<or> chained group_link (log_of bs) R)
     \<and> (\<forall>(i, off, grp) \<in> set R. \<exists>m. (i, m) \<in> set (log_of bs) \<and> Body m = Some (BOffline4 off))
     \<and> (\<forall>(i, off, grp) \<in> set R. off_Msgid off \<in> fst ` set (log_of bs))"

lemma chained_msgid: "chained p log R \<Longrightarrow> (i, off, grp) \<in> set R \<Longrightarrow> off_Msgid off \<in> fst ` set log"
  by (induction p log R rule: chained.induct) (auto dest: adjacent_member)

lemma chain_of_records:
  assumes "storage_ok bs s"
  shows "chain_of bs (records MSG_OFFLINE_V4 a u (log_of bs))" "chain_of bs (records MSG_GROUP_OFFLINE a u (log_of bs))"
proof -
  have "chain_of bs (records cmd a u (log_of bs))"
    if "chained p (log_of bs) (records cmd a u (log_of bs))" "p = peer_link \<or> p = group_link" for cmd p
    unfolding chain_of_def
  proof (intro conjI)
    show "chained peer_link (log_of bs) (records cmd a u (log_of bs)) \<or> chained group_link (log_of bs) (records cmd a u (log_of bs))"
      using that by blast
    show "\<forall>(i, off, grp) \<in> set (records cmd a u (log_of bs)). off_Msgid off \<in> fst ` set (log_of bs)"
      by (rule ballI, clarify) (rule chained_msgid [OF that(1)])
  qed (rule records_stored)
  from this [OF storage_okD(3) [OF assms]] this [OF storage_okD(5) [OF assms]]
  show "chain_of bs (records MSG_OFFLINE_V4 a u (log_of bs))" "chain_of bs (records MSG_GROUP_OFFLINE a u (log_of bs))"
    by simp_all
qed

lemma chain_induct [consumes 2, case_names zero link]:
  assumes "chain_of bs R" "i = 0 \<or> i \<in> fst ` set R" "P 0"
    and "\<And>i off grp. (i, off, grp) \<in> set R \<Longrightarrow> (\<And>j. j \<in> links off \<Longrightarrow> P j) \<Longrightarrow> P i"
  shows "P i"
proof -
  obtain p where "chained p (log_of bs) R" "p = peer_link \<or> p = group_link"
    using assms(1) unfolding chain_of_def by blast
  then show ?thesis using assms(2-4) by (rule link_induct)
qed

lemma chain_load:
  assumes "chain_of bs R" "(i, off, grp) \<in> set R" "layout bs s"
  obtains c c' n m where "LoadMessage i s = Ret (Some n, s\<lparr>files := c\<rparr>)" "offline_of n = Some off"
    "LoadMessage (off_Msgid off) (s\<lparr>files := c\<rparr>) = Ret (Some (canon m), s\<lparr>files := c'\<rparr>)" "storable m"
    "layout bs (s\<lparr>files := c\<rparr>)" "layout bs (s\<lparr>files := c'\<rparr>)" "0 < sint i"
proof -
  have r: "linked (\<lambda>_. 0) (log_of bs) [(i, off, grp)]" using assms(1,2) by (auto simp: chain_of_def)
  have "off_Msgid off \<in> fst ` set (log_of bs)" using assms(1,2) by (auto simp: chain_of_def)
  with assms(3) have "storable (message_at (log_of bs) (off_Msgid off))" by (intro storable_at) (simp_all add: layout_def)
  with load_record [OF assms(3) r] show thesis using that by metis
qed

lemma history_loop_returns:
  assumes "chain_of bs R" "i = 0 \<or> i \<in> fst ` set R" "layout bs s"
  shows "\<exists>r. history_loop sync gl limit i lm ms s = Some (Ret r)"
  using assms(1,2,3)
proof (induction arbitrary: lm ms s rule: chain_induct)
  case zero
  then show ?case by (subst history_loop.simps) simp
next
  case (link i off grp)
  obtain c c' n m where l: "LoadMessage i s = Ret (Some n, s\<lparr>files := c\<rparr>)" "offline_of n = Some off"
    "LoadMessage (off_Msgid off) (s\<lparr>files := c\<rparr>) = Ret (Some (canon m), s\<lparr>files := c'\<rparr>)" "layout bs (s\<lparr>files := c'\<rparr>)"
    using chain_load [OF assms(1) link.hyps link.prems] by metis
  have "\<exists>r. history_loop sync gl limit j lm ms (s\<lparr>files := c'\<rparr>) = Some (Ret r)" if "j \<in> links off" for j lm ms
    using link.IH [OF that l(4)] .
  then show ?case by (subst history_loop.simps) (simp add: l links_def Let_def)
qed

lemma latest_loop_returns:
  assumes "chain_of bs R" "i = 0 \<or> i \<in> fst ` set R" "layout bs s"
  shows "\<exists>r. latest_loop limit i ms s = Some (Ret r)"
  using assms(1,2,3)
proof (induction arbitrary: ms s rule: chain_induct)
  case zero
  then show ?case by (subst latest_loop.simps) simp
next
  case (link i off grp)
  obtain c c' n m where l: "LoadMessage i s = Ret (Some n, s\<lparr>files := c\<rparr>)" "offline_of n = Some off"
    "LoadMessage (off_Msgid off) (s\<lparr>files := c\<rparr>) = Ret (Some (canon m), s\<lparr>files := c'\<rparr>)" "layout bs (s\<lparr>files := c'\<rparr>)"
    using chain_load [OF assms(1) link.hyps link.prems] by metis
  have "\<exists>r. latest_loop limit j ms (s\<lparr>files := c'\<rparr>) = Some (Ret r)" if "j \<in> links off" for j ms
    using link.IH [OF that l(4)] .
  then show ?case by (subst latest_loop.simps) (simp add: l links_def Let_def)
qed

lemma v3_loop_returns:
  assumes "chain_of bs R" "i = 0 \<or> i \<in> fst ` set R" "layout bs s"
  shows "\<exists>r. v3_loop sync limit is_peer i lm lo ms s = Some (Ret r)"
  using assms(1,2,3)
proof (induction arbitrary: lm lo ms s rule: chain_induct)
  case zero
  obtain c where "LoadMessage 0 s = Ret (None, s\<lparr>files := c\<rparr>)" using LoadMessage_zero [OF zero] .
  then show ?case by (subst v3_loop.simps) simp
next
  case (link i off grp)
  obtain c c' n m where l: "LoadMessage i s = Ret (Some n, s\<lparr>files := c\<rparr>)" "offline_of n = Some off"
    "LoadMessage (off_Msgid off) (s\<lparr>files := c\<rparr>) = Ret (Some (canon m), s\<lparr>files := c'\<rparr>)" "layout bs (s\<lparr>files := c'\<rparr>)"
    using chain_load [OF assms(1) link.hyps link.prems] by metis
  have "\<exists>r. v3_loop sync limit is_peer j lm lo ms (s\<lparr>files := c'\<rparr>) = Some (Ret r)" if "j \<in> links off" for j lm lo ms
    using link.IH [OF that l(4)] .
  then show ?case by (subst v3_loop.simps) (simp add: l links_def Let_def)
qed

lemma batch_loop_returns:
  assumes "chain_of bs R" "i = 0 \<or> i \<in> fst ` set R" "layout bs s" "set ids \<subseteq> fst ` set R"
  shows "\<exists>ids' s'. batch_loop sync n i ids s = Some (Ret (ids', s')) \<and> set ids' \<subseteq> fst ` set R \<and> layout bs s'"
  using assms
proof (induction arbitrary: ids s rule: chain_induct)
  case zero
  obtain c where "LoadMessage 0 s = Ret (None, s\<lparr>files := c\<rparr>)" "layout bs (s\<lparr>files := c\<rparr>)"
    using LoadMessage_zero [OF zero(1)] .
  with zero show ?case by (subst batch_loop.simps) simp
next
  case (link i off grp)
  obtain c n where l: "LoadMessage i s = Ret (Some n, s\<lparr>files := c\<rparr>)" "offline_of n = Some off" "layout bs (s\<lparr>files := c\<rparr>)"
    using chain_load [OF assms(1) link.hyps link.prems(1)] by metis
  have i: "set (ids @ [i]) \<subseteq> fst ` set R" using link.hyps link.prems(2) by force
  show ?case
    using link.IH [OF _ l(3) i, of "off_PrevBatchMsgid off"] link.prems i l(3)
    by (subst batch_loop.simps) (simp add: l links_def Let_def)
qed

text \<open>A group message that is loaded is never \<open>nil\<close>.\<close>

lemma group_loop_returns:
  assumes "chain_of bs R" "i = 0 \<or> i \<in> fst ` set R" "layout bs s" "\<forall>(_, _, m) \<in> set ms. m \<noteq> None"
  shows "\<exists>ms' lm' s'. group_history_loop msgid ts limit i lm ms s = Some (Ret (ms', lm', s'))
    \<and> (\<forall>(_, _, m) \<in> set ms'. m \<noteq> None)"
  using assms
proof (induction arbitrary: lm ms s rule: chain_induct)
  case zero
  then show ?case by (subst group_history_loop.simps) simp
next
  case (link i off grp)
  obtain c c' n m where l: "LoadMessage i s = Ret (Some n, s\<lparr>files := c\<rparr>)" "offline_of n = Some off"
    "LoadMessage (off_Msgid off) (s\<lparr>files := c\<rparr>) = Ret (Some (canon m), s\<lparr>files := c'\<rparr>)" "layout bs (s\<lparr>files := c'\<rparr>)"
    "storable m"
    using chain_load [OF assms(1) link.hyps link.prems(1)] by metis
  let ?ms = "ms @ [(off_Msgid off, off_DeviceId off, Some (canon m))]"
  have ms: "\<forall>(_, _, m) \<in> set ?ms. m \<noteq> None" using link.prems(2) by auto
  have body: "\<exists>im. Body (canon m) = Some (BIM im)" if "Cmd m = MSG_GROUP_IM"
    using group_im_body [OF l(5) that] .
  have "\<exists>ms' lm' s'. group_history_loop msgid ts limit (off_PrevMsgid off) lm ?ms (s\<lparr>files := c'\<rparr>) = Some (Ret (ms', lm', s'))
    \<and> (\<forall>(_, _, m) \<in> set ms'. m \<noteq> None)" for lm
    using link.IH [OF _ l(4) ms, of "off_PrevMsgid off"] by (simp add: links_def)
  then show ?case
    using link.prems(2) ms body
    by (subst group_history_loop.simps) (cases "Cmd m = MSG_GROUP_IM"; auto simp: l Let_def Cmd_canon)
qed

section \<open>The procedures\<close>

lemma head_id_records: "head_id rs = 0 \<or> head_id rs \<in> fst ` set rs"
  using head_id_filter [of "\<lambda>_. True" rs] by simp

lemma index_starts:
  assumes "storage_ok bs s"
  defines "R a u \<equiv> records MSG_OFFLINE_V4 a u (log_of bs)"
  shows "fst (GetLastMessageID a u s) = 0 \<or> fst (GetLastMessageID a u s) \<in> fst ` set (R a u)"
    "ui_last_id (GetPeerIndex a u s) = 0 \<or> ui_last_id (GetPeerIndex a u s) \<in> fst ` set (R a u)"
    "ui_last_batch_id (GetPeerIndex a u s) = 0 \<or> ui_last_batch_id (GetPeerIndex a u s) \<in> fst ` set (R a u)"
  using head_id_records [of "R a u"] head_id_filter [of "\<lambda>(_, off, _). sint (off_SeqId off) smod BATCH_SIZE = 0" "R a u"]
  by (simp_all add: GetLastMessageID_eq GetPeerIndex_def storage_okD(4) [OF assms(1)] R_def user_index_of_def batch_records_def)

lemma v3_start_returns:
  assumes "0 < bc" "i = 0 \<or> i \<in> S" "set ids \<subseteq> S"
  shows "\<exists>j p. v3_start ids hbc bc i = Ret (j, p) \<and> (j = 0 \<or> j \<in> S)"
proof -
  have "ids ! nat (int (length ids) - bc) \<in> S" if "bc \<le> int (length ids)"
    using assms(1,3) that by (intro subsetD [OF assms(3)] nth_mem) simp
  then show ?thesis using assms by (auto simp: v3_start_def Let_def)
qed

lemma SyncMessage_returns:
  assumes ok: "storage_ok bs s" and limit: "0 < limit"
  shows "\<exists>h s'. rpc_SyncMessage limit hard a u sync s = Some (Ret (h, s')) \<and> storage_ok bs s'"
proof -
  let ?s = "count_request s" and ?R = "records MSG_OFFLINE_V4 a u (log_of bs)"
  have ok': "storage_ok bs ?s" by (rule storage_ok_count [OF ok])
  note starts = index_starts [OF ok', of a u] and ch = chain_of_records(1) [OF ok', of a u]
  define bc where "bc = (if limit sdiv BATCH_SIZE = 0 then 1 else limit sdiv BATCH_SIZE)"
  have bc: "0 < bc" using limit by (auto simp: bc_def signed_divide_int_def order_less_le pos_imp_zdiv_nonneg_iff)
  obtain ids s1 where one: "batch_loop sync (hard sdiv BATCH_SIZE) (ui_last_batch_id (GetPeerIndex a u ?s)) [] ?s
      = Some (Ret (ids, s1))" "set ids \<subseteq> fst ` set ?R" "layout bs s1"
    using batch_loop_returns [OF ch starts(3) storage_okD(1) [OF ok'], where ids = "[]" and sync = sync and n = "hard sdiv BATCH_SIZE"]
    by auto
  obtain j p where two: "v3_start ids (hard sdiv BATCH_SIZE) bc (ui_last_id (GetPeerIndex a u ?s)) = Ret (j, p)"
    "j = 0 \<or> j \<in> fst ` set ?R"
    using v3_start_returns [OF bc starts(2) one(2)] by blast
  obtain ms lm lo s2 where "v3_loop sync limit p j 0 0 [] s1 = Some (Ret (ms, lm, lo, s2))"
    using v3_loop_returns [OF ch two(2) one(3)] by (metis prod_cases4)
  then have "\<exists>h s'. LoadHistoryMessagesV3 a u sync limit hard ?s = Some (Ret (h, s'))"
    by (simp add: LoadHistoryMessagesV3_def Let_def bc_def [symmetric] one(1) two(1))
  then show ?thesis using LoadHistoryMessagesV3_keeps [OF ok'] by (auto simp: rpc_SyncMessage_def)
qed

lemma GetLatestMessage_returns:
  assumes ok: "storage_ok bs s"
  shows "\<exists>h s'. rpc_GetLatestMessage a u limit s = Some (Ret (h, s')) \<and> storage_ok bs s'"
proof -
  let ?s = "count_request s"
  have ok': "storage_ok bs ?s" by (rule storage_ok_count [OF ok])
  obtain i t where i: "GetLastMessageID a u ?s = (i, t)" by (cases "GetLastMessageID a u ?s")
  then obtain h s' where "LoadLatestMessages a u (sint limit) ?s = Some (Ret (h, s'))"
    using latest_loop_returns [OF chain_of_records(1) [OF ok', of a u] _ storage_okD(1) [OF ok'], of i "sint limit" "[]"]
      index_starts(1) [OF ok', of a u] by (auto simp: LoadLatestMessages_def)
  then show ?thesis using LoadLatestMessages_keeps [OF ok'] by (auto simp: rpc_GetLatestMessage_def)
qed

lemma group_history_of_returns: "\<forall>(_, _, m) \<in> set ms. m \<noteq> None \<Longrightarrow> \<exists>hs. group_history_of ms = Ret hs"
  by (induction ms rule: group_history_of.induct) auto

lemma SyncGroupMessage_returns:
  assumes ok: "storage_ok bs s"
  shows "\<exists>h s'. rpc_SyncGroupMessage a u g msgid ts s = Some (Ret (h, s')) \<and> storage_ok bs s'"
proof -
  let ?s = "count_request s" and ?R = "records MSG_GROUP_OFFLINE a g (log_of bs)"
  have ok': "storage_ok bs ?s" by (rule storage_ok_count [OF ok])
  have "gi_LastId (GetGroupIndex a g ?s) = head_id ?R"
    by (simp add: GetGroupIndex_def storage_okD(6) [OF ok'] group_index_of_def)
  then obtain ms lm s' where run: "LoadGroupHistoryMessages a u g msgid ts GROUP_OFFLINE_LIMIT ?s = Some (Ret (ms, lm, s'))"
    "\<forall>(_, _, m) \<in> set ms. m \<noteq> None"
    using group_loop_returns [OF chain_of_records(2) [OF ok', of a g] head_id_records [of ?R] storage_okD(1) [OF ok'],
        where ms = "[]" and msgid = msgid and ts = ts and limit = GROUP_OFFLINE_LIMIT and lm = 0]
    unfolding LoadGroupHistoryMessages_def by auto
  obtain hs where "group_history_of ms = Ret hs" using group_history_of_returns [OF run(2)] ..
  then show ?thesis using run LoadGroupHistoryMessages_keeps [OF ok' run(1)] by (auto simp: rpc_SyncGroupMessage_def)
qed

end
