(* ===== verification/StorageMaster.thy ===== *)
theory StorageMaster
  imports StorageSync
begin

text \<open>
  \<^verbatim>\<open>ims/storage_sync.go\<close>: the master, which collects what the storage saves into batches for its
  clients, the client loop on the master's side, and the slave that applies what it receives.
\<close>

section \<open>Master\<close>

text \<open>
  \<open>clients\<close> maps a \<open>SyncClient\<close> to what its channel \<open>ewt\<close> holds (the sends block instead of
  failing, so no bound is modelled), \<open>cache\<close> is the local variable of \<open>Master.Run\<close>.
\<close>

record 'c master =
  clients :: "'c \<rightharpoonup> batch list"
  cache :: "(int64 \<times> message) list"

definition NewMaster :: "'c master" where
  "NewMaster = \<lparr>clients = Map.empty, cache = []\<rparr>"

definition AddClient :: "'c \<Rightarrow> 'c master \<Rightarrow> 'c master" where
  "AddClient c m = m\<lparr>clients := (clients m)(c \<mapsto> [])\<rparr>"

definition RemoveClient :: "'c \<Rightarrow> 'c master \<Rightarrow> 'c master" where
  "RemoveClient c m = m\<lparr>clients := (clients m)(c := None)\<rparr>"

definition batch_of :: "(int64 \<times> message) list \<Rightarrow> batch" where
  "batch_of ems = (fst (hd ems), fst (last ems), map snd ems)"

text \<open>\<open>SendBatch\<close> of the cache, and its reset to \<open>cache[0:0]\<close> by every caller.\<close>

definition SendBatch :: "'c master \<Rightarrow> 'c master" where
  "SendBatch m =
     (if cache m = [] then m
      else m\<lparr>clients := (\<lambda>c. map_option (\<lambda>ewt. ewt @ [batch_of (cache m)]) (clients m c)), cache := []\<rparr>)"

text \<open>The two cases of the \<open>select\<close> in \<open>Run\<close>: a message on \<open>master.ewt\<close>, and the timer.\<close>

definition master_message :: "int64 \<times> message \<Rightarrow> 'c master \<Rightarrow> 'c master" where
  "master_message em m =
     (let m = m\<lparr>cache := cache m @ [em]\<rparr> in if length (cache m) \<ge> 1000 then SendBatch m else m)"

definition master_timeout :: "'c master \<Rightarrow> 'c master" where
  "master_timeout m = SendBatch m"

text \<open>What the client's loop takes from its channel.\<close>

definition take_batch :: "'c \<Rightarrow> 'c master \<Rightarrow> (batch \<times> 'c master) option" where
  "take_batch c m =
     (case clients m c of
        Some (b # bs) \<Rightarrow> Some (b, m\<lparr>clients := (clients m)(c \<mapsto> bs)\<rparr>)
      | _ \<Rightarrow> None)"

section \<open>The master's side of a connection\<close>

definition batch_message :: "go_int \<Rightarrow> batch \<Rightarrow> message" where
  "batch_message seq b =
     (let (f, l, ms) = b
      in Message MSG_STORAGE_SYNC_MESSAGE_BATCH seq 0 0 (Some (BMessageBatch f l ms)) None)"

fun send_batches :: "go_int \<Rightarrow> batch list \<Rightarrow> bytes" where
  "send_batches seq [] = []"
| "send_batches seq (b # bs) = WriteMessage (batch_message (seq + 1) b) @ send_batches (seq + 1) bs"

text \<open>
  \<open>SyncClient.RunLoop\<close> up to the registration of the client: the bytes it sends, \<open>None\<close> where it
  returns before. The type assertion on the body panics if it fails.
\<close>

definition catch_up :: "bytes \<Rightarrow> 'a storage_file_scheme \<Rightarrow> bytes option go option" where
  "catch_up conn s =
     loop_bind (ReceiveMessage conn) (\<lambda>(msg, _).
       case msg of
         None \<Rightarrow> Some (Ret None)
       | Some m \<Rightarrow>
           if Cmd m \<noteq> MSG_STORAGE_SYNC_BEGIN then Some (Ret None)
           else case Body m of
                  Some (BSyncCursor cursor) \<Rightarrow>
                    map_option (go_map (\<lambda>c. Some (send_batches 0 c))) (LoadSyncMessagesInBackground cursor s)
                | _ \<Rightarrow> Some Panic)"

section \<open>The slave\<close>

definition sync_begin :: "'a storage_file_scheme \<Rightarrow> bytes" where
  "sync_begin s = WriteMessage (Message MSG_STORAGE_SYNC_BEGIN 1 0 0 (Some (BSyncCursor (NextMessageID s))) None)"

text \<open>One message of the master; a command of another kind is only logged.\<close>

definition slave_message :: "message \<Rightarrow> 'a storage_scheme \<Rightarrow> 'a storage_scheme go" where
  "slave_message msg s =
     (if Cmd msg = MSG_STORAGE_SYNC_MESSAGE then
        (case Body msg of
           Some (BEMessage i d (Some m)) \<Rightarrow> SaveSyncMessage i m s
         | _ \<Rightarrow> Panic)
      else if Cmd msg = MSG_STORAGE_SYNC_MESSAGE_BATCH then
        (case Body msg of
           Some (BMessageBatch f l ms) \<Rightarrow> SaveSyncMessageBatch f ms s
         | _ \<Rightarrow> Panic)
      else Ret s)"

text \<open>The loop of \<open>RunOnce\<close> over what arrives until the connection ends.\<close>

lemma receive_sync_shorter: "ReceiveStorageSyncMessage conn = Ret (Some m, r) \<Longrightarrow> length r < length conn"
  using receive_cmd_seq(1) unfolding ReceiveStorageSyncMessage_def by fastforce

function slave_loop :: "bytes \<Rightarrow> 'a storage_scheme \<Rightarrow> 'a storage_scheme go" where
  "slave_loop conn s =
     go_bind (ReceiveStorageSyncMessage conn) (\<lambda>(msg, conn').
       case msg of
         None \<Rightarrow> Ret s
       | Some m \<Rightarrow> go_bind (slave_message m s) (\<lambda>s. slave_loop conn' s))"
  by pat_completeness auto
termination
  by (relation "measure (\<lambda>(conn, s). length conn)") (auto dest: receive_sync_shorter)

declare slave_loop.simps [simp del]

section \<open>Nothing is lost or reordered in the master\<close>

text \<open>
  All messages a client registered since \<open>cache\<close> was empty has been or will be sent.
\<close>

definition outgoing :: "'c \<Rightarrow> 'c master \<Rightarrow> message list" where
  "outgoing c m = concat (map (\<lambda>(_, _, ms). ms) (the (clients m c))) @ map snd (cache m)"

definition master_ok :: "'c \<Rightarrow> 'c master \<Rightarrow> bool" where
  "master_ok c m \<longleftrightarrow> clients m c \<noteq> None \<and> length (cache m) < 1000
     \<and> (\<forall>(_, _, ms) \<in> set (the (clients m c)). ms \<noteq> [] \<and> length ms \<le> 1000)"

lemma SendBatch_outgoing: "clients m c \<noteq> None \<Longrightarrow> outgoing c (SendBatch m) = outgoing c m"
  by (auto simp: SendBatch_def outgoing_def batch_of_def)

lemma SendBatch_ok:
  "clients m c \<noteq> None \<Longrightarrow> length (cache m) \<le> 1000 \<Longrightarrow>
   (\<forall>(_, _, ms) \<in> set (the (clients m c)). ms \<noteq> [] \<and> length ms \<le> 1000) \<Longrightarrow> master_ok c (SendBatch m)"
  by (auto simp: SendBatch_def master_ok_def batch_of_def)

lemma master_message_outgoing:
  assumes "master_ok c m"
  shows "outgoing c (master_message em m) = outgoing c m @ [snd em]" "master_ok c (master_message em m)"
proof -
  let ?m = "m\<lparr>cache := cache m @ [em]\<rparr>"
  have "clients ?m c \<noteq> None" "outgoing c ?m = outgoing c m @ [snd em]" "length (cache ?m) \<le> 1000"
    "\<forall>(_, _, ms) \<in> set (the (clients ?m c)). ms \<noteq> [] \<and> length ms \<le> 1000"
    using assms by (auto simp: master_ok_def outgoing_def)
  with SendBatch_outgoing [of ?m c] SendBatch_ok [of ?m c]
  show "outgoing c (master_message em m) = outgoing c m @ [snd em]" "master_ok c (master_message em m)"
    by (auto simp: master_message_def master_ok_def Let_def)
qed

lemma master_timeout_outgoing:
  assumes "master_ok c m"
  shows "outgoing c (master_timeout m) = outgoing c m" "master_ok c (master_timeout m)"
  using assms SendBatch_outgoing [of m c] SendBatch_ok [of m c]
  by (auto simp: master_timeout_def master_ok_def)

text \<open>Any run of the loop, \<open>None\<close> being the timer: the client gets every message once, in order.\<close>

definition master_run :: "(int64 \<times> message) option list \<Rightarrow> 'c master \<Rightarrow> 'c master" where
  "master_run es m = fold (\<lambda>e. case e of None \<Rightarrow> master_timeout | Some em \<Rightarrow> master_message em) es m"

lemma master_run_outgoing:
  "master_ok c m \<Longrightarrow> outgoing c (master_run es m) = outgoing c m @ map snd (List.map_filter id es)
    \<and> master_ok c (master_run es m)"
proof (induction es arbitrary: m)
  case Nil
  then show ?case by (simp add: master_run_def List.map_filter_def)
next
  case (Cons e es)
  show ?case
  proof (cases e)
    case None
    then have "master_run (e # es) m = master_run es (master_timeout m)" by (simp add: master_run_def)
    then show ?thesis
      using Cons.IH [of "master_timeout m"] master_timeout_outgoing [OF Cons.prems] None
      by (simp add: List.map_filter_def)
  next
    case (Some em)
    then have "master_run (e # es) m = master_run es (master_message em m)" by (simp add: master_run_def)
    then show ?thesis
      using Cons.IH [of "master_message em m"] master_message_outgoing [OF Cons.prems, of em] Some
      by (simp add: List.map_filter_def)
  qed
qed

section \<open>The batches over the wire\<close>

lemma canon_canon:
  "canon (canon m) = canon m" "canon_body v (canon_body v b) = canon_body v b"
  by (induction m and v b rule: canon_canon_body.induct)
    (auto simp: option.map_comp comp_def intro!: option.map_cong)

text \<open>What a batch of the catch-up holds: messages as they were read from the log.\<close>

definition read_batch :: "batch \<Rightarrow> bool" where
  "read_batch b \<longleftrightarrow> (\<forall>m \<in> set (snd (snd b)). \<exists>m'. storable m' \<and> m = canon m')"

lemma batch_steps_read:
  assumes "\<forall>(i, m) \<in> set log. storable m" "\<forall>b \<in> set c. read_batch b" "read_batch batch"
    and "replay batch_step log (c, batch) = Ret cb"
  shows "\<forall>b \<in> set (sent cb). read_batch b"
  using assms
proof (induction log arbitrary: c batch)
  case Nil
  then show ?case by (auto simp: sent_def split: if_splits)
next
  case (Cons e log)
  obtain i m where e: "e = (i, m)" by (cases e)
  let ?batch = "add_to_batch i (canon m) batch"
  have b: "read_batch ?batch"
    using Cons.prems(1,3) by (auto simp: e read_batch_def add_to_batch_def split: prod.splits)
  have z: "read_batch empty_batch" by (simp add: read_batch_def empty_batch_def)
  show ?case
  proof (cases "length (snd (snd ?batch)) \<ge> BATCH_COUNT")
    case True
    with Cons.prems b z show ?thesis
      by (intro Cons.IH [of "c @ [?batch]" empty_batch]) (auto simp: e batch_step_def Let_def)
  next
    case False
    with Cons.prems b show ?thesis
      by (intro Cons.IH [of c ?batch]) (auto simp: e batch_step_def Let_def)
  qed
qed

lemma wire_ok_batch:
  assumes "read_batch b" "length (snd (snd b)) < 2 ^ 31" "0 \<le> sint seq" "sint seq < 2 ^ 31"
  shows "wire_ok (batch_message seq b)" "canon (batch_message seq b) = batch_message seq b"
proof -
  obtain f l ms where b: "b = (f, l, ms)" by (cases b)
  have "ucast (word_of_int (sint seq) :: go_int) = (word_of_int (sint seq) :: int32)"
    by (rule ucast_down_wi) (simp add: is_down)
  moreover have "word_of_int (sint seq) = (word_of_nat (nat (sint seq)) :: int32)"
    using assms(3) by (metis nat_0_le of_int_of_nat_eq)
  ultimately have "ucast seq = (word_of_nat (nat (sint seq)) :: int32)" by simp
  then have "sint (scast (ucast seq :: int32) :: go_int) = sint seq"
    using sint_len32 [of "nat (sint seq)"] assms(3,4) by (simp add: nat_less_iff)
  then have "(word_of_int (sint (scast (ucast seq :: int32) :: go_int)) :: go_int) = word_of_int (sint seq)"
    by (rule arg_cong)
  then have "seq = scast (ucast seq :: int32)" by simp
  then show "wire_ok (batch_message seq b)"
    using assms(1,2) wire_ok_canon
    by (auto simp: b batch_message_def header_ok_def creator_def core_creators_def route_creators_def
        storage_creators_def read_batch_def storable_def msg_ToData_canon)
  show "canon (batch_message seq b) = batch_message seq b"
    using assms(1) by (auto simp: b batch_message_def read_batch_def canon_canon intro!: map_idI)
qed

text \<open>The frame of a batch fits the limit of \<open>ReceiveStorageSyncMessage\<close>.\<close>

definition fits :: "batch \<Rightarrow> bool" where
  "fits b \<longleftrightarrow> length (snd (snd b)) < 2 ^ 31 \<and> length (msg_ToData (batch_message 0 b)) < 32 * 1024 * 1024"

lemma msg_ToData_batch: "msg_ToData (batch_message seq b) = msg_ToData (batch_message 0 b)"
  by (cases b) (simp add: batch_message_def msg_ToData_def)

lemma receive_batch:
  assumes "read_batch b" "fits b" "0 \<le> sint seq" "sint seq < 2 ^ 31"
  shows "ReceiveStorageSyncMessage (WriteMessage (batch_message seq b) @ conn)
    = Ret (Some (batch_message seq b), conn)"
proof -
  note w = wire_ok_batch [OF assms(1) _ assms(3,4)]
  have "int (length (msg_ToData (batch_message seq b))) < 32 * 1024 * 1024"
    using assms(2) by (simp add: fits_def msg_ToData_batch [of seq])
  then show ?thesis
    using receive_write [of "batch_message seq b" "32 * 1024 * 1024" False conn] w assms(2)
    by (simp add: ReceiveStorageSyncMessage_def fits_def)
qed

lemma sint_plus_1: "0 \<le> sint seq \<Longrightarrow> sint seq < 2 ^ 31 \<Longrightarrow> sint (seq + 1 :: go_int) = sint seq + 1"
  using sint_of_int64 [of "sint seq + 1"] by simp

lemma slave_loop_batches:
  fixes s :: "'a storage_scheme"
  assumes "\<forall>b \<in> set bs. read_batch b \<and> fits b" "0 \<le> sint seq" "sint seq + int (length bs) < 2 ^ 31"
  shows "slave_loop (send_batches seq bs) s = deliver bs s"
  using assms
proof (induction bs arbitrary: seq s)
  case Nil
  have "ReceiveStorageSyncMessage [] = Ret (None, [])"
    by (simp add: ReceiveStorageSyncMessage_def receive_short)
  then show ?case by (simp add: slave_loop.simps [of "[]"] deliver_def)
next
  case (Cons b bs)
  have one: "sint (seq + 1) = sint seq + 1" using Cons.prems(2,3) by (intro sint_plus_1) auto
  have IH: "slave_loop (send_batches (seq + 1) bs) = (deliver bs :: 'a storage_scheme \<Rightarrow> _)"
    using Cons.prems one by (intro ext Cons.IH) auto
  have r: "ReceiveStorageSyncMessage (WriteMessage (batch_message (seq + 1) b) @ send_batches (seq + 1) bs)
      = Ret (Some (batch_message (seq + 1) b), send_batches (seq + 1) bs)"
    using Cons.prems one by (intro receive_batch) auto
  have m: "slave_message (batch_message seq b) s = (case b of (f, l, ms) \<Rightarrow> SaveSyncMessageBatch f ms s)" for seq
    by (cases b) (simp add: slave_message_def batch_message_def)
  have "slave_loop (send_batches seq (b # bs)) s
      = go_bind (case b of (f, l, ms) \<Rightarrow> SaveSyncMessageBatch f ms s) (deliver bs)"
    using IH by (subst slave_loop.simps) (simp add: r m)
  then show ?case by (cases b) (simp add: deliver_def [abs_def])
qed

text \<open>Every batch of a catch-up holds messages of the log.\<close>

lemma batch_block_read:
  assumes "b < length bs" "blocks_ok bs" "bs ! b = X @ Y" "\<forall>b \<in> set c. read_batch b"
    and "batch_block (int b) (file_of (bs ! b)) (drop (length (file_of X)) (file_of (bs ! b))) c = Ret c'"
  shows "\<forall>b \<in> set c'. read_batch b"
proof -
  have "bs ! b \<in> set bs" using assms(1) by simp
  then have st: "\<forall>m \<in> set Y. storable m" using assms(2) by (auto simp: blocks_ok_def assms(3))
  have bytes: "drop (length (file_of X)) (file_of (X @ Y)) = concat (map stored Y)"
    "length (file_of (X @ Y)) = length (file_of X) + length (concat (map stored Y))"
    by (simp_all add: file_of_def)
  obtain cb where cb: "replay batch_step (block_log (int b) (int (length (file_of X))) Y) (c, empty_batch) = Ret cb"
    "c' = sent cb"
    using assms(5) scan_file_stored [OF st bytes(2), of batch_step "int b" "(c, empty_batch)"]
    by (auto simp: batch_block_def assms(3) bytes(1) sent_def [abs_def] go_map_Ret_iff)
  have "\<forall>(i, m) \<in> set (block_log (int b) (int (length (file_of X))) Y). storable m"
    using st by (auto elim!: block_log_range)
  with cb batch_steps_read [of _ c empty_batch cb] assms(4) show ?thesis
    by (simp add: read_batch_def empty_batch_def)
qed

lemma sync_from_read:
  assumes "sync_from block offset n c s = Some (Ret c')" and l: "layout bs s" and c: "\<forall>b \<in> set c. read_batch b"
    and "block = int k" "k < length bs" "bs ! k = X @ Y" "offset = int (length (file_of X))" "int k \<le> n"
  shows "\<forall>b \<in> set c'. read_batch b"
proof -
  have b: "blocks_ok bs" and d: "disk s = disk_of bs" using l by (simp_all add: layout_def)
  have "\<forall>c'. Ret c' = y \<longrightarrow> (\<forall>b \<in> set c. read_batch b) \<longrightarrow> layout bs s \<longrightarrow> block = int k
      \<longrightarrow> offset = int (length (file_of X)) \<longrightarrow> int k \<le> n \<longrightarrow> (\<forall>b \<in> set c'. read_batch b)"
    if "sync_from block offset n c s = Some y" for block offset n c s y
  proof (rule sync_from.raw_induct [OF _ that, where P = "\<lambda>block offset n c s y.
      \<forall>c'. Ret c' = y \<longrightarrow> (\<forall>b \<in> set c. read_batch b) \<longrightarrow> layout bs s \<longrightarrow> block = int k
      \<longrightarrow> offset = int (length (file_of X)) \<longrightarrow> int k \<le> n \<longrightarrow> (\<forall>b \<in> set c'. read_batch b)"], goal_cases)
    case (1 loop block offset n c s y)
    show ?case
    proof (intro allI impI)
      fix c' assume y: "Ret c' = y" and c: "\<forall>b \<in> set c. read_batch b" and l: "layout bs s"
        and bk: "block = int k" "offset = int (length (file_of X))" "int k \<le> n"
      have d: "disk s = disk_of bs" using l by (simp add: layout_def)
      show "\<forall>b \<in> set c'. read_batch b"
      proof (cases "n < int (length bs)")
        case False
        then have "openReadFile n s = None" by (simp add: openReadFile_def d disk_of_def)
        with 1(2) y c show ?thesis by auto
      next
        case True
        define j where "j = nat n"
        have j: "n = int j" "j < length bs" using True bk(3) by (auto simp: j_def)
        define Z where "Z = (if j = k then X else [])"
        obtain W where W: "bs ! j = Z @ W" using assms(6) by (cases "j = k") (auto simp: Z_def)
        have pos: "(if n = block then offset else HEADER_SIZE) = int (length (file_of Z))"
          using bk j by (auto simp: Z_def file_of_def)
        have open_j: "openReadFile n s = Some n" using j by (simp add: openReadFile_def d disk_of_def)
        have "the (disk s n) = file_of (bs ! j)" using j by (simp add: d disk_of_def)
        with 1(2) y open_j pos j have cases: "c' = c \<or> (\<exists>c1. batch_block (int j) (file_of (bs ! j))
            (drop (length (file_of Z)) (file_of (bs ! j))) c = Ret c1 \<and> loop block offset (n + 1) c1 s = Some (Ret c'))"
          by (auto simp: Let_def loop_bind_Some_Ret split: if_splits)
        then show ?thesis
        proof (elim disjE exE conjE)
          fix c1 assume c1: "batch_block (int j) (file_of (bs ! j))
            (drop (length (file_of Z)) (file_of (bs ! j))) c = Ret c1" "loop block offset (n + 1) c1 s = Some (Ret c')"
          have "\<forall>b \<in> set c1. read_batch b" by (rule batch_block_read [OF j(2) b W c c1(1)])
          with 1(1) [OF c1(2)] l bk show ?thesis by simp
        qed (use c in simp)
      qed
    qed
  qed
  from this [OF assms(1)] assms show ?thesis by blast
qed

text \<open>
  The whole exchange at the level of bytes: the slave sends its cursor, and the frames the master
  answers with bring the slave's files and indexes to those of the master.
\<close>

lemma sync_exchange:
  fixes s t :: storage
  assumes ok: "storage_ok bs s" and k: "k < length bs" "bs ! k = X @ Y"
    and p: "int (length (file_of X)) < BLOCK_SIZE" and X: "X \<noteq> [] \<or> k = 0"
    and long: "\<forall>b \<in> {Suc k..<length bs}. length (file_of X) \<le> length (file_of (bs ! b))"
    and t: "replay sync_message (log_of (take k bs @ [X])) fresh_storage = Ret t"
    and c: "LoadSyncMessagesInBackground (NextMessageID t) s = Some (Ret c)"
    and fits: "\<forall>b \<in> set c. fits b" "length c < 2 ^ 31"
  shows "\<exists>answer t'. catch_up (sync_begin t) s = Some (Ret (Some answer)) \<and> slave_loop answer t = Ret t'
    \<and> storage_ok bs t' \<and> disk t' = disk s \<and> message_index t' = message_index s
    \<and> group_message_index t' = group_message_index s"
proof -
  obtain t' where t': "deliver c t = Ret t'" "storage_ok bs t'" "disk t' = disk s"
    "message_index t' = message_index s" "group_message_index t' = group_message_index s"
    using slave_catches_up [OF ok k p X long t] c by auto
  let ?hello = "Message MSG_STORAGE_SYNC_BEGIN 1 0 0 (Some (BSyncCursor (NextMessageID t))) None"
  have "wire_ok ?hello" "canon ?hello = ?hello" "length (msg_ToData ?hello) < 32768"
    by (simp_all add: header_ok_def creator_def core_creators_def route_creators_def storage_creators_def
        msg_ToData_def)
  then have "ReceiveMessage (sync_begin t) = Ret (Some ?hello, [])"
    using ReceiveMessage_WriteMessage [of ?hello "[]"] by (simp add: sync_begin_def)
  then have "catch_up (sync_begin t) s = Some (Ret (Some (send_batches 0 c)))"
    using c by (simp add: catch_up_def)
  moreover have "\<forall>b \<in> set c. read_batch b"
  proof -
    have l: "layout bs s" by (rule storage_okD(1) [OF ok])
    have "position_ok (int k) (int (length (file_of X)))"
      using l k(1) p by (simp add: position_ok_def layout_def blocks_ok_def)
    note pos = getBlock_getMsgId [OF this]
    have "NextMessageID t = getMsgId (int k) (int (length (file_of X)))"
      by (rule slave_cursor [OF ok k p X t])
    with c have "sync_from (int k) (int (length (file_of X))) (int k) [] s = Some (Ret c)"
      by (simp add: LoadSyncMessagesInBackground_def pos)
    from sync_from_read [OF this l _ refl k refl] show ?thesis by simp
  qed
  then have "slave_loop (send_batches 0 c) t = Ret t'"
    using slave_loop_batches [of c 0 t] fits t'(1) by simp
  ultimately show ?thesis using t' by blast
qed

end
