(* ===== verification/StorageProperties.thy ===== *)
theory StorageProperties
  imports CoreProperties StorageReturns StorageMaster
begin

text \<open>
  The properties of the storage server, each with a witness: a run on the server that starts on an
  empty directory.
\<close>

section \<open>Sample states\<close>

lemma plain_hello: "plain hello" "Version hello = 2" "Cmd hello = MSG_IM" "history_cmd MSG_IM"
  "group_flag hello = 0" "storable hello" "wire_ok hello" "canon hello = hello" "latest_cmd MSG_IM"
  by (simp_all add: plain_def storable_def hello_wire)
    (simp_all add: hello_def history_cmd_def latest_cmd_def group_flag_def isGroupMessage_def)

lemma plain_hello_group: "plain hello_group" "canon hello_group = hello_group" "Cmd hello_group = MSG_GROUP_IM"
  by (simp_all add: plain_def storable_def hello_wire) (simp_all add: hello_group_def)

lemma fresh_ok: "storage_ok [[]] fresh_storage"
  by (rule storage_ok_empty)

lemma records_fresh [simp]: "log_of [[]] = []" "records cmd a u [] = []"
  by (simp_all add: log_of_def records_def List.map_filter_def)

text \<open>A server that has saved \<open>hello\<close> for user 42 of application 7, sent by device 3.\<close>

lemma fresh_extend_ok: "storage_ok [[]] (storage.extend fresh_storage x)"
proof -
  have "cache_ok (storage.extend fresh_storage x) = cache_ok fresh_storage"
    by (simp add: cache_ok_def storage.extend_def empty_storage_def)
  then have "layout [[]] (storage.extend fresh_storage x)"
    using storage_okD(1) [OF fresh_ok] by (simp add: layout_def storage.extend_def)
  moreover have "getPeerIndex a u (storage.extend fresh_storage x) = user_index_of []"
    "getGroupIndex a u (storage.extend fresh_storage x) = group_index_of []" for a u
    using storage_okD(4,6) [OF fresh_ok, of a u]
    by (simp_all add: getPeerIndex_def getGroupIndex_def storage.extend_def)
  moreover have "reset_index (storage.extend fresh_storage x) = storage.extend fresh_storage x"
    by (simp add: reset_index_def storage.extend_def empty_storage_def)
  ultimately show ?thesis by (simp add: storage_ok_def)
qed

lemma one_saved:
  obtains s :: storage and bs i j off where
    "SavePeerMessage 7 42 3 hello fresh_storage = Ret ((i, 0), s)" "storage_ok bs s" "length bs \<le> 3"
    "records MSG_OFFLINE_V4 7 42 (log_of bs) = [(j, off, False)]" "off_Msgid off = i" "off_DeviceId off = 3"
    "message_at (log_of bs) i = hello" "0 < sint i" "(i, hello) \<in> set (log_of bs)"
proof -
  obtain s :: storage and bs j where s: "SavePeerMessage 7 42 3 hello fresh_storage
      = Ret ((next_id hello [[]], head_msgid (records MSG_OFFLINE_V4 7 42 (log_of [[]]))), s)"
    "storage_ok bs s" "length bs \<le> length [[] :: message list] + 2"
    "log_of bs = log_of [[]] @ [(next_id hello [[]], hello), (j, record_message MSG_OFFLINE_V4 (group_flag hello)
       (peer_record 7 42 3 (next_id hello [[]]) (user_index_of (records MSG_OFFLINE_V4 7 42 (log_of [[]])))))]"
    using SavePeerMessage_ok [OF fresh_ok plain_hello(1), of 7 42 3] by auto
  let ?off = "peer_record 7 42 3 (next_id hello [[]]) (user_index_of [])"
  have r: "records MSG_OFFLINE_V4 7 42 (log_of bs) = [(j, ?off, False)]"
    unfolding s(4) records_fresh
    by (subst records_two_saves) (simp_all add: plain_hello records_fresh peer_record_def)
  have mem: "(next_id hello [[]], hello) \<in> set (log_of bs)" by (simp add: s(4))
  have b: "blocks_ok bs" using storage_okD(1) [OF s(2)] by (simp add: layout_def)
  show thesis
    by (rule that [OF _ s(2) _ r _ _ message_at_eq [OF b mem] log_of_bounds(1) [OF b mem] mem])
      (use s(1,3) in \<open>simp_all add: records_fresh head_msgid_def peer_record_def\<close>)
qed

lemma one_saved_group:
  obtains s :: storage and bs i j off where
    "SaveGroupMessage 7 9 3 hello_group fresh_storage = Ret ((i, 0), s)" "storage_ok bs s"
    "records MSG_GROUP_OFFLINE 7 9 (log_of bs) = [(j, off, False)]" "off_Msgid off = i" "off_DeviceId off = 3"
    "message_at (log_of bs) i = hello_group" "0 < sint i"
proof -
  obtain s :: storage and bs j where s: "SaveGroupMessage 7 9 3 hello_group fresh_storage
      = Ret ((next_id hello_group [[]], head_msgid (records MSG_GROUP_OFFLINE 7 9 (log_of [[]]))), s)"
    "storage_ok bs s"
    "log_of bs = log_of [[]] @ [(next_id hello_group [[]], hello_group), (j, record_message MSG_GROUP_OFFLINE 0
       (group_record 7 9 3 (next_id hello_group [[]]) (group_index_of (records MSG_GROUP_OFFLINE 7 9 (log_of [[]])))))]"
    by (rule SaveGroupMessage_ok [OF fresh_ok plain_hello_group(1), of 7 9 3]) (simp, rule that)
  let ?off = "group_record 7 9 3 (next_id hello_group [[]]) (group_index_of [])"
  have r: "records MSG_GROUP_OFFLINE 7 9 (log_of bs) = [(j, ?off, False)]"
    unfolding s(3) records_fresh
    by (subst records_two_saves) (simp_all add: plain_hello_group records_fresh group_record_def)
  have mem: "(next_id hello_group [[]], hello_group) \<in> set (log_of bs)" by (simp add: s(3))
  have b: "blocks_ok bs" using storage_okD(1) [OF s(2)] by (simp add: layout_def)
  show thesis
    by (rule that [OF _ s(2) r _ _ message_at_eq [OF b mem] log_of_bounds(1) [OF b mem]])
      (use s(1) in \<open>simp_all add: records_fresh head_msgid_def group_record_def\<close>)
qed

section \<open>Properties of the storage server\<close>



text \<open>
  C2: saving a plain message for a user returns the id of the message and the id of the message
  that was the user's last one, and appends to the log the message and an offline record that links
  to the user's former records; the invariant holds again.
\<close>
theorem save_peer_message:
  fixes s :: "'a storage_scheme" and a u :: int64
  assumes "storage_ok bs s" "plain m" "length bs + 2 \<le> 2 ^ 36"
  defines "R \<equiv> records MSG_OFFLINE_V4 a u (log_of bs)"
  shows "\<exists>s' bs' j off. SavePeerMessage a u dev m s = Ret ((next_id m bs, head_msgid R), s')
    \<and> storage_ok bs' s' \<and> off = peer_record a u dev (next_id m bs) (user_index_of R)
    \<and> log_of bs' = log_of bs @ [(next_id m bs, m), (j, record_message MSG_OFFLINE_V4 (group_flag m) off)]
    \<and> records MSG_OFFLINE_V4 a u (log_of bs') = (j, off, group_flag m \<noteq> 0) # R"
proof -
  have f: "group_flag m = 0 \<or> group_flag m = MESSAGE_FLAG_GROUP" by (simp add: group_flag_def)
  show ?thesis
    using SavePeerMessage_ok [OF assms(1-3), of a u dev] records_two_saves [OF assms(2) f disjI1 [OF refl], of a u "log_of bs"]
    unfolding R_def by (smt (verit) offline_message.select_convs(1,2) peer_record_def)
qed

theorem save_peer_message_witness:
  "\<exists>s bs j. SavePeerMessage 7 42 3 hello fresh_storage = Ret ((next_id hello [[]], 0), s) \<and> storage_ok bs s
    \<and> log_of bs = [(next_id hello [[]], hello), (j, record_message MSG_OFFLINE_V4 0
        (peer_record 7 42 3 (next_id hello [[]]) (user_index_of [])))]"
  using save_peer_message [OF fresh_ok plain_hello(1), of 7 42 3]
  by (auto simp: plain_hello head_msgid_def)

text \<open>
  C14: the same for a message to a super group, with the records of the group.
\<close>
theorem save_group_message:
  fixes s :: "'a storage_scheme" and a g :: int64
  assumes "storage_ok bs s" "plain m" "length bs + 2 \<le> 2 ^ 36"
  defines "R \<equiv> records MSG_GROUP_OFFLINE a g (log_of bs)"
  shows "\<exists>s' bs' j off. SaveGroupMessage a g dev m s = Ret ((next_id m bs, head_msgid R), s')
    \<and> storage_ok bs' s' \<and> off = group_record a g dev (next_id m bs) (group_index_of R)
    \<and> log_of bs' = log_of bs @ [(next_id m bs, m), (j, record_message MSG_GROUP_OFFLINE 0 off)]
    \<and> records MSG_GROUP_OFFLINE a g (log_of bs') = (j, off, False) # R"
proof -
  have f: "(0 :: go_int) = 0 \<or> (0 :: go_int) = MESSAGE_FLAG_GROUP" by simp
  show ?thesis
    using SaveGroupMessage_ok [OF assms(1-3), of a g dev] records_two_saves [OF assms(2) f disjI2 [OF refl], of a g "log_of bs"]
    unfolding R_def by (smt (verit) offline_message.select_convs(1,2) group_record_def)
qed

theorem save_group_message_witness:
  "\<exists>s bs j. SaveGroupMessage 7 9 3 hello_group fresh_storage = Ret ((next_id hello_group [[]], 0), s)
    \<and> storage_ok bs s
    \<and> log_of bs = [(next_id hello_group [[]], hello_group), (j, record_message MSG_GROUP_OFFLINE 0
        (group_record 7 9 3 (next_id hello_group [[]]) (group_index_of [])))]"
  using save_group_message [OF fresh_ok plain_hello_group(1), of 7 9 3]
  by (auto simp: head_msgid_def)

text \<open>
  Saving a message for the members of a group returns two ids for each member, and adds to
  each user's records as many as the user occurs among the members.
\<close>
theorem save_for_members:
  fixes s :: "'a storage_scheme"
  assumes "storage_ok bs s" "plain m" "length bs + 2 * length members \<le> 2 ^ 36"
  shows "\<exists>r s' bs'. SavePeerGroupMessage a members dev m s = Ret (r, s') \<and> storage_ok bs' s'
    \<and> length r = 2 * length members
    \<and> (\<forall>u. length (records MSG_OFFLINE_V4 a u (log_of bs'))
        = length (records MSG_OFFLINE_V4 a u (log_of bs)) + count_list members u)"
  using SavePeerGroupMessage_ok [OF assms, of a dev] by blast

theorem save_for_members_witness:
  "\<exists>r s bs. SavePeerGroupMessage 7 [42, 43, 42] 3 hello fresh_storage = Ret (r, s) \<and> storage_ok bs s
    \<and> length r = 6 \<and> length (records MSG_OFFLINE_V4 7 42 (log_of bs)) = 2
    \<and> length (records MSG_OFFLINE_V4 7 44 (log_of bs)) = 0"
proof -
  obtain r bs and s :: storage where
    "SavePeerGroupMessage 7 [42, 43, 42] 3 hello fresh_storage = Ret (r, s)" "storage_ok bs s" "length r = 6"
    and n: "\<And>u. length (records MSG_OFFLINE_V4 7 u (log_of bs)) = count_list [42, 43, 42] u"
    using save_for_members [OF fresh_ok plain_hello(1), of "[42, 43, 42]" 7 3] by auto
  moreover have "length (records MSG_OFFLINE_V4 7 42 (log_of bs)) = 2"
    "length (records MSG_OFFLINE_V4 7 44 (log_of bs)) = 0" by (simp_all only: n) simp_all
  ultimately show ?thesis by blast
qed





text \<open>
  C25: \<open>LoadLatestMessages\<close> returns the first messages of the user's records, newest first.
\<close>
theorem load_latest:
  fixes s :: "'a storage_scheme"
  assumes "storage_ok bs s" "0 < limit"
  shows "\<exists>s'. LoadLatestMessages a u limit s =
      Some (Ret (take (nat limit) (messages_of latest_cmd (log_of bs) (records MSG_OFFLINE_V4 a u (log_of bs))), s'))
      \<and> storage_ok bs s'"
  by (rule LoadLatestMessages_ok [OF assms])

theorem load_latest_witness:
  "\<exists>s s' i. SavePeerMessage 7 42 3 hello fresh_storage = Ret ((i, 0), s)
    \<and> LoadLatestMessages 7 42 5 s = Some (Ret ([(i, 3, hello)], s'))"
proof -
  obtain s :: storage and bs i j off where s: "SavePeerMessage 7 42 3 hello fresh_storage = Ret ((i, 0), s)"
    "storage_ok bs s" "length bs \<le> 3" "records MSG_OFFLINE_V4 7 42 (log_of bs) = [(j, off, False)]"
    "off_Msgid off = i" "off_DeviceId off = 3" "message_at (log_of bs) i = hello" "0 < sint i"
    "(i, hello) \<in> set (log_of bs)"
    by (rule one_saved)
  show ?thesis
    using load_latest [OF s(2), of 5 7 42] s by (auto simp: messages_of_def plain_hello)
qed



text \<open>
  C31: \<open>LoadGroupHistoryMessages\<close> returns the first messages of the group's records, newest first, as
  far as they are newer than the sync key and, in a first sync, not sent before the member joined.
\<close>
theorem load_group_history:
  fixes s :: "'a storage_scheme"
  assumes "storage_ok bs s" "0 < limit" "0 \<le> sint msgid"
  shows "\<exists>s'. LoadGroupHistoryMessages a uid g msgid ts limit s =
      Some (Ret (group_messages_of (log_of bs)
          (take (nat limit) (visible msgid ts (log_of bs) (records MSG_GROUP_OFFLINE a g (log_of bs)))),
        head_msgid (records MSG_GROUP_OFFLINE a g (log_of bs)), s'))
      \<and> storage_ok bs s'"
  by (rule LoadGroupHistoryMessages_ok [OF assms])

theorem load_group_history_witness:
  "\<exists>s s1 s2 i. SaveGroupMessage 7 9 3 hello_group fresh_storage = Ret ((i, 0), s)
    \<and> LoadGroupHistoryMessages 7 42 9 0 4 100 s = Some (Ret ([(i, 3, Some hello_group)], i, s1))
    \<and> LoadGroupHistoryMessages 7 42 9 0 6 100 s = Some (Ret ([], i, s2))"
proof -
  obtain s :: storage and bs i j off where s: "SaveGroupMessage 7 9 3 hello_group fresh_storage = Ret ((i, 0), s)"
    "storage_ok bs s" "records MSG_GROUP_OFFLINE 7 9 (log_of bs) = [(j, off, False)]"
    "off_Msgid off = i" "off_DeviceId off = 3" "message_at (log_of bs) i = hello_group" "0 < sint i"
    by (rule one_saved_group)
  have "sent_before 6 hello_group" "\<not> sent_before 4 hello_group"
    by (simp_all add: sent_before_def hello_group_def)
  then show ?thesis
    using load_group_history [OF s(2), of 100 0 7 42 9 4] load_group_history [OF s(2), of 100 0 7 42 9 6] s
    by (auto simp: visible_def group_messages_of_def plain_hello_group head_msgid_def)
qed

text \<open>
  Every message of the log is loaded by its id, whatever the file cache holds.
\<close>
theorem load_message:
  fixes s :: "'a storage_scheme"
  assumes "storage_ok bs s" "(i, m) \<in> set (log_of bs)"
  shows "\<exists>c. LoadMessage i s = Ret (Some (canon m), s\<lparr>files := c\<rparr>) \<and> storage_ok bs (s\<lparr>files := c\<rparr>)"
  using LoadMessage_layout [OF storage_okD(1) [OF assms(1)] assms(2)] storage_ok_files [OF assms(1)] by metis

theorem load_message_witness:
  "\<exists>s s' i. SavePeerMessage 7 42 3 hello fresh_storage = Ret ((i, 0), s) \<and> LoadMessage i s = Ret (Some hello, s')"
proof -
  obtain s :: storage and bs i j off where s: "SavePeerMessage 7 42 3 hello fresh_storage = Ret ((i, 0), s)"
    "storage_ok bs s" "length bs \<le> 3" "records MSG_OFFLINE_V4 7 42 (log_of bs) = [(j, off, False)]"
    "off_Msgid off = i" "off_DeviceId off = 3" "message_at (log_of bs) i = hello" "0 < sint i"
    "(i, hello) \<in> set (log_of bs)"
    by (rule one_saved)
  show ?thesis using load_message [OF s(2,9)] s(1) by (auto simp: plain_hello)
qed

text \<open>
  C17: a server that starts on the block files of another, without index files, has the indexes
  that the other had.
\<close>
theorem restart:
  fixes s :: storage
  assumes "storage_ok bs s" "lists_blocks glob bs"
  shows "\<exists>t. NewStorage peers groups glob None None = Ret t \<and> storage_ok bs t
    \<and> message_index t = message_index s \<and> group_message_index t = group_message_index s \<and> last_id t = last_id s"
  using restart_rebuilds [OF assms, of peers groups] by metis

theorem restart_witness:
  "\<exists>t. NewStorage (\<lambda>_. []) (\<lambda>_. []) [(Some 0, file_header)] None None = Ret t \<and> message_index t = Map.empty"
proof -
  have "lists_blocks [(Some 0, file_header)] [[]]" by (auto simp: lists_blocks_def file_of_def)
  from restart [OF fresh_ok this, of "\<lambda>_. []" "\<lambda>_. []"] show ?thesis by (auto simp: empty_storage_def)
qed

text \<open>
  The index files that \<open>flushIndex\<close> writes are read back, even with a torn record at their end.
\<close>
theorem index_files:
  assumes "distinct (map fst es)" "map_of es = message_index s" "length junk < 56"
    and "distinct (map fst gs)" "map_of gs = group_message_index s" "length junk' < 48"
    and "message_index t = Map.empty" "group_message_index t = Map.empty"
    and "peer_index_file t = map_option (\<lambda>d. d @ junk) (peer_index_file (flushIndex es gs s))"
    and "group_index_file t = map_option (\<lambda>d. d @ junk') (group_index_file (flushIndex es gs s))"
  shows "fst (readPeerIndex t) \<and> message_index (snd (readPeerIndex t)) = message_index s
    \<and> fst (readGroupIndex t) \<and> group_message_index (snd (readGroupIndex t)) = group_message_index s"
proof -
  have "peer_index_file (flushIndex es gs s) = peer_index_file (savePeerIndex es s)"
    "group_index_file (flushIndex es gs s) = group_index_file (saveGroupIndex gs s)"
    by (simp_all add: flushIndex_def savePeerIndex_def saveGroupIndex_def Let_def)
  with assms show ?thesis
    using peer_index_file_roundtrip [of es s junk t] group_index_file_roundtrip [of gs s junk' t] by simp
qed

theorem index_files_witness:
  "let s = fresh_storage\<lparr>message_index := [\<lparr>u_appid = 7, u_uid = 42\<rparr> \<mapsto> ui_zero]\<rparr>;
      t = fresh_storage\<lparr>peer_index_file := map_option (\<lambda>d. d @ [1, 2]) (peer_index_file
          (flushIndex [(\<lparr>u_appid = 7, u_uid = 42\<rparr>, ui_zero)] [] s)),
        group_index_file := group_index_file (flushIndex [(\<lparr>u_appid = 7, u_uid = 42\<rparr>, ui_zero)] [] s)\<rparr>
   in message_index (snd (readPeerIndex t)) = message_index s"
  unfolding Let_def
  by (rule index_files [of "[(\<lparr>u_appid = 7, u_uid = 42\<rparr>, ui_zero)]" _ "[1, 2]" "[]" "[]", THEN conjunct2, THEN conjunct1])
    (auto simp: empty_storage_def flushIndex_def saveGroupIndex_def savePeerIndex_def Let_def)

text \<open>
  From index files with a last id, the repair of the peer index replays exactly the messages
  stored after that id.
\<close>
theorem repair_peers:
  fixes s :: storage
  assumes "layout bs s" "log_of bs = A @ (last_id s, m) # B"
  shows "repairPeerIndex s = replay execPeerMessage B s"
  by (rule repairPeerIndex_eq [OF assms])

theorem repair_peers_witness:
  "\<exists>s i B. SavePeerMessage 7 42 3 hello fresh_storage = Ret ((i, 0), s)
    \<and> repairPeerIndex (s\<lparr>last_id := i\<rparr>) = replay execPeerMessage B (s\<lparr>last_id := i\<rparr>)"
proof -
  obtain s :: storage and bs i j off where s: "SavePeerMessage 7 42 3 hello fresh_storage = Ret ((i, 0), s)"
    "storage_ok bs s" "length bs \<le> 3" "records MSG_OFFLINE_V4 7 42 (log_of bs) = [(j, off, False)]"
    "off_Msgid off = i" "off_DeviceId off = 3" "message_at (log_of bs) i = hello" "0 < sint i"
    "(i, hello) \<in> set (log_of bs)"
    by (rule one_saved)
  obtain A B where "log_of bs = A @ (last_id (s\<lparr>last_id := i\<rparr>), hello) # B" using split_list [OF s(9)] by auto
  moreover have "layout bs (s\<lparr>last_id := i\<rparr>)" using storage_okD(1) [OF s(2)] by simp
  ultimately have "repairPeerIndex (s\<lparr>last_id := i\<rparr>) = replay execPeerMessage B (s\<lparr>last_id := i\<rparr>)"
    by (intro repair_peers)
  with s(1) show ?thesis by blast
qed

text \<open>
  C37: both repairs share the last id. If the last message of the log is an offline record of a
  user, \<open>repairPeerIndex\<close> moves the last id to it, and the repair of the group index then executes
  nothing: the group messages saved after the index files are missing in the group index.
\<close>
theorem repair_misses_groups:
  fixes s s' :: storage
  assumes "layout bs s" "log_of bs = A @ (last_id s, m) # B @ [(j, record_message MSG_OFFLINE_V4 flag off)]"
    and "repairPeerIndex s = Ret s'"
  shows "repairGroupIndex s' = Ret s' \<and> group_message_index s' = group_message_index s"
  using repair_skips_groups [OF assms] .

text \<open>A group message and then a user's message, after index files that end before both.\<close>

theorem repair_misses_groups_witness:
  "\<exists>bs s s'. layout bs s \<and> records MSG_GROUP_OFFLINE 7 9 (log_of bs) \<noteq> []
    \<and> repairPeerIndex s = Ret s' \<and> repairGroupIndex s' = Ret (s' :: storage) \<and> group_message_index s' = Map.empty"
proof -
  obtain s1 :: storage and bs1 j where s1: "storage_ok bs1 s1" "length bs1 \<le> 3"
    "log_of bs1 = [(next_id hello_group [[]], hello_group), (j, record_message MSG_GROUP_OFFLINE 0
       (group_record 7 9 3 (next_id hello_group [[]]) (group_index_of [])))]"
    by (rule SaveGroupMessage_ok [OF fresh_ok plain_hello_group(1), of 7 9 3]) (auto intro: that)
  have "length bs1 + 2 \<le> 2 ^ 36" using s1(2) by simp
  from SavePeerMessage_ok [OF s1(1) plain_hello(1) this, of 7 42 3] obtain s2 :: storage and bs2 k off where
    s2: "storage_ok bs2 s2" "log_of bs2 = log_of bs1 @ [(next_id hello bs1, hello), (k, record_message MSG_OFFLINE_V4 0 off)]"
    unfolding plain_hello by metis
  let ?i = "next_id hello_group [[]]"
  let ?s = "(reset_index s2)\<lparr>last_id := ?i\<rparr>"
  have l: "layout bs2 ?s" using storage_okD(1) [OF s2(1)] by simp
  have log: "log_of bs2 = [] @ (last_id ?s, hello_group) # [(j, record_message MSG_GROUP_OFFLINE 0
       (group_record 7 9 3 ?i (group_index_of []))), (next_id hello bs1, hello)] @ [(k, record_message MSG_OFFLINE_V4 0 off)]"
    by (simp add: s2(2) s1(3))
  obtain s' where r: "repairPeerIndex ?s = Ret s'"
    unfolding repairPeerIndex_eq [OF l log]
    by (auto simp: execPeerMessage_def record_message_def offline_of_def plain_hello Let_def)
  moreover have "records MSG_GROUP_OFFLINE 7 9 (log_of bs2) \<noteq> []"
    by (auto simp: records_def s2(2) s1(3) List.map_filter_def offline_rec_def record_message_def
        group_record_def hello_group_def hello_def)
  ultimately show ?thesis
    using repair_misses_groups [OF l log r] l
    by (intro exI [of _ bs2] exI [of _ ?s] exI [of _ s'] conjI) (simp_all add: reset_index_def [of s2])
qed

text \<open>
  Index files that exist but are empty leave the last id 0; the repair then starts in the file
  header of block 0, and no message of block 0 is executed.
\<close>
theorem repair_from_start:
  fixes s :: storage
  assumes "layout bs s" "last_id s = 0"
  shows "repairGroupIndex s
    = replay execGroupMessage (concat (map (\<lambda>k. block_log (int k) HEADER_SIZE (bs ! k)) [1..<length bs])) s"
  unfolding repairGroupIndex_def Let_def assms(2) by (rule repair_from_zero [OF exec_layout(2) assms(1)])

theorem repair_from_start_witness:
  "\<exists>s off. layout [[record_message MSG_GROUP_OFFLINE 0 off]] s \<and> repairGroupIndex s = Ret (s :: storage)"
proof -
  let ?rec = "record_message MSG_GROUP_OFFLINE 0 off_zero"
  let ?s = "saved ?rec [[]] fresh_storage"
  have st: "storable ?rec" by (rule storable_record) simp_all
  have "add_message ?rec [[]] = [[?rec]]"
    using storable_size [OF st] by (simp add: add_message_def file_of_def)
  then have l: "layout [[?rec]] ?s"
    using saveMessage_layout(2) [OF storage_okD(1) [OF fresh_ok] st] by simp
  have "last_id ?s = 0" by (simp add: saved_def empty_storage_def)
  from repair_from_start [OF l this] l show ?thesis by auto
qed


text \<open>A master with one message.\<close>

lemma hello_master: "storage_ok [[hello]] (saved hello [[]] fresh_storage)"
proof -
  let ?s = "saved hello [[]] fresh_storage"
  have a: "add_message hello [[]] = [[hello]]"
    using storable_size [OF plain_hello(6)] by (simp add: add_message_def file_of_def)
  have l: "layout [[hello]] ?s"
    using saveMessage_layout(2) [OF storage_okD(1) [OF fresh_ok] plain_hello(6)] by (simp add: a)
  have log: "log_of [[hello]] = [(next_id hello [[]], hello)]"
    using log_of_add_message [of "[[]]" hello] by (simp add: a)
  have r: "records cmd x u (log_of [[hello]]) = []" for cmd x u
    unfolding log by (simp add: records_def List.map_filter_def offline_rec_def hello_def)
  have e: "getPeerIndex x u ?s = user_index_of []" "getGroupIndex x u ?s = group_index_of []" for x u
    using storage_okD(4,6) [OF fresh_ok, of x u] by simp_all
  have "reset_index ?s = ?s" by (simp add: reset_index_def saved_def empty_storage_def)
  moreover have "execMessage (canon hello) i s = Ret s" for i and s :: storage
    by (rule exec_plain [OF plain_hello(1)])
  ultimately show ?thesis using l e by (simp add: storage_ok_def r [unfolded log] log)
qed



text \<open>
  A message whose id is in the slave's log already is skipped, whatever it holds.
\<close>
theorem sync_skips_known:
  fixes s :: "'a storage_scheme"
  assumes "layout bs s" "(i, m) \<in> set (log_of bs)"
  shows "SaveSyncMessage i x s = Ret s"
  by (rule SaveSyncMessage_known [OF assms])

theorem sync_skips_known_witness:
  "SaveSyncMessage (next_id hello [[]]) hello_group (saved hello [[]] fresh_storage) = Ret (saved hello [[]] fresh_storage)"
proof -
  have "log_of [[hello]] = [(next_id hello [[]], hello)]"
    using log_of_add_message [of "[[]]" hello] storable_size [OF plain_hello(6)]
    by (simp add: add_message_def file_of_def)
  then have "(next_id hello [[]], hello) \<in> set (log_of [[hello]])" by simp
  from sync_skips_known [OF storage_okD(1) [OF hello_master] this] show ?thesis .
qed

text \<open>
  If the block after the cursor's is still shorter than the offset of the cursor, the catch-up
  ends with the cursor's block: nothing of the next block is delivered.
\<close>
theorem catch_up_stops_short:
  fixes s :: "'b storage_scheme"
  assumes "layout bs s" "Suc k < length bs" "bs ! k = X @ Y"
    and "int (length (file_of X)) < BLOCK_SIZE" "length (file_of (bs ! Suc k)) < length (file_of X)"
  shows "\<exists>c. LoadSyncMessagesInBackground (getMsgId (int k) (int (length (file_of X)))) s = Some (Ret c)
    \<and> (\<forall>t :: 'a storage_scheme.
        deliver c t = replay sync_message (block_log (int k) (int (length (file_of X))) Y) t)"
  by (rule LoadSync_short [OF assms])

text \<open>Two blocks, the first with two messages, the second with one.\<close>

lemma two_blocks: "layout [[hello, hello], [hello]]
    (fresh_storage\<lparr>disk := disk_of [[hello, hello], [hello]], block_NO := 1\<rparr>)"
proof -
  have "cache_ok (fresh_storage\<lparr>disk := disk_of [[hello, hello], [hello]], block_NO := 1\<rparr>)"
    by (rule cache_ok_mono [OF cache_ok_empty]) (auto simp: disk_of_def empty_storage_def)
  then show ?thesis
    using plain_hello(6) by (simp add: layout_def blocks_ok_def file_of_def length_stored hello_wire)
qed

theorem catch_up_stops_short_witness:
  "\<exists>c. LoadSyncMessagesInBackground (getMsgId 0 (int (length (file_of [hello, hello]))))
      (fresh_storage\<lparr>disk := disk_of [[hello, hello], [hello]], block_NO := 1\<rparr>) = Some (Ret c)
    \<and> deliver c fresh_storage = Ret fresh_storage"
proof -
  have "blocks_ok [[hello, hello], [hello]]" using two_blocks by (simp add: layout_def)
  then show ?thesis
    using catch_up_stops_short [OF two_blocks, of 0 "[hello, hello]" "[]"]
    by (fastforce simp: file_of_def length_stored hello_wire)
qed

text \<open>
  When the cursor's block is full, its end is position 0 of the next block, where the file header
  is: the catch-up leaves that whole block out.
\<close>
theorem catch_up_skips_block:
  fixes s :: "'b storage_scheme"
  assumes "layout bs s" "k < length bs"
  shows "\<exists>c. LoadSyncMessagesInBackground (getMsgId (int k) 0) s = Some (Ret c)
    \<and> (\<forall>t :: 'a storage_scheme. deliver c t =
        replay sync_message (concat (map (\<lambda>b. block_log (int b) HEADER_SIZE (bs ! b)) [Suc k..<length bs])) t)"
  by (rule LoadSync_full [OF assms])

theorem catch_up_skips_block_witness:
  "\<exists>c. LoadSyncMessagesInBackground (getMsgId 1 0)
      (fresh_storage\<lparr>disk := disk_of [[hello, hello], [hello]], block_NO := 1\<rparr>) = Some (Ret c)
    \<and> deliver c fresh_storage = Ret fresh_storage"
  using catch_up_skips_block [OF two_blocks, of 1] by fastforce

text \<open>
  C33: whatever mix of messages and timer ticks the master's loop sees, a client that is registered
  gets every message once and in order, in batches of at most 1000; fewer than 1000 wait.
\<close>
theorem master_in_order:
  assumes "master_ok c m"
  shows "outgoing c (master_run es m) = outgoing c m @ map snd (List.map_filter id es)
    \<and> master_ok c (master_run es m)"
  by (rule master_run_outgoing [OF assms])

theorem master_in_order_witness:
  "outgoing (1 :: nat) (master_run [Some (32, hello), None, Some (90, hello_group)] (AddClient (1 :: nat) NewMaster)) = [hello, hello_group]"
proof -
  have "master_ok (1 :: nat) (AddClient (1 :: nat) NewMaster)" by (simp add: master_ok_def AddClient_def NewMaster_def)
  from master_in_order [OF this, of "[Some (32, hello), None, Some (90, hello_group)]"] show ?thesis
    by (simp add: List.map_filter_def outgoing_def AddClient_def NewMaster_def)
qed

text \<open>
  C20: over the remote procedures, a user that is up to date gets exactly the message that is saved
  next: the bytes that were sent, with the id the save returned, and no more pages.
\<close>
theorem save_then_sync:
  fixes s :: "'a ims_scheme" and a u :: int64
  assumes "storage_ok bs s" "length bs + 2 \<le> 2 ^ 36" "1000 \<le> limit"
    and "plain m" "Version m = DEFAULT_VERSION" "history_cmd (Cmd m)"
  defines "prev \<equiv> head_msgid (records MSG_OFFLINE_V4 a u (log_of bs))"
  shows "\<exists>i s1 s2. rpc_SavePeerMessage a u dev (ucast (Cmd m)) (msg_ToData m) s = Ret ((i, prev), s1)
    \<and> rpc_SyncMessage limit 0 a u prev s1 = Some (Ret
        (\<lparr>hr_Messages = [\<lparr>hm_MsgID = i, hm_DeviceID = dev, hm_Cmd = ucast (Cmd m), hm_Raw = msg_ToData m\<rparr>],
          hr_LastMsgID = i, hr_HasMore = False\<rparr>, s2))"
  unfolding prev_def by (rule rpc_save_then_sync [OF assms(1-6)])

theorem save_then_sync_witness:
  "\<exists>s i s1 s2. rpc_SavePeerMessage 7 42 3 4 (msg_ToData hello) (s :: ims) = Ret ((i, 0), s1)
    \<and> rpc_SyncMessage 3000 0 7 42 0 s1 = Some (Ret
        (\<lparr>hr_Messages = [\<lparr>hm_MsgID = i, hm_DeviceID = 3, hm_Cmd = 4, hm_Raw = msg_ToData hello\<rparr>],
          hr_LastMsgID = i, hr_HasMore = False\<rparr>, s2))"
proof -
  from save_then_sync [OF fresh_extend_ok [of "\<lparr>nrequests = 0, peer_message_count = 0, group_message_count = 0\<rparr>"],
      of 3000 hello 7 42 3] show ?thesis
    by (auto simp: plain_hello head_msgid_def)
qed



end
