(* ===== verification/Channel.thy ===== *)
theory Channel
  imports Codec
begin

text \<open>
  \<^verbatim>\<open>im/channel.go\<close>: the channel from an im server to a route server. It counts the
  connections of each user and the members of each room, and queues for the route server the messages
  that change its table. A count of connections packs two numbers in an \<open>int\<close>: the low 16 bits count
  all connections, the next 16 those that are online (where no push notification is wanted).
\<close>

section \<open>State\<close>

record subscriber =
  sb_uids :: "int64 \<rightharpoonup> go_int"
  sb_room_ids :: "int64 \<rightharpoonup> go_int"

definition NewSubscriber :: subscriber where
  "NewSubscriber = \<lparr>sb_uids = Map.empty, sb_room_ids = Map.empty\<rparr>"

text \<open>The dispatch functions and the address are constants of a channel.\<close>

record channel =
  subscribers :: "int64 \<rightharpoonup> subscriber"
  ch_wt :: "message list"

definition NewChannel :: channel where
  "NewChannel = \<lparr>subscribers = Map.empty, ch_wt = []\<rparr>"

text \<open>A missing key of a Go map reads as the zero value.\<close>

definition go_lookup :: "('k \<rightharpoonup> go_int) \<Rightarrow> 'k \<Rightarrow> go_int" where
  "go_lookup m k = (case m k of None \<Rightarrow> 0 | Some v \<Rightarrow> v)"

definition low16 :: "go_int \<Rightarrow> go_int" where
  "low16 count = and count 0xFFFF"

definition high16 :: "go_int \<Rightarrow> go_int" where
  "high16 count = and (signed_drop_bit 16 count) 0xFFFF"

definition pack16 :: "go_int \<Rightarrow> go_int \<Rightarrow> go_int" where
  "pack16 c2 c1 = or (push_bit 16 c2) c1"

definition send_ch :: "message \<Rightarrow> channel \<Rightarrow> channel" where
  "send_ch msg ch = ch\<lparr>ch_wt := ch_wt ch @ [msg]\<rparr>"

section \<open>Users\<close>

text \<open>Returns the two counts before the addition.\<close>

definition AddSubscribe :: "int64 \<Rightarrow> int64 \<Rightarrow> bool \<Rightarrow> channel \<Rightarrow> (go_int \<times> go_int) \<times> channel" where
  "AddSubscribe appid uid online ch =
     (let subscriber = (case subscribers ch appid of Some s \<Rightarrow> s | None \<Rightarrow> NewSubscriber);
          count = go_lookup (sb_uids subscriber) uid;
          c1 = low16 count; c2 = high16 count;
          c2 = (if online then c2 + 1 else c2); c1 = c1 + 1;
          subscriber = subscriber\<lparr>sb_uids := (sb_uids subscriber)(uid \<mapsto> pack16 c2 c1)\<rparr>
      in ((low16 count, high16 count), ch\<lparr>subscribers := (subscribers ch)(appid \<mapsto> subscriber)\<rparr>))"

text \<open>Returns the two counts before the removal.\<close>

definition RemoveSubscribe :: "int64 \<Rightarrow> int64 \<Rightarrow> bool \<Rightarrow> channel \<Rightarrow> (go_int \<times> go_int) \<times> channel" where
  "RemoveSubscribe appid uid online ch =
     (case subscribers ch appid of
        None \<Rightarrow> ((0, 0), ch)
      | Some subscriber \<Rightarrow>
          let count = go_lookup (sb_uids subscriber) uid; c1 = low16 count; c2 = high16 count
          in ((low16 count, high16 count),
              if sb_uids subscriber uid = None then ch
              else
                let c2 = (if online then c2 - 1 else c2); c1 = c1 - 1;
                    subscriber = subscriber\<lparr>sb_uids :=
                      (if sint c1 > 0 then (sb_uids subscriber)(uid \<mapsto> pack16 c2 c1)
                       else (sb_uids subscriber)(uid := None))\<rparr>
                in ch\<lparr>subscribers := (subscribers ch)(appid \<mapsto> subscriber)\<rparr>))"

text \<open>The copy holds no rooms.\<close>

definition GetAllSubscriber :: "channel \<Rightarrow> (int64 \<rightharpoonup> subscriber)" where
  "GetAllSubscriber ch =
     (\<lambda>appid. map_option (\<lambda>s. NewSubscriber\<lparr>sb_uids := sb_uids s\<rparr>) (subscribers ch appid))"

definition subscribe_msg :: "int64 \<Rightarrow> int64 \<Rightarrow> bool \<Rightarrow> message" where
  "subscribe_msg appid uid on =
     Message MSG_SUBSCRIBE 0 0 0
       (Some (BSubscribe \<lparr>sub_Appid = appid, sub_Uid = uid, sub_Online = (if on then 1 else 0)\<rparr>)) None"

definition unsubscribe_msg :: "int64 \<Rightarrow> int64 \<Rightarrow> message" where
  "unsubscribe_msg appid uid =
     Message MSG_UNSUBSCRIBE 0 0 0 (Some (BAppUserID \<lparr>au_Appid = appid, au_Uid = uid\<rparr>)) None"

text \<open>
  The counters are changed under the mutex, the message is queued after it is released: the two halves
  are steps of their own, which other goroutines can come between.
\<close>

definition subscribe_send :: "int64 \<Rightarrow> int64 \<Rightarrow> bool \<Rightarrow> go_int \<times> go_int \<Rightarrow> channel \<Rightarrow> channel" where
  "subscribe_send appid uid online counts ch =
     (let (count, online_count) = counts
      in if count = 0 then send_ch (subscribe_msg appid uid online) ch
         else if online_count = 0 \<and> online then send_ch (subscribe_msg appid uid True) ch
         else ch)"

definition Subscribe :: "int64 \<Rightarrow> int64 \<Rightarrow> bool \<Rightarrow> channel \<Rightarrow> channel" where
  "Subscribe appid uid online ch =
     (let (counts, ch) = AddSubscribe appid uid online ch in subscribe_send appid uid online counts ch)"

definition unsubscribe_send :: "int64 \<Rightarrow> int64 \<Rightarrow> bool \<Rightarrow> go_int \<times> go_int \<Rightarrow> channel \<Rightarrow> channel" where
  "unsubscribe_send appid uid online counts ch =
     (let (count, online_count) = counts
      in if count = 1 then send_ch (unsubscribe_msg appid uid) ch
         else if sint count > 1 \<and> online_count = 1 \<and> online
         then send_ch (subscribe_msg appid uid False) ch
         else ch)"

definition Unsubscribe :: "int64 \<Rightarrow> int64 \<Rightarrow> bool \<Rightarrow> channel \<Rightarrow> channel" where
  "Unsubscribe appid uid online ch =
     (let (counts, ch) = RemoveSubscribe appid uid online ch in unsubscribe_send appid uid online counts ch)"

section \<open>Rooms\<close>

definition AddSubscribeRoom :: "int64 \<Rightarrow> int64 \<Rightarrow> channel \<Rightarrow> go_int \<times> channel" where
  "AddSubscribeRoom appid room_id ch =
     (let subscriber = (case subscribers ch appid of Some s \<Rightarrow> s | None \<Rightarrow> NewSubscriber);
          count = go_lookup (sb_room_ids subscriber) room_id;
          subscriber = subscriber\<lparr>sb_room_ids := (sb_room_ids subscriber)(room_id \<mapsto> count + 1)\<rparr>
      in (count, ch\<lparr>subscribers := (subscribers ch)(appid \<mapsto> subscriber)\<rparr>))"

definition RemoveSubscribeRoom :: "int64 \<Rightarrow> int64 \<Rightarrow> channel \<Rightarrow> go_int \<times> channel" where
  "RemoveSubscribeRoom appid room_id ch =
     (case subscribers ch appid of
        None \<Rightarrow> (0, ch)
      | Some subscriber \<Rightarrow>
          let count = go_lookup (sb_room_ids subscriber) room_id
          in (count,
              if sb_room_ids subscriber room_id = None then ch
              else
                let subscriber = subscriber\<lparr>sb_room_ids :=
                      (if sint count > 1 then (sb_room_ids subscriber)(room_id \<mapsto> count - 1)
                       else (sb_room_ids subscriber)(room_id := None))\<rparr>
                in ch\<lparr>subscribers := (subscribers ch)(appid \<mapsto> subscriber)\<rparr>))"

definition subscribe_room_msg :: "int64 \<Rightarrow> int64 \<Rightarrow> message" where
  "subscribe_room_msg appid room_id =
     Message MSG_SUBSCRIBE_ROOM 0 0 0 (Some (BAppRoomID \<lparr>ar_Appid = appid, ar_RoomId = room_id\<rparr>)) None"

definition unsubscribe_room_msg :: "int64 \<Rightarrow> int64 \<Rightarrow> message" where
  "unsubscribe_room_msg appid room_id =
     Message MSG_UNSUBSCRIBE_ROOM 0 0 0 (Some (BAppRoomID \<lparr>ar_Appid = appid, ar_RoomId = room_id\<rparr>)) None"

definition SubscribeRoom :: "int64 \<Rightarrow> int64 \<Rightarrow> channel \<Rightarrow> channel" where
  "SubscribeRoom appid room_id ch =
     (let (count, ch) = AddSubscribeRoom appid room_id ch
      in if count = 0 then send_ch (subscribe_room_msg appid room_id) ch else ch)"

definition UnsubscribeRoom :: "int64 \<Rightarrow> int64 \<Rightarrow> channel \<Rightarrow> channel" where
  "UnsubscribeRoom appid room_id ch =
     (let (count, ch) = RemoveSubscribeRoom appid room_id ch
      in if count = 1 then send_ch (unsubscribe_room_msg appid room_id) ch else ch)"

section \<open>Publishing\<close>

definition Publish :: "body \<Rightarrow> channel \<Rightarrow> channel" where
  "Publish amsg = send_ch (Message MSG_PUBLISH 0 0 0 (Some amsg) None)"

definition PublishGroup :: "body \<Rightarrow> channel \<Rightarrow> channel" where
  "PublishGroup amsg = send_ch (Message MSG_PUBLISH_GROUP 0 0 0 (Some amsg) None)"

definition PublishRoom :: "body \<Rightarrow> channel \<Rightarrow> channel" where
  "PublishRoom amsg = send_ch (Message MSG_PUBLISH_ROOM 0 0 0 (Some amsg) None)"

definition ch_Push :: "int64 \<Rightarrow> int64 list \<Rightarrow> message \<Rightarrow> channel \<Rightarrow> channel" where
  "ch_Push appid receivers msg =
     send_ch (Message MSG_PUSH 0 0 0 (Some (BBatchPush appid receivers (Some msg))) None)"

section \<open>A connection to the route server\<close>

text \<open>
  \<open>RunOnce\<close> first sends the users, then the rooms, then what is queued, numbered from 1. \<open>users\<close> and
  \<open>rooms\<close> are the subscriptions in the order in which \<open>range\<close> visits the maps
  (\<open>users_of\<close>, \<open>rooms_of\<close>).
\<close>

definition users_of :: "channel \<Rightarrow> (int64 \<times> int64 \<times> go_int) list \<Rightarrow> bool" where
  "users_of ch users \<longleftrightarrow> distinct (map (\<lambda>(appid, uid, count). (appid, uid)) users)
     \<and> (\<forall>appid uid count. (appid, uid, count) \<in> set users \<longleftrightarrow>
          (\<exists>s. GetAllSubscriber ch appid = Some s \<and> sb_uids s uid = Some count))"

definition GetAllRoomSubscriber :: "channel \<Rightarrow> (int64 \<times> int64) list \<Rightarrow> bool" where
  "GetAllRoomSubscriber ch rooms \<longleftrightarrow> distinct rooms
     \<and> (\<forall>appid room_id. (appid, room_id) \<in> set rooms \<longleftrightarrow>
          (\<exists>s. subscribers ch appid = Some s \<and> sb_room_ids s room_id \<noteq> None))"

fun send_seq :: "go_int \<Rightarrow> message list \<Rightarrow> bytes" where
  "send_seq seq [] = []"
| "send_seq seq (m # ms) =
     WriteMessage (Message (Cmd m) (seq + 1) (Version m) (Flag m) (Body m) (Meta m))
     @ send_seq (seq + 1) ms"

definition ReSubscribe :: "(int64 \<times> int64 \<times> go_int) list \<Rightarrow> message list" where
  "ReSubscribe users =
     map (\<lambda>(appid, uid, count). let c2 = high16 count in subscribe_msg appid uid (sint c2 > 0)) users"

definition ReSubscribeRoom :: "(int64 \<times> int64) list \<Rightarrow> message list" where
  "ReSubscribeRoom rooms = map (\<lambda>(appid, room_id). subscribe_room_msg appid room_id) rooms"

text \<open>The bytes of a connection on which the channel writes \<open>queued\<close> after it has subscribed again.\<close>

definition RunOnce_sent ::
  "(int64 \<times> int64 \<times> go_int) list \<Rightarrow> (int64 \<times> int64) list \<Rightarrow> message list \<Rightarrow> bytes"
where
  "RunOnce_sent users rooms queued = send_seq 0 (ReSubscribe users @ ReSubscribeRoom rooms @ queued)"

text \<open>
  The reading side of \<open>RunOnce\<close>: the function that a message is given to. A connection error, or a
  frame that is refused, ends it.
\<close>

datatype dispatch = Dispatch body | Dispatch_room body | Dispatch_group body

definition channel_receive :: "message \<Rightarrow> dispatch list go" where
  "channel_receive msg =
     (if Cmd msg = MSG_PUBLISH then
        (case Body msg of Some (BApp a r i p d t m) \<Rightarrow> Ret [Dispatch (BApp a r i p d t m)] | _ \<Rightarrow> Panic)
      else if Cmd msg = MSG_PUBLISH_ROOM then
        (case Body msg of Some (BApp a r i p d t m) \<Rightarrow> Ret [Dispatch_room (BApp a r i p d t m)] | _ \<Rightarrow> Panic)
      else if Cmd msg = MSG_PUBLISH_GROUP then
        (case Body msg of Some (BApp a r i p d t m) \<Rightarrow> Ret [Dispatch_group (BApp a r i p d t m)] | _ \<Rightarrow> Panic)
      else Ret [])"

end
