(* ===== verification/ChannelCount.thy ===== *)
theory ChannelCount
  imports Channel "HOL-Library.Multiset"
begin

text \<open>
  What a channel counts: the invariant that relates its packed counts to the multiset of the live
  connections, and the messages it queues when a connection or a room member comes or goes.
\<close>

section \<open>Packed counts\<close>

definition packed :: "nat \<Rightarrow> nat \<Rightarrow> go_int" where
  "packed t n = word_of_nat (n * 65536 + t)"

lemma sint_eqD: "sint v = sint w \<Longrightarrow> v = (w :: 'a::len word)"
  using signed_word_eqI [where 'a = int] by blast

lemma and_0xFFFF: "and (word_of_nat n :: go_int) 0xFFFF = word_of_nat (n mod 65536)"
proof -
  have "and (word_of_nat n :: go_int) 0xFFFF = take_bit 16 (word_of_nat n)"
    by (simp add: take_bit_eq_mask mask_eq_exp_minus_1)
  also have "\<dots> = word_of_nat (take_bit 16 n)" by (simp add: take_bit_of_nat)
  finally show ?thesis by (simp add: take_bit_eq_mod)
qed

lemma low16_packed [simp]: "t < 65536 \<Longrightarrow> low16 (packed t n) = word_of_nat t"
  using and_0xFFFF [of "n * 65536 + t"] unfolding low16_def packed_def
  by (simp only: mod_mult_self3 mod_less)

lemma high16_packed [simp]:
  assumes "t < 65536" "n < 65536"
  shows "high16 (packed t n) = word_of_nat n"
proof -
  have "n * 65536 + t < 2 ^ 63" using assms by simp
  then have "sint (signed_drop_bit 16 (packed t n)) = int n"
    using assms sint_small [where 'a = 64, of "n * 65536 + t"]
    by (simp add: sint_signed_drop_bit_eq packed_def drop_bit_eq_div)
  moreover have "sint (word_of_nat n :: go_int) = int n"
    using assms sint_small [where 'a = 64, of n] by simp
  ultimately have "signed_drop_bit 16 (packed t n) = word_of_nat n" by (intro sint_eqD) simp
  then show ?thesis using assms and_0xFFFF [of n] by (simp add: high16_def)
qed

lemma pack16_packed [simp]:
  assumes "t < 65536"
  shows "pack16 (word_of_nat n) (word_of_nat t) = packed t n"
proof -
  have "(word_of_nat t :: go_int) = take_bit 16 (word_of_nat t)"
    using assms by (simp add: take_bit_of_nat take_bit_nat_eq_self)
  moreover have "and (push_bit 16 (word_of_nat n :: go_int)) (take_bit 16 w) = 0" for w
    by (rule bit_eqI) (auto simp: bit_and_iff bit_push_bit_iff bit_take_bit_iff)
  ultimately have "and (push_bit 16 (word_of_nat n :: go_int)) (word_of_nat t) = 0" by metis
  then have "pack16 (word_of_nat n) (word_of_nat t) = push_bit 16 (word_of_nat n) + word_of_nat t"
    by (simp add: pack16_def disjunctive_add_eq_or)
  then show ?thesis by (simp add: packed_def push_bit_eq_mult)
qed

lemma sint_nat64: "n < 2 ^ 63 \<Longrightarrow> sint (word_of_nat n :: go_int) = int n"
  using sint_small [where 'a = 64, of n] by simp

lemma word_small_eq:
  assumes "a < 2 ^ 63" "b < 2 ^ 63"
  shows "(word_of_nat a :: go_int) = word_of_nat b \<longleftrightarrow> a = b"
proof
  assume "(word_of_nat a :: go_int) = word_of_nat b"
  then have "int a = int b" by (simp only: sint_nat64 [OF assms(1), symmetric] sint_nat64 [OF assms(2), symmetric])
  then show "a = b" by (rule int_int_eq [THEN iffD1])
qed simp

section \<open>Connections and counts\<close>

text \<open>
  \<open>U\<close> is the multiset of the live connections of users (application, user, whether it is online),
  \<open>R\<close> the one of the memberships in rooms.
\<close>

type_synonym conns = "(int64 \<times> int64 \<times> bool) multiset"
type_synonym rooms = "(int64 \<times> int64) multiset"

definition n_online :: "conns \<Rightarrow> int64 \<Rightarrow> int64 \<Rightarrow> nat" where
  "n_online U a u = count U (a, u, True)"

definition n_conns :: "conns \<Rightarrow> int64 \<Rightarrow> int64 \<Rightarrow> nat" where
  "n_conns U a u = count U (a, u, True) + count U (a, u, False)"

definition uid_count :: "channel \<Rightarrow> int64 \<Rightarrow> int64 \<Rightarrow> go_int option" where
  "uid_count ch a u = (case subscribers ch a of None \<Rightarrow> None | Some s \<Rightarrow> sb_uids s u)"

definition room_count :: "channel \<Rightarrow> int64 \<Rightarrow> int64 \<Rightarrow> go_int option" where
  "room_count ch a r = (case subscribers ch a of None \<Rightarrow> None | Some s \<Rightarrow> sb_room_ids s r)"

definition channel_ok :: "conns \<Rightarrow> rooms \<Rightarrow> channel \<Rightarrow> bool" where
  "channel_ok U R ch \<longleftrightarrow>
     (\<forall>a u. n_conns U a u < 65536 \<and> uid_count ch a u =
        (if n_conns U a u = 0 then None else Some (packed (n_conns U a u) (n_online U a u))))
     \<and> (\<forall>a r. count R (a, r) < 2 ^ 63 \<and> room_count ch a r =
        (if count R (a, r) = 0 then None else Some (word_of_nat (count R (a, r)))))"

lemma n_online_le: "n_online U a u \<le> n_conns U a u"
  by (simp add: n_online_def n_conns_def)

lemma n_conns_add [simp]:
  "n_conns (add_mset (a, u, on) U) a' u' = n_conns U a' u' + (if a' = a \<and> u' = u then 1 else 0)"
  by (cases on) (auto simp: n_conns_def)

lemma n_online_add [simp]:
  "n_online (add_mset (a, u, on) U) a' u' = n_online U a' u' + (if a' = a \<and> u' = u \<and> on then 1 else 0)"
  by (auto simp: n_online_def)

lemma send_ch_simps [simp]:
  "ch_wt (send_ch m ch) = ch_wt ch @ [m]" "uid_count (send_ch m ch) = uid_count ch"
  "room_count (send_ch m ch) = room_count ch"
  by (auto simp: send_ch_def uid_count_def room_count_def fun_eq_iff)

definition count_of :: "go_int option \<Rightarrow> go_int" where
  "count_of c = (case c of None \<Rightarrow> 0 | Some v \<Rightarrow> v)"

lemma count_of_simps [simp]: "count_of None = 0" "count_of (Some v) = v"
  by (simp_all add: count_of_def)

lemma AddSubscribe_eq:
  "\<exists>ch'. AddSubscribe a u on ch =
      ((low16 (count_of (uid_count ch a u)), high16 (count_of (uid_count ch a u))), ch')
     \<and> ch_wt ch' = ch_wt ch \<and> room_count ch' = room_count ch
     \<and> (\<forall>a' u'. uid_count ch' a' u' =
          (if a' = a \<and> u' = u
           then Some (pack16 (high16 (count_of (uid_count ch a u)) + (if on then 1 else 0))
                       (low16 (count_of (uid_count ch a u)) + 1))
           else uid_count ch a' u'))"
  by (auto simp: AddSubscribe_def Let_def uid_count_def room_count_def go_lookup_def NewSubscriber_def
      fun_eq_iff split: option.splits)

lemma RemoveSubscribe_eq:
  "\<exists>ch'. RemoveSubscribe a u on ch =
      ((low16 (count_of (uid_count ch a u)), high16 (count_of (uid_count ch a u))), ch')
     \<and> ch_wt ch' = ch_wt ch \<and> room_count ch' = room_count ch
     \<and> (\<forall>a' u'. uid_count ch' a' u' =
          (if a' = a \<and> u' = u then
             (case uid_count ch a u of None \<Rightarrow> None
              | Some c \<Rightarrow> if sint (low16 c - 1) > 0
                  then Some (pack16 (high16 c - (if on then 1 else 0)) (low16 c - 1)) else None)
           else uid_count ch a' u'))"
  by (auto simp: RemoveSubscribe_def Let_def uid_count_def room_count_def go_lookup_def
      fun_eq_iff low16_def high16_def split: option.splits)

lemma AddSubscribeRoom_eq:
  "\<exists>ch'. AddSubscribeRoom a r ch = (count_of (room_count ch a r), ch')
     \<and> ch_wt ch' = ch_wt ch \<and> uid_count ch' = uid_count ch
     \<and> (\<forall>a' r'. room_count ch' a' r' =
          (if a' = a \<and> r' = r then Some (count_of (room_count ch a r) + 1) else room_count ch a' r'))"
  by (auto simp: AddSubscribeRoom_def Let_def uid_count_def room_count_def go_lookup_def NewSubscriber_def
      fun_eq_iff split: option.splits)

lemma RemoveSubscribeRoom_eq:
  "\<exists>ch'. RemoveSubscribeRoom a r ch = (count_of (room_count ch a r), ch')
     \<and> ch_wt ch' = ch_wt ch \<and> uid_count ch' = uid_count ch
     \<and> (\<forall>a' r'. room_count ch' a' r' =
          (if a' = a \<and> r' = r then
             (case room_count ch a r of None \<Rightarrow> None
              | Some c \<Rightarrow> if sint c > 1 then Some (c - 1) else None)
           else room_count ch a' r'))"
  by (auto simp: RemoveSubscribeRoom_def Let_def uid_count_def room_count_def go_lookup_def
      fun_eq_iff split: option.splits)

section \<open>The table of the route server\<close>

text \<open>
  What the route server knows of an im server: the users with a connection and whether one of them is
  online, and the rooms with a member. \<open>update_of\<close> is the entry that a message sets.
\<close>

datatype key = User int64 int64 | Room int64 int64

type_synonym table = "key \<rightharpoonup> bool"

definition table_of :: "conns \<Rightarrow> rooms \<Rightarrow> table" where
  "table_of U R k =
     (case k of
        User a u \<Rightarrow> if n_conns U a u = 0 then None else Some (0 < n_online U a u)
      | Room a r \<Rightarrow> if (a, r) \<in># R then Some True else None)"

definition update_of :: "message \<Rightarrow> (key \<times> bool option) option" where
  "update_of m =
     (case Body m of
        Some (BSubscribe i) \<Rightarrow>
          if Cmd m = MSG_SUBSCRIBE then Some (User (sub_Appid i) (sub_Uid i), Some (sub_Online i \<noteq> 0)) else None
      | Some (BAppUserID i) \<Rightarrow>
          if Cmd m = MSG_UNSUBSCRIBE then Some (User (au_Appid i) (au_Uid i), None) else None
      | Some (BAppRoomID i) \<Rightarrow>
          if Cmd m = MSG_SUBSCRIBE_ROOM then Some (Room (ar_Appid i) (ar_RoomId i), Some True)
          else if Cmd m = MSG_UNSUBSCRIBE_ROOM then Some (Room (ar_Appid i) (ar_RoomId i), None)
          else None
      | _ \<Rightarrow> None)"

definition apply_update :: "table \<Rightarrow> message \<Rightarrow> table" where
  "apply_update T m = (case update_of m of None \<Rightarrow> T | Some (k, v) \<Rightarrow> T(k := v))"

lemma apply_update_msgs [simp]:
  "apply_update T (subscribe_msg a u on) = T(User a u \<mapsto> on)"
  "apply_update T (unsubscribe_msg a u) = T(User a u := None)"
  "apply_update T (subscribe_room_msg a r) = T(Room a r \<mapsto> True)"
  "apply_update T (unsubscribe_room_msg a r) = T(Room a r := None)"
  by (simp_all add: apply_update_def update_of_def subscribe_msg_def unsubscribe_msg_def
      subscribe_room_msg_def unsubscribe_room_msg_def)

section \<open>Operations\<close>

lemma channel_ok_count:
  assumes "channel_ok U R ch"
  shows "count_of (uid_count ch a u) = packed (n_conns U a u) (n_online U a u)"
    "count_of (room_count ch a r) = word_of_nat (count R (a, r))"
    "n_conns U a u < 65536" "n_online U a u < 65536" "count R (a, r) < 2 ^ 63"
proof -
  show n: "n_conns U a u < 65536" and "count R (a, r) < 2 ^ 63"
    using assms by (auto simp: channel_ok_def)
  show "n_online U a u < 65536" by (rule le_less_trans [OF n_online_le n])
  show "count_of (uid_count ch a u) = packed (n_conns U a u) (n_online U a u)"
    using assms n_online_le [of U a u] by (auto simp: channel_ok_def packed_def)
  show "count_of (room_count ch a r) = word_of_nat (count R (a, r))"
    using assms by (auto simp: channel_ok_def)
qed

lemma packed_succ:
  assumes "t < 65535"
  shows "pack16 (word_of_nat n + (if on then 1 else 0)) (word_of_nat t + 1) =
    packed (t + 1) (n + (if on then 1 else 0))"
  using assms pack16_packed [of "t + 1" "n + (if on then 1 else 0)"] by (cases on) (simp_all add: add.commute)

lemma packed_pred:
  assumes "0 < t" "t < 65536" "on \<Longrightarrow> 0 < n"
  shows "pack16 (word_of_nat n - (if on then 1 else 0)) (word_of_nat t - 1) =
    packed (t - 1) (n - (if on then 1 else 0))"
  using assms pack16_packed [of "t - 1" "n - (if on then 1 else 0)"] by (cases on) (simp_all add: of_nat_diff)

definition is_update :: "message \<Rightarrow> bool" where
  "is_update m \<longleftrightarrow> (\<exists>a u on. m = subscribe_msg a u on) \<or> (\<exists>a u. m = unsubscribe_msg a u)
     \<or> (\<exists>a r. m = subscribe_room_msg a r) \<or> (\<exists>a r. m = unsubscribe_room_msg a r)"

lemma is_update_msgs [simp]:
  "is_update (subscribe_msg a u on)" "is_update (unsubscribe_msg a u)"
  "is_update (subscribe_room_msg a r)" "is_update (unsubscribe_room_msg a r)"
  unfolding is_update_def by blast+

text \<open>What an operation does: it keeps the invariant and queues what makes the table right.\<close>

definition channel_moves :: "conns \<Rightarrow> rooms \<Rightarrow> channel \<Rightarrow> conns \<Rightarrow> rooms \<Rightarrow> channel \<Rightarrow> bool" where
  "channel_moves U R ch U' R' ch' \<longleftrightarrow> channel_ok U' R' ch' \<and>
     (\<exists>ms. ch_wt ch' = ch_wt ch @ ms \<and> (\<forall>m \<in> set ms. is_update m)
        \<and> foldl apply_update (table_of U R) ms = table_of U' R')"

lemma AddSubscribe_ok:
  assumes ok: "channel_ok U R ch" and n: "n_conns U a u < 65535"
  shows "\<exists>ch'. AddSubscribe a u on ch =
      ((word_of_nat (n_conns U a u), word_of_nat (n_online U a u)), ch')
    \<and> ch_wt ch' = ch_wt ch \<and> channel_ok (add_mset (a, u, on) U) R ch'"
proof -
  note c = channel_ok_count [OF ok, of a u]
  obtain ch' where ch': "AddSubscribe a u on ch =
      ((word_of_nat (n_conns U a u), word_of_nat (n_online U a u)), ch')"
    "ch_wt ch' = ch_wt ch" "room_count ch' = room_count ch"
    "\<And>a' u'. uid_count ch' a' u' = (if a' = a \<and> u' = u
       then Some (packed (n_conns U a u + 1) (n_online U a u + (if on then 1 else 0)))
       else uid_count ch a' u')"
    using AddSubscribe_eq [of a u on ch] c n by (auto simp: packed_succ)
  have "channel_ok (add_mset (a, u, on) U) R ch'"
    using ok n ch' by (auto simp: channel_ok_def)
  with ch'(1,2) show ?thesis by blast
qed

lemma Subscribe_moves:
  assumes ok: "channel_ok U R ch" and n: "n_conns U a u < 65535"
  shows "channel_moves U R ch (add_mset (a, u, on) U) R (Subscribe a u on ch)"
proof -
  note c = channel_ok_count [OF ok, of a u]
  obtain ch' where ch': "AddSubscribe a u on ch =
      ((word_of_nat (n_conns U a u), word_of_nat (n_online U a u)), ch')"
    "ch_wt ch' = ch_wt ch" and ok': "channel_ok (add_mset (a, u, on) U) R ch'"
    using AddSubscribe_ok [OF assms] by blast
  have words: "(word_of_nat (n_conns U a u) :: go_int) = 0 \<longleftrightarrow> n_conns U a u = 0"
    "(word_of_nat (n_online U a u) :: go_int) = 0 \<longleftrightarrow> n_online U a u = 0"
    using word_small_eq [of "n_conns U a u" 0] word_small_eq [of "n_online U a u" 0] c by simp_all
  have eq: "Subscribe a u on ch =
      (if n_conns U a u = 0 then send_ch (subscribe_msg a u on) ch'
       else if n_online U a u = 0 \<and> on then send_ch (subscribe_msg a u True) ch' else ch')"
    by (simp add: Subscribe_def subscribe_send_def ch'(1) words)
  have "channel_ok (add_mset (a, u, on) U) R (Subscribe a u on ch)"
    using ok' by (simp add: eq channel_ok_def)
  moreover have "\<exists>ms. ch_wt (Subscribe a u on ch) = ch_wt ch @ ms
     \<and> (\<forall>m \<in> set ms. is_update m) \<and> foldl apply_update (table_of U R) ms = table_of (add_mset (a, u, on) U) R"
    unfolding eq using n_online_le [of U a u] ch'(2)
    by (intro exI [of _ "if n_conns U a u = 0 then [subscribe_msg a u on]
        else if n_online U a u = 0 \<and> on then [subscribe_msg a u True] else []"])
      (auto simp: table_of_def fun_eq_iff split: key.split)
  ultimately show ?thesis by (simp add: channel_moves_def)
qed

lemma RemoveSubscribe_ok:
  assumes ok: "channel_ok (add_mset (a, u, on) U) R ch"
  shows "\<exists>ch'. RemoveSubscribe a u on ch =
      ((word_of_nat (Suc (n_conns U a u)), word_of_nat (n_online U a u + (if on then 1 else 0))), ch')
    \<and> ch_wt ch' = ch_wt ch \<and> channel_ok U R ch'"
proof -
  define n k where "n = n_conns U a u" and "k = n_online U a u"
  note c = channel_ok_count [OF ok, of a u, simplified, folded n_def k_def]
  have uc: "uid_count ch a u = Some (packed (Suc n) (k + (if on then 1 else 0)))"
    using ok by (auto simp: channel_ok_def n_def k_def)
  have kn: "k \<le> n" by (simp add: n_def k_def n_online_le)
  have pos: "sint (word_of_nat (Suc n) - 1 :: go_int) > 0 \<longleftrightarrow> 0 < n"
    using c sint_nat64 [of n] by simp
  obtain ch' where ch': "RemoveSubscribe a u on ch =
      ((word_of_nat (Suc n), word_of_nat (k + (if on then 1 else 0))), ch')"
    "ch_wt ch' = ch_wt ch" "room_count ch' = room_count ch"
    "\<And>a' u'. uid_count ch' a' u' = (if a' = a \<and> u' = u
       then (if 0 < n then Some (packed n k) else None) else uid_count ch a' u')"
    using RemoveSubscribe_eq [of a u on ch] c uc pos kn
      packed_pred [of "Suc n" on "k + (if on then 1 else 0)"] by auto
  have "channel_ok U R ch'"
  proof -
    have "n_conns U a' u' < 65536 \<and> uid_count ch' a' u' =
        (if n_conns U a' u' = 0 then None else Some (packed (n_conns U a' u') (n_online U a' u')))" for a' u'
      using ok [unfolded channel_ok_def, THEN conjunct1, rule_format, of a' u'] ch'(4) [of a' u']
      by (cases "a' = a \<and> u' = u") (auto simp: n_def k_def)
    moreover have "count R (a', r) < 2 ^ 63 \<and> room_count ch' a' r =
        (if count R (a', r) = 0 then None else Some (word_of_nat (count R (a', r))))" for a' r
      using ok [unfolded channel_ok_def, THEN conjunct2, rule_format, of a' r] by (simp add: ch'(3))
    ultimately show ?thesis by (simp add: channel_ok_def)
  qed
  with ch'(1,2) show ?thesis by (auto simp: n_def k_def)
qed

lemma Unsubscribe_moves:
  assumes ok: "channel_ok (add_mset (a, u, on) U) R ch"
  shows "channel_moves (add_mset (a, u, on) U) R ch U R (Unsubscribe a u on ch)"
proof -
  define n k where "n = n_conns U a u" and "k = n_online U a u"
  note c = channel_ok_count [OF ok, of a u, simplified, folded n_def k_def]
  have kn: "k \<le> n" by (simp add: n_def k_def n_online_le)
  obtain ch' where ch': "RemoveSubscribe a u on ch =
      ((word_of_nat (Suc n), word_of_nat (k + (if on then 1 else 0))), ch')"
    "ch_wt ch' = ch_wt ch" and ok': "channel_ok U R ch'"
    using RemoveSubscribe_ok [OF ok] unfolding n_def k_def by blast
  have words: "(word_of_nat (Suc n) :: go_int) = 1 \<longleftrightarrow> n = 0"
    "(word_of_nat (k + (if on then 1 else 0)) :: go_int) = 1 \<longleftrightarrow> k + (if on then 1 else 0) = 1"
    "sint (word_of_nat (Suc n) :: go_int) > 1 \<longleftrightarrow> 0 < n"
    using word_small_eq [of "Suc n" 1] word_small_eq [of "k + (if on then 1 else 0)" 1]
      sint_nat64 [of "Suc n"] c by simp_all
  have eq: "Unsubscribe a u on ch =
      (if n = 0 then send_ch (unsubscribe_msg a u) ch'
       else if k = 0 \<and> on then send_ch (subscribe_msg a u False) ch' else ch')"
    by (simp add: Unsubscribe_def unsubscribe_send_def ch'(1) words del: of_nat_Suc of_nat_add)
  have "channel_ok U R (Unsubscribe a u on ch)"
    using ok' by (simp add: eq channel_ok_def)
  moreover have "\<exists>ms. ch_wt (Unsubscribe a u on ch) = ch_wt ch @ ms
     \<and> (\<forall>m \<in> set ms. is_update m) \<and> foldl apply_update (table_of (add_mset (a, u, on) U) R) ms = table_of U R"
    unfolding eq using ch'(2) kn
    by (intro exI [of _ "if n = 0 then [unsubscribe_msg a u]
        else if k = 0 \<and> on then [subscribe_msg a u False] else []"])
      (auto simp: table_of_def fun_eq_iff n_def k_def split: key.split)
  ultimately show ?thesis by (simp add: channel_moves_def)
qed

lemma SubscribeRoom_moves:
  assumes ok: "channel_ok U R ch" and n: "count R (a, r) < 2 ^ 63 - 1"
  shows "channel_moves U R ch U (add_mset (a, r) R) (SubscribeRoom a r ch)"
proof -
  note c = channel_ok_count(2,5) [OF ok, of a r]
  obtain ch' where ch': "AddSubscribeRoom a r ch = (word_of_nat (count R (a, r)), ch')"
    "ch_wt ch' = ch_wt ch" "uid_count ch' = uid_count ch"
    "\<And>a' r'. room_count ch' a' r' = (if a' = a \<and> r' = r
       then Some (word_of_nat (Suc (count R (a, r)))) else room_count ch a' r')"
    using AddSubscribeRoom_eq [of a r ch] c by (auto simp: add.commute)
  have ok': "channel_ok U (add_mset (a, r) R) ch'"
    using ok n ch' by (auto simp: channel_ok_def count_eq_zero_iff)
  have word: "(word_of_nat (count R (a, r)) :: go_int) = 0 \<longleftrightarrow> count R (a, r) = 0"
    using word_small_eq [of "count R (a, r)" 0] c by simp
  have eq: "SubscribeRoom a r ch =
      (if (a, r) \<in># R then ch' else send_ch (subscribe_room_msg a r) ch')"
    by (simp add: SubscribeRoom_def ch'(1) word count_eq_zero_iff)
  have "channel_ok U (add_mset (a, r) R) (SubscribeRoom a r ch)"
    using ok' by (simp add: eq channel_ok_def)
  moreover have "\<exists>ms. ch_wt (SubscribeRoom a r ch) = ch_wt ch @ ms
     \<and> (\<forall>m \<in> set ms. is_update m) \<and> foldl apply_update (table_of U R) ms = table_of U (add_mset (a, r) R)"
    unfolding eq using ch'(2)
    by (intro exI [of _ "if (a, r) \<in># R then [] else [subscribe_room_msg a r]"])
      (auto simp: table_of_def fun_eq_iff split: key.split)
  ultimately show ?thesis by (simp add: channel_moves_def)
qed

lemma UnsubscribeRoom_moves:
  assumes ok: "channel_ok U (add_mset (a, r) R) ch"
  shows "channel_moves U (add_mset (a, r) R) ch U R (UnsubscribeRoom a r ch)"
proof -
  define n where "n = count R (a, r)"
  note c = channel_ok_count(2,5) [OF ok, of a r, simplified, folded n_def]
  have rc: "room_count ch a r = Some (word_of_nat (Suc n))"
    using ok by (auto simp: channel_ok_def n_def)
  have words: "(word_of_nat (Suc n) :: go_int) = 1 \<longleftrightarrow> n = 0"
    "sint (word_of_nat (Suc n) :: go_int) > 1 \<longleftrightarrow> 0 < n"
    using word_small_eq [of "Suc n" 1] sint_nat64 [of "Suc n"] c by simp_all
  obtain ch' where ch': "RemoveSubscribeRoom a r ch = (word_of_nat (Suc n), ch')"
    "ch_wt ch' = ch_wt ch" "uid_count ch' = uid_count ch"
    "\<And>a' r'. room_count ch' a' r' = (if a' = a \<and> r' = r
       then (if 0 < n then Some (word_of_nat n) else None) else room_count ch a' r')"
    using RemoveSubscribeRoom_eq [of a r ch] rc words by auto
  have ok': "channel_ok U R ch'"
  proof -
    have "count R (a', r') < 2 ^ 63 \<and> room_count ch' a' r' =
        (if count R (a', r') = 0 then None else Some (word_of_nat (count R (a', r'))))" for a' r'
      using ok [unfolded channel_ok_def, THEN conjunct2, rule_format, of a' r'] ch'(4) [of a' r']
      by (cases "a' = a \<and> r' = r") (auto simp: n_def count_eq_zero_iff)
    moreover have "n_conns U a' u < 65536 \<and> uid_count ch' a' u =
        (if n_conns U a' u = 0 then None else Some (packed (n_conns U a' u) (n_online U a' u)))" for a' u
      using ok [unfolded channel_ok_def, THEN conjunct1, rule_format, of a' u] by (simp add: ch'(3))
    ultimately show ?thesis by (simp add: channel_ok_def)
  qed
  have eq: "UnsubscribeRoom a r ch =
      (if (a, r) \<in># R then ch' else send_ch (unsubscribe_room_msg a r) ch')"
    by (simp only: UnsubscribeRoom_def ch'(1) Let_def prod.case words(1)) (simp add: n_def count_eq_zero_iff)
  have "channel_ok U R (UnsubscribeRoom a r ch)"
    using ok' by (simp add: eq channel_ok_def)
  moreover have "\<exists>ms. ch_wt (UnsubscribeRoom a r ch) = ch_wt ch @ ms
     \<and> (\<forall>m \<in> set ms. is_update m) \<and> foldl apply_update (table_of U (add_mset (a, r) R)) ms = table_of U R"
    unfolding eq using ch'(2)
    by (intro exI [of _ "if (a, r) \<in># R then [] else [unsubscribe_room_msg a r]"])
      (auto simp: table_of_def fun_eq_iff split: key.split)
  ultimately show ?thesis by (simp add: channel_moves_def)
qed

end
