(* ===== verification/GoSets.thy ===== *)
theory GoSets
  imports Prelude
begin

text \<open>
  Go maps used as sets: \<open>IntSet\<close> of \<^verbatim>\<open>core/set.go\<close> and the two \<open>ClientSet\<close> types of
  \<^verbatim>\<open>im/client_sets.go\<close> and \<^verbatim>\<open>imr/client_sets.go\<close>, whose elements are
  pointers to clients (\<open>'c\<close>).
\<close>

section \<open>\<open>IntSet\<close>\<close>

definition NewIntSet :: "int64 set" where
  "NewIntSet = {}"

definition IntSet_Add :: "int64 \<Rightarrow> int64 set \<Rightarrow> int64 set" where
  "IntSet_Add v s = (if v \<in> s then s else insert v s)"

definition IntSet_IsMember :: "int64 \<Rightarrow> int64 set \<Rightarrow> bool" where
  "IntSet_IsMember v s = (v \<in> s)"

definition IntSet_Remove :: "int64 \<Rightarrow> int64 set \<Rightarrow> int64 set" where
  "IntSet_Remove v s = (if v \<notin> s then s else s - {v})"

definition IntSet_Clone :: "int64 set \<Rightarrow> int64 set" where
  "IntSet_Clone s = s"

lemma IntSet_simps [simp]:
  "NewIntSet = {}" "IntSet_Add v s = insert v s" "IntSet_IsMember v s \<longleftrightarrow> v \<in> s"
  "IntSet_Remove v s = s - {v}" "IntSet_Clone s = s"
  by (auto simp: NewIntSet_def IntSet_Add_def IntSet_IsMember_def IntSet_Remove_def IntSet_Clone_def)

section \<open>\<open>ClientSet\<close>\<close>

definition NewClientSet :: "'c set" where
  "NewClientSet = {}"

definition ClientSet_Add :: "'c \<Rightarrow> 'c set \<Rightarrow> 'c set" where
  "ClientSet_Add c s = insert c s"

definition ClientSet_IsMember :: "'c \<Rightarrow> 'c set \<Rightarrow> bool" where
  "ClientSet_IsMember c s = (c \<in> s)"

definition ClientSet_Remove :: "'c \<Rightarrow> 'c set \<Rightarrow> 'c set" where
  "ClientSet_Remove c s = (if c \<notin> s then s else s - {c})"

definition ClientSet_Count :: "'c set \<Rightarrow> nat" where
  "ClientSet_Count s = card s"

definition ClientSet_Clone :: "'c set \<Rightarrow> 'c set" where
  "ClientSet_Clone s = s"

lemma ClientSet_simps [simp]:
  "NewClientSet = {}" "ClientSet_Add c s = insert c s" "ClientSet_IsMember c s \<longleftrightarrow> c \<in> s"
  "ClientSet_Remove c s = s - {c}" "ClientSet_Clone s = s" "ClientSet_Count s = card s"
  by (auto simp: NewClientSet_def ClientSet_Add_def ClientSet_IsMember_def ClientSet_Remove_def
      ClientSet_Count_def ClientSet_Clone_def)

end
