(* ===== verification/RouteServer.thy ===== *)
theory RouteServer
  imports GoSets Codec
begin

text \<open>
  The route server, package \<open>imr\<close>: the table of the users and rooms of each connected im server
  (\<^verbatim>\<open>imr/route.go\<close>, \<^verbatim>\<open>imr/app_route.go\<close>), the set of connected servers
  (\<^verbatim>\<open>imr/route_server.go\<close>), the handlers of \<^verbatim>\<open>imr/client.go\<close> and the push queue
  of \<^verbatim>\<open>imr/push.go\<close>. A \<open>Client\<close> is a pointer of the type \<open>'c\<close>; every method that holds a
  mutex is one step.
\<close>

section \<open>Routes\<close>

record imr_route =
  ir_appid :: int64
  ir_uids :: "int64 \<rightharpoonup> bool"
  ir_room_ids :: "int64 set"

definition imr_NewRoute :: "int64 \<Rightarrow> imr_route" where
  "imr_NewRoute appid = \<lparr>ir_appid = appid, ir_uids = Map.empty, ir_room_ids = NewIntSet\<rparr>"

definition ContainUserID :: "int64 \<Rightarrow> imr_route \<Rightarrow> bool" where
  "ContainUserID uid r = (ir_uids r uid \<noteq> None)"

text \<open>A missing key of a Go map reads as the zero value.\<close>

definition Route_IsUserOnline :: "int64 \<Rightarrow> imr_route \<Rightarrow> bool" where
  "Route_IsUserOnline uid r = (case ir_uids r uid of Some b \<Rightarrow> b | None \<Rightarrow> False)"

definition AddUserID :: "int64 \<Rightarrow> bool \<Rightarrow> imr_route \<Rightarrow> imr_route" where
  "AddUserID uid online r = r\<lparr>ir_uids := (ir_uids r)(uid \<mapsto> online)\<rparr>"

definition RemoveUserID :: "int64 \<Rightarrow> imr_route \<Rightarrow> imr_route" where
  "RemoveUserID uid r = r\<lparr>ir_uids := (ir_uids r)(uid := None)\<rparr>"

definition imr_GetUserIDs :: "imr_route \<Rightarrow> int64 set" where
  "imr_GetUserIDs r = dom (ir_uids r)"

definition ContainRoomID :: "int64 \<Rightarrow> imr_route \<Rightarrow> bool" where
  "ContainRoomID room_id r = IntSet_IsMember room_id (ir_room_ids r)"

definition AddRoomID :: "int64 \<Rightarrow> imr_route \<Rightarrow> imr_route" where
  "AddRoomID room_id r = r\<lparr>ir_room_ids := IntSet_Add room_id (ir_room_ids r)\<rparr>"

definition RemoveRoomID :: "int64 \<Rightarrow> imr_route \<Rightarrow> imr_route" where
  "RemoveRoomID room_id r = r\<lparr>ir_room_ids := IntSet_Remove room_id (ir_room_ids r)\<rparr>"

text \<open>
  \<open>AppRoute\<close>: the routes by application. \<open>FindOrAddRoute\<close> returns a pointer, so its callers write the
  changed route back (\<open>AddRoute\<close>).
\<close>

type_synonym imr_app_route = "int64 \<rightharpoonup> imr_route"

definition imr_FindOrAddRoute :: "int64 \<Rightarrow> imr_app_route \<Rightarrow> imr_route \<times> imr_app_route" where
  "imr_FindOrAddRoute appid apps =
     (case apps appid of
        Some route \<Rightarrow> (route, apps)
      | None \<Rightarrow> (imr_NewRoute appid, apps(appid \<mapsto> imr_NewRoute appid)))"

definition imr_FindRoute :: "int64 \<Rightarrow> imr_app_route \<Rightarrow> imr_route option" where
  "imr_FindRoute appid apps = apps appid"

definition imr_AddRoute :: "imr_route \<Rightarrow> imr_app_route \<Rightarrow> imr_app_route" where
  "imr_AddRoute route apps = apps(ir_appid route \<mapsto> route)"

definition imr_GetUsers :: "imr_app_route \<Rightarrow> (int64 \<rightharpoonup> int64 set)" where
  "imr_GetUsers apps = (\<lambda>appid. map_option imr_GetUserIDs (apps appid))"

section \<open>Clients\<close>

text \<open>
  \<open>Push.content\<close> is the JSON text of an object, here the object itself (\<open>json.Marshal\<close> of it is not
  modelled).
\<close>

datatype json = JInt int | JString bytes | JInts "int list"

record push =
  queue_name :: string
  push_content :: "(string \<times> json) list"

text \<open>The channels: a \<open>nil\<close> (\<open>None\<close>) ends the loop that reads them.\<close>

record imr_client =
  ic_wt :: "message option list"
  ic_pwt :: "push option list"
  ic_app_route :: imr_app_route

definition imr_NewClient :: imr_client where
  "imr_NewClient = \<lparr>ic_wt = [], ic_pwt = [], ic_app_route = Map.empty\<rparr>"

definition ContainAppUserID :: "app_user_id \<Rightarrow> imr_client \<Rightarrow> bool" where
  "ContainAppUserID i c =
     (case imr_FindRoute (au_Appid i) (ic_app_route c) of
        None \<Rightarrow> False
      | Some route \<Rightarrow> ContainUserID (au_Uid i) route)"

definition IsAppUserOnline :: "app_user_id \<Rightarrow> imr_client \<Rightarrow> bool" where
  "IsAppUserOnline i c =
     (case imr_FindRoute (au_Appid i) (ic_app_route c) of
        None \<Rightarrow> False
      | Some route \<Rightarrow> Route_IsUserOnline (au_Uid i) route)"

definition ContainAppRoomID :: "app_room_id \<Rightarrow> imr_client \<Rightarrow> bool" where
  "ContainAppRoomID i c =
     (case imr_FindRoute (ar_Appid i) (ic_app_route c) of
        None \<Rightarrow> False
      | Some route \<Rightarrow> ContainRoomID (ar_RoomId i) route)"

text \<open>The server: the registered clients, and the object of each client.\<close>

record 'c imr =
  imr_clients :: "'c set"
  imr_object :: "'c \<Rightarrow> imr_client"

definition imr_AddClient :: "'c \<Rightarrow> 'c imr \<Rightarrow> 'c imr" where
  "imr_AddClient c st = st\<lparr>imr_clients := ClientSet_Add c (imr_clients st)\<rparr>"

definition imr_RemoveClient :: "'c \<Rightarrow> 'c imr \<Rightarrow> 'c imr" where
  "imr_RemoveClient c st = st\<lparr>imr_clients := ClientSet_Remove c (imr_clients st)\<rparr>"

definition GetClientSet :: "'c imr \<Rightarrow> 'c set" where
  "GetClientSet st = imr_clients st"

definition imr_FindClientSet :: "app_user_id \<Rightarrow> 'c imr \<Rightarrow> 'c set" where
  "imr_FindClientSet i st = Set.filter (\<lambda>c. ContainAppUserID i (imr_object st c)) (imr_clients st)"

definition imr_FindRoomClientSet :: "app_room_id \<Rightarrow> 'c imr \<Rightarrow> 'c set" where
  "imr_FindRoomClientSet i st = Set.filter (\<lambda>c. ContainAppRoomID i (imr_object st c)) (imr_clients st)"

definition IsUserOnline :: "int64 \<Rightarrow> int64 \<Rightarrow> 'c imr \<Rightarrow> bool" where
  "IsUserOnline appid uid st =
     (\<exists>c \<in> imr_clients st. IsAppUserOnline \<lparr>au_Appid = appid, au_Uid = uid\<rparr> (imr_object st c))"

definition update_client :: "'c \<Rightarrow> (imr_client \<Rightarrow> imr_client) \<Rightarrow> 'c imr \<Rightarrow> 'c imr" where
  "update_client c f st = st\<lparr>imr_object := (imr_object st)(c := f (imr_object st c))\<rparr>"

section \<open>Push\<close>

abbreviation PWT_CAPACITY :: nat where "PWT_CAPACITY \<equiv> 10000"

definition PushChan :: "string \<Rightarrow> (string \<times> json) list \<Rightarrow> imr_client \<Rightarrow> imr_client" where
  "PushChan q b c =
     (if length (ic_pwt c) < PWT_CAPACITY
      then c\<lparr>ic_pwt := ic_pwt c @ [Some \<lparr>queue_name = q, push_content = b\<rparr>]\<rparr> else c)"

text \<open>\<open>IsROMApp\<close> always returns false, which leaves one name of the queue.\<close>

definition PublishPeerMessage :: "int64 \<Rightarrow> im_message \<Rightarrow> imr_client \<Rightarrow> imr_client" where
  "PublishPeerMessage appid im c =
     PushChan ''push_queue''
       [(''appid'', JInt (sint appid)), (''sender'', JInt (sint (im_Sender im))),
        (''receiver'', JInt (sint (im_Receiver im))), (''content'', JString (im_Content im))] c"

definition imr_PublishGroupMessage :: "int64 \<Rightarrow> int64 list \<Rightarrow> im_message \<Rightarrow> imr_client \<Rightarrow> imr_client" where
  "imr_PublishGroupMessage appid receivers im c =
     PushChan ''group_push_queue''
       [(''appid'', JInt (sint appid)), (''sender'', JInt (sint (im_Sender im))),
        (''receivers'', JInts (map sint receivers)), (''content'', JString (im_Content im)),
        (''group_id'', JInt (sint (im_Receiver im)))] c"

definition PublishCustomerMessage ::
  "int64 \<Rightarrow> int64 \<Rightarrow> customer_message \<Rightarrow> go_int \<Rightarrow> imr_client \<Rightarrow> imr_client"
where
  "PublishCustomerMessage appid receiver cs cmd c =
     PushChan ''customer_push_queue''
       [(''appid'', JInt (sint appid)), (''receiver'', JInt (sint receiver)),
        (''command'', JInt (sint cmd)), (''customer_appid'', JInt (sint (cs_CustomerAppid cs))),
        (''customer'', JInt (sint (cs_CustomerId cs))), (''seller'', JInt (sint (cs_SellerId cs))),
        (''store'', JInt (sint (cs_StoreId cs))), (''content'', JString (cs_Content cs))] c"

definition PublishSystemMessage :: "int64 \<Rightarrow> int64 \<Rightarrow> bytes \<Rightarrow> imr_client \<Rightarrow> imr_client" where
  "PublishSystemMessage appid receiver notification c =
     PushChan ''system_push_queue''
       [(''appid'', JInt (sint appid)), (''receiver'', JInt (sint receiver)),
        (''content'', JString notification)] c"

text \<open>
  One round of the loop \<open>Push\<close>: it takes what the channel holds, at most 1000 records up to a
  \<open>nil\<close>, and writes them to redis in one transaction. The result is the batch, whether the loop ends
  (\<open>closed\<close>), and the rest of the channel. How many of the waiting records the loop sees before its
  timeout is the parameter \<open>seen\<close>.
\<close>

fun push_round :: "nat \<Rightarrow> nat \<Rightarrow> push option list \<Rightarrow> push list \<times> bool \<times> push option list" where
  "push_round 0 room q = ([], False, q)"
| "push_round (Suc seen) 0 q = ([], False, q)"
| "push_round (Suc seen) (Suc room) [] = ([], False, [])"
| "push_round (Suc seen) (Suc room) (None # q) = ([], True, q)"
| "push_round (Suc seen) (Suc room) (Some p # q) =
     (let (ps, closed, q') = push_round seen room q in (p # ps, closed, q'))"

definition Push_step :: "nat \<Rightarrow> push option list \<Rightarrow> push list \<times> bool \<times> push option list" where
  "Push_step seen q = push_round (Suc seen) 1000 q"

section \<open>Handlers\<close>

definition HandleSubscribe :: "'c \<Rightarrow> subscribe_message \<Rightarrow> 'c imr \<Rightarrow> 'c imr" where
  "HandleSubscribe c i = update_client c (\<lambda>cl.
     let (route, apps) = imr_FindOrAddRoute (sub_Appid i) (ic_app_route cl)
     in cl\<lparr>ic_app_route := apps(sub_Appid i \<mapsto> AddUserID (sub_Uid i) (sub_Online i \<noteq> 0) route)\<rparr>)"

definition HandleUnsubscribe :: "'c \<Rightarrow> app_user_id \<Rightarrow> 'c imr \<Rightarrow> 'c imr" where
  "HandleUnsubscribe c i = update_client c (\<lambda>cl.
     let (route, apps) = imr_FindOrAddRoute (au_Appid i) (ic_app_route cl)
     in cl\<lparr>ic_app_route := apps(au_Appid i \<mapsto> RemoveUserID (au_Uid i) route)\<rparr>)"

definition HandleSubscribeRoom :: "'c \<Rightarrow> app_room_id \<Rightarrow> 'c imr \<Rightarrow> 'c imr" where
  "HandleSubscribeRoom c i = update_client c (\<lambda>cl.
     let (route, apps) = imr_FindOrAddRoute (ar_Appid i) (ic_app_route cl)
     in cl\<lparr>ic_app_route := apps(ar_Appid i \<mapsto> AddRoomID (ar_RoomId i) route)\<rparr>)"

definition HandleUnsubscribeRoom :: "'c \<Rightarrow> app_room_id \<Rightarrow> 'c imr \<Rightarrow> 'c imr" where
  "HandleUnsubscribeRoom c i = update_client c (\<lambda>cl.
     let (route, apps) = imr_FindOrAddRoute (ar_Appid i) (ic_app_route cl)
     in cl\<lparr>ic_app_route := apps(ar_Appid i \<mapsto> RemoveRoomID (ar_RoomId i) route)\<rparr>)"

text \<open>
  The loops \<open>for c := range s\<close> that send one message to every client of the set but the sender; each
  send goes to a channel of its own, so the order does not matter.
\<close>

definition send_others :: "'c \<Rightarrow> 'c set \<Rightarrow> message \<Rightarrow> 'c imr \<Rightarrow> 'c imr" where
  "send_others client s msg st =
     st\<lparr>imr_object := (\<lambda>c. let cl = imr_object st c
          in if c \<in> s \<and> c \<noteq> client then cl\<lparr>ic_wt := ic_wt cl @ [Some msg]\<rparr> else cl)\<rparr>"

text \<open>The log lines read \<open>amsg.Msg.Cmd\<close>, so a missing message panics.\<close>

definition HandlePublish :: "'c \<Rightarrow> body \<Rightarrow> 'c imr \<Rightarrow> 'c imr go" where
  "HandlePublish c amsg st =
     (if am_Msg amsg = None then Panic
      else Ret (send_others c
        (imr_FindClientSet \<lparr>au_Appid = am_Appid amsg, au_Uid = am_Receiver amsg\<rparr> st)
        (Message MSG_PUBLISH 0 0 0 (Some amsg) None) st))"

definition HandlePublishGroup :: "'c \<Rightarrow> body \<Rightarrow> 'c imr \<Rightarrow> 'c imr go" where
  "HandlePublishGroup c amsg st =
     (if am_Msg amsg = None then Panic
      else Ret (send_others c (GetClientSet st) (Message MSG_PUBLISH_GROUP 0 0 0 (Some amsg) None) st))"

definition HandlePublishRoom :: "'c \<Rightarrow> body \<Rightarrow> 'c imr \<Rightarrow> 'c imr go" where
  "HandlePublishRoom c amsg st =
     (if am_Msg amsg = None then Panic
      else Ret (send_others c
        (imr_FindRoomClientSet \<lparr>ar_Appid = am_Appid amsg, ar_RoomId = am_Receiver amsg\<rparr> st)
        (Message MSG_PUBLISH_ROOM 0 0 0 (Some amsg) None) st))"

definition push_offline :: "bool \<Rightarrow> int64 \<Rightarrow> int64 list \<Rightarrow> message \<Rightarrow> imr_client \<Rightarrow> imr_client go" where
  "push_offline is_push_system appid off_members msg cl =
     (if off_members = [] then Ret cl
      else if Cmd msg = MSG_GROUP_IM then
        (case Body msg of
           Some (BIM im) \<Rightarrow> Ret (imr_PublishGroupMessage appid off_members im cl) | _ \<Rightarrow> Panic)
      else if Cmd msg = MSG_IM then
        (case Body msg of Some (BIM im) \<Rightarrow> Ret (PublishPeerMessage appid im cl) | _ \<Rightarrow> Panic)
      else if Cmd msg = MSG_CUSTOMER \<or> Cmd msg = MSG_CUSTOMER_SUPPORT then
        (case Body msg of
           Some (BCustomer cs) \<Rightarrow>
             Ret (PublishCustomerMessage appid (hd off_members) cs (Cmd msg) cl)
         | _ \<Rightarrow> Panic)
      else if Cmd msg = MSG_SYSTEM then
        (case Body msg of
           Some (BSystem sys) \<Rightarrow>
             Ret (if is_push_system then PublishSystemMessage appid (hd off_members) sys cl else cl)
         | _ \<Rightarrow> Panic)
      else Ret cl)"

definition HandlePush :: "bool \<Rightarrow> 'c \<Rightarrow> body \<Rightarrow> 'c imr \<Rightarrow> 'c imr go" where
  "HandlePush is_push_system c pmsg st =
     (case bp_Msg pmsg of
        None \<Rightarrow> Panic
      | Some msg \<Rightarrow>
          let off_members = filter (\<lambda>uid. \<not> IsUserOnline (bp_Appid pmsg) uid st) (bp_Receivers pmsg)
          in go_map (\<lambda>cl. update_client c (\<lambda>_. cl) st)
               (push_offline is_push_system (bp_Appid pmsg) off_members msg (imr_object st c)))"

definition imr_HandleMessage :: "bool \<Rightarrow> 'c \<Rightarrow> message \<Rightarrow> 'c imr \<Rightarrow> 'c imr go" where
  "imr_HandleMessage is_push_system c msg st =
     (if Cmd msg = MSG_SUBSCRIBE then
        (case Body msg of Some (BSubscribe i) \<Rightarrow> Ret (HandleSubscribe c i st) | _ \<Rightarrow> Panic)
      else if Cmd msg = MSG_UNSUBSCRIBE then
        (case Body msg of Some (BAppUserID i) \<Rightarrow> Ret (HandleUnsubscribe c i st) | _ \<Rightarrow> Panic)
      else if Cmd msg = MSG_PUBLISH then
        (case Body msg of Some (BApp a r i p d t m) \<Rightarrow> HandlePublish c (BApp a r i p d t m) st | _ \<Rightarrow> Panic)
      else if Cmd msg = MSG_PUBLISH_GROUP then
        (case Body msg of Some (BApp a r i p d t m) \<Rightarrow> HandlePublishGroup c (BApp a r i p d t m) st | _ \<Rightarrow> Panic)
      else if Cmd msg = MSG_PUSH then
        (case Body msg of Some (BBatchPush a r m) \<Rightarrow> HandlePush is_push_system c (BBatchPush a r m) st | _ \<Rightarrow> Panic)
      else if Cmd msg = MSG_SUBSCRIBE_ROOM then
        (case Body msg of Some (BAppRoomID i) \<Rightarrow> Ret (HandleSubscribeRoom c i st) | _ \<Rightarrow> Panic)
      else if Cmd msg = MSG_UNSUBSCRIBE_ROOM then
        (case Body msg of Some (BAppRoomID i) \<Rightarrow> Ret (HandleUnsubscribeRoom c i st) | _ \<Rightarrow> Panic)
      else if Cmd msg = MSG_PUBLISH_ROOM then
        (case Body msg of Some (BApp a r i p d t m) \<Rightarrow> HandlePublishRoom c (BApp a r i p d t m) st | _ \<Rightarrow> Panic)
      else Ret st)"

text \<open>The end of a connection: the client leaves the set, and a \<open>nil\<close> ends its two other loops.\<close>

definition imr_closed :: "'c \<Rightarrow> 'c imr \<Rightarrow> 'c imr" where
  "imr_closed c st =
     update_client c (\<lambda>cl. cl\<lparr>ic_pwt := ic_pwt cl @ [None], ic_wt := ic_wt cl @ [None]\<rparr>)
       (imr_RemoveClient c st)"

text \<open>
  The loop of \<open>Read\<close> over the bytes of a connection, up to its end or to a frame that is refused.
\<close>

lemma receive_shorter: "ReceiveMessage conn = Ret (Some m, r) \<Longrightarrow> length r < length conn"
  using receive_cmd_seq(1) unfolding ReceiveMessage_def by fastforce

function imr_Read :: "bool \<Rightarrow> 'c \<Rightarrow> bytes \<Rightarrow> 'c imr \<Rightarrow> 'c imr go" where
  "imr_Read is_push_system c conn st =
     go_bind (ReceiveMessage conn) (\<lambda>(msg, conn').
       case msg of
         None \<Rightarrow> Ret (imr_closed c st)
       | Some m \<Rightarrow> go_bind (imr_HandleMessage is_push_system c m st) (imr_Read is_push_system c conn'))"
  by pat_completeness auto
termination
  by (relation "measure (\<lambda>(p, c, conn, st). length conn)") (auto dest: receive_shorter)

declare imr_Read.simps [simp del]

text \<open>The whole of \<open>Read\<close>: a new client registers first.\<close>

definition imr_start_Read :: "bool \<Rightarrow> 'c \<Rightarrow> bytes \<Rightarrow> 'c imr \<Rightarrow> 'c imr go" where
  "imr_start_Read is_push_system c conn st = imr_Read is_push_system c conn (imr_AddClient c st)"

text \<open>The loop of \<open>Write\<close> on a channel that holds \<open>q\<close>: the frames, numbered from 1, up to a \<open>nil\<close>.\<close>

definition with_seq :: "go_int \<Rightarrow> message \<Rightarrow> message" where
  "with_seq seq m = Message (Cmd m) seq (Version m) (Flag m) (Body m) (Meta m)"

fun imr_Write :: "go_int \<Rightarrow> message option list \<Rightarrow> bytes" where
  "imr_Write seq [] = []"
| "imr_Write seq (None # q) = []"
| "imr_Write seq (Some m # q) = WriteMessage (with_seq (seq + 1) m) @ imr_Write (seq + 1) q"

section \<open>The monitoring requests of \<^verbatim>\<open>imr/rpc.go\<close>\<close>

definition GetOnlineClients :: "'c imr \<Rightarrow> (int64 \<rightharpoonup> int64 set)" where
  "GetOnlineClients st = (\<lambda>appid.
     let rs = Set.filter (\<lambda>c. imr_GetUsers (ic_app_route (imr_object st c)) appid \<noteq> None) (GetClientSet st)
     in if Set.is_empty rs then None
        else Some (\<Union>c \<in> rs. the (imr_GetUsers (ic_app_route (imr_object st c)) appid)))"

definition GetOnlineStatus :: "int64 \<Rightarrow> int64 \<Rightarrow> 'c imr \<Rightarrow> bool" where
  "GetOnlineStatus appid uid st = IsUserOnline appid uid st"

end
