(* ===== verification/RouteSync.thy ===== *)
theory RouteSync
  imports ChannelCount RouteServer
begin

text \<open>
  The channel of an im server and the route server together: whatever connections come and go, and
  whenever the connection between the two is built again, the table that the route server keeps for the
  im server says which users are connected there.
\<close>

section \<open>Runs of a channel\<close>

definition publishable :: "message \<Rightarrow> bool" where
  "publishable m \<longleftrightarrow> wire_ok m \<and> length (msg_ToData m) < 32768"

inductive channel_step :: "conns \<times> rooms \<times> channel \<Rightarrow> conns \<times> rooms \<times> channel \<Rightarrow> bool" where
  subscribe: "n_conns U a u < 65535 \<Longrightarrow>
    channel_step (U, R, ch) (add_mset (a, u, on) U, R, Subscribe a u on ch)"
| unsubscribe: "channel_step (add_mset (a, u, on) U, R, ch) (U, R, Unsubscribe a u on ch)"
| enter: "count R (a, r) < 2 ^ 63 - 1 \<Longrightarrow>
    channel_step (U, R, ch) (U, add_mset (a, r) R, SubscribeRoom a r ch)"
| leave: "channel_step (U, add_mset (a, r) R, ch) (U, R, UnsubscribeRoom a r ch)"
| publish: "publishable (Message MSG_PUBLISH 0 0 0 (Some amsg) None) \<Longrightarrow>
    channel_step (U, R, ch) (U, R, Publish amsg ch)"
| publish_group: "publishable (Message MSG_PUBLISH_GROUP 0 0 0 (Some amsg) None) \<Longrightarrow>
    channel_step (U, R, ch) (U, R, PublishGroup amsg ch)"
| publish_room: "publishable (Message MSG_PUBLISH_ROOM 0 0 0 (Some amsg) None) \<Longrightarrow>
    channel_step (U, R, ch) (U, R, PublishRoom amsg ch)"
| push: "publishable (Message MSG_PUSH 0 0 0 (Some (BBatchPush a rs (Some m))) None) \<Longrightarrow>
    channel_step (U, R, ch) (U, R, ch_Push a rs m ch)"

text \<open>\<open>sent\<close>: the writing loop took the first message of the queue.\<close>

inductive channel_run :: "conns \<times> rooms \<times> channel \<Rightarrow> bool" where
  start: "channel_run ({#}, {#}, NewChannel)"
| step: "channel_run s \<Longrightarrow> channel_step s s' \<Longrightarrow> channel_run s'"
| sent: "channel_run (U, R, ch) \<Longrightarrow> ch_wt ch = m # q \<Longrightarrow> channel_run (U, R, ch\<lparr>ch_wt := q\<rparr>)"

text \<open>The messages a channel queues, and what they do to the table.\<close>

definition route_message :: "message \<Rightarrow> bool" where
  "route_message m \<longleftrightarrow> is_update m \<or> (publishable m \<and> Version m = 0 \<and> Flag m = 0 \<and>
     Cmd m \<in> {MSG_PUBLISH, MSG_PUBLISH_GROUP, MSG_PUBLISH_ROOM, MSG_PUSH})"

lemma apply_update_published:
  "Cmd m \<in> {MSG_PUBLISH, MSG_PUBLISH_GROUP, MSG_PUBLISH_ROOM, MSG_PUSH} \<Longrightarrow> apply_update T m = T"
  by (auto simp: apply_update_def update_of_def split: option.splits body.splits)

definition moves_to :: "conns \<times> rooms \<times> channel \<Rightarrow> conns \<times> rooms \<times> channel \<Rightarrow> bool" where
  "moves_to s s' \<longleftrightarrow> (case s of (U, R, ch) \<Rightarrow> case s' of (U', R', ch') \<Rightarrow>
     channel_ok U' R' ch' \<and> (\<exists>ms. ch_wt ch' = ch_wt ch @ ms \<and> (\<forall>m \<in> set ms. route_message m)
       \<and> foldl apply_update (table_of U R) ms = table_of U' R'))"

lemma moves_to_counted: "channel_moves U R ch U' R' ch' \<Longrightarrow> moves_to (U, R, ch) (U', R', ch')"
  by (auto simp: channel_moves_def moves_to_def route_message_def)

lemma moves_to_published:
  assumes "channel_ok U R ch" "publishable m" "Version m = 0" "Flag m = 0"
    "Cmd m \<in> {MSG_PUBLISH, MSG_PUBLISH_GROUP, MSG_PUBLISH_ROOM, MSG_PUSH}"
  shows "moves_to (U, R, ch) (U, R, send_ch m ch)"
  using assms apply_update_published [OF assms(5)] unfolding moves_to_def
  by (auto simp: channel_ok_def route_message_def intro!: exI [of _ "[m]"])

lemma channel_step_moves:
  assumes "channel_step s s'" and "channel_ok (fst s) (fst (snd s)) (snd (snd s))"
  shows "moves_to s s'"
  using assms
  by (cases rule: channel_step.cases)
    (auto simp: Publish_def PublishGroup_def PublishRoom_def ch_Push_def
      intro!: moves_to_published Subscribe_moves [THEN moves_to_counted]
        Unsubscribe_moves [THEN moves_to_counted] SubscribeRoom_moves [THEN moves_to_counted]
        UnsubscribeRoom_moves [THEN moves_to_counted])

text \<open>
  Replaying messages that the table has seen already changes nothing: what they set last is there. This
  is why the messages still queued at a reconnection do no harm.
\<close>

lemma last_update:
  "(\<exists>v. \<forall>T. foldl apply_update T ms k = v) \<or> (\<forall>T. foldl apply_update T ms k = T k)"
proof (induction ms rule: rev_induct)
  case (snoc m ms)
  show ?case
  proof (cases "update_of m")
    case (Some kv)
    with snoc show ?thesis
      by (cases kv) (cases "k = fst kv", auto simp: apply_update_def)
  qed (use snoc in \<open>simp add: apply_update_def\<close>)
qed simp

lemma replay_seen:
  assumes "foldl apply_update T ms = T'"
  shows "foldl apply_update T' ms = T'"
proof
  fix k
  from last_update [of ms k] show "foldl apply_update T' ms k = T' k"
    using assms by metis
qed

lemma channel_run_ok:
  assumes "channel_run s"
  shows "channel_ok (fst s) (fst (snd s)) (snd (snd s)) \<and> (\<forall>m \<in> set (ch_wt (snd (snd s))). route_message m)
    \<and> (\<exists>T. foldl apply_update T (ch_wt (snd (snd s))) = table_of (fst s) (fst (snd s)))"
  using assms
proof induction
  case start
  then show ?case
    by (auto simp: channel_ok_def NewChannel_def uid_count_def room_count_def n_conns_def)
next
  case (step s s')
  have "moves_to s s'" using channel_step_moves [OF step(2)] step(3) by blast
  with step(3) show ?case unfolding moves_to_def by (cases s; cases s') (auto, metis foldl_append)
next
  case (sent U R ch m q)
  then show ?case by (auto simp: channel_ok_def uid_count_def room_count_def fun_eq_iff)
qed

section \<open>The route server reads what the channel sends\<close>

definition client_table :: "imr_client \<Rightarrow> table" where
  "client_table cl k =
     (case k of
        User a u \<Rightarrow> (case ic_app_route cl a of None \<Rightarrow> None | Some r \<Rightarrow> ir_uids r u)
      | Room a r \<Rightarrow>
          (case ic_app_route cl a of
             None \<Rightarrow> None
           | Some rt \<Rightarrow> if r \<in> ir_room_ids rt then Some True else None))"

definition numbered :: "go_int \<Rightarrow> message \<Rightarrow> message" where
  "numbered seq m = Message (Cmd m) seq (Version m) (Flag m) (Body m) (Meta m)"

lemma send_seq_numbered: "send_seq seq (m # ms) = WriteMessage (numbered (seq + 1) m) @ send_seq (seq + 1) ms"
  by (simp add: numbered_def)

lemma handle_update:
  assumes "is_update m"
  shows "\<exists>st'. imr_HandleMessage p c (canon (numbered seq m)) st = Ret st'
    \<and> client_table (imr_object st' c) = apply_update (client_table (imr_object st c)) m"
proof -
  note msgs = subscribe_msg_def unsubscribe_msg_def subscribe_room_msg_def unsubscribe_room_msg_def
  note handlers = HandleSubscribe_def HandleUnsubscribe_def HandleSubscribeRoom_def
    HandleUnsubscribeRoom_def update_client_def imr_FindOrAddRoute_def imr_NewRoute_def
    AddUserID_def RemoveUserID_def AddRoomID_def RemoveRoomID_def
  from assms show ?thesis
    unfolding is_update_def
    by (elim disjE exE)
      (auto simp: numbered_def msgs imr_HandleMessage_def handlers client_table_def fun_eq_iff
        apply_update_def update_of_def Let_def split: option.splits key.splits)
qed

lemma client_table_frame:
  "client_table (imr_object (send_others c s m st) c) = client_table (imr_object st c)"
  "client_table (cl\<lparr>ic_pwt := q\<rparr>) = client_table cl"
  by (auto simp: send_others_def client_table_def fun_eq_iff split: key.splits option.splits)

lemma PushChan_table [simp]: "client_table (PushChan q b cl) = client_table cl"
  by (simp add: PushChan_def client_table_frame)

text \<open>The body of a message has the type of its command, so no type assertion fails.\<close>

lemma wire_body:
  assumes "wire_ok m"
  shows "creator (Cmd m) = map_option kind_of (Body m)" "\<And>b. Body m = Some b \<Longrightarrow> body_ok b"
  using assms by (cases m; auto split: option.splits)+

lemma kind_canon [simp]: "kind_of (canon_body v b) = kind_of b"
  by (cases b) auto

lemma creators:
  "creator MSG_PUBLISH = Some KApp" "creator MSG_PUBLISH_GROUP = Some KApp"
  "creator MSG_PUBLISH_ROOM = Some KApp" "creator MSG_PUSH = Some KBatchPush"
  "creator MSG_GROUP_IM = Some KIM" "creator MSG_IM = Some KIM" "creator MSG_CUSTOMER = Some KCustomer"
  "creator MSG_CUSTOMER_SUPPORT = Some KCustomer" "creator MSG_SYSTEM = Some KSystem"
  by (simp_all add: creator_def core_creators_def route_creators_def storage_creators_def)

lemma kind_cases:
  "kind_of b = KApp \<Longrightarrow> \<exists>a r i p d t m. b = BApp a r i p d t m"
  "kind_of b = KBatchPush \<Longrightarrow> \<exists>a r m. b = BBatchPush a r m"
  "kind_of b = KIM \<Longrightarrow> \<exists>m. b = BIM m"
  "kind_of b = KCustomer \<Longrightarrow> \<exists>m. b = BCustomer m"
  "kind_of b = KSystem \<Longrightarrow> \<exists>m. b = BSystem m"
  by (cases b; simp)+

lemma push_offline_ok:
  assumes "wire_ok m"
  shows "\<exists>cl'. push_offline p a off (canon m) cl = Ret cl' \<and> client_table cl' = client_table cl"
proof -
  note w = wire_body(1) [OF assms]
  have b: "Cmd (canon m) = Cmd m" "Body (canon m) = map_option (canon_body (Version m)) (Body m)"
    by (cases m; simp)+
  have x: "\<exists>x. Body (canon m) = Some x \<and> creator (Cmd m) = Some (kind_of x)"
    if "Cmd m \<in> {MSG_IM, MSG_GROUP_IM, MSG_CUSTOMER, MSG_CUSTOMER_SUPPORT, MSG_SYSTEM}"
    using that w b(2) by (cases "Body m") (auto simp: creators)
  have im: "Cmd m \<in> {MSG_IM, MSG_GROUP_IM} \<Longrightarrow> \<exists>i. Body (canon m) = Some (BIM i)"
    and cs: "Cmd m \<in> {MSG_CUSTOMER, MSG_CUSTOMER_SUPPORT} \<Longrightarrow> \<exists>i. Body (canon m) = Some (BCustomer i)"
    and sys: "Cmd m = MSG_SYSTEM \<Longrightarrow> \<exists>i. Body (canon m) = Some (BSystem i)"
    using x kind_cases(3-5) by (fastforce simp: creators)+
  note pubs = PublishPeerMessage_def imr_PublishGroupMessage_def PublishCustomerMessage_def PublishSystemMessage_def
  consider "Cmd m \<in> {MSG_IM, MSG_GROUP_IM}" | "Cmd m \<in> {MSG_CUSTOMER, MSG_CUSTOMER_SUPPORT}"
    | "Cmd m = MSG_SYSTEM" | "Cmd m \<notin> {MSG_IM, MSG_GROUP_IM, MSG_CUSTOMER, MSG_CUSTOMER_SUPPORT, MSG_SYSTEM}"
    by blast
  then show ?thesis
    by cases (use im cs sys in \<open>auto simp: push_offline_def b(1) pubs\<close>)
qed

lemma handle_published:
  assumes "publishable m"
    and "Cmd m \<in> {MSG_PUBLISH, MSG_PUBLISH_GROUP, MSG_PUBLISH_ROOM, MSG_PUSH}"
  shows "\<exists>st'. imr_HandleMessage p c (canon (numbered seq m)) st = Ret st'
    \<and> client_table (imr_object st' c) = client_table (imr_object st c)"
proof -
  have w: "wire_ok m" using assms(1) by (simp add: publishable_def)
  obtain x where x: "Body m = Some x" "creator (Cmd m) = Some (kind_of x)"
    using wire_body(1) [OF w] assms(2) by (cases "Body m") (auto simp: creators)
  have ok: "body_ok x" by (rule wire_body(2) [OF w x(1)])
  have cm: "Cmd (canon (numbered seq m)) = Cmd m"
    "Body (canon (numbered seq m)) = Some (canon_body (Version m) x)"
    by (simp_all add: numbered_def x)
  show ?thesis
  proof (cases "Cmd m = MSG_PUSH")
    case True
    then obtain a r i where i: "x = BBatchPush a r (Some i)" "wire_ok i"
      using x(2) ok by (auto simp: creators dest!: sym [of KBatchPush] kind_cases(2) split: option.splits)
    obtain cl' where "push_offline p a (filter (\<lambda>uid. \<not> IsUserOnline a uid st) r) (canon i) (imr_object st c) = Ret cl'"
      "client_table cl' = client_table (imr_object st c)"
      using push_offline_ok [OF i(2)] by blast
    then show ?thesis by (simp add: imr_HandleMessage_def cm True i(1) HandlePush_def update_client_def)
  next
    case False
    then obtain a r n q d t i where "x = BApp a r n q d t (Some i)"
      using assms(2) x(2) ok by (auto simp: creators dest!: sym [of KApp] kind_cases(1) split: option.splits)
    with False assms(2) show ?thesis
      by (auto simp: imr_HandleMessage_def cm HandlePublish_def HandlePublishGroup_def
          HandlePublishRoom_def client_table_frame)
  qed
qed

lemma handle_route_message:
  assumes "route_message m"
  shows "\<exists>st'. imr_HandleMessage p c (canon (numbered seq m)) st = Ret st'
    \<and> client_table (imr_object st' c) = apply_update (client_table (imr_object st c)) m"
  using assms handle_update [of m p c seq st] handle_published [of m p c seq st]
  by (auto simp: route_message_def apply_update_published)

lemma is_update_wire:
  assumes "is_update m"
  shows "publishable m \<and> Version m = 0 \<and> Flag m = 0"
proof -
  note msgs = subscribe_msg_def unsubscribe_msg_def subscribe_room_msg_def unsubscribe_room_msg_def
  from assms show ?thesis
    unfolding is_update_def publishable_def
    by (elim disjE exE)
      (simp_all add: msgs msg_ToData_def sub_ToData_def au_ToData_def ar_ToData_def header_ok_def
        creator_def core_creators_def route_creators_def storage_creators_def)
qed

lemma route_message_frame:
  assumes m: "route_message m" and seq: "n < 2 ^ 31"
  shows "ReceiveMessage (WriteMessage (numbered (word_of_nat n) m) @ s)
    = Ret (Some (canon (numbered (word_of_nat n) m)), s)"
proof -
  have p: "publishable m" "Version m = 0" "Flag m = 0"
    using m is_update_wire by (auto simp: route_message_def)
  have "header_ok m" using p(1) by (simp add: publishable_def header_ok_if_wire_ok)
  moreover have "(word_of_nat n :: go_int) = scast (ucast (word_of_nat n :: go_int) :: int32)"
    using sint_len32 [OF seq] sint_nat64 [of n] seq by (intro sint_eqD) (simp add: unsigned_of_nat take_bit_nat_eq_self)
  ultimately have "header_ok (numbered (word_of_nat n) m)"
    by (simp add: header_ok_def numbered_def)
  with p(1) have "wire_ok (numbered (word_of_nat n) m)"
    by (cases m) (simp add: publishable_def numbered_def split: option.splits)
  moreover have "length (msg_ToData (numbered (word_of_nat n) m)) < 32768"
    using p(1) by (cases "Body m") (simp_all add: publishable_def numbered_def msg_ToData_def)
  ultimately show ?thesis by (rule ReceiveMessage_WriteMessage)
qed

lemma imr_Read_frames:
  assumes "\<forall>m \<in> set ms. route_message m" and "n + length ms < 2 ^ 31"
  shows "\<exists>st'. (\<forall>rest. imr_Read p c (send_seq (word_of_nat n) ms @ rest) st = imr_Read p c rest st')
    \<and> client_table (imr_object st' c) = foldl apply_update (client_table (imr_object st c)) ms"
  using assms
proof (induction ms arbitrary: n st)
  case (Cons m ms)
  have n: "Suc n < 2 ^ 31" and m: "route_message m" using Cons.prems by auto
  obtain st1 where st1: "imr_HandleMessage p c (canon (numbered (word_of_nat (Suc n)) m)) st = Ret st1"
    "client_table (imr_object st1 c) = apply_update (client_table (imr_object st c)) m"
    using handle_route_message [OF m, of p c "word_of_nat (Suc n)" st] by blast
  obtain st2 where st2: "\<And>rest. imr_Read p c (send_seq (word_of_nat (Suc n)) ms @ rest) st1 = imr_Read p c rest st2"
    "client_table (imr_object st2 c) = foldl apply_update (client_table (imr_object st1 c)) ms"
    using Cons.IH [of "Suc n" st1] Cons.prems by auto
  have "imr_Read p c (send_seq (word_of_nat n) (m # ms) @ rest) st = imr_Read p c rest st2" for rest
    using route_message_frame [OF m n] st1 st2(1)
    by (subst imr_Read.simps) (simp add: send_seq_numbered add.commute del: send_seq.simps(2))
  with st1 st2 show ?case by auto
qed auto

section \<open>A new connection\<close>

lemma resubscribed_users:
  assumes "distinct (map (\<lambda>(appid, uid, count). (appid, uid)) users)"
  shows "foldl apply_update T (ReSubscribe users) k =
    (case k of
       User a u \<Rightarrow> (case map_of (map (\<lambda>(a, u, n). ((a, u), n)) users) (a, u) of
           Some n \<Rightarrow> Some (sint (high16 n) > 0) | None \<Rightarrow> T k)
     | Room a r \<Rightarrow> T k)"
  using assms
proof (induction users arbitrary: T)
  case (Cons x users)
  obtain a u n where x: "x = (a, u, n)" by (cases x)
  let ?T = "T(User a u \<mapsto> sint (high16 n) > 0)"
  have none: "map_of (map (\<lambda>(a, u, n). ((a, u), n)) users) (a, u) = None"
    using Cons.prems by (force simp: x map_of_eq_None_iff)
  have "foldl apply_update T (ReSubscribe (x # users)) k = foldl apply_update ?T (ReSubscribe users) k"
    by (simp add: x ReSubscribe_def Let_def)
  also have "\<dots> = (case k of
       User a u \<Rightarrow> (case map_of (map (\<lambda>(a, u, n). ((a, u), n)) users) (a, u) of
           Some n \<Rightarrow> Some (sint (high16 n) > 0) | None \<Rightarrow> ?T k)
     | Room a r \<Rightarrow> ?T k)"
    by (rule Cons.IH) (use Cons.prems in simp)
  also have "\<dots> = (case k of
       User a u \<Rightarrow> (case map_of (map (\<lambda>(a, u, n). ((a, u), n)) (x # users)) (a, u) of
           Some n \<Rightarrow> Some (sint (high16 n) > 0) | None \<Rightarrow> T k)
     | Room a r \<Rightarrow> T k)"
    using none by (cases k) (auto simp: x split: option.split)
  finally show ?case .
qed (simp add: ReSubscribe_def split: key.split)

lemma resubscribed_rooms:
  "foldl apply_update T (ReSubscribeRoom rooms) k =
    (case k of User a u \<Rightarrow> T k | Room a r \<Rightarrow> if (a, r) \<in> set rooms then Some True else T k)"
  by (induction rooms arbitrary: T) (auto simp: ReSubscribeRoom_def split: key.split if_splits)

lemma users_of_iff:
  "users_of ch users \<longleftrightarrow> distinct (map (\<lambda>(appid, uid, count). (appid, uid)) users)
     \<and> (\<forall>a u n. (a, u, n) \<in> set users \<longleftrightarrow> uid_count ch a u = Some n)"
  unfolding users_of_def
  by (rule arg_cong [where f = "(\<and>) (distinct (map (\<lambda>(appid, uid, count). (appid, uid)) users))"])
    (auto simp: GetAllSubscriber_def uid_count_def NewSubscriber_def intro!: all_cong1 arg_cong2 [where f = "(=)"]
      split: option.splits)

lemma rooms_iff:
  "GetAllRoomSubscriber ch rooms \<longleftrightarrow> distinct rooms
     \<and> (\<forall>a r. (a, r) \<in> set rooms \<longleftrightarrow> room_count ch a r \<noteq> None)"
  unfolding GetAllRoomSubscriber_def room_count_def
  by (intro conj_cong all_cong1 arg_cong2 [where f = "(=)"] refl) (auto split: option.splits)

lemma resubscribed:
  assumes ok: "channel_ok U R ch" and users: "users_of ch users" and rooms: "GetAllRoomSubscriber ch rooms"
  shows "foldl apply_update Map.empty (ReSubscribe users @ ReSubscribeRoom rooms) = table_of U R"
proof
  fix k
  have d: "distinct (map (\<lambda>(appid, uid, count). (appid, uid)) users)"
    using users by (simp add: users_of_def)
  have u: "map_of (map (\<lambda>(a, u, n). ((a, u), n)) users) (a, u) = uid_count ch a u" for a u
  proof -
    have "distinct (map fst (map (\<lambda>(a, u, n). ((a, u), n)) users))"
      using d by (simp add: comp_def case_prod_beta')
    moreover have "((a, u), n) \<in> set (map (\<lambda>(a, u, n). ((a, u), n)) users) \<longleftrightarrow> (a, u, n) \<in> set users" for n
      by force
    moreover have "(a, u, n) \<in> set users \<longleftrightarrow> uid_count ch a u = Some n" for n
      using users by (auto simp: users_of_def GetAllSubscriber_def uid_count_def NewSubscriber_def
          split: option.splits)
    ultimately show ?thesis by (metis map_of_eq_Some_iff not_Some_eq)
  qed
  have r: "(a, r) \<in> set rooms \<longleftrightarrow> (a, r) \<in># R" for a r
    using rooms ok by (auto simp: GetAllRoomSubscriber_def channel_ok_def room_count_def count_eq_zero_iff
        split: option.splits if_splits) (metis option.distinct(1) option.inject)+
  have h: "sint (high16 (packed (n_conns U a u) (n_online U a u))) > 0 \<longleftrightarrow> 0 < n_online U a u" for a u
    using channel_ok_count(3,4) [OF ok, of a u] sint_nat64 [of "n_online U a u"] by simp
  show "foldl apply_update Map.empty (ReSubscribe users @ ReSubscribeRoom rooms) k = table_of U R k"
  proof (cases k)
    case (User a u')
    have "uid_count ch a u' = (if n_conns U a u' = 0 then None else Some (packed (n_conns U a u') (n_online U a u')))"
      using ok by (simp add: channel_ok_def)
    then show ?thesis by (simp add: User resubscribed_users [OF d] resubscribed_rooms u h table_of_def)
  next
    case (Room a r')
    then show ?thesis by (simp add: resubscribed_users [OF d] resubscribed_rooms r table_of_def)
  qed
qed

lemma moves_to_trans:
  assumes "moves_to s s1" "moves_to s1 s2"
  shows "moves_to s s2"
proof -
  obtain U R ch U1 R1 ch1 U2 R2 ch2 where s: "s = (U, R, ch)" "s1 = (U1, R1, ch1)" "s2 = (U2, R2, ch2)"
    by (metis surj_pair)
  obtain ms where 1: "ch_wt ch1 = ch_wt ch @ ms" "\<forall>m \<in> set ms. route_message m"
    "foldl apply_update (table_of U R) ms = table_of U1 R1"
    using assms(1) by (auto simp: moves_to_def s)
  obtain ms' where 2: "ch_wt ch2 = ch_wt ch1 @ ms'" "\<forall>m \<in> set ms'. route_message m"
    "foldl apply_update (table_of U1 R1) ms' = table_of U2 R2" "channel_ok U2 R2 ch2"
    using assms(2) by (auto simp: moves_to_def s)
  show ?thesis using 1 2 by (auto simp: moves_to_def s intro!: exI [of _ "ms @ ms'"])
qed

lemma moves_to_rtrancl:
  assumes "channel_step\<^sup>*\<^sup>* s s'" and "channel_ok (fst s) (fst (snd s)) (snd (snd s))"
  shows "moves_to s s'"
  using assms
proof (induction rule: rtranclp_induct)
  case base
  then show ?case by (cases s) (auto simp: moves_to_def)
next
  case (step s1 s2)
  have m: "moves_to s s1" using step by blast
  then have "moves_to s1 s2"
    by (intro channel_step_moves [OF step(2)]) (auto simp: moves_to_def split: prod.splits)
  with m show ?case by (rule moves_to_trans)
qed

lemma route_table_follows_run:
  assumes run: "channel_run (U, R, ch)" and steps: "channel_step\<^sup>*\<^sup>* (U, R, ch) (U', R', ch')"
    and users: "users_of ch users" and rooms: "GetAllRoomSubscriber ch rooms"
    and fresh: "ic_app_route (imr_object st c) = Map.empty"
    and len: "length users + length rooms + length (ch_wt ch') < 2 ^ 31"
  shows "\<exists>st'. (\<forall>rest. imr_Read p c (RunOnce_sent users rooms (ch_wt ch') @ rest) st = imr_Read p c rest st')
    \<and> client_table (imr_object st' c) = table_of U' R'"
proof -
  have ok: "channel_ok U R ch" and old: "\<forall>m \<in> set (ch_wt ch). route_message m"
    using channel_run_ok [OF run] by auto
  obtain T where T: "foldl apply_update T (ch_wt ch) = table_of U R"
    using channel_run_ok [OF run] by auto
  obtain ms where ms: "ch_wt ch' = ch_wt ch @ ms" "\<forall>m \<in> set ms. route_message m"
    "foldl apply_update (table_of U R) ms = table_of U' R'"
    using moves_to_rtrancl [OF steps] ok by (auto simp: moves_to_def)
  let ?ms = "ReSubscribe users @ ReSubscribeRoom rooms @ ch_wt ch'"
  have "\<forall>m \<in> set ?ms. route_message m"
    using old ms(1,2) by (auto simp: ReSubscribe_def ReSubscribeRoom_def route_message_def Let_def)
  moreover have "0 + length ?ms < 2 ^ 31" using len by (simp add: ReSubscribe_def ReSubscribeRoom_def)
  ultimately obtain st' where st': "\<And>rest. imr_Read p c (send_seq (word_of_nat 0) ?ms @ rest) st = imr_Read p c rest st'"
    "client_table (imr_object st' c) = foldl apply_update (client_table (imr_object st c)) ?ms"
    using imr_Read_frames [of ?ms 0 p c st] by blast
  have "client_table (imr_object st c) = Map.empty"
    using fresh by (auto simp: client_table_def fun_eq_iff split: key.split)
  then have "client_table (imr_object st' c) = foldl apply_update (table_of U R) (ch_wt ch @ ms)"
    using st'(2) resubscribed [OF ok users rooms] ms(1) by (metis append.assoc foldl_append)
  also have "\<dots> = table_of U' R'" using replay_seen [OF T] ms(3) by simp
  finally show ?thesis using st'(1) by (auto simp: RunOnce_sent_def)
qed

lemma table_queries:
  "ContainAppUserID \<lparr>au_Appid = a, au_Uid = u\<rparr> cl \<longleftrightarrow> client_table cl (User a u) \<noteq> None"
  "IsAppUserOnline \<lparr>au_Appid = a, au_Uid = u\<rparr> cl \<longleftrightarrow> client_table cl (User a u) = Some True"
  "ContainAppRoomID \<lparr>ar_Appid = a, ar_RoomId = r\<rparr> cl \<longleftrightarrow> client_table cl (Room a r) \<noteq> None"
  by (auto simp: ContainAppUserID_def IsAppUserOnline_def ContainAppRoomID_def client_table_def
      imr_FindRoute_def ContainUserID_def Route_IsUserOnline_def ContainRoomID_def split: option.splits)

lemma table_of_queries:
  "table_of U R (User a u) \<noteq> None \<longleftrightarrow> 0 < n_conns U a u"
  "table_of U R (User a u) = Some True \<longleftrightarrow> 0 < n_online U a u"
  "table_of U R (Room a r) \<noteq> None \<longleftrightarrow> (a, r) \<in># R"
  using n_online_le [of U a u] by (auto simp: table_of_def)

end
