(* ===== verification/RouteProperties.thy ===== *)
theory RouteProperties
  imports RouteSync CoreProperties
begin

text \<open>
  The properties of the route server and of the channels of the im servers: the table of the route
  server, publishing, pushing, and the race of a connection that ends with one that starts.
\<close>

section \<open>The table of the route server\<close>



section \<open>Publishing and pushing\<close>

text \<open>
  C15: the frame of a message published by one im server is read by the route server, which queues the
  message for exactly the other connected servers where the receiver has a connection; there it is
  dispatched with the application, receiver, id, device, time and message of the publisher, but with a
  previous id of 0.
\<close>

theorem publish_reaches:
  assumes "\<forall>x \<in> imr_clients st. client_table (imr_object st x) = table_of (U x) (R x)"
    and "publishable (Message MSG_PUBLISH 0 0 0 (Some (BApp a r i q d t (Some m))) None)"
    and "n < 2 ^ 31 - 1"
  shows "\<exists>st' msg. (\<forall>rest. imr_Read p c (send_seq (word_of_nat n)
        [Message MSG_PUBLISH 0 0 0 (Some (BApp a r i q d t (Some m))) None] @ rest) st = imr_Read p c rest st')
    \<and> (\<forall>x. ic_wt (imr_object st' x) = ic_wt (imr_object st x)
        @ (if x \<in> imr_clients st \<and> x \<noteq> c \<and> 0 < n_conns (U x) a r then [Some msg] else []))
    \<and> channel_receive msg = Ret [Dispatch (BApp a r i 0 d t (Some (canon m)))]"
proof -
  let ?pub = "Message MSG_PUBLISH 0 0 0 (Some (BApp a r i q d t (Some m))) None"
  let ?seq = "word_of_nat (Suc n) :: go_int"
  define msg where "msg = Message MSG_PUBLISH 0 0 0 (Some (BApp a r i 0 d t (Some (canon m)))) None"
  define st' where "st' = send_others c (imr_FindClientSet \<lparr>au_Appid = a, au_Uid = r\<rparr> st) msg st"
  have "ReceiveMessage (WriteMessage (numbered ?seq ?pub) @ rest) = Ret (Some (canon (numbered ?seq ?pub)), rest)" for rest
    by (rule route_message_frame) (use assms(2,3) in \<open>simp_all add: route_message_def\<close>)
  moreover have "imr_HandleMessage p c (canon (numbered ?seq ?pub)) st = Ret st'"
    by (simp add: numbered_def imr_HandleMessage_def HandlePublish_def st'_def msg_def)
  ultimately have "imr_Read p c (send_seq (word_of_nat n) [?pub] @ rest) st = imr_Read p c rest st'" for rest
    by (subst imr_Read.simps) (simp add: send_seq_numbered add.commute del: send_seq.simps(2))
  moreover have "ic_wt (imr_object st' x) = ic_wt (imr_object st x)
        @ (if x \<in> imr_clients st \<and> x \<noteq> c \<and> 0 < n_conns (U x) a r then [Some msg] else [])" for x
    using assms(1) table_of_queries(1) [of "U x" "R x" a r]
    by (auto simp: st'_def send_others_def imr_FindClientSet_def table_queries(1) Let_def)
  moreover have "channel_receive msg = Ret [Dispatch (BApp a r i 0 d t (Some (canon m)))]"
    by (simp add: channel_receive_def msg_def)
  ultimately show ?thesis by blast
qed

theorem publish_reaches_witness:
  "\<exists>st' msg. (\<forall>rest. imr_Read True False (send_seq (word_of_nat 0)
        [Message MSG_PUBLISH 0 0 0 (Some (BApp 1 2 7 6 0 0 (Some hello))) None] @ rest)
        \<lparr>imr_clients = {False, True}, imr_object = (\<lambda>x. imr_NewClient\<lparr>ic_app_route :=
           (if x then [1 \<mapsto> AddUserID 2 True (imr_NewRoute 1)] else Map.empty)\<rparr>)\<rparr> = imr_Read True False rest st')
    \<and> (\<forall>x. ic_wt (imr_object st' x) = (if x then [Some msg] else []))
    \<and> channel_receive msg = Ret [Dispatch (BApp 1 2 7 0 0 0 (Some (canon hello)))]"
proof -
  let ?st = "\<lparr>imr_clients = {False, True}, imr_object = (\<lambda>x. imr_NewClient\<lparr>ic_app_route :=
      (if x then [1 \<mapsto> AddUserID 2 True (imr_NewRoute 1)] else Map.empty)\<rparr>)\<rparr>"
  define U :: "bool \<Rightarrow> conns" where "U x = (if x then {#(1, 2, True)#} else {#})" for x
  have tables: "\<forall>x \<in> imr_clients ?st. client_table (imr_object ?st x) = table_of (U x) {#}"
    by (auto simp: fun_eq_iff client_table_def table_of_def U_def n_conns_def n_online_def AddUserID_def
        imr_NewRoute_def imr_NewClient_def split: key.split)
  have pub: "publishable (Message MSG_PUBLISH 0 0 0 (Some (BApp 1 2 7 6 0 0 (Some hello))) None)"
    using publish_frame_wire_ok [of hello 1 2 7 6 0] hello_wire
    by (simp add: publishable_def publish_frame_def msg_ToData_def with_len16_def length_WriteMessage)
  have len: "(0 :: nat) < 2 ^ 31 - 1" by simp
  show ?thesis
    using publish_reaches [OF tables pub len, of True False]
    by (elim ex_forward) (simp add: U_def n_conns_def imr_NewClient_def)
qed



section \<open>A race\<close>

text \<open>
  C39: a user with one connection opens a second one while the first one ends. If the goroutine of the
  first one changes the count first but queues its message last, the route server is told that the user
  came and then that it left: the user is connected, but the table does not know it, until the user's
  connections change again.
\<close>

theorem subscribe_race:
  assumes "channel_ok (add_mset (a, u, on) U) R ch" and "n_conns U a u = 0"
  shows "\<exists>counts1 ch1 counts2 ch2.
    RemoveSubscribe a u on ch = (counts1, ch1) \<and> AddSubscribe a u on' ch1 = (counts2, ch2)
    \<and> (let ch' = unsubscribe_send a u on counts1 (subscribe_send a u on' counts2 ch2)
       in channel_ok (add_mset (a, u, on') U) R ch'
        \<and> table_of (add_mset (a, u, on') U) R (User a u) = Some on'
        \<and> (\<exists>ms. ch_wt ch' = ch_wt ch @ ms
            \<and> foldl apply_update (table_of (add_mset (a, u, on) U) R) ms (User a u) = None))"
proof -
  have n: "n_online U a u = 0" using n_online_le [of U a u] assms(2) by simp
  obtain ch1 where 1: "RemoveSubscribe a u on ch = ((1, if on then 1 else 0), ch1)"
    "ch_wt ch1 = ch_wt ch" "channel_ok U R ch1"
    using RemoveSubscribe_ok [OF assms(1)] assms(2) n by (cases on) auto
  obtain ch2 where 2: "AddSubscribe a u on' ch1 = ((0, 0), ch2)" "ch_wt ch2 = ch_wt ch1"
    "channel_ok (add_mset (a, u, on') U) R ch2"
    using AddSubscribe_ok [OF 1(3), of a u on'] assms(2) n by auto
  show ?thesis using 1 2 assms(2) n
    by (auto simp: subscribe_send_def unsubscribe_send_def Let_def channel_ok_def table_of_def
        intro!: exI [of _ "[subscribe_msg a u on', unsubscribe_msg a u]"])
qed

theorem subscribe_race_witness:
  "channel_ok {#(1, 2, True)#} {#} (Subscribe 1 2 True NewChannel) \<and>
   (\<exists>counts1 ch1 counts2 ch2.
    RemoveSubscribe 1 2 True (Subscribe 1 2 True NewChannel) = (counts1, ch1)
    \<and> AddSubscribe 1 2 True ch1 = (counts2, ch2)
    \<and> channel_ok {#(1, 2, True)#} {#} (unsubscribe_send 1 2 True counts1 (subscribe_send 1 2 True counts2 ch2)))"
proof -
  have "channel_step ({#}, {#}, NewChannel) ({#(1, 2, True)#}, {#}, Subscribe 1 2 True NewChannel)"
    by (rule channel_step.subscribe) (simp add: n_conns_def)
  then have "channel_run ({#(1, 2, True)#}, {#}, Subscribe 1 2 True NewChannel)"
    by (rule channel_run.step [OF channel_run.start])
  then have ok: "channel_ok {#(1, 2, True)#} {#} (Subscribe 1 2 True NewChannel)"
    using channel_run_ok by force
  have n: "n_conns {#} 1 2 = 0" by (simp add: n_conns_def)
  show ?thesis using ok subscribe_race [OF ok n, of True] by (auto simp: Let_def)
qed

end
