(* ===== verification/Connection.thy ===== *)
theory Connection
  imports Codec
begin

text \<open>
  \<^verbatim>\<open>im/connection.go\<close> and the writing side of \<^verbatim>\<open>im/client.go\<close>: the state of a
  connection of a user, its three queues, and the loop \<open>Write\<close> that sends what they hold.
\<close>

section \<open>State\<close>

text \<open>
  \<open>cn_lwt\<close> is the channel of capacity 1 that signals \<open>cn_messages\<close>; a \<open>None\<close> in \<open>cn_wt\<close> is the \<open>nil\<close>
  that ends \<open>Write\<close>. \<open>cn_seq\<close> is the local variable of \<open>Write\<close>, \<open>cn_out\<close> what has been written to the
  socket, \<open>cn_broken\<close> whether a write fails. \<open>cn_room_id\<close> is the field of \<open>RoomClient\<close>. The
  \<open>int32\<close> flags \<open>closed\<close> and \<open>forbidden\<close> keep their values.
\<close>

record connection =
  cn_closed :: int32
  cn_forbidden :: int32
  cn_notification_on :: bool
  cn_online :: bool
  cn_sync_count :: int64
  cn_tc :: int32
  cn_wt :: "message option list"
  cn_lwt :: bool
  cn_pwt :: "message list list"
  cn_version :: go_int
  cn_appid :: int64
  cn_uid :: int64
  cn_device_id :: bytes
  cn_device_ID :: int64
  cn_platform_id :: int8
  cn_messages :: "message list"
  cn_room_id :: int64
  cn_seq :: go_int
  cn_out :: "message list"
  cn_broken :: bool

abbreviation MESSAGE_QUEUE_LIMIT :: nat where "MESSAGE_QUEUE_LIMIT \<equiv> 1000"
abbreviation WT_CAPACITY :: nat where "WT_CAPACITY \<equiv> 300"
abbreviation CONN_PWT_CAPACITY :: nat where "CONN_PWT_CAPACITY \<equiv> 10"

definition im_NewClient :: connection where
  "im_NewClient = \<lparr>cn_closed = 0, cn_forbidden = 0, cn_notification_on = False, cn_online = False,
     cn_sync_count = 0, cn_tc = 0, cn_wt = [], cn_lwt = False, cn_pwt = [], cn_version = 0, cn_appid = 0,
     cn_uid = 0, cn_device_id = [], cn_device_ID = 0, cn_platform_id = 0, cn_messages = [],
     cn_room_id = 0, cn_seq = 0, cn_out = [], cn_broken = False\<rparr>"

section \<open>The sender of a message\<close>

text \<open>A failing type assertion panics; \<open>kefu_appid\<close> is the field of the configuration.\<close>

definition conn_isSender :: "int64 \<Rightarrow> message \<Rightarrow> int64 \<Rightarrow> connection \<Rightarrow> bool go" where
  "conn_isSender kefu_appid msg device_id c =
     (if Cmd msg = MSG_IM \<or> Cmd msg = MSG_GROUP_IM then
        (case Body msg of
           Some (BIM m) \<Rightarrow> Ret (im_Sender m = cn_uid c \<and> device_id = cn_device_ID c)
         | _ \<Rightarrow> Panic)
      else if Cmd msg = MSG_CUSTOMER then
        (case Body msg of
           Some (BCustomer m) \<Rightarrow> Ret (cs_CustomerAppid m = cn_appid c \<and> cs_CustomerId m = cn_uid c
             \<and> device_id = cn_device_ID c)
         | _ \<Rightarrow> Panic)
      else if Cmd msg = MSG_CUSTOMER_SUPPORT then
        (case Body msg of
           Some (BCustomer m) \<Rightarrow> Ret (kefu_appid = cn_appid c \<and> cs_SellerId m = cn_uid c
             \<and> device_id = cn_device_ID c)
         | _ \<Rightarrow> Panic)
      else Ret False)"

section \<open>Queues\<close>

text \<open>
  The guard of the three \<open>Enqueue\<close> methods: a closed connection takes nothing, one whose writer is
  blocked counts the attempt.
\<close>

definition enqueue_guard :: "connection \<Rightarrow> (connection \<Rightarrow> bool \<times> connection) \<Rightarrow> bool \<times> connection" where
  "enqueue_guard c f =
     (if sint (cn_closed c) > 0 then (False, c)
      else if sint (cn_tc c) > 0 then (False, c\<lparr>cn_tc := cn_tc c + 1\<rparr>)
      else f c)"

text \<open>A full list drops its first message.\<close>

definition push_message :: "message \<Rightarrow> message list \<Rightarrow> message list" where
  "push_message msg q = (if length q \<ge> MESSAGE_QUEUE_LIMIT then tl q @ [msg] else q @ [msg])"

definition EnqueueNonBlockContinueMessage ::
  "message \<Rightarrow> message option \<Rightarrow> connection \<Rightarrow> bool \<times> connection"
where
  "EnqueueNonBlockContinueMessage msg sub_msg c =
     enqueue_guard c (\<lambda>c.
       let q = push_message msg (cn_messages c);
           q = (case sub_msg of None \<Rightarrow> q | Some m \<Rightarrow> push_message m q)
       in (True, c\<lparr>cn_messages := q, cn_lwt := True\<rparr>))"

definition EnqueueNonBlockMessage :: "message \<Rightarrow> connection \<Rightarrow> bool \<times> connection" where
  "EnqueueNonBlockMessage msg c = EnqueueNonBlockContinueMessage msg None c"

text \<open>
  The \<open>select\<close> with a timeout: a channel with room takes the message; one that is full and stays full
  for 60 seconds times out. (A send that waits and then succeeds is the same call made later.)
\<close>

definition EnqueueMessage :: "message \<Rightarrow> connection \<Rightarrow> bool \<times> connection" where
  "EnqueueMessage msg c =
     enqueue_guard c (\<lambda>c.
       if length (cn_wt c) < WT_CAPACITY then (True, c\<lparr>cn_wt := cn_wt c @ [Some msg]\<rparr>)
       else (False, c\<lparr>cn_tc := cn_tc c + 1\<rparr>))"

definition EnqueueMessages :: "message list \<Rightarrow> connection \<Rightarrow> bool \<times> connection" where
  "EnqueueMessages msgs c =
     enqueue_guard c (\<lambda>c.
       if length (cn_pwt c) < CONN_PWT_CAPACITY then (True, c\<lparr>cn_pwt := cn_pwt c @ [msgs]\<rparr>)
       else (False, c\<lparr>cn_tc := cn_tc c + 1\<rparr>))"

section \<open>Writing\<close>

text \<open>\<open>send\<close>: a message of another version is copied with the version of the client.\<close>

definition conn_send :: "message \<Rightarrow> connection \<Rightarrow> connection" where
  "conn_send m c =
     (let msg = (if Version m \<noteq> cn_version c
                 then Message (Cmd m) (Seq m) (cn_version c) (Flag m) (Body m) None else m)
      in if sint (cn_tc c) > 0 then c
         else if cn_broken c then c\<lparr>cn_tc := cn_tc c + 1\<rparr>
         else c\<lparr>cn_out := cn_out c @ [msg]\<rparr>)"

text \<open>One message of a queue: its metadata goes before it in a message of its own.\<close>

definition write_message :: "message \<Rightarrow> connection \<Rightarrow> connection" where
  "write_message msg c =
     (let c = (case Meta msg of
            None \<Rightarrow> c
          | Some meta \<Rightarrow>
              let c = c\<lparr>cn_seq := cn_seq c + 1\<rparr>
              in conn_send (Message MSG_METADATA (cn_seq c) (cn_version c) 0 (Some (BMetadata meta)) None) c);
          c = c\<lparr>cn_seq := cn_seq c + 1\<rparr>
      in conn_send (Message (Cmd msg) (cn_seq c) (cn_version c) (Flag msg) (Body msg) None) c)"

definition SendMessages :: "connection \<Rightarrow> connection" where
  "SendMessages c =
     (if cn_messages c = [] then c
      else foldl (\<lambda>c m. write_message m c) (c\<lparr>cn_messages := []\<rparr>) (cn_messages c))"

text \<open>
  One round of the loop of \<open>Write\<close>: the \<open>select\<close> takes one of the channels that are ready. The result
  says whether the loop goes on.
\<close>

datatype ready = Ready_wt | Ready_pwt | Ready_lwt

definition Write_step :: "ready \<Rightarrow> connection \<Rightarrow> (bool \<times> connection) option" where
  "Write_step r c =
     (case r of
        Ready_wt \<Rightarrow>
          (case cn_wt c of
             [] \<Rightarrow> None
           | None # q \<Rightarrow> Some (False, c\<lparr>cn_wt := q\<rparr>)
           | Some m # q \<Rightarrow> Some (True, write_message m (c\<lparr>cn_wt := q\<rparr>)))
      | Ready_pwt \<Rightarrow>
          (case cn_pwt c of
             [] \<Rightarrow> None
           | ms # q \<Rightarrow> Some (True, foldl (\<lambda>c m. write_message m c) (c\<lparr>cn_pwt := q\<rparr>) ms))
      | Ready_lwt \<Rightarrow> if cn_lwt c then Some (True, SendMessages (c\<lparr>cn_lwt := False\<rparr>)) else None)"

section \<open>The queue keeps the newest messages\<close>

definition newest :: "'a list \<Rightarrow> 'a list" where
  "newest xs = drop (length xs - MESSAGE_QUEUE_LIMIT) xs"

lemma push_message_newest:
  assumes "length q \<le> MESSAGE_QUEUE_LIMIT"
  shows "push_message m q = newest (q @ [m])" "length (push_message m q) \<le> MESSAGE_QUEUE_LIMIT"
  using assms by (cases q; auto simp: push_message_def newest_def)+

lemma newest_newest: "newest (newest xs @ ys) = newest (xs @ ys)"
  by (cases "length xs \<ge> MESSAGE_QUEUE_LIMIT") (simp_all add: newest_def add.commute)

lemma enqueue_all:
  assumes "\<not> sint (cn_closed c) > 0" "\<not> sint (cn_tc c) > 0" "length (cn_messages c) \<le> MESSAGE_QUEUE_LIMIT"
  shows "foldl (\<lambda>c m. snd (EnqueueNonBlockMessage m c)) c ms =
    (if ms = [] then c else c\<lparr>cn_messages := newest (cn_messages c @ ms), cn_lwt := True\<rparr>)"
  using assms
proof (induction ms arbitrary: c)
  case (Cons m ms)
  let ?c = "c\<lparr>cn_messages := push_message m (cn_messages c), cn_lwt := True\<rparr>"
  have "snd (EnqueueNonBlockMessage m c) = ?c"
    using Cons.prems by (simp add: EnqueueNonBlockMessage_def EnqueueNonBlockContinueMessage_def enqueue_guard_def)
  then show ?case
    using Cons.IH [of ?c] Cons.prems push_message_newest [of "cn_messages c" m]
    by (simp add: newest_newest)
qed simp

text \<open>What a list of messages looks like on the wire: metadata first, numbered from \<open>seq + 1\<close>.\<close>

fun wire_messages :: "go_int \<Rightarrow> go_int \<Rightarrow> message list \<Rightarrow> message list" where
  "wire_messages v seq [] = []"
| "wire_messages v seq (m # ms) =
     (case Meta m of
        None \<Rightarrow> Message (Cmd m) (seq + 1) v (Flag m) (Body m) None # wire_messages v (seq + 1) ms
      | Some meta \<Rightarrow> Message MSG_METADATA (seq + 1) v 0 (Some (BMetadata meta)) None
          # Message (Cmd m) (seq + 2) v (Flag m) (Body m) None # wire_messages v (seq + 2) ms)"

lemma write_all:
  assumes "\<not> sint (cn_tc c) > 0" "\<not> cn_broken c"
  shows "cn_out (foldl (\<lambda>c m. write_message m c) c ms) = cn_out c @ wire_messages (cn_version c) (cn_seq c) ms
    \<and> cn_messages (foldl (\<lambda>c m. write_message m c) c ms) = cn_messages c"
  using assms
proof (induction ms arbitrary: c)
  case (Cons m ms)
  have "\<not> sint (cn_tc (write_message m c)) > 0" "\<not> cn_broken (write_message m c)"
    using Cons.prems by (auto simp: write_message_def conn_send_def Let_def split: option.splits)
  from Cons.IH [OF this] Cons.prems show ?case
    by (auto simp: write_message_def conn_send_def Let_def add.assoc split: option.splits)
qed simp

end
