(* ===== verification/ImRoute.thy ===== *)
theory ImRoute
  imports GoSets Connection
begin

text \<open>
  \<^verbatim>\<open>im/route.go\<close> and \<^verbatim>\<open>im/app_route.go\<close>: the connections of an im server by
  application, by user and by room. A \<open>Client\<close> is a pointer of the type \<open>'c\<close>.
\<close>

record 'c im_route =
  rt_appid :: int64
  rt_clients :: "int64 \<rightharpoonup> 'c set"
  rt_room_clients :: "int64 \<rightharpoonup> 'c set"

definition im_NewRoute :: "int64 \<Rightarrow> 'c im_route" where
  "im_NewRoute appid = \<lparr>rt_appid = appid, rt_clients = Map.empty, rt_room_clients = Map.empty\<rparr>"

text \<open>The steps that the two maps of a route share.\<close>

definition add_member :: "int64 \<Rightarrow> 'c \<Rightarrow> (int64 \<rightharpoonup> 'c set) \<Rightarrow> (int64 \<rightharpoonup> 'c set)" where
  "add_member k c m =
     (let s = (case m k of None \<Rightarrow> NewClientSet | Some s \<Rightarrow> s) in m(k \<mapsto> ClientSet_Add c s))"

definition remove_member :: "int64 \<Rightarrow> 'c \<Rightarrow> (int64 \<rightharpoonup> 'c set) \<Rightarrow> bool \<times> (int64 \<rightharpoonup> 'c set)" where
  "remove_member k c m =
     (case m k of
        None \<Rightarrow> (False, m)
      | Some s \<Rightarrow>
          let s = ClientSet_Remove c s in (True, if ClientSet_Count s = 0 then m(k := None) else m(k \<mapsto> s)))"

text \<open>A \<open>nil\<close> set and an empty one are the same for the callers.\<close>

definition find_members :: "int64 \<Rightarrow> (int64 \<rightharpoonup> 'c set) \<Rightarrow> 'c set" where
  "find_members k m = (case m k of None \<Rightarrow> {} | Some s \<Rightarrow> ClientSet_Clone s)"

definition AddRoomClient :: "int64 \<Rightarrow> 'c \<Rightarrow> 'c im_route \<Rightarrow> 'c im_route" where
  "AddRoomClient room_id c r = r\<lparr>rt_room_clients := add_member room_id c (rt_room_clients r)\<rparr>"

definition route_FindRoomClientSet :: "int64 \<Rightarrow> 'c im_route \<Rightarrow> 'c set" where
  "route_FindRoomClientSet room_id r = find_members room_id (rt_room_clients r)"

definition RemoveRoomClient :: "int64 \<Rightarrow> 'c \<Rightarrow> 'c im_route \<Rightarrow> bool \<times> 'c im_route" where
  "RemoveRoomClient room_id c r =
     (let (ok, m) = remove_member room_id c (rt_room_clients r) in (ok, r\<lparr>rt_room_clients := m\<rparr>))"

text \<open>\<open>uid\<close> is the user of the client at the time of the call.\<close>

definition route_AddClient :: "int64 \<Rightarrow> 'c \<Rightarrow> 'c im_route \<Rightarrow> 'c im_route" where
  "route_AddClient uid c r = r\<lparr>rt_clients := add_member uid c (rt_clients r)\<rparr>"

definition route_RemoveClient :: "int64 \<Rightarrow> 'c \<Rightarrow> 'c im_route \<Rightarrow> bool \<times> 'c im_route" where
  "route_RemoveClient uid c r =
     (let (ok, m) = remove_member uid c (rt_clients r) in (ok, r\<lparr>rt_clients := m\<rparr>))"

definition route_FindClientSet :: "int64 \<Rightarrow> 'c im_route \<Rightarrow> 'c set" where
  "route_FindClientSet uid r = find_members uid (rt_clients r)"

definition route_IsOnline :: "int64 \<Rightarrow> 'c im_route \<Rightarrow> bool" where
  "route_IsOnline uid r = (case rt_clients r uid of None \<Rightarrow> False | Some s \<Rightarrow> ClientSet_Count s > 0)"

definition route_GetUserIDs :: "'c im_route \<Rightarrow> int64 set" where
  "route_GetUserIDs r = NewIntSet"

type_synonym 'c im_app_route = "int64 \<rightharpoonup> 'c im_route"

definition im_FindOrAddRoute :: "int64 \<Rightarrow> 'c im_app_route \<Rightarrow> 'c im_route \<times> 'c im_app_route" where
  "im_FindOrAddRoute appid apps =
     (case apps appid of
        Some route \<Rightarrow> (route, apps)
      | None \<Rightarrow> (im_NewRoute appid, apps(appid \<mapsto> im_NewRoute appid)))"

definition im_FindRoute :: "int64 \<Rightarrow> 'c im_app_route \<Rightarrow> 'c im_route option" where
  "im_FindRoute appid apps = apps appid"

definition im_AddRoute :: "'c im_route \<Rightarrow> 'c im_app_route \<Rightarrow> 'c im_app_route" where
  "im_AddRoute route apps = apps(rt_appid route \<mapsto> route)"

definition im_GetUsers :: "'c im_app_route \<Rightarrow> (int64 \<rightharpoonup> int64 set)" where
  "im_GetUsers apps = (\<lambda>appid. map_option route_GetUserIDs (apps appid))"

section \<open>Membership\<close>

lemma find_add [simp]:
  "find_members k (add_member k' c m) = (if k = k' then insert c (find_members k m) else find_members k m)"
  by (auto simp: find_members_def add_member_def split: option.splits)

lemma find_remove [simp]:
  assumes "finite (find_members k' m)"
  shows "find_members k (snd (remove_member k' c m)) =
    (if k = k' then find_members k m - {c} else find_members k m)"
  using assms by (auto simp: find_members_def remove_member_def Let_def split: option.splits)

lemma find_empty [simp]: "find_members k Map.empty = {}"
  by (simp add: find_members_def)

end
