(* ===== verification/Group.thy ===== *)
theory Group
  imports Prelude
begin

text \<open>
  \<^verbatim>\<open>im/group.go\<close> and \<^verbatim>\<open>im/group_manager.go\<close>: a group with its members, the
  cache of the groups, the events that keep it up to date and the loads from the database. The MySQL
  tables are the parameter \<open>db\<close>, the time is a parameter \<open>now\<close>.
\<close>

unbundle bit_operations_syntax

section \<open>A group\<close>

text \<open>A member's value holds the time it joined in the low 31 bits and whether it is mute in bit 31.\<close>

record group =
  gr_gid :: int64
  gr_appid :: int64
  gr_super :: bool
  gr_members :: "int64 \<rightharpoonup> int64"
  gr_ts :: go_int

definition NewGroup :: "go_int \<Rightarrow> int64 \<Rightarrow> int64 \<Rightarrow> (int64 \<rightharpoonup> int64) \<Rightarrow> group" where
  "NewGroup now gid appid members =
     \<lparr>gr_gid = gid, gr_appid = appid, gr_super = False, gr_members = members, gr_ts = now\<rparr>"

definition NewSuperGroup :: "go_int \<Rightarrow> int64 \<Rightarrow> int64 \<Rightarrow> (int64 \<rightharpoonup> int64) \<Rightarrow> group" where
  "NewSuperGroup now gid appid members =
     \<lparr>gr_gid = gid, gr_appid = appid, gr_super = True, gr_members = members, gr_ts = now\<rparr>"

definition AddMember :: "int64 \<Rightarrow> go_int \<Rightarrow> group \<Rightarrow> group" where
  "AddMember uid timestamp g = g\<lparr>gr_members := (gr_members g)(uid \<mapsto> timestamp)\<rparr>"

definition RemoveMember :: "int64 \<Rightarrow> group \<Rightarrow> group" where
  "RemoveMember uid g =
     (if gr_members g uid = None then g else g\<lparr>gr_members := (gr_members g)(uid := None)\<rparr>)"

definition SetMemberMute :: "int64 \<Rightarrow> bool \<Rightarrow> group \<Rightarrow> group" where
  "SetMemberMute uid mute g =
     (let m = (if mute then 1 else 0)
      in case gr_members g uid of
           None \<Rightarrow> g
         | Some val \<Rightarrow> g\<lparr>gr_members := (gr_members g)(uid \<mapsto> (val AND 0x7FFFFFFF) OR push_bit 31 m)\<rparr>)"

definition IsMember :: "int64 \<Rightarrow> group \<Rightarrow> bool" where
  "IsMember uid g = (gr_members g uid \<noteq> None)"

definition member_value :: "int64 \<Rightarrow> group \<Rightarrow> int64" where
  "member_value uid g = (case gr_members g uid of None \<Rightarrow> 0 | Some v \<Rightarrow> v)"

definition GetMemberTimestamp :: "int64 \<Rightarrow> group \<Rightarrow> go_int" where
  "GetMemberTimestamp uid g = member_value uid g AND 0x7FFFFFFF"

definition GetMemberMute :: "int64 \<Rightarrow> group \<Rightarrow> bool" where
  "GetMemberMute uid g = (signed_drop_bit 31 (member_value uid g) AND 1 \<noteq> 0)"

definition IsEmpty :: "group \<Rightarrow> bool" where
  "IsEmpty g = Set.is_empty (dom (gr_members g))"

section \<open>The database\<close>

text \<open>
  \<open>db_group\<close>: the row (id, appid, super) of a group, \<open>None\<close> where the query fails; \<open>db_members\<close>: the
  rows (uid, timestamp, mute) of its members.
\<close>

record db =
  db_group :: "int64 \<Rightarrow> (int64 \<times> int64 \<times> int8) option"
  db_members :: "int64 \<Rightarrow> (int64 \<times> int64 \<times> int64) list option"

definition LoadGroupMember :: "db \<Rightarrow> int64 \<Rightarrow> (int64 \<rightharpoonup> int64) option" where
  "LoadGroupMember d group_id =
     map_option (foldl (\<lambda>members (uid, timestamp, mute). members(uid \<mapsto> timestamp OR push_bit 31 mute)) Map.empty)
       (db_members d group_id)"

definition db_LoadGroup :: "db \<Rightarrow> go_int \<Rightarrow> int64 \<Rightarrow> group option" where
  "db_LoadGroup d now group_id =
     (case db_group d group_id of
        None \<Rightarrow> None
      | Some (i, appid, super) \<Rightarrow>
          (case LoadGroupMember d i of
             None \<Rightarrow> None
           | Some members \<Rightarrow>
               Some (if super \<noteq> 0 then NewSuperGroup now i appid members
                     else NewGroup now i appid members)))"

section \<open>The cache of groups\<close>

record group_manager =
  gm_groups :: "int64 \<rightharpoonup> group"
  gm_action_id :: int64
  gm_last_entry_id :: string
  gm_dirty :: bool

definition NewGroupManager :: group_manager where
  "NewGroupManager = \<lparr>gm_groups = Map.empty, gm_action_id = 0, gm_last_entry_id = '''', gm_dirty = True\<rparr>"

definition touch :: "go_int \<Rightarrow> int64 \<Rightarrow> group_manager \<Rightarrow> group_manager" where
  "touch now gid gm =
     (case gm_groups gm gid of
        None \<Rightarrow> gm
      | Some g \<Rightarrow> gm\<lparr>gm_groups := (gm_groups gm)(gid \<mapsto> g\<lparr>gr_ts := now\<rparr>)\<rparr>)"

definition FindGroup :: "go_int \<Rightarrow> int64 \<Rightarrow> group_manager \<Rightarrow> group option \<times> group_manager" where
  "FindGroup now gid gm = (let gm = touch now gid gm in (gm_groups gm gid, gm))"

definition gm_LoadGroup :: "db \<Rightarrow> go_int \<Rightarrow> int64 \<Rightarrow> group_manager \<Rightarrow> group option \<times> group_manager" where
  "gm_LoadGroup d now gid gm =
     (if gm_groups gm gid \<noteq> None then FindGroup now gid gm
      else case db_LoadGroup d now gid of
             None \<Rightarrow> (None, gm)
           | Some g \<Rightarrow> (Some g, gm\<lparr>gm_groups := (gm_groups gm)(gid \<mapsto> g)\<rparr>))"

definition gm_clear :: "group_manager \<Rightarrow> group_manager" where
  "gm_clear gm = gm\<lparr>gm_groups := Map.empty\<rparr>"

section \<open>Events\<close>

record group_event =
  ge_Id :: string
  ge_ActionId :: int64
  ge_PreviousActionId :: int64
  ge_Name :: string
  ge_AppId :: int64
  ge_GroupId :: int64
  ge_MemberId :: int64
  ge_IsSuper :: bool
  ge_IsMute :: bool

definition HandleCreate :: "go_int \<Rightarrow> group_event \<Rightarrow> group_manager \<Rightarrow> group_manager" where
  "HandleCreate now e gm =
     (let gid = ge_GroupId e; appid = ge_AppId e
      in if gid = 0 \<or> appid = 0 then gm
         else gm\<lparr>gm_groups := (gm_groups gm)(gid \<mapsto>
                (if ge_IsSuper e then NewSuperGroup now gid appid Map.empty
                 else NewGroup now gid appid Map.empty))\<rparr>)"

definition HandleDisband :: "group_event \<Rightarrow> group_manager \<Rightarrow> group_manager" where
  "HandleDisband e gm =
     (let gid = ge_GroupId e
      in if gid = 0 then gm
         else if gm_groups gm gid \<noteq> None then gm\<lparr>gm_groups := (gm_groups gm)(gid := None)\<rparr> else gm)"

text \<open>The other events change a group that is found, which is the object in the map.\<close>

definition change_group ::
  "go_int \<Rightarrow> int64 \<Rightarrow> (group \<Rightarrow> group) \<Rightarrow> group_manager \<Rightarrow> group_manager"
where
  "change_group now gid f gm =
     (let (group, gm) = FindGroup now gid gm
      in case group of
           None \<Rightarrow> gm
         | Some g \<Rightarrow> gm\<lparr>gm_groups := (gm_groups gm)(gid \<mapsto> f g)\<rparr>)"

definition HandleUpgrade :: "go_int \<Rightarrow> group_event \<Rightarrow> group_manager \<Rightarrow> group_manager" where
  "HandleUpgrade now e gm =
     (if ge_GroupId e = 0 then gm
      else if \<not> ge_IsSuper e then gm
      else change_group now (ge_GroupId e) (\<lambda>g. g\<lparr>gr_super := ge_IsSuper e\<rparr>) gm)"

definition HandleMemberAdd :: "go_int \<Rightarrow> group_event \<Rightarrow> group_manager \<Rightarrow> group_manager" where
  "HandleMemberAdd now e gm =
     (if ge_GroupId e = 0 \<or> ge_MemberId e = 0 then gm
      else change_group now (ge_GroupId e) (AddMember (ge_MemberId e) now) gm)"

definition HandleMemberRemove :: "go_int \<Rightarrow> group_event \<Rightarrow> group_manager \<Rightarrow> group_manager" where
  "HandleMemberRemove now e gm =
     (if ge_GroupId e = 0 \<or> ge_MemberId e = 0 then gm
      else change_group now (ge_GroupId e) (RemoveMember (ge_MemberId e)) gm)"

definition HandleMute :: "go_int \<Rightarrow> group_event \<Rightarrow> group_manager \<Rightarrow> group_manager" where
  "HandleMute now e gm =
     (if ge_GroupId e = 0 \<or> ge_MemberId e = 0 then gm
      else change_group now (ge_GroupId e) (SetMemberMute (ge_MemberId e) (ge_IsMute e)) gm)"

definition handleEvent :: "go_int \<Rightarrow> group_event \<Rightarrow> group_manager \<Rightarrow> group_manager" where
  "handleEvent now e gm =
     (let gm = (if gm_action_id gm \<noteq> ge_PreviousActionId e then gm\<lparr>gm_dirty := True\<rparr> else gm);
          gm = (if ge_Name e = ''group_create'' then HandleCreate now e gm
                else if ge_Name e = ''group_disband'' then HandleDisband e gm
                else if ge_Name e = ''group_upgrade'' then HandleUpgrade now e gm
                else if ge_Name e = ''group_member_add'' then HandleMemberAdd now e gm
                else if ge_Name e = ''group_member_remove'' then HandleMemberRemove now e gm
                else if ge_Name e = ''group_member_mute'' then HandleMute now e gm
                else gm)
      in gm\<lparr>gm_action_id := ge_ActionId e, gm_last_entry_id := ge_Id e\<rparr>)"

text \<open>
  \<open>load\<close>: the ids that redis holds when both reads succeed. \<open>event_round\<close> is one round of the loop of
  \<open>RunOnce\<close>: the events that were read, then the lazy clearing; it returns \<open>last_clear_ts\<close> with the state.
\<close>

definition gm_load :: "int64 \<Rightarrow> string \<Rightarrow> group_manager \<Rightarrow> group_manager" where
  "gm_load action_id entry_id gm =
     gm\<lparr>gm_last_entry_id := entry_id, gm_action_id := action_id, gm_dirty := False\<rparr>"

definition event_round ::
  "go_int \<Rightarrow> group_event list \<Rightarrow> int64 \<times> group_manager \<Rightarrow> int64 \<times> group_manager"
where
  "event_round now events s =
     (let (last_clear_ts, gm) = s; gm = foldl (\<lambda>gm e. handleEvent now e gm) gm events
      in if gm_dirty gm \<and> sint (now - last_clear_ts) \<ge> 60
         then (now, (gm_clear gm)\<lparr>gm_dirty := False\<rparr>) else (last_clear_ts, gm))"

definition gm_Recycle :: "go_int \<Rightarrow> group_manager \<Rightarrow> group_manager" where
  "gm_Recycle now gm =
     gm\<lparr>gm_groups := (\<lambda>k. case gm_groups gm k of
         None \<Rightarrow> None
       | Some g \<Rightarrow> if sint (now - gr_ts g) > 60 * 60 then None else Some g)\<rparr>"

end
