(* ===== verification/Relationship.thy ===== *)
theory Relationship
  imports Prelude
begin

text \<open>
  \<^verbatim>\<open>im/relationship.go\<close> and \<^verbatim>\<open>im/relationship_pool.go\<close>: what two users are to
  each other, as four bits, and the cache of these values that the events of a redis stream keep up to
  date. The two MySQL tables are the parameter \<open>rd\<close>.
\<close>

unbundle bit_operations_syntax

section \<open>Relationships\<close>

type_synonym relationship = int32

abbreviation NoneRelationship :: relationship where "NoneRelationship \<equiv> 0"

definition NewRelationship :: "bool \<Rightarrow> bool \<Rightarrow> bool \<Rightarrow> bool \<Rightarrow> relationship" where
  "NewRelationship is_my_friend is_your_friend is_in_my_blacklist is_in_your_blacklist =
     (let r = 0;
          r = (if is_my_friend then r OR 0x01 else r);
          r = (if is_your_friend then r OR 0x02 else r);
          r = (if is_in_my_blacklist then r OR 0x04 else r)
      in if is_in_your_blacklist then r OR 0x08 else r)"

definition IsMyFriend :: "relationship \<Rightarrow> bool" where
  "IsMyFriend rs \<longleftrightarrow> rs AND 0x01 \<noteq> 0"

definition IsYourFriend :: "relationship \<Rightarrow> bool" where
  "IsYourFriend rs \<longleftrightarrow> rs AND 0x02 \<noteq> 0"

definition IsInMyBlacklist :: "relationship \<Rightarrow> bool" where
  "IsInMyBlacklist rs \<longleftrightarrow> rs AND 0x04 \<noteq> 0"

definition IsInYourBlacklist :: "relationship \<Rightarrow> bool" where
  "IsInYourBlacklist rs \<longleftrightarrow> rs AND 0x08 \<noteq> 0"

definition reverse_rs :: "relationship \<Rightarrow> relationship" where
  "reverse_rs rs =
     NewRelationship (IsYourFriend rs) (IsMyFriend rs) (IsInYourBlacklist rs) (IsInMyBlacklist rs)"

text \<open>
  \<open>rd_ok\<close>: whether the statements can be prepared. A row that cannot be scanned, for whatever reason,
  counts as missing.
\<close>

record relation_db =
  rd_ok :: bool
  rd_friend :: "int64 \<Rightarrow> int64 \<Rightarrow> int64 \<Rightarrow> bool"
  rd_blacklist :: "int64 \<Rightarrow> int64 \<Rightarrow> int64 \<Rightarrow> bool"

definition db_GetRelationship :: "relation_db \<Rightarrow> int64 \<Rightarrow> int64 \<Rightarrow> int64 \<Rightarrow> relationship option" where
  "db_GetRelationship rd appid uid friend_uid =
     (if \<not> rd_ok rd then None
      else Some (NewRelationship (rd_friend rd appid uid friend_uid) (rd_friend rd appid friend_uid uid)
                  (rd_blacklist rd appid uid friend_uid) (rd_blacklist rd appid friend_uid uid)))"

section \<open>The cache\<close>

text \<open>
  The key \<open>"%d:%d:%d"\<close> is the triple of the application and the two users, the smaller one first;
  \<open>parseKey\<close> reads the triple back.
\<close>

record relationship_item =
  ri_rs :: relationship
  ri_ts :: go_int

record relationship_pool =
  rp_items :: "int64 \<times> int64 \<times> int64 \<rightharpoonup> relationship_item"
  rp_dirty :: bool
  rp_last_entry_id :: string
  rp_action_id :: int64

definition NewRelationshipPool :: relationship_pool where
  "NewRelationshipPool = \<lparr>rp_items = Map.empty, rp_dirty = False, rp_last_entry_id = '''', rp_action_id = 0\<rparr>"

definition pool_GetRelationship ::
  "relation_db \<Rightarrow> go_int \<Rightarrow> int64 \<Rightarrow> int64 \<Rightarrow> int64 \<Rightarrow> relationship_pool
   \<Rightarrow> relationship \<times> relationship_pool"
where
  "pool_GetRelationship rd now appid uid friend_uid rp =
     (let reverse = sint uid > sint friend_uid;
          (uid, friend_uid) = (if reverse then (friend_uid, uid) else (uid, friend_uid));
          key = (appid, uid, friend_uid)
      in case rp_items rp key of
           Some r \<Rightarrow>
             (if reverse then reverse_rs (ri_rs r) else ri_rs r,
              rp\<lparr>rp_items := (rp_items rp)(key \<mapsto> r\<lparr>ri_ts := now\<rparr>)\<rparr>)
         | None \<Rightarrow>
             (case db_GetRelationship rd appid uid friend_uid of
                None \<Rightarrow> (NoneRelationship, rp)
              | Some rs \<Rightarrow>
                  (if reverse then reverse_rs rs else rs,
                   rp\<lparr>rp_items := (rp_items rp)(key \<mapsto> \<lparr>ri_rs = rs, ri_ts = now\<rparr>)\<rparr>)))"

text \<open>The change of an item that is cached; the pool holds pointers, so the item changes in place.\<close>

definition change_item ::
  "int64 \<times> int64 \<times> int64 \<Rightarrow> (relationship \<Rightarrow> relationship) \<Rightarrow> relationship_pool \<Rightarrow> relationship_pool"
where
  "change_item key f rp =
     (case rp_items rp key of
        None \<Rightarrow> rp
      | Some r \<Rightarrow> rp\<lparr>rp_items := (rp_items rp)(key \<mapsto> r\<lparr>ri_rs := f (ri_rs r)\<rparr>)\<rparr>)"

definition with_my_friend :: "bool \<Rightarrow> relationship \<Rightarrow> relationship" where
  "with_my_friend b rs = NewRelationship b (IsYourFriend rs) (IsInMyBlacklist rs) (IsInYourBlacklist rs)"

definition with_your_friend :: "bool \<Rightarrow> relationship \<Rightarrow> relationship" where
  "with_your_friend b rs = NewRelationship (IsMyFriend rs) b (IsInMyBlacklist rs) (IsInYourBlacklist rs)"

definition with_my_blacklist :: "bool \<Rightarrow> relationship \<Rightarrow> relationship" where
  "with_my_blacklist b rs = NewRelationship (IsMyFriend rs) (IsYourFriend rs) b (IsInYourBlacklist rs)"

definition with_your_blacklist :: "bool \<Rightarrow> relationship \<Rightarrow> relationship" where
  "with_your_blacklist b rs = NewRelationship (IsMyFriend rs) (IsYourFriend rs) (IsInMyBlacklist rs) b"

text \<open>
  The four setters. Where the first user is the greater one, the code calls the setter of the other
  side with the users exchanged, which then finds them in order.
\<close>

definition SetMyFriend :: "int64 \<Rightarrow> int64 \<Rightarrow> int64 \<Rightarrow> bool \<Rightarrow> relationship_pool \<Rightarrow> relationship_pool" where
  "SetMyFriend appid uid friend_uid b rp =
     (if sint uid > sint friend_uid then change_item (appid, friend_uid, uid) (with_your_friend b) rp
      else change_item (appid, uid, friend_uid) (with_my_friend b) rp)"

definition SetYourFriend :: "int64 \<Rightarrow> int64 \<Rightarrow> int64 \<Rightarrow> bool \<Rightarrow> relationship_pool \<Rightarrow> relationship_pool" where
  "SetYourFriend appid uid friend_uid b rp =
     (if sint uid > sint friend_uid then change_item (appid, friend_uid, uid) (with_my_friend b) rp
      else change_item (appid, uid, friend_uid) (with_your_friend b) rp)"

definition SetInMyBlacklist :: "int64 \<Rightarrow> int64 \<Rightarrow> int64 \<Rightarrow> bool \<Rightarrow> relationship_pool \<Rightarrow> relationship_pool" where
  "SetInMyBlacklist appid uid friend_uid b rp =
     (if sint uid > sint friend_uid then change_item (appid, friend_uid, uid) (with_your_blacklist b) rp
      else change_item (appid, uid, friend_uid) (with_my_blacklist b) rp)"

definition SetInYourBlacklist :: "int64 \<Rightarrow> int64 \<Rightarrow> int64 \<Rightarrow> bool \<Rightarrow> relationship_pool \<Rightarrow> relationship_pool" where
  "SetInYourBlacklist appid uid friend_uid b rp =
     (if sint uid > sint friend_uid then change_item (appid, friend_uid, uid) (with_my_blacklist b) rp
      else change_item (appid, uid, friend_uid) (with_your_blacklist b) rp)"

definition pool_Recycle :: "go_int \<Rightarrow> relationship_pool \<Rightarrow> relationship_pool" where
  "pool_Recycle now rp =
     rp\<lparr>rp_items := (\<lambda>k. case rp_items rp k of
         None \<Rightarrow> None
       | Some r \<Rightarrow> if sint (now - ri_ts r) > 60 * 60 then None else Some r)\<rparr>"

text \<open>Only what was used in the last ten minutes is loaded again, the rest is forgotten.\<close>

definition ReloadRelation :: "relation_db \<Rightarrow> go_int \<Rightarrow> relationship_pool \<Rightarrow> relationship_pool" where
  "ReloadRelation rd now rp =
     rp\<lparr>rp_items := (\<lambda>k. case rp_items rp k of
         None \<Rightarrow> None
       | Some r \<Rightarrow>
           if sint (now - ri_ts r) < 10 * 60
           then (case k of (appid, uid, friend_uid) \<Rightarrow>
             map_option (\<lambda>rs. \<lparr>ri_rs = rs, ri_ts = now\<rparr>) (db_GetRelationship rd appid uid friend_uid))
           else None)\<rparr>"

section \<open>Events\<close>

record relationship_event =
  re_Id :: string
  re_ActionId :: int64
  re_PreviousActionId :: int64
  re_Name :: string
  re_AppId :: int64
  re_Uid :: int64
  re_FriendUid :: int64
  re_IsFriend :: bool
  re_IsBlacklist :: bool

definition HandleFriend :: "relationship_event \<Rightarrow> relationship_pool \<Rightarrow> relationship_pool" where
  "HandleFriend e rp =
     (if re_AppId e = 0 \<or> re_Uid e = 0 \<or> re_FriendUid e = 0 then rp
      else SetMyFriend (re_AppId e) (re_Uid e) (re_FriendUid e) (re_IsFriend e) rp)"

definition HandleBlacklist :: "relationship_event \<Rightarrow> relationship_pool \<Rightarrow> relationship_pool" where
  "HandleBlacklist e rp =
     (if re_AppId e = 0 \<or> re_Uid e = 0 \<or> re_FriendUid e = 0 then rp
      else SetInMyBlacklist (re_AppId e) (re_Uid e) (re_FriendUid e) (re_IsBlacklist e) rp)"

definition pool_handleEvent :: "relationship_event \<Rightarrow> relationship_pool \<Rightarrow> relationship_pool" where
  "pool_handleEvent e rp =
     (let rp = (if rp_action_id rp \<noteq> re_PreviousActionId e then rp\<lparr>rp_dirty := True\<rparr> else rp);
          rp = (if re_Name e = ''friend'' then HandleFriend e rp
                else if re_Name e = ''blacklist'' then HandleBlacklist e rp else rp)
      in rp\<lparr>rp_action_id := re_ActionId e, rp_last_entry_id := re_Id e\<rparr>)"

definition pool_load :: "int64 \<Rightarrow> string \<Rightarrow> relationship_pool \<Rightarrow> relationship_pool" where
  "pool_load action_id entry_id rp =
     rp\<lparr>rp_last_entry_id := entry_id, rp_action_id := action_id, rp_dirty := False\<rparr>"

definition pool_round ::
  "relation_db \<Rightarrow> go_int \<Rightarrow> relationship_event list \<Rightarrow> int64 \<times> relationship_pool \<Rightarrow> int64 \<times> relationship_pool"
where
  "pool_round rd now events s =
     (let (last_clear_ts, rp) = s; rp = foldl (\<lambda>rp e. pool_handleEvent e rp) rp events
      in if rp_dirty rp \<and> sint (now - last_clear_ts) \<ge> 60
         then (now, (ReloadRelation rd now rp)\<lparr>rp_dirty := False\<rparr>) else (last_clear_ts, rp))"

section \<open>The bits\<close>

lemma NewRelationship_bits [simp]:
  "IsMyFriend (NewRelationship a b c d) = a" "IsYourFriend (NewRelationship a b c d) = b"
  "IsInMyBlacklist (NewRelationship a b c d) = c" "IsInYourBlacklist (NewRelationship a b c d) = d"
  by (cases a; cases b; cases c; cases d;
      simp add: NewRelationship_def IsMyFriend_def IsYourFriend_def IsInMyBlacklist_def IsInYourBlacklist_def)+

lemma reverse_bits [simp]:
  "IsMyFriend (reverse_rs rs) = IsYourFriend rs" "IsYourFriend (reverse_rs rs) = IsMyFriend rs"
  "IsInMyBlacklist (reverse_rs rs) = IsInYourBlacklist rs"
  "IsInYourBlacklist (reverse_rs rs) = IsInMyBlacklist rs"
  by (simp_all add: reverse_rs_def)

end
