(* ===== verification/Im.thy ===== *)
theory Im
  imports ImRoute Channel Group Relationship StorageRpc
begin

text \<open>
  \<^verbatim>\<open>im/im.go\<close>: the state of an im server with the storage servers it calls, the choice of a
  storage server or a channel for a user, the saves, and what is published, pushed and dispatched.
\<close>

section \<open>State and configuration\<close>

text \<open>
  A call of a remote procedure (\<^verbatim>\<open>gorpc\<close>) is delivered, or fails with its request or its reply
  lost; \<open>cf_net\<close> is the fate of the n-th call. The lists hold the numbers of the storage servers and of
  the channels: where no servers of their own are configured for super groups, the lists are the same.
  \<open>cf_order\<close> is the order in which \<open>range\<close> visits the members of a group, \<open>cf_filter\<close> what the
  dirty word filter makes of a content, \<open>cf_db\<close> and \<open>cf_relation_db\<close> the MySQL tables.
  \<open>cf_batch_order\<close> is the order of \<open>range\<close> over the batches of a group message. \<open>cf_token\<close> (application and
  user of a token), \<open>cf_preferences\<close> (\<open>forbidden\<close> and \<open>notification_on\<close> of a user) and \<open>cf_device\<close> (the
  number of a device) are what redis answers, \<open>None\<close> an error.
\<close>

datatype fate = Delivered | Request_lost | Reply_lost

record im_config =
  cf_rpc_clients :: "nat list"
  cf_group_rpc_clients :: "nat list"
  cf_route_channels :: "nat list"
  cf_group_route_channels :: "nat list"
  cf_kefu_appid :: int64
  cf_friend_permission :: bool
  cf_enable_blacklist :: bool
  cf_sync_limit :: int
  cf_sync_hard_limit :: int
  cf_net :: "nat \<Rightarrow> fate"
  cf_order :: "(int64 \<rightharpoonup> int64) \<Rightarrow> int64 list"
  cf_filter :: "bytes \<Rightarrow> bytes"
  cf_db :: db
  cf_relation_db :: relation_db
  cf_batch_order :: "(int64 \<times> int64 list) list \<Rightarrow> (int64 \<times> int64 list) list"
  cf_deliver_count :: nat
  cf_token :: "bytes \<Rightarrow> (int64 \<times> int64) option"
  cf_preferences :: "int64 \<Rightarrow> int64 \<Rightarrow> (go_int \<times> bool) option"
  cf_device :: "bytes \<Rightarrow> go_int \<Rightarrow> int64 option"

text \<open>
  \<open>im_now\<close> is the clock in nanoseconds. \<open>im_sync_keys\<close>, \<open>im_group_sync_keys\<close> and \<open>im_unread\<close> are the
  values that redis holds for a user, \<open>im_sync_c\<close> and \<open>im_group_sync_c\<close> the channels of \<open>SyncKeyService\<close>.
\<close>

record 'c im =
  im_apps :: "'c im_app_route"
  im_client :: "'c \<Rightarrow> connection"
  im_chan :: "nat \<Rightarrow> channel"
  im_store :: "nat \<Rightarrow> ims"
  im_calls :: nat
  im_now :: int64
  im_groups :: group_manager
  im_pool :: relationship_pool
  im_sync_keys :: "int64 \<times> int64 \<Rightarrow> int64"
  im_group_sync_keys :: "int64 \<times> int64 \<times> int64 \<Rightarrow> int64"
  im_unread :: "int64 \<times> int64 \<Rightarrow> int32"
  im_sync_c :: "(int64 \<times> int64 \<times> int64) list"
  im_group_sync_c :: "(int64 \<times> int64 \<times> int64 \<times> int64) list"

definition unix_now :: "'c im \<Rightarrow> int64" where
  "unix_now st = word_of_int (sint (im_now st) sdiv 1000000000)"

definition update_conn :: "'c \<Rightarrow> (connection \<Rightarrow> connection) \<Rightarrow> 'c im \<Rightarrow> 'c im" where
  "update_conn c f st = st\<lparr>im_client := (im_client st)(c := f (im_client st c))\<rparr>"

definition update_chan :: "nat \<Rightarrow> (channel \<Rightarrow> channel) \<Rightarrow> 'c im \<Rightarrow> 'c im" where
  "update_chan i f st = st\<lparr>im_chan := (im_chan st)(i := f (im_chan st i))\<rparr>"

section \<open>Choosing a server\<close>

text \<open>
  The five functions that choose by the absolute value of an id. The smallest \<open>int64\<close> has none: its
  index is negative or zero, and indexing panics where it is negative, as it does on an empty list.
\<close>

definition pick :: "nat list \<Rightarrow> int64 \<Rightarrow> nat go" where
  "pick xs i =
     (let i = (if sint i < 0 then - i else i)
      in if xs = [] then Panic
         else
           let index = sint i smod int (length xs)
           in if index < 0 then Panic else Ret (xs ! nat index))"

definition GetStorageRPCClient :: "im_config \<Rightarrow> int64 \<Rightarrow> nat go" where
  "GetStorageRPCClient cf uid = pick (cf_rpc_clients cf) uid"

definition GetStorageRPCIndex :: "im_config \<Rightarrow> int64 \<Rightarrow> int64 go" where
  "GetStorageRPCIndex cf uid =
     (let uid = (if sint uid < 0 then - uid else uid)
      in if cf_rpc_clients cf = [] then Panic
         else Ret (word_of_int (sint uid smod int (length (cf_rpc_clients cf)))))"

definition GetGroupStorageRPCClient :: "im_config \<Rightarrow> int64 \<Rightarrow> nat go" where
  "GetGroupStorageRPCClient cf group_id = pick (cf_group_rpc_clients cf) group_id"

definition GetChannel :: "im_config \<Rightarrow> int64 \<Rightarrow> nat go" where
  "GetChannel cf uid = pick (cf_route_channels cf) uid"

definition GetGroupChannel :: "im_config \<Rightarrow> int64 \<Rightarrow> nat go" where
  "GetGroupChannel cf group_id = pick (cf_group_route_channels cf) group_id"

definition GetRoomChannel :: "im_config \<Rightarrow> int64 \<Rightarrow> nat go" where
  "GetRoomChannel cf room_id = pick (cf_route_channels cf) room_id"

section \<open>Remote calls\<close>

text \<open>A procedure that panics ends its server's process; the call fails, the files stay as they are.\<close>

definition rpc_call :: "im_config \<Rightarrow> nat \<Rightarrow> (ims \<Rightarrow> ('r \<times> ims) go) \<Rightarrow> 'c im \<Rightarrow> 'r option \<times> 'c im" where
  "rpc_call cf i f st =
     (let fate = cf_net cf (im_calls st); st = st\<lparr>im_calls := im_calls st + 1\<rparr>
      in case (if fate = Request_lost then Panic else f (im_store st i)) of
           Ret (r, s) \<Rightarrow>
             (if fate = Delivered then Some r else None, st\<lparr>im_store := (im_store st)(i := s)\<rparr>)
         | _ \<Rightarrow> (None, st))"

definition im_SaveGroupMessage ::
  "im_config \<Rightarrow> int64 \<Rightarrow> int64 \<Rightarrow> int64 \<Rightarrow> message \<Rightarrow> 'c im \<Rightarrow> ((int64 \<times> int64) option \<times> 'c im) go"
where
  "im_SaveGroupMessage cf appid gid device_id msg st =
     go_map (\<lambda>i. rpc_call cf i (rpc_SaveGroupMessage appid gid device_id (ucast (Cmd msg)) (msg_ToData msg)) st)
       (GetGroupStorageRPCClient cf gid)"

definition im_SavePeerGroupMessage ::
  "im_config \<Rightarrow> int64 \<Rightarrow> int64 list \<Rightarrow> int64 \<Rightarrow> message \<Rightarrow> 'c im \<Rightarrow> (int64 list option \<times> 'c im) go"
where
  "im_SavePeerGroupMessage cf appid members device_id m st =
     (case members of
        [] \<Rightarrow> Ret (Some [], st)
      | u # us \<Rightarrow>
          go_map (\<lambda>i. rpc_call cf i
              (rpc_SavePeerGroupMessage appid members device_id (ucast (Cmd m)) (msg_ToData m)) st)
            (GetStorageRPCClient cf u))"

definition im_SaveMessage ::
  "im_config \<Rightarrow> int64 \<Rightarrow> int64 \<Rightarrow> int64 \<Rightarrow> message \<Rightarrow> 'c im \<Rightarrow> ((int64 \<times> int64) option \<times> 'c im) go"
where
  "im_SaveMessage cf appid uid device_id m st =
     go_map (\<lambda>i. rpc_call cf i (rpc_SavePeerMessage appid uid device_id (ucast (Cmd m)) (msg_ToData m)) st)
       (GetStorageRPCClient cf uid)"

section \<open>Pushing and publishing\<close>

text \<open>
  \<open>members\<close> are the members of the group in the order of \<open>range\<close>. The receivers are collected by
  channel, in that order, and pushed once to each channel.
\<close>

definition push_receivers :: "message \<Rightarrow> int64 list \<Rightarrow> int64 list" where
  "push_receivers m members =
     (case Body m of Some (BIM im) \<Rightarrow> filter (\<lambda>u. u \<noteq> im_Sender im) members | _ \<Rightarrow> members)"

definition by_channel :: "im_config \<Rightarrow> int64 list \<Rightarrow> (nat \<Rightarrow> int64 list) go" where
  "by_channel cf us =
     go_fold (\<lambda>ch u. go_map (\<lambda>i. ch(i := ch i @ [u])) (GetChannel cf u)) (\<lambda>i. []) us"

definition PushGroupMessage :: "im_config \<Rightarrow> int64 \<Rightarrow> int64 list \<Rightarrow> message \<Rightarrow> 'c im \<Rightarrow> 'c im go" where
  "PushGroupMessage cf appid members m st =
     go_map (\<lambda>channels. st\<lparr>im_chan := (\<lambda>i.
         if channels i = [] then im_chan st i else ch_Push appid (channels i) m (im_chan st i))\<rparr>)
       (by_channel cf (push_receivers m members))"

definition PushMessage :: "im_config \<Rightarrow> int64 \<Rightarrow> int64 \<Rightarrow> message \<Rightarrow> 'c im \<Rightarrow> 'c im go" where
  "PushMessage cf appid uid m st = go_map (\<lambda>i. update_chan i (ch_Push appid [uid] m) st) (GetChannel cf uid)"

text \<open>The \<open>AppMessage\<close> of a message with its metadata.\<close>

definition app_message :: "int64 \<Rightarrow> int64 \<Rightarrow> message \<Rightarrow> 'c im \<Rightarrow> body" where
  "app_message appid receiver msg st =
     (case Meta msg of
        None \<Rightarrow> BApp appid receiver 0 0 0 (im_now st) (Some msg)
      | Some md \<Rightarrow> BApp appid receiver (md_SyncKey md) (md_PrevSyncKey md) 0 (im_now st) (Some msg))"

definition PublishMessage :: "im_config \<Rightarrow> int64 \<Rightarrow> int64 \<Rightarrow> message \<Rightarrow> 'c im \<Rightarrow> 'c im go" where
  "PublishMessage cf appid uid msg st =
     go_map (\<lambda>i. update_chan i (Publish (app_message appid uid msg st)) st) (GetChannel cf uid)"

definition PublishGroupMessage :: "im_config \<Rightarrow> int64 \<Rightarrow> int64 \<Rightarrow> message \<Rightarrow> 'c im \<Rightarrow> 'c im go" where
  "PublishGroupMessage cf appid group_id msg st =
     go_map (\<lambda>i. update_chan i (PublishGroup (app_message appid group_id msg st)) st) (GetGroupChannel cf group_id)"

section \<open>Dispatching to the connections of this server\<close>

text \<open>
  The loops \<open>for c := range clients\<close> over a set of connections, but \<open>client\<close>: each enqueues to a
  connection of its own.
\<close>

definition enqueue_clients :: "message \<Rightarrow> 'c set \<Rightarrow> 'c option \<Rightarrow> 'c im \<Rightarrow> 'c im" where
  "enqueue_clients msg s client st =
     st\<lparr>im_client := (\<lambda>c. if c \<in> s \<and> Some c \<noteq> client
        then snd (EnqueueNonBlockMessage msg (im_client st c)) else im_client st c)\<rparr>"

definition DispatchMessageToPeer :: "message \<Rightarrow> int64 \<Rightarrow> int64 \<Rightarrow> 'c option \<Rightarrow> 'c im \<Rightarrow> bool \<times> 'c im" where
  "DispatchMessageToPeer msg uid appid client st =
     (case im_FindRoute appid (im_apps st) of
        None \<Rightarrow> (False, st)
      | Some route \<Rightarrow>
          let clients = route_FindClientSet uid route
          in if Set.is_empty clients then (False, st) else (True, enqueue_clients msg clients client st))"

definition DispatchMessageToGroup ::
  "message \<Rightarrow> int64 list \<Rightarrow> int64 \<Rightarrow> 'c option \<Rightarrow> 'c im \<Rightarrow> bool \<times> 'c im"
where
  "DispatchMessageToGroup msg members appid client st =
     (case im_FindRoute appid (im_apps st) of
        None \<Rightarrow> (False, st)
      | Some route \<Rightarrow>
          (True, foldl (\<lambda>st u. enqueue_clients msg (route_FindClientSet u route) client st) st members))"

definition DispatchMessageToRoom :: "message \<Rightarrow> int64 \<Rightarrow> int64 \<Rightarrow> 'c option \<Rightarrow> 'c im \<Rightarrow> bool \<times> 'c im" where
  "DispatchMessageToRoom msg room_id appid client st =
     (let (route, apps) = im_FindOrAddRoute appid (im_apps st); st = st\<lparr>im_apps := apps\<rparr>;
          clients = route_FindRoomClientSet room_id route
      in if Set.is_empty clients then (False, st) else (True, enqueue_clients msg clients client st))"

definition SendAppGroupMessage ::
  "im_config \<Rightarrow> int64 \<Rightarrow> int64 \<Rightarrow> int64 list \<Rightarrow> message \<Rightarrow> 'c im \<Rightarrow> 'c im go"
where
  "SendAppGroupMessage cf appid gid members msg st =
     go_map (\<lambda>i. let st = update_chan i (PublishGroup (BApp appid gid 0 0 0 (im_now st) (Some msg))) st
        in snd (DispatchMessageToGroup msg members appid None st)) (GetGroupChannel cf gid)"

definition SendAppMessage :: "im_config \<Rightarrow> int64 \<Rightarrow> int64 \<Rightarrow> message \<Rightarrow> 'c im \<Rightarrow> 'c im go" where
  "SendAppMessage cf appid uid msg st =
     go_map (\<lambda>i. let st = update_chan i (Publish (BApp appid uid 0 0 0 (im_now st) (Some msg))) st
        in snd (DispatchMessageToPeer msg uid appid None st)) (GetChannel cf uid)"

text \<open>
  What the channels dispatch. A message with an id must carry the flag that marks a pushed message: the
  process exits otherwise, on the word of whoever publishes.
\<close>

definition with_meta :: "metadata option \<Rightarrow> message \<Rightarrow> message" where
  "with_meta md m = Message (Cmd m) (Seq m) (Version m) (Flag m) (Body m) md"

definition DispatchAppMessage :: "body \<Rightarrow> 'c im \<Rightarrow> 'c im go" where
  "DispatchAppMessage amsg st =
     (case am_Msg amsg of
        None \<Rightarrow> Panic
      | Some m \<Rightarrow>
          if sint (am_Msgid amsg) > 0 \<and> and (Flag m) MESSAGE_FLAG_PUSH = 0 then Fatal
          else
            let m = (if sint (am_Msgid amsg) > 0
                  then with_meta (Some \<lparr>md_SyncKey = am_Msgid amsg, md_PrevSyncKey = am_PrevMsgid amsg\<rparr>) m
                  else m)
            in Ret (snd (DispatchMessageToPeer m (am_Receiver amsg) (am_Appid amsg) None st)))"

definition DispatchRoomMessage :: "body \<Rightarrow> 'c im \<Rightarrow> 'c im go" where
  "DispatchRoomMessage amsg st =
     (case am_Msg amsg of
        None \<Rightarrow> Panic
      | Some m \<Rightarrow> Ret (snd (DispatchMessageToRoom m (am_Receiver amsg) (am_Appid amsg) None st)))"

text \<open>
  The message that \<open>DispatchGroupMessage\<close> hands to a deliverer (\<open>GroupMessageDeliver.DispatchMessage\<close>).
\<close>

definition group_dispatch :: "body \<Rightarrow> message go" where
  "group_dispatch amsg =
     (case am_Msg amsg of
        None \<Rightarrow> Panic
      | Some m \<Rightarrow>
          if sint (am_Msgid amsg) > 0 then
            (if and (Flag m) MESSAGE_FLAG_PUSH = 0 then Fatal
             else if and (Flag m) MESSAGE_FLAG_SUPER_GROUP = 0 then Fatal
             else Ret (with_meta (Some \<lparr>md_SyncKey = am_Msgid amsg, md_PrevSyncKey = am_PrevMsgid amsg\<rparr>) m))
          else Ret m)"

end
