(* ===== verification/GroupDeliver.thy ===== *)
theory GroupDeliver
  imports Im
begin

text \<open>
  \<^verbatim>\<open>im/group_message_deliver.go\<close>: the messages of ordinary groups. They are first saved in a
  file, the file \<open>pending_group_messages\<close>, and sent in the order of that file by the loop \<open>run\<close>; the
  file \<open>cursor\<close> holds the position of the message sent last.
\<close>

section \<open>State\<close>

text \<open>
  \<open>gd_file\<close> and \<open>gd_cursor_file\<close> are the contents of the two files; the first is opened with
  \<open>O_APPEND\<close>. A callback is the number of a channel of capacity one, \<open>gd_chans\<close> holds what is in it.
  \<open>gd_wt\<close> (capacity 10) wakes the loop \<open>run\<close>, \<open>gd_dt\<close> (capacity 1000) holds the messages whose group
  \<open>run2\<close> has to load first.
\<close>

record deliver =
  gd_file :: bytes
  gd_cursor_file :: bytes
  gd_latest_msgid :: int64
  gd_latest_sended_msgid :: int64
  gd_wt :: "int64 list"
  gd_dt :: "body list"
  gd_id :: int64
  gd_callbacks :: "int64 \<rightharpoonup> nat"
  gd_callback_ids :: "int64 \<rightharpoonup> int64"
  gd_chans :: "nat \<Rightarrow> metadata option"

abbreviation GD_WT_CAPACITY :: nat where "GD_WT_CAPACITY \<equiv> 10"
abbreviation GD_DT_CAPACITY :: nat where "GD_DT_CAPACITY \<equiv> 1000"
abbreviation GD_FILE_LIMIT :: int where "GD_FILE_LIMIT \<equiv> 134217728"

section \<open>Files\<close>

text \<open>What the two \<open>open\<close> functions make of the contents of their files.\<close>

definition gd_openWriteFile :: "bytes \<Rightarrow> bytes" where
  "gd_openWriteFile file =
     (let file = (if int (length file) < HEADER_SIZE \<and> length file > 0 then [] else file)
      in if length file = 0 then file_header else file)"

text \<open>
  A cursor file of less than 8 bytes is truncated, but the write that follows is made at the position
  the file had been sought to: the bytes before it become zeros.
\<close>

definition gd_openCursorFile :: "bytes \<Rightarrow> int64 \<times> bytes" where
  "gd_openCursorFile file =
     (if length file < 8 then (0, replicate (length file) 0 @ binWrite (0 :: int64))
      else (fst (binRead (0 :: int64) file), file))"

definition gd_saveCursor :: "deliver \<Rightarrow> deliver" where
  "gd_saveCursor d =
     d\<lparr>gd_cursor_file := binWrite (gd_latest_sended_msgid d) @ drop 8 (gd_cursor_file d)\<rparr>"

definition gd_readLatestMessageID :: "bytes \<Rightarrow> int64 go" where
  "gd_readLatestMessageID file =
     (let offset = int (length file) - 8
      in if offset \<le> HEADER_SIZE then Ret 0
         else
           let (msg_len, buffer) = binRead (0 :: int32) (drop (nat offset) file);
               (magic, buffer) = binRead (0 :: int32) buffer
           in if magic \<noteq> MAGIC then Fatal else Ret (word_of_int (offset - sint msg_len - 8)))"

definition NewGroupMessageDeliver :: "bytes \<Rightarrow> bytes \<Rightarrow> deliver go" where
  "NewGroupMessageDeliver pending_file cursor =
     (let file = gd_openWriteFile pending_file; (sended, cursor) = gd_openCursorFile cursor
      in go_map (\<lambda>latest. \<lparr>gd_file = file, gd_cursor_file = cursor, gd_latest_msgid = latest,
             gd_latest_sended_msgid = sended, gd_wt = [], gd_dt = [], gd_id = 0, gd_callbacks = Map.empty,
             gd_callback_ids = Map.empty, gd_chans = (\<lambda>_. None)\<rparr>)
           (gd_readLatestMessageID file))"

definition read_int32 :: "bytes \<Rightarrow> bool \<times> bytes" where
  "read_int32 file = (if length file < 4 then (False, []) else (True, drop 4 file))"

definition gd_ReadMessage :: "bytes \<Rightarrow> (message option \<times> bytes) go" where
  "gd_ReadMessage file =
     (let (ok, file) = read_magic file
      in if \<not> ok then Ret (None, file)
         else let (ok, file) = read_int32 file
      in if \<not> ok then Ret (None, file)
         else go_bind (ReceiveStorageMessage file) (\<lambda>(msg, file).
           case msg of
             None \<Rightarrow> Ret (None, file)
           | Some m \<Rightarrow>
               let (ok, file) = read_int32 file
               in if \<not> ok then Ret (None, file)
                  else let (ok, file) = read_magic file
               in if ok then Ret (Some m, file) else Ret (None, file)))"

definition gd_LoadMessage :: "int64 \<Rightarrow> deliver \<Rightarrow> message option go" where
  "gd_LoadMessage msg_id d =
     (if sint msg_id < 0 then Ret None
      else go_map fst (gd_ReadMessage (drop (nat (sint msg_id)) (gd_file d))))"

definition gd_stored :: "message \<Rightarrow> bytes" where
  "gd_stored msg =
     (let msg_len = 12 + (word_of_nat (length (msg_ToData msg)) :: int32)
      in binWrite MAGIC @ binWrite msg_len @ WriteMessage msg @ binWrite msg_len @ binWrite MAGIC)"

definition gd_saveMessage :: "message \<Rightarrow> deliver \<Rightarrow> int64 \<times> deliver" where
  "gd_saveMessage msg d =
     (word_of_nat (length (gd_file d)), d\<lparr>gd_file := gd_file d @ gd_stored msg\<rparr>)"

section \<open>Callbacks\<close>

definition ClearCallback :: "deliver \<Rightarrow> deliver" where
  "ClearCallback d = d\<lparr>gd_callbacks := Map.empty, gd_callback_ids := Map.empty\<rparr>"

definition DoCallback :: "int64 \<Rightarrow> metadata \<Rightarrow> deliver \<Rightarrow> deliver" where
  "DoCallback msgid meta d =
     (case gd_callbacks d msgid of
        None \<Rightarrow> d
      | Some ch \<Rightarrow>
          if gd_chans d ch = None then d\<lparr>gd_chans := (gd_chans d)(ch := Some meta)\<rparr> else d)"

definition AddCallback :: "int64 \<Rightarrow> nat \<Rightarrow> deliver \<Rightarrow> int64 \<times> deliver" where
  "AddCallback msgid ch d =
     (let d = d\<lparr>gd_id := gd_id d + 1\<rparr>
      in (gd_id d, d\<lparr>gd_callbacks := (gd_callbacks d)(msgid \<mapsto> ch),
                     gd_callback_ids := (gd_callback_ids d)(gd_id d \<mapsto> msgid)\<rparr>))"

definition RemoveCallback :: "int64 \<Rightarrow> deliver \<Rightarrow> deliver" where
  "RemoveCallback callback_id d =
     (case gd_callback_ids d callback_id of
        None \<Rightarrow> d
      | Some msgid \<Rightarrow> d\<lparr>gd_callback_ids := (gd_callback_ids d)(callback_id := None),
                        gd_callbacks := (gd_callbacks d)(msgid := None)\<rparr>)"

definition gd_SaveMessage :: "message \<Rightarrow> nat option \<Rightarrow> deliver \<Rightarrow> int64 \<times> deliver" where
  "gd_SaveMessage msg ch d =
     (let (msgid, d) = gd_saveMessage msg d;
          d = d\<lparr>gd_latest_msgid := msgid\<rparr>;
          (callback_id, d) = (case ch of None \<Rightarrow> (0, d) | Some ch \<Rightarrow> AddCallback msgid ch d)
      in (callback_id, if length (gd_wt d) < GD_WT_CAPACITY then d\<lparr>gd_wt := gd_wt d @ [msgid]\<rparr> else d))"

section \<open>Sending\<close>

definition gd_sendMessage ::
  "im_config \<Rightarrow> int64 \<Rightarrow> int64 \<Rightarrow> int64 \<Rightarrow> int64 \<Rightarrow> message \<Rightarrow> 'c im \<Rightarrow> 'c im go"
where
  "gd_sendMessage cf appid uid sender device_ID msg st =
     go_map (\<lambda>st.
       case im_FindRoute appid (im_apps st) of
         None \<Rightarrow> st
       | Some route \<Rightarrow>
           enqueue_clients msg
             {c \<in> route_FindClientSet uid route.
               \<not> (cn_device_ID (im_client st c) = device_ID \<and> sender = uid)} None st)
       (PublishMessage cf appid uid msg st)"

text \<open>
  The members by storage server, in the order in which the servers first occur; the code then visits
  the map in the order \<open>cf_batch_order\<close>.
\<close>

definition add_batch :: "int64 \<Rightarrow> int64 \<Rightarrow> (int64 \<times> int64 list) list \<Rightarrow> (int64 \<times> int64 list) list" where
  "add_batch i u b =
     (if i \<in> set (map fst b) then map (\<lambda>(j, us). if j = i then (j, us @ [u]) else (j, us)) b
      else b @ [(i, [u])])"

definition batch_members :: "im_config \<Rightarrow> int64 list \<Rightarrow> (int64 \<times> int64 list) list go" where
  "batch_members cf members =
     go_fold (\<lambda>b u. go_map (\<lambda>i. add_batch i u b) (GetStorageRPCIndex cf u)) [] members"

fun pairs_of :: "'a list \<Rightarrow> ('a \<times> 'a) list" where
  "pairs_of (a # b # xs) = (a, b) # pairs_of xs"
| "pairs_of _ = []"

definition group_im :: "pending_group_message \<Rightarrow> im_message" where
  "group_im gm = \<lparr>im_Sender = pg_Sender gm, im_Receiver = pg_Gid gm, im_Timestamp = pg_Timestamp gm,
     im_Msgid = 0, im_Content = pg_Content gm\<rparr>"

text \<open>The message and the notification for one member whose ids are \<open>ids\<close>.\<close>

definition send_member ::
  "im_config \<Rightarrow> pending_group_message \<Rightarrow> int64 \<times> int64 \<times> int64 \<Rightarrow> metadata \<times> 'c im \<Rightarrow> (metadata \<times> 'c im) go"
where
  "send_member cf gm x s =
     (let (member, ids) = x; (metadata, st) = s; meta = \<lparr>md_SyncKey = fst ids, md_PrevSyncKey = snd ids\<rparr>;
          mm = Message MSG_GROUP_IM 0 DEFAULT_VERSION MESSAGE_FLAG_PUSH (Some (BIM (group_im gm))) (Some meta);
          notify = Message MSG_SYNC_NOTIFY 0 0 0 (Some (BSyncKey (fst ids))) None
      in go_bind (gd_sendMessage cf (pg_Appid gm) member (pg_Sender gm) (pg_DeviceID gm) mm st) (\<lambda>st.
         go_map (\<lambda>st. (if member = pg_Sender gm then meta else metadata, st))
           (gd_sendMessage cf (pg_Appid gm) member (pg_Sender gm) (pg_DeviceID gm) notify st)))"

text \<open>One batch: \<open>None\<close> where the save fails or returns a list of another length.\<close>

definition send_batch ::
  "im_config \<Rightarrow> pending_group_message \<Rightarrow> int64 list \<Rightarrow> metadata \<times> 'c im \<Rightarrow> (metadata option \<times> 'c im) go"
where
  "send_batch cf gm mb s =
     (let (metadata, st) = s;
          m = Message MSG_GROUP_IM 0 DEFAULT_VERSION 0 (Some (BIM (group_im gm))) None
      in go_bind (im_SavePeerGroupMessage cf (pg_Appid gm) mb (pg_DeviceID gm) m st) (\<lambda>(r, st).
           case r of
             None \<Rightarrow> Ret (None, st)
           | Some r \<Rightarrow>
               if length r \<noteq> 2 * length mb then Ret (None, st)
               else go_map (\<lambda>(metadata, st). (Some metadata, st))
                      (go_fold (\<lambda>s x. send_member cf gm x s) (metadata, st) (zip mb (pairs_of r)))))"

fun send_batches_of ::
  "im_config \<Rightarrow> pending_group_message \<Rightarrow> (int64 \<times> int64 list) list \<Rightarrow> metadata \<times> 'c im
   \<Rightarrow> (metadata option \<times> 'c im) go"
where
  "send_batches_of cf gm [] s = Ret (Some (fst s), snd s)"
| "send_batches_of cf gm ((i, mb) # bs) s =
     go_bind (send_batch cf gm mb s) (\<lambda>(r, st).
       case r of None \<Rightarrow> Ret (None, st) | Some metadata \<Rightarrow> send_batches_of cf gm bs (metadata, st))"

definition members_map :: "int64 list \<Rightarrow> (int64 \<rightharpoonup> int64)" where
  "members_map us = (\<lambda>u. if u \<in> set us then Some 0 else None)"

definition sendGroupMessage ::
  "im_config \<Rightarrow> pending_group_message \<Rightarrow> 'c im \<Rightarrow> (metadata option \<times> 'c im) go"
where
  "sendGroupMessage cf gm st =
     go_bind (batch_members cf (pg_Members gm)) (\<lambda>batches.
     go_bind (send_batches_of cf gm (cf_batch_order cf batches) (\<lparr>md_SyncKey = 0, md_PrevSyncKey = 0\<rparr>, st))
       (\<lambda>(r, st).
         case r of
           None \<Rightarrow> Ret (None, st)
         | Some metadata \<Rightarrow>
             go_map (\<lambda>st. (Some metadata, st))
               (PushGroupMessage cf (pg_Appid gm) (cf_order cf (members_map (pg_Members gm)))
                 (Message MSG_GROUP_IM 0 DEFAULT_VERSION 0 (Some (BIM (group_im gm))) None) st)))"

lemma gd_ReadMessage_shorter:
  assumes "gd_ReadMessage file = Ret (Some m, r)"
  shows "length r < length file"
proof -
  obtain a where a: "read_magic file = (True, a)"
    using assms by (auto simp: gd_ReadMessage_def Let_def split: prod.splits if_splits)
  then obtain b where b: "read_int32 a = (True, b)"
    using assms by (auto simp: gd_ReadMessage_def Let_def split: prod.splits if_splits)
  with a obtain msg c where c: "ReceiveStorageMessage b = Ret (Some msg, c)"
    using assms by (auto simp: gd_ReadMessage_def split: option.splits)
  with a b assms have "length r \<le> length c"
    by (auto simp: gd_ReadMessage_def Let_def read_magic_def read_int32_def split: prod.splits if_splits)
  moreover have "length c < length b"
    using c receive_cmd_seq(1) [of "1024 * 1024" False b msg c] by (simp add: ReceiveStorageMessage_def)
  ultimately show ?thesis using a b by (auto simp: read_magic_def read_int32_def split: if_splits)
qed

text \<open>
  The loop of \<open>sendPendingMessage\<close> over the bytes of the file from position \<open>pos\<close> on. A record that
  cannot be read, or whose message cannot be sent, ends it.
\<close>

function pending_loop ::
  "im_config \<Rightarrow> int \<Rightarrow> bytes \<Rightarrow> deliver \<Rightarrow> 'c im \<Rightarrow> (deliver \<times> 'c im) go"
where
  "pending_loop cf pos file d st =
     go_bind (gd_ReadMessage file) (\<lambda>(msg, rest).
       case msg of
         None \<Rightarrow> Ret (d, st)
       | Some m \<Rightarrow>
           let pos' = pos + int (length file) - int (length rest)
           in if pos \<le> sint (gd_latest_sended_msgid d) then pending_loop cf pos' rest d st
              else if Cmd m \<noteq> MSG_PENDING_GROUP_MESSAGE then pending_loop cf pos' rest d st
              else case Body m of
                     Some (BPendingGroup gm) \<Rightarrow>
                       go_bind (sendGroupMessage cf gm st) (\<lambda>(meta, st).
                         case meta of
                           None \<Rightarrow> Ret (d, st)
                         | Some meta \<Rightarrow>
                             pending_loop cf pos' rest
                               (gd_saveCursor ((DoCallback (word_of_int pos) meta d)
                                  \<lparr>gd_latest_sended_msgid := word_of_int pos\<rparr>)) st)
                   | _ \<Rightarrow> Panic)"
  by pat_completeness auto
termination
  by (relation "measure (\<lambda>(cf, pos, file, d, st). length file)") (auto dest: gd_ReadMessage_shorter)

declare pending_loop.simps [simp del]

definition sendPendingMessage :: "im_config \<Rightarrow> deliver \<Rightarrow> 'c im \<Rightarrow> (deliver \<times> 'c im) go" where
  "sendPendingMessage cf d st =
     (let offset = sint (gd_latest_sended_msgid d); offset = (if offset = 0 then HEADER_SIZE else offset)
      in if offset < 0 then Ret (d, st) else pending_loop cf offset (drop (nat offset) (gd_file d)) d st)"

definition truncateFile :: "deliver \<Rightarrow> deliver" where
  "truncateFile d =
     gd_saveCursor (d\<lparr>gd_file := take 32 (gd_file d), gd_latest_msgid := 0, gd_latest_sended_msgid := 0\<rparr>)"

text \<open>
  \<open>latest_msgid\<close> is read again when the mutex is held; no message can be saved from then on.
\<close>

definition flushPendingMessage :: "im_config \<Rightarrow> deliver \<Rightarrow> 'c im \<Rightarrow> (deliver \<times> 'c im) go" where
  "flushPendingMessage cf d st =
     (if sint (gd_latest_msgid d) > sint (gd_latest_sended_msgid d) then
        go_bind (sendPendingMessage cf d st) (\<lambda>(d, st).
          if sint (gd_latest_sended_msgid d) > GD_FILE_LIMIT then
            go_map (\<lambda>(d, st).
                (if gd_latest_msgid d = gd_latest_sended_msgid d then ClearCallback (truncateFile d) else d, st))
              (if sint (gd_latest_msgid d) > sint (gd_latest_sended_msgid d)
               then sendPendingMessage cf d st else Ret (d, st))
          else Ret (d, st))
      else Ret (d, st))"

text \<open>A round of \<open>run\<close>: it is woken by \<open>wt\<close>, or by the timer.\<close>

definition gd_run :: "im_config \<Rightarrow> bool \<Rightarrow> deliver \<Rightarrow> 'c im \<Rightarrow> (deliver \<times> 'c im) go option" where
  "gd_run cf timer d st =
     (if timer then Some (flushPendingMessage cf d st)
      else if gd_wt d = [] then None
      else Some (flushPendingMessage cf (d\<lparr>gd_wt := tl (gd_wt d)\<rparr>) st))"

section \<open>Groups\<close>

definition im_FindGroup :: "int64 \<Rightarrow> 'c im \<Rightarrow> group option \<times> 'c im" where
  "im_FindGroup gid st =
     (let (g, gm) = FindGroup (unix_now st) gid (im_groups st) in (g, st\<lparr>im_groups := gm\<rparr>))"

definition im_LoadGroup :: "im_config \<Rightarrow> int64 \<Rightarrow> 'c im \<Rightarrow> group option \<times> 'c im" where
  "im_LoadGroup cf gid st =
     (let (g, gm) = gm_LoadGroup (cf_db cf) (unix_now st) gid (im_groups st) in (g, st\<lparr>im_groups := gm\<rparr>))"

definition gd_LoadGroup :: "im_config \<Rightarrow> int64 \<Rightarrow> 'c im \<Rightarrow> group option \<times> 'c im" where
  "gd_LoadGroup cf gid st =
     (let (group, st) = im_FindGroup gid st
      in case group of Some g \<Rightarrow> (Some g, st) | None \<Rightarrow> im_LoadGroup cf gid st)"

definition members_of :: "im_config \<Rightarrow> group \<Rightarrow> int64 list" where
  "members_of cf g = cf_order cf (gr_members g)"

definition dispatch_to_group :: "im_config \<Rightarrow> body \<Rightarrow> group \<Rightarrow> 'c im \<Rightarrow> 'c im go" where
  "dispatch_to_group cf amsg g st =
     (case am_Msg amsg of
        None \<Rightarrow> Panic
      | Some m \<Rightarrow> Ret (snd (DispatchMessageToGroup m (members_of cf g) (am_Appid amsg) None st)))"

definition gd_DispatchMessage :: "im_config \<Rightarrow> body \<Rightarrow> deliver \<Rightarrow> 'c im \<Rightarrow> (deliver \<times> 'c im) go" where
  "gd_DispatchMessage cf amsg d st =
     (let (group, st) = im_FindGroup (am_Receiver amsg) st
      in case group of
           Some g \<Rightarrow> go_map (Pair d) (dispatch_to_group cf amsg g st)
         | None \<Rightarrow> Ret (if length (gd_dt d) < GD_DT_CAPACITY then d\<lparr>gd_dt := gd_dt d @ [amsg]\<rparr> else d, st))"

definition gd_dispatchMessage :: "im_config \<Rightarrow> body \<Rightarrow> 'c im \<Rightarrow> 'c im go" where
  "gd_dispatchMessage cf amsg st =
     (let (group, st) = im_LoadGroup cf (am_Receiver amsg) st
      in case group of None \<Rightarrow> Ret st | Some g \<Rightarrow> dispatch_to_group cf amsg g st)"

text \<open>The case of \<open>run2\<close> that takes a message from \<open>dt\<close>; the other one is part of \<open>gd_LoadGroup\<close>.\<close>

definition gd_run2 :: "im_config \<Rightarrow> deliver \<Rightarrow> 'c im \<Rightarrow> (deliver \<times> 'c im) go option" where
  "gd_run2 cf d st =
     (case gd_dt d of
        [] \<Rightarrow> None
      | amsg # q \<Rightarrow> Some (go_map (Pair (d\<lparr>gd_dt := q\<rparr>)) (gd_dispatchMessage cf amsg st)))"

end
