(* ===== verification/DeliverQueue.thy ===== *)
theory DeliverQueue
  imports GroupDeliver
begin

text \<open>
  The abstract view of a group message deliverer: a list of messages of which the first \<open>k\<close> have been
  sent. The file holds the list, the cursor the position of the message \<open>k - 1\<close>.
\<close>

section \<open>The file as a list\<close>

lemma length_file_header32 [simp]: "length file_header = 32"
  by (simp add: file_header_def)

definition pending_msg :: "pending_group_message \<Rightarrow> message" where
  "pending_msg gm = Message MSG_PENDING_GROUP_MESSAGE 0 0 0 (Some (BPendingGroup gm)) None"

text \<open>What can be read back: at most 4091 members, and a body below the limit of one megabyte.\<close>

definition gm_ok :: "pending_group_message \<Rightarrow> bool" where
  "gm_ok gm \<longleftrightarrow> length (pg_Members gm) \<le> 4091 \<and> length (pg_ToData gm) < 1024 * 1024"

definition gm_records :: "pending_group_message list \<Rightarrow> bytes" where
  "gm_records gms = concat (map (\<lambda>gm. gd_stored (pending_msg gm)) gms)"

definition pending_file :: "pending_group_message list \<Rightarrow> bytes" where
  "pending_file gms = file_header @ gm_records gms"

definition pos_at :: "pending_group_message list \<Rightarrow> nat \<Rightarrow> int" where
  "pos_at gms i = int (length (pending_file (take i gms)))"

text \<open>The id of the k-th message, 0 before the first.\<close>

definition mark :: "pending_group_message list \<Rightarrow> nat \<Rightarrow> int64" where
  "mark gms k = (if k = 0 then 0 else word_of_int (pos_at gms (k - 1)))"

definition queue_ok :: "pending_group_message list \<Rightarrow> nat \<Rightarrow> deliver \<Rightarrow> bool" where
  "queue_ok gms k d \<longleftrightarrow> gd_file d = pending_file gms \<and> (\<forall>gm \<in> set gms. gm_ok gm)
     \<and> length (gd_file d) < 2 ^ 63 \<and> k \<le> length gms
     \<and> gd_latest_msgid d = mark gms (length gms) \<and> gd_latest_sended_msgid d = mark gms k
     \<and> (\<exists>rest. gd_cursor_file d = binWrite (mark gms k) @ rest)"

lemma gm_records_simps [simp]:
  "gm_records [] = []" "gm_records (gm # gms) = gd_stored (pending_msg gm) @ gm_records gms"
  "gm_records (gms @ gms') = gm_records gms @ gm_records gms'"
  by (simp_all add: gm_records_def)

lemma length_gd_stored: "length (gd_stored m) = 28 + length (msg_ToData m)"
  by (simp add: gd_stored_def Let_def length_WriteMessage)

lemma pending_msg_simps [simp]:
  "Cmd (pending_msg gm) = MSG_PENDING_GROUP_MESSAGE" "Body (pending_msg gm) = Some (BPendingGroup gm)"
  "canon (pending_msg gm) = pending_msg gm" "msg_ToData (pending_msg gm) = pg_ToData gm"
  by (simp_all add: pending_msg_def msg_ToData_def)

lemma pending_wire_ok: "gm_ok gm \<Longrightarrow> wire_ok (pending_msg gm)"
  by (simp add: pending_msg_def gm_ok_def header_ok_def creator_def core_creators_def route_creators_def
      storage_creators_def)

lemma read_int32_write [simp]: "read_int32 (binWrite (w :: int32) @ s) = (True, s)"
  by (simp add: read_int32_def)

lemma gd_ReadMessage_stored:
  assumes "gm_ok gm"
  shows "gd_ReadMessage (gd_stored (pending_msg gm) @ s) = Ret (Some (pending_msg gm), s)"
proof -
  have "ReceiveStorageMessage (WriteMessage (pending_msg gm) @ t) = Ret (Some (pending_msg gm), t)" for t
    unfolding ReceiveStorageMessage_def
    using receive_write [of "pending_msg gm" "1024 * 1024" False t] pending_wire_ok [OF assms] assms
    by (simp add: gm_ok_def)
  then show ?thesis by (simp add: gd_ReadMessage_def gd_stored_def Let_def)
qed

lemma gd_ReadMessage_Nil [simp]: "gd_ReadMessage [] = Ret (None, [])"
  by (simp add: gd_ReadMessage_def read_magic_def)

section \<open>Sending a list\<close>

fun send_all ::
  "im_config \<Rightarrow> pending_group_message list \<Rightarrow> 'c im \<Rightarrow> (metadata list \<times> 'c im) go"
where
  "send_all cf [] st = Ret ([], st)"
| "send_all cf (gm # gms) st =
     go_bind (sendGroupMessage cf gm st) (\<lambda>(r, st).
       case r of
         None \<Rightarrow> Ret ([], st)
       | Some meta \<Rightarrow> go_map (\<lambda>(metas, st). (meta # metas, st)) (send_all cf gms st))"

text \<open>What the loop does to the deliverer for one message that was sent.\<close>

definition mark_sent :: "int \<Rightarrow> metadata \<Rightarrow> deliver \<Rightarrow> deliver" where
  "mark_sent pos meta d =
     gd_saveCursor ((DoCallback (word_of_int pos) meta d)\<lparr>gd_latest_sended_msgid := word_of_int pos\<rparr>)"

fun advance :: "int \<Rightarrow> pending_group_message list \<Rightarrow> metadata list \<Rightarrow> deliver \<Rightarrow> deliver" where
  "advance pos (gm # gms) (meta # metas) d =
     advance (pos + int (length (gd_stored (pending_msg gm)))) gms metas (mark_sent pos meta d)"
| "advance pos gms metas d = d"

lemma mark_sent_simps [simp]:
  "gd_file (mark_sent pos meta d) = gd_file d" "gd_latest_msgid (mark_sent pos meta d) = gd_latest_msgid d"
  "gd_latest_sended_msgid (mark_sent pos meta d) = word_of_int pos"
  "gd_callbacks (mark_sent pos meta d) = gd_callbacks d"
  "gd_cursor_file (mark_sent pos meta d) = binWrite (word_of_int pos :: int64) @ drop 8 (gd_cursor_file d)"
  by (simp_all add: mark_sent_def gd_saveCursor_def DoCallback_def split: option.split)

lemma pending_loop_send:
  fixes st :: "'c im"
  assumes "\<forall>gm \<in> set gms. gm_ok gm" "sint (gd_latest_sended_msgid d) < pos" "0 \<le> pos"
    "pos + int (length (gm_records gms)) < 2 ^ 63"
  shows "pending_loop cf pos (gm_records gms) d st =
    go_map (\<lambda>(metas, st). (advance pos gms metas d, st)) (send_all cf gms st)"
  using assms
proof (induction gms arbitrary: pos d st)
  case Nil
  then show ?case by (subst pending_loop.simps) simp
next
  case (Cons gm gms)
  let ?len = "int (length (gd_stored (pending_msg gm)))"
  have ok: "gm_ok gm" "\<not> pos \<le> sint (gd_latest_sended_msgid d)" using Cons.prems by simp_all
  have pos: "pos < 2 ^ 63" using Cons.prems(4) by simp
  have step: "pending_loop cf (pos + ?len) (gm_records gms) (mark_sent pos meta d) st' =
      go_map (\<lambda>(metas, st). (advance (pos + ?len) gms metas (mark_sent pos meta d), st)) (send_all cf gms st')"
    for meta and st' :: "'c im"
    using Cons.prems pos sint_of_int64 [of pos]
    by (intro Cons.IH) (auto simp: length_gd_stored)
  show ?case
  proof (cases "sendGroupMessage cf gm st")
    case (Ret p)
    obtain r st' where p: "p = (r, st')" by fastforce
    show ?thesis
    proof (cases r)
      case None
      with Ret p ok show ?thesis
        by (subst pending_loop.simps) (simp add: gd_ReadMessage_stored)
    next
      case (Some meta)
      with Ret p ok step [of meta st'] show ?thesis
        by (subst pending_loop.simps, cases "send_all cf gms st'")
          (auto simp: gd_ReadMessage_stored mark_sent_def add.commute)
    qed
  qed (use ok in \<open>subst pending_loop.simps, simp add: gd_ReadMessage_stored\<close>)+
qed

section \<open>Positions\<close>

lemma pos_at_eq: "pos_at gms i = 32 + int (length (gm_records (take i gms)))"
  by (simp add: pos_at_def pending_file_def)

lemma pos_at_Suc:
  "i < length gms \<Longrightarrow> pos_at gms (Suc i) = pos_at gms i + int (length (gd_stored (pending_msg (gms ! i))))"
  by (simp add: pos_at_eq take_Suc_conv_app_nth)

lemma pos_at_mono: "i \<le> j \<Longrightarrow> pos_at gms i \<le> pos_at gms j"
proof -
  assume "i \<le> j"
  then have "take j gms = take i gms @ take (j - i) (drop i gms)"
    by (metis take_add le_add_diff_inverse)
  then show ?thesis by (simp add: pos_at_eq)
qed

lemma pos_at_less: "i < j \<Longrightarrow> i < length gms \<Longrightarrow> pos_at gms i < pos_at gms j"
  using pos_at_Suc [of i gms] pos_at_mono [of "Suc i" j gms] by (simp add: length_gd_stored)

lemma queue_size:
  assumes "queue_ok gms k d"
  shows "32 + int (length (gm_records gms)) < 2 ^ 63"
proof -
  have "length (pending_file gms) < 2 ^ 63" using assms unfolding queue_ok_def by (elim conjE) simp
  then show ?thesis by (simp add: pending_file_def)
qed

lemma pos_at_bounds:
  assumes "queue_ok gms k d"
  shows "32 \<le> pos_at gms i" "pos_at gms i < 2 ^ 63"
proof -
  have "int (length (gm_records (take i gms))) \<le> int (length (gm_records gms))"
    by (metis append_take_drop_id gm_records_simps(3) length_append le_add1 of_nat_mono)
  then show "32 \<le> pos_at gms i" "pos_at gms i < 2 ^ 63"
    using queue_size [OF assms] by (simp_all add: pos_at_eq)
qed

lemma sint_pos:
  assumes "queue_ok gms k d"
  shows "sint (word_of_int (pos_at gms i) :: int64) = pos_at gms i"
  using pos_at_bounds [OF assms, of i] by (intro sint_of_int64) simp_all

lemma pos_at_inj:
  assumes "queue_ok gms k d" "i < length gms" "j < length gms"
    and "(word_of_int (pos_at gms i) :: int64) = word_of_int (pos_at gms j)"
  shows "i = j"
proof (rule ccontr)
  assume "i \<noteq> j"
  then have "pos_at gms i \<noteq> pos_at gms j"
    using pos_at_less [of i j gms] pos_at_less [of j i gms] assms(2,3) by (metis less_irrefl nat_neq_iff)
  with assms(1,4) show False using sint_pos by metis
qed

lemma sint_mark:
  assumes "queue_ok gms n d"
  shows "sint (mark gms k) = (if k = 0 then 0 else pos_at gms (k - 1))"
  using sint_pos [OF assms] by (simp add: mark_def)

lemma sint_mark_less:
  assumes "queue_ok gms n d" "k \<le> length gms"
  shows "sint (mark gms k) < pos_at gms k"
  using sint_mark [OF assms(1), of k] pos_at_less [of "k - 1" k gms] pos_at_bounds(1) [OF assms(1), of k] assms(2)
  by (auto split: if_splits)

lemma drop_pending_file: "drop (nat (pos_at gms k)) (pending_file gms) = gm_records (drop k gms)"
proof -
  have "pending_file gms = (file_header @ gm_records (take k gms)) @ gm_records (drop k gms)"
    unfolding pending_file_def by (metis append_take_drop_id gm_records_simps(3) append_assoc)
  moreover have "nat (pos_at gms k) = length (file_header @ gm_records (take k gms))"
    by (simp add: pos_at_eq)
  ultimately show ?thesis by (simp only: drop_append_exact)
qed

section \<open>What sending does to the queue\<close>

lemma length_send_all: "send_all cf gms st = Ret (metas, st') \<Longrightarrow> length metas \<le> length gms"
proof (induction gms arbitrary: st metas st')
  case (Cons gm gms)
  then show ?case by (auto split: option.splits prod.splits)
qed simp

lemma sendPendingMessage_eq:
  assumes "queue_ok gms k d"
  shows "sendPendingMessage cf d st =
    go_map (\<lambda>(metas, st). (advance (pos_at gms k) (drop k gms) metas d, st)) (send_all cf (drop k gms) st)"
proof -
  have ok: "\<forall>gm \<in> set (drop k gms). gm_ok gm" "k \<le> length gms" "gd_file d = pending_file gms"
    "gd_latest_sended_msgid d = mark gms k"
    using assms by (auto simp: queue_ok_def dest: in_set_dropD)
  have "int (length (gm_records (take k gms @ drop k gms))) < 2 ^ 63 - 32"
    using queue_size [OF assms] by simp
  then have fits: "pos_at gms k + int (length (gm_records (drop k gms))) < 2 ^ 63"
    by (simp only: gm_records_simps(3) length_append pos_at_eq of_nat_add)
  have main: "pending_loop cf (pos_at gms k) (gm_records (drop k gms)) d st =
      go_map (\<lambda>(metas, st). (advance (pos_at gms k) (drop k gms) metas d, st)) (send_all cf (drop k gms) st)"
    using ok fits sint_mark_less [OF assms ok(2)] pos_at_bounds(1) [OF assms, of k]
    by (intro pending_loop_send) simp_all
  show ?thesis
  proof (cases k)
    case 0
    then have "pos_at gms 0 = 32" "sint (mark gms k) = 0" by (simp_all add: pos_at_eq mark_def)
    with main ok 0 drop_pending_file [of gms 0] show ?thesis by (simp add: sendPendingMessage_def Let_def)
  next
    case (Suc j)
    let ?gm = "gms ! j"
    have j: "j < length gms" "gm_ok ?gm" using ok(2) assms Suc by (auto simp: queue_ok_def)
    have sent: "sint (mark gms k) = pos_at gms j" using sint_mark [OF assms, of k] Suc by simp
    have recs: "gm_records (drop j gms) = gd_stored (pending_msg ?gm) @ gm_records (drop k gms)"
      using j Suc by (simp add: Cons_nth_drop_Suc [symmetric])
    have "pending_loop cf (pos_at gms j) (gm_records (drop j gms)) d st =
        pending_loop cf (pos_at gms k) (gm_records (drop k gms)) d st"
      using ok(4) sent j Suc
      by (subst pending_loop.simps) (simp add: recs gd_ReadMessage_stored pos_at_Suc)
    moreover have "pos_at gms j \<noteq> 0" "\<not> pos_at gms j < 0" using pos_at_bounds(1) [OF assms, of j] by simp_all
    ultimately show ?thesis
      using main ok sent drop_pending_file [of gms j] by (simp add: sendPendingMessage_def Let_def)
  qed
qed

lemma mark_sent_ok:
  assumes "queue_ok gms k d" "k < length gms"
  shows "queue_ok gms (Suc k) (mark_sent (pos_at gms k) meta d)"
  using assms by (auto simp: queue_ok_def mark_def)

lemma advance_ok:
  assumes "queue_ok gms k d" "k + length metas \<le> length gms"
  shows "queue_ok gms (k + length metas) (advance (pos_at gms k) (drop k gms) metas d)"
  using assms
proof (induction metas arbitrary: k d)
  case (Cons meta metas)
  then have k: "k < length gms" by simp
  with Cons show ?case
    using Cons.IH [OF mark_sent_ok [OF Cons.prems(1) k]] pos_at_Suc [OF k]
    by (simp add: Cons_nth_drop_Suc [symmetric])
qed (cases "drop k gms"; simp)

text \<open>The sender of a message that was sent gets its answer.\<close>

lemma mark_sent_chans:
  "gd_chans (mark_sent pos meta d) ch =
    (if gd_callbacks d (word_of_int pos) = Some ch \<and> gd_chans d ch = None then Some meta else gd_chans d ch)"
  by (auto simp: mark_sent_def gd_saveCursor_def DoCallback_def split: option.split)

lemma advance_keeps_answer:
  "gd_chans d ch = Some meta \<Longrightarrow> gd_chans (advance pos gms metas d) ch = Some meta"
  by (induction pos gms metas d rule: advance.induct) (simp_all add: mark_sent_chans)

lemma advance_answers:
  assumes "queue_ok gms k d" "k + length metas \<le> length gms" "k \<le> i" "i < k + length metas"
    and "gd_callbacks d (word_of_int (pos_at gms i)) = Some ch" "gd_chans d ch = None"
    and "\<forall>p. gd_callbacks d p = Some ch \<longrightarrow> p = word_of_int (pos_at gms i)"
  shows "gd_chans (advance (pos_at gms k) (drop k gms) metas d) ch = Some (metas ! (i - k))"
  using assms
proof (induction metas arbitrary: k d)
  case (Cons meta metas)
  let ?d = "mark_sent (pos_at gms k) meta d"
  have k: "k < length gms" using Cons.prems by simp
  have step: "advance (pos_at gms k) (drop k gms) (meta # metas) d
      = advance (pos_at gms (Suc k)) (drop (Suc k) gms) metas ?d"
    using pos_at_Suc [OF k] by (simp add: Cons_nth_drop_Suc [OF k, symmetric])
  show ?case
  proof (cases "i = k")
    case True
    then have "gd_chans ?d ch = Some meta" using Cons.prems(5,6) by (simp add: mark_sent_chans)
    from advance_keeps_answer [OF this] show ?thesis unfolding step using True by simp
  next
    case False
    have i: "Suc k \<le> i" "i < length gms" "i < Suc k + length metas" "Suc k + length metas \<le> length gms"
      using False Cons.prems(2-4) by simp_all
    have "gd_callbacks d (word_of_int (pos_at gms k)) \<noteq> Some ch"
      using pos_at_inj [OF Cons.prems(1) k i(2)] Cons.prems(7) False by metis
    then have chan: "gd_chans ?d ch = None" using Cons.prems(6) by (simp add: mark_sent_chans)
    have "gd_chans (advance (pos_at gms (Suc k)) (drop (Suc k) gms) metas ?d) ch = Some (metas ! (i - Suc k))"
      by (rule Cons.IH [OF mark_sent_ok [OF Cons.prems(1) k] i(4,1,3), unfolded mark_sent_simps,
            OF Cons.prems(5) chan Cons.prems(7)])
    moreover have "metas ! (i - Suc k) = (meta # metas) ! (i - k)" using i(1) by (simp add: Suc_diff_Suc)
    ultimately show ?thesis unfolding step by simp
  qed
qed simp

section \<open>Saving, flushing and starting\<close>

lemma save_ok:
  assumes "queue_ok gms k d" "gm_ok gm" "length (pending_file (gms @ [gm])) < 2 ^ 63"
  shows "queue_ok (gms @ [gm]) k (snd (gd_SaveMessage (pending_msg gm) ch d))"
proof -
  have marks: "mark (gms @ [gm]) k = mark gms k" "mark (gms @ [gm]) (Suc (length gms))
      = word_of_nat (length (pending_file gms))"
    using assms(1) by (auto simp: mark_def pos_at_def queue_ok_def)
  have "gd_SaveMessage (pending_msg gm) ch d = (fst (gd_SaveMessage (pending_msg gm) ch d),
      snd (gd_SaveMessage (pending_msg gm) ch d))" by simp
  moreover have "gd_file (snd (gd_SaveMessage (pending_msg gm) ch d)) = pending_file (gms @ [gm])"
    "gd_latest_msgid (snd (gd_SaveMessage (pending_msg gm) ch d)) = word_of_nat (length (pending_file gms))"
    "gd_latest_sended_msgid (snd (gd_SaveMessage (pending_msg gm) ch d)) = mark gms k"
    "gd_cursor_file (snd (gd_SaveMessage (pending_msg gm) ch d)) = gd_cursor_file d"
    using assms(1)
    by (auto simp: gd_SaveMessage_def gd_saveMessage_def AddCallback_def Let_def pending_file_def queue_ok_def
        split: option.split)
  ultimately show ?thesis using assms marks by (auto simp: queue_ok_def)
qed

lemma flush_eq:
  assumes "queue_ok gms k d" "int (length (gd_file d)) \<le> GD_FILE_LIMIT"
    and "send_all cf (drop k gms) st = Ret (metas, st')"
  shows "flushPendingMessage cf d st = Ret (advance (pos_at gms k) (drop k gms) metas d, st')"
proof (cases "k < length gms")
  case True
  let ?d = "advance (pos_at gms k) (drop k gms) metas d"
  have len: "k + length metas \<le> length gms" using length_send_all [OF assms(3)] True by simp
  have ok: "queue_ok gms (k + length metas) ?d" by (rule advance_ok [OF assms(1) len])
  have marks: "gd_latest_msgid d = mark gms (length gms)" "gd_latest_sended_msgid d = mark gms k"
    "gd_latest_sended_msgid ?d = mark gms (k + length metas)"
    using assms(1) ok by (simp_all add: queue_ok_def)
  have "sint (mark gms k) < sint (mark gms (length gms))"
    using sint_mark [OF assms(1)] pos_at_less [of "k - 1" "length gms - 1" gms] True
      pos_at_bounds(1) [OF assms(1), of "length gms - 1"] by auto
  moreover have "sint (mark gms (k + length metas)) \<le> GD_FILE_LIMIT"
  proof -
    have "pos_at gms (k + length metas - 1) \<le> pos_at gms (length gms)" using len by (intro pos_at_mono) simp
    also have "\<dots> = int (length (gd_file d))" using assms(1) by (simp add: pos_at_def queue_ok_def)
    finally show ?thesis using sint_mark [OF assms(1), of "k + length metas"] assms(2) by simp
  qed
  ultimately show ?thesis
    using assms(3) marks sendPendingMessage_eq [OF assms(1), of cf st] by (simp add: flushPendingMessage_def)
next
  case False
  with assms have "metas = []" "st' = st" "gd_latest_msgid d = gd_latest_sended_msgid d"
    by (auto simp: queue_ok_def)
  with False show ?thesis by (cases "drop k gms") (simp_all add: flushPendingMessage_def)
qed

lemma readLatest_ok:
  assumes "queue_ok gms k d"
  shows "gd_readLatestMessageID (pending_file gms) = Ret (mark gms (length gms))"
proof (cases gms rule: rev_cases)
  case Nil
  then show ?thesis by (simp add: gd_readLatestMessageID_def mark_def pending_file_def Let_def)
next
  case (snoc gs gm)
  let ?body = "pg_ToData gm" and ?front = "pending_file gs"
  let ?len = "12 + (word_of_nat (length ?body) :: int32)"
  have ok: "gm_ok gm" using assms snoc by (simp add: queue_ok_def)
  then have n: "12 + length ?body < 2 ^ 31" by (simp add: gm_ok_def)
  have "?len = word_of_nat (12 + length ?body)" by simp
  then have len: "sint ?len = int (12 + length ?body)" using n sint_small [where 'a = 32, of "12 + length ?body"] by simp
  have split: "pending_file gms = (?front @ binWrite MAGIC @ binWrite ?len @ WriteMessage (pending_msg gm))
      @ binWrite ?len @ binWrite MAGIC"
    by (simp add: snoc pending_file_def gd_stored_def Let_def)
  have pre: "length (?front @ binWrite MAGIC @ binWrite ?len @ WriteMessage (pending_msg gm))
      = length ?front + 20 + length ?body"
    by (simp add: length_WriteMessage)
  have size: "length (pending_file gms) = length ?front + 28 + length ?body"
    by (simp add: split length_WriteMessage)
  have off: "int (length (pending_file gms)) - 8 = int (length ?front + 20 + length ?body)" by (simp add: size)
  have "drop (length ?front + 20 + length ?body) (pending_file gms) = binWrite ?len @ binWrite MAGIC"
    unfolding split by (rule drop_append_exact [OF pre])
  moreover have "nat (int (length ?front) + 20 + int (length ?body)) = length ?front + 20 + length ?body"
    by simp
  moreover have "32 \<le> length ?front" by (simp add: pending_file_def)
  moreover have "binRead (0 :: int32) (binWrite ?len @ binWrite MAGIC) = (?len, binWrite MAGIC)"
    "binRead (0 :: int32) (binWrite MAGIC) = (MAGIC, [])"
    by simp_all
  moreover have "mark gms (length gms) = word_of_nat (length ?front)" by (simp add: mark_def pos_at_def snoc)
  ultimately show ?thesis
    unfolding gd_readLatestMessageID_def off Let_def using len by simp
qed

lemma start_ok:
  assumes "queue_ok gms k d" "k \<le> k'" "k' \<le> length gms"
  shows "\<exists>d'. NewGroupMessageDeliver (gd_file d) (binWrite (mark gms k') @ rest) = Ret d' \<and> queue_ok gms k' d'"
proof -
  have "gd_openWriteFile (pending_file gms) = pending_file gms"
    by (simp add: gd_openWriteFile_def pending_file_def Let_def)
  moreover have "gd_openCursorFile (binWrite (mark gms k') @ rest) = (mark gms k', binWrite (mark gms k') @ rest)"
    by (simp add: gd_openCursorFile_def)
  ultimately show ?thesis
    using assms readLatest_ok [OF assms(1)]
    by (auto simp: NewGroupMessageDeliver_def queue_ok_def)
qed

end
