(* ===== verification/PeerClient.thy ===== *)
theory PeerClient
  imports Im
begin

text \<open>
  What an im server does with the messages of a connection: \<^verbatim>\<open>im/peer_client.go\<close>,
  \<^verbatim>\<open>im/room_client.go\<close> and \<^verbatim>\<open>im/customer_client.go\<close>. A handler is a function on the
  state of the server. Where the code mutates the body of a message (a content that is filtered, a
  timestamp), the model uses the new body from there on.
\<close>

section \<open>Messages the handlers make\<close>

abbreviation ACK_NOT_MY_FRIEND :: int8 where "ACK_NOT_MY_FRIEND \<equiv> 1"
abbreviation ACK_NOT_YOUR_FRIEND :: int8 where "ACK_NOT_YOUR_FRIEND \<equiv> 2"
abbreviation ACK_IN_YOUR_BLACKLIST :: int8 where "ACK_IN_YOUR_BLACKLIST \<equiv> 3"
abbreviation ACK_NOT_GROUP_MEMBER :: int8 where "ACK_NOT_GROUP_MEMBER \<equiv> 64"
abbreviation PLATFORM_IOS :: int8 where "PLATFORM_IOS \<equiv> 1"
abbreviation PLATFORM_ANDROID :: int8 where "PLATFORM_ANDROID \<equiv> 2"
abbreviation PLATFORM_WEB :: int8 where "PLATFORM_WEB \<equiv> 3"

definition ack_msg :: "go_int \<Rightarrow> go_int \<Rightarrow> go_int \<Rightarrow> int8 \<Rightarrow> metadata option \<Rightarrow> message" where
  "ack_msg version flag seq status meta =
     Message MSG_ACK 0 version flag (Some (BAck \<lparr>ack_Seq = ucast seq, ack_Status = status\<rparr>)) meta"

definition notify_msg :: "int64 \<Rightarrow> message" where
  "notify_msg msgid = Message MSG_SYNC_NOTIFY 0 0 0 (Some (BSyncKey msgid)) None"

definition meta_of :: "int64 \<times> int64 \<Rightarrow> metadata" where
  "meta_of ids = \<lparr>md_SyncKey = fst ids, md_PrevSyncKey = snd ids\<rparr>"

definition enqueue :: "'c \<Rightarrow> message \<Rightarrow> 'c im \<Rightarrow> 'c im" where
  "enqueue c m = update_conn c (\<lambda>cn. snd (EnqueueMessage m cn))"

text \<open>\<open>Connection.SendMessage\<close> and \<open>Connection.SendGroupMessage\<close>.\<close>

definition conn_SendMessage :: "im_config \<Rightarrow> 'c \<Rightarrow> int64 \<Rightarrow> message \<Rightarrow> 'c im \<Rightarrow> 'c im go" where
  "conn_SendMessage cf c uid msg st =
     (let appid = cn_appid (im_client st c)
      in go_map (\<lambda>st. snd (DispatchMessageToPeer msg uid appid (Some c) st)) (PublishMessage cf appid uid msg st))"

definition conn_SendGroupMessage ::
  "im_config \<Rightarrow> 'c \<Rightarrow> int64 \<Rightarrow> int64 list \<Rightarrow> message \<Rightarrow> 'c im \<Rightarrow> 'c im go"
where
  "conn_SendGroupMessage cf c gid members msg st =
     (let appid = cn_appid (im_client st c)
      in go_map (\<lambda>st. snd (DispatchMessageToGroup msg members appid (Some c) st))
           (PublishGroupMessage cf appid gid msg st))"

section \<open>Login and logout of a user\<close>

definition peer_Login :: "im_config \<Rightarrow> 'c \<Rightarrow> 'c im \<Rightarrow> 'c im go" where
  "peer_Login cf c st =
     (let cn = im_client st c; sub = Subscribe (cn_appid cn) (cn_uid cn) (cn_online cn)
      in go_map (\<lambda>channel.
           let st = update_chan channel sub st;
               st = foldl (\<lambda>st i. if i = channel then st else update_chan i sub st) st (cf_group_route_channels cf)
           in st\<lparr>im_unread := (im_unread st)((cn_appid cn, cn_uid cn) := 0)\<rparr>)
         (GetChannel cf (cn_uid cn)))"

definition peer_Logout :: "im_config \<Rightarrow> 'c \<Rightarrow> 'c im \<Rightarrow> 'c im go" where
  "peer_Logout cf c st =
     (let cn = im_client st c; unsub = Unsubscribe (cn_appid cn) (cn_uid cn) (cn_online cn)
      in if sint (cn_uid cn) > 0 then
           go_map (\<lambda>channel.
             let st = update_chan channel unsub st
             in foldl (\<lambda>st i. if i = channel then st else update_chan i unsub st) st (cf_group_route_channels cf))
           (GetChannel cf (cn_uid cn))
         else Ret st)"

section \<open>Peer messages\<close>

text \<open>
  The history a client gets: the messages of the reply, oldest first, between a begin and an end
  marker. The two markers share one \<open>SyncKey\<close> object, so both carry the last value it is given.
\<close>

fun sync_messages :: "im_config \<Rightarrow> connection \<Rightarrow> history_message list \<Rightarrow> message list go" where
  "sync_messages cf cn [] = Ret []"
| "sync_messages cf cn (h # hs) =
     go_bind (raw_message (hm_Cmd h) (hm_Raw h)) (\<lambda>m.
     go_bind (conn_isSender (cf_kefu_appid cf) m (hm_DeviceID h) cn) (\<lambda>self.
     go_map (\<lambda>ms. (if self then Message (Cmd m) (Seq m) (Version m) (or (Flag m) MESSAGE_FLAG_SELF) (Body m) (Meta m)
                   else m) # ms)
       (sync_messages cf cn hs)))"

definition returned :: "('r \<times> 's) go option \<Rightarrow> ('r \<times> 's) go" where
  "returned r = (case r of None \<Rightarrow> Panic | Some x \<Rightarrow> x)"

definition HandleSync :: "im_config \<Rightarrow> 'c \<Rightarrow> int64 \<Rightarrow> 'c im \<Rightarrow> 'c im go" where
  "HandleSync cf c sync_key st =
     (let cn = im_client st c; appid = cn_appid cn; uid = cn_uid cn
      in if uid = 0 then Ret st
         else
           let lastid = (if sync_key = 0 then im_sync_keys st (appid, uid) else sync_key)
           in go_bind (GetStorageRPCClient cf uid) (\<lambda>i.
             let (resp, st) = rpc_call cf i
                   (\<lambda>s. returned (rpc_SyncMessage (cf_sync_limit cf) (cf_sync_hard_limit cf) appid uid lastid s)) st
             in case resp of
                  None \<Rightarrow> Ret st
                | Some ph \<Rightarrow>
                    let st = update_conn c (\<lambda>cn. cn\<lparr>cn_sync_count := cn_sync_count cn + 1\<rparr>) st;
                        messages = hr_Messages ph
                    in go_map (\<lambda>ms.
                         let sk = (if messages = [] then lastid else hm_MsgID (hd messages));
                             sk = (if sint (hr_LastMsgID ph) < sint lastid \<and> sint (hr_LastMsgID ph) > 0
                                   then hr_LastMsgID ph else sk);
                             msgs = Message MSG_SYNC_BEGIN 0 0 0 (Some (BSyncKey sk)) None # ms
                               @ [Message MSG_SYNC_END 0 0 0 (Some (BSyncKey sk)) None];
                             st = update_conn c (\<lambda>cn. snd (EnqueueMessages msgs cn)) st
                         in if hr_HasMore ph then enqueue c (notify_msg (hr_LastMsgID ph + 1)) st else st)
                       (sync_messages cf cn (rev messages))))"

definition HandleSyncKey :: "'c \<Rightarrow> int64 \<Rightarrow> 'c im \<Rightarrow> 'c im" where
  "HandleSyncKey c lastid st =
     (let cn = im_client st c
      in if cn_uid cn = 0 then st
         else if sint lastid > 0 then st\<lparr>im_sync_c := im_sync_c st @ [(cn_appid cn, cn_uid cn, lastid)]\<rparr>
         else st)"

text \<open>The two cases of the loop \<open>SyncKeyService\<close> of \<^verbatim>\<open>im/im_server.go\<close>.\<close>

definition save_sync_key :: "'c im \<Rightarrow> 'c im option" where
  "save_sync_key st =
     (case im_sync_c st of
        [] \<Rightarrow> None
      | (a, u, k) # q \<Rightarrow>
          let st = st\<lparr>im_sync_c := q\<rparr>
          in Some (if sint k > sint (im_sync_keys st (a, u))
                   then st\<lparr>im_sync_keys := (im_sync_keys st)((a, u) := k)\<rparr> else st))"

definition save_group_sync_key :: "'c im \<Rightarrow> 'c im option" where
  "save_group_sync_key st =
     (case im_group_sync_c st of
        [] \<Rightarrow> None
      | (a, u, g, k) # q \<Rightarrow>
          let st = st\<lparr>im_group_sync_c := q\<rparr>
          in Some (if sint k > sint (im_group_sync_keys st (a, u, g))
                   then st\<lparr>im_group_sync_keys := (im_group_sync_keys st)((a, u, g) := k)\<rparr> else st))"

text \<open>The relationship tests of \<open>HandleIMMessage\<close>: the status of the refusal, if any.\<close>

definition peer_permission ::
  "im_config \<Rightarrow> int64 \<Rightarrow> int64 \<Rightarrow> int64 \<Rightarrow> 'c im \<Rightarrow> int8 option \<times> 'c im"
where
  "peer_permission cf appid uid receiver st =
     (let get = (\<lambda>st. let (rs, pool) = pool_GetRelationship (cf_relation_db cf) (unix_now st) appid uid receiver (im_pool st)
            in (rs, st\<lparr>im_pool := pool\<rparr>));
          (rs, st) = (if cf_friend_permission cf \<or> cf_enable_blacklist cf then get st else (NoneRelationship, st));
          (friends, st) = (if cf_friend_permission cf then get st else (NewRelationship True True False False, st))
      in (if \<not> IsMyFriend friends then Some ACK_NOT_MY_FRIEND
          else if \<not> IsYourFriend friends then Some ACK_NOT_YOUR_FRIEND
          else if cf_enable_blacklist cf \<and> IsInYourBlacklist rs then Some ACK_IN_YOUR_BLACKLIST
          else None, st))"

definition FilterDirtyWord :: "im_config \<Rightarrow> go_int \<Rightarrow> im_message \<Rightarrow> im_message" where
  "FilterDirtyWord cf flag m =
     (if and flag MESSAGE_FLAG_TEXT \<noteq> 0 then m\<lparr>im_Content := cf_filter cf (im_Content m)\<rparr> else m)"

definition HandleIMMessage :: "im_config \<Rightarrow> 'c \<Rightarrow> message \<Rightarrow> 'c im \<Rightarrow> 'c im go" where
  "HandleIMMessage cf c message st =
     (case Body message of
        Some (BIM msg) \<Rightarrow>
          (let cn = im_client st c; appid = cn_appid cn; uid = cn_uid cn; seq = Seq message;
               flag = or (Flag message) MESSAGE_FLAG_PUSH
           in if uid = 0 then Ret st
              else if im_Sender msg \<noteq> uid then Ret st
              else
                let (refused, st) = peer_permission cf appid uid (im_Receiver msg) st
                in case refused of
                     Some status \<Rightarrow> Ret (enqueue c (ack_msg (cn_version cn) 0 seq status None) st)
                   | None \<Rightarrow>
                       let msg = (FilterDirtyWord cf (Flag message) msg)\<lparr>im_Timestamp := ucast (unix_now st)\<rparr>;
                           m = Message MSG_IM 0 DEFAULT_VERSION 0 (Some (BIM msg)) None
                       in go_bind (im_SaveMessage cf appid (im_Receiver msg) (cn_device_ID cn) m st) (\<lambda>(r, st).
                            case r of None \<Rightarrow> Ret st | Some ids \<Rightarrow>
                          go_bind (im_SaveMessage cf appid (im_Sender msg) (cn_device_ID cn) m st) (\<lambda>(r2, st).
                            case r2 of None \<Rightarrow> Ret st | Some ids2 \<Rightarrow>
                          go_bind (PushMessage cf appid (im_Receiver msg) m st) (\<lambda>st.
                          go_bind (conn_SendMessage cf c (im_Receiver msg)
                            (Message MSG_IM 0 DEFAULT_VERSION flag (Some (BIM msg)) (Some (meta_of ids))) st) (\<lambda>st.
                          go_bind (conn_SendMessage cf c (im_Receiver msg) (notify_msg (fst ids)) st) (\<lambda>st.
                          go_bind (conn_SendMessage cf c uid
                            (Message MSG_IM 0 DEFAULT_VERSION flag (Some (BIM msg)) (Some (meta_of ids2))) st) (\<lambda>st.
                          go_map (\<lambda>st. enqueue c (ack_msg 0 0 seq 0 (Some (meta_of ids2))) st)
                            (conn_SendMessage cf c uid (notify_msg (fst ids)) st))))))))
      | _ \<Rightarrow> Panic)"

definition HandleUnreadCount :: "'c \<Rightarrow> int32 \<Rightarrow> 'c im \<Rightarrow> 'c im" where
  "HandleUnreadCount c count st =
     (let cn = im_client st c in st\<lparr>im_unread := (im_unread st)((cn_appid cn, cn_uid cn) := count)\<rparr>)"

definition HandleRTMessage :: "im_config \<Rightarrow> 'c \<Rightarrow> message \<Rightarrow> 'c im \<Rightarrow> 'c im go" where
  "HandleRTMessage cf c msg st =
     (case Body msg of
        Some (BRT rt) \<Rightarrow>
          if rt_Sender rt \<noteq> cn_uid (im_client st c) then Ret st
          else conn_SendMessage cf c (rt_Receiver rt) (Message MSG_RT 0 0 0 (Some (BRT rt)) None) st
      | _ \<Rightarrow> Panic)"

definition peer_HandleMessage :: "im_config \<Rightarrow> 'c \<Rightarrow> message \<Rightarrow> 'c im \<Rightarrow> 'c im go" where
  "peer_HandleMessage cf c msg st =
     (if Cmd msg = MSG_IM then HandleIMMessage cf c msg st
      else if Cmd msg = MSG_RT then HandleRTMessage cf c msg st
      else if Cmd msg = MSG_UNREAD_COUNT then
        (case Body msg of Some (BUnread n) \<Rightarrow> Ret (HandleUnreadCount c n st) | _ \<Rightarrow> Panic)
      else if Cmd msg = MSG_SYNC then
        (case Body msg of Some (BSyncKey k) \<Rightarrow> HandleSync cf c k st | _ \<Rightarrow> Panic)
      else if Cmd msg = MSG_SYNC_KEY then
        (case Body msg of Some (BSyncKey k) \<Rightarrow> Ret (HandleSyncKey c k st) | _ \<Rightarrow> Panic)
      else Ret st)"

section \<open>Rooms\<close>

definition im_with_route :: "int64 \<Rightarrow> ('c im_route \<Rightarrow> 'c im_route) \<Rightarrow> 'c im \<Rightarrow> 'c im" where
  "im_with_route appid f st =
     (let (route, apps) = im_FindOrAddRoute appid (im_apps st) in st\<lparr>im_apps := apps(appid \<mapsto> f route)\<rparr>)"

definition room_Logout :: "im_config \<Rightarrow> 'c \<Rightarrow> 'c im \<Rightarrow> 'c im go" where
  "room_Logout cf c st =
     (let cn = im_client st c; room_id = cn_room_id cn
      in if sint room_id > 0 then
           go_map (\<lambda>i. im_with_route (cn_appid cn) (\<lambda>r. snd (RemoveRoomClient room_id c r))
               (update_chan i (UnsubscribeRoom (cn_appid cn) room_id) st))
             (GetRoomChannel cf room_id)
         else Ret st)"

definition HandleEnterRoom :: "im_config \<Rightarrow> 'c \<Rightarrow> int64 \<Rightarrow> 'c im \<Rightarrow> 'c im go" where
  "HandleEnterRoom cf c room_id st =
     (let cn = im_client st c; appid = cn_appid cn
      in if cn_uid cn = 0 then Ret st
         else if room_id = 0 \<or> cn_room_id cn = room_id then Ret st
         else
           let st = im_with_route appid id st
           in go_bind
                (if sint (cn_room_id cn) > 0 then
                   go_map (\<lambda>i. im_with_route appid (\<lambda>r. snd (RemoveRoomClient (cn_room_id cn) c r))
                       (update_chan i (UnsubscribeRoom appid (cn_room_id cn)) st))
                     (GetRoomChannel cf (cn_room_id cn))
                 else Ret st)
                (\<lambda>st.
                  let st = update_conn c (\<lambda>cn. cn\<lparr>cn_room_id := room_id\<rparr>) st;
                      st = im_with_route appid (AddRoomClient room_id c) st
                  in go_map (\<lambda>i. update_chan i (SubscribeRoom appid room_id) st) (GetRoomChannel cf room_id)))"

definition HandleLeaveRoom :: "im_config \<Rightarrow> 'c \<Rightarrow> int64 \<Rightarrow> 'c im \<Rightarrow> 'c im go" where
  "HandleLeaveRoom cf c room_id st =
     (let cn = im_client st c; appid = cn_appid cn
      in if cn_uid cn = 0 then Ret st
         else if room_id = 0 then Ret st
         else if cn_room_id cn \<noteq> room_id then Ret st
         else
           let st = im_with_route appid (\<lambda>r. snd (RemoveRoomClient room_id c r)) st
           in go_map (\<lambda>i. update_conn c (\<lambda>cn. cn\<lparr>cn_room_id := 0\<rparr>)
                (update_chan i (UnsubscribeRoom appid room_id) st)) (GetRoomChannel cf room_id))"

text \<open>
  The acknowledgement is sent to \<open>cn_wt\<close> directly, without the guard of \<open>EnqueueMessage\<close>: a full
  channel blocks the reader, here the send is made when there is room.
\<close>

definition HandleRoomIM :: "im_config \<Rightarrow> 'c \<Rightarrow> rt_message \<Rightarrow> go_int \<Rightarrow> 'c im \<Rightarrow> 'c im go" where
  "HandleRoomIM cf c room_im seq st =
     (let cn = im_client st c; appid = cn_appid cn; room_id = rt_Receiver room_im
      in if cn_uid cn = 0 then Ret st
         else if room_id \<noteq> cn_room_id cn then Ret st
         else if cn_forbidden cn = 1 then Ret st
         else
           let m = Message MSG_ROOM_IM 0 0 0 (Some (BRoomMessage room_im)) None;
               (_, st) = DispatchMessageToRoom m room_id appid (Some c) st
           in go_map (\<lambda>i.
                let st = update_chan i (PublishRoom (BApp appid room_id 0 0 0 0 (Some m))) st
                in update_conn c (\<lambda>cn. cn\<lparr>cn_wt := cn_wt cn @ [Some (ack_msg 0 0 seq 0 None)]\<rparr>) st)
              (GetRoomChannel cf (cn_room_id cn)))"

definition room_HandleMessage :: "im_config \<Rightarrow> 'c \<Rightarrow> message \<Rightarrow> 'c im \<Rightarrow> 'c im go" where
  "room_HandleMessage cf c msg st =
     (if Cmd msg = MSG_ENTER_ROOM then
        (case Body msg of Some (BRoom r) \<Rightarrow> HandleEnterRoom cf c r st | _ \<Rightarrow> Panic)
      else if Cmd msg = MSG_LEAVE_ROOM then
        (case Body msg of Some (BRoom r) \<Rightarrow> HandleLeaveRoom cf c r st | _ \<Rightarrow> Panic)
      else if Cmd msg = MSG_ROOM_IM then
        (case Body msg of Some (BRoomMessage m) \<Rightarrow> HandleRoomIM cf c m (Seq msg) st | _ \<Rightarrow> Panic)
      else Ret st)"

section \<open>Customers and their support\<close>

text \<open>
  The two handlers differ in the tests that come first; the rest is the same code with the two
  parties exchanged: \<open>(appid1, uid1)\<close> receives, \<open>(appid2, uid2)\<close> is the sender.
\<close>

definition customer_deliver ::
  "im_config \<Rightarrow> 'c \<Rightarrow> go_int \<Rightarrow> message \<Rightarrow> int64 \<times> int64 \<Rightarrow> int64 \<times> int64 \<Rightarrow> 'c im \<Rightarrow> 'c im go"
where
  "customer_deliver cf c cmd msg receiver sender st =
     (let (appid1, uid1) = receiver; (appid2, uid2) = sender; cn = im_client st c; seq = Seq msg;
          pushed = (\<lambda>ids. Message cmd 0 DEFAULT_VERSION (or (Flag msg) MESSAGE_FLAG_PUSH) (Body msg) (Some (meta_of ids)))
      in if and (Flag msg) MESSAGE_FLAG_UNPERSISTENT \<noteq> 0 then
           go_map (enqueue c (ack_msg 0 0 seq 0 None)) (SendAppMessage cf appid1 uid1 msg st)
         else
           go_bind (im_SaveMessage cf appid1 uid1 (cn_device_ID cn) msg st) (\<lambda>(r, st).
             case r of None \<Rightarrow> Ret st | Some ids \<Rightarrow>
           go_bind (im_SaveMessage cf appid2 uid2 (cn_device_ID cn) msg st) (\<lambda>(r2, st).
             case r2 of None \<Rightarrow> Ret st | Some ids2 \<Rightarrow>
           go_bind (PushMessage cf appid1 uid1 msg st) (\<lambda>st.
           go_bind (SendAppMessage cf appid1 uid1 (pushed ids) st) (\<lambda>st.
           go_bind (SendAppMessage cf appid1 uid1 (notify_msg (fst ids)) st) (\<lambda>st.
           go_bind (conn_SendMessage cf c (cn_uid cn) (pushed ids2) st) (\<lambda>st.
           go_map (enqueue c (ack_msg 0 0 seq 0 (Some (meta_of ids2))))
             (conn_SendMessage cf c (cn_uid cn) (notify_msg (fst ids2)) st))))))))"

text \<open>The message with the time it was received.\<close>

definition stamped :: "message \<Rightarrow> customer_message \<Rightarrow> 'c im \<Rightarrow> message" where
  "stamped msg cm st = Message (Cmd msg) (Seq msg) (Version msg) (Flag msg)
     (Some (BCustomer (cm\<lparr>cs_Timestamp := ucast (unix_now st)\<rparr>))) (Meta msg)"

definition HandleCustomerSupportMessage :: "im_config \<Rightarrow> 'c \<Rightarrow> message \<Rightarrow> 'c im \<Rightarrow> 'c im go" where
  "HandleCustomerSupportMessage cf c msg st =
     (case Body msg of
        Some (BCustomer cm) \<Rightarrow>
          (let cn = im_client st c
           in if cn_appid cn \<noteq> cf_kefu_appid cf then Ret st
              else if cn_uid cn \<noteq> cs_SellerId cm then Ret st
              else customer_deliver cf c MSG_CUSTOMER_SUPPORT (stamped msg cm st)
                     (cs_CustomerAppid cm, cs_CustomerId cm) (cn_appid cn, cs_SellerId cm) st)
      | _ \<Rightarrow> Panic)"

definition HandleCustomerMessage :: "im_config \<Rightarrow> 'c \<Rightarrow> message \<Rightarrow> 'c im \<Rightarrow> 'c im go" where
  "HandleCustomerMessage cf c msg st =
     (case Body msg of
        Some (BCustomer cm) \<Rightarrow>
          (let cn = im_client st c
           in if cs_CustomerAppid cm \<noteq> cn_appid cn then Ret st
              else if cs_CustomerId cm \<noteq> cn_uid cn then Ret st
              else if cs_SellerId cm = 0 then Ret st
              else customer_deliver cf c MSG_CUSTOMER (stamped msg cm st)
                     (cf_kefu_appid cf, cs_SellerId cm) (cs_CustomerAppid cm, cs_CustomerId cm) st)
      | _ \<Rightarrow> Panic)"

definition customer_HandleMessage :: "im_config \<Rightarrow> 'c \<Rightarrow> message \<Rightarrow> 'c im \<Rightarrow> 'c im go" where
  "customer_HandleMessage cf c msg st =
     (if Cmd msg = MSG_CUSTOMER then HandleCustomerMessage cf c msg st
      else if Cmd msg = MSG_CUSTOMER_SUPPORT then HandleCustomerSupportMessage cf c msg st
      else Ret st)"

end
