(* ===== verification/GroupClient.thy ===== *)
theory GroupClient
  imports PeerClient GroupDeliver
begin

text \<open>
  \<^verbatim>\<open>im/group_client.go\<close>: the messages of a client to groups. The state of a server is that of
  theory \<open>Im\<close> with its deliverers, which are chosen in turn.
\<close>

section \<open>The deliverers\<close>

record 'c server =
  sv_im :: "'c im"
  sv_delivers :: "nat \<Rightarrow> deliver"
  sv_index :: "64 word"
  sv_chan :: nat

text \<open>
  \<open>GetGroupMessageDeliver\<close> of \<^verbatim>\<open>im/im.go\<close>: the id of the group is not used. \<open>sv_chan\<close> numbers the
  channels that are made for callbacks.
\<close>

definition GetGroupMessageDeliver :: "im_config \<Rightarrow> int64 \<Rightarrow> 'c server \<Rightarrow> (nat \<times> 'c server) go" where
  "GetGroupMessageDeliver cf group_id sv =
     (let sv = sv\<lparr>sv_index := sv_index sv + 1\<rparr>
      in if cf_deliver_count cf = 0 then Panic
         else Ret (unat (sv_index sv) mod cf_deliver_count cf, sv))"

definition on_im :: "('c im \<Rightarrow> 'r \<times> 'c im) \<Rightarrow> 'c server \<Rightarrow> 'r \<times> 'c server" where
  "on_im f sv = (let (r, st) = f (sv_im sv) in (r, sv\<lparr>sv_im := st\<rparr>))"

definition on_im_go :: "('c im \<Rightarrow> 'c im go) \<Rightarrow> 'c server \<Rightarrow> 'c server go" where
  "on_im_go f sv = go_map (\<lambda>st. sv\<lparr>sv_im := st\<rparr>) (f (sv_im sv))"

definition on_deliver :: "nat \<Rightarrow> (deliver \<Rightarrow> 'c im \<Rightarrow> (deliver \<times> 'c im) go) \<Rightarrow> 'c server \<Rightarrow> 'c server go" where
  "on_deliver i f sv =
     go_map (\<lambda>(d, st). sv\<lparr>sv_im := st, sv_delivers := (sv_delivers sv)(i := d)\<rparr>)
       (f (sv_delivers sv i) (sv_im sv))"

definition DispatchGroupMessage :: "im_config \<Rightarrow> body \<Rightarrow> 'c server \<Rightarrow> 'c server go" where
  "DispatchGroupMessage cf amsg sv =
     go_bind (group_dispatch amsg) (\<lambda>m.
     go_bind (GetGroupMessageDeliver cf (am_Receiver amsg) sv) (\<lambda>(i, sv).
       on_deliver i (gd_DispatchMessage cf
         (BApp (am_Appid amsg) (am_Receiver amsg) (am_Msgid amsg) (am_PrevMsgid amsg) 0 0 (Some m))) sv))"

section \<open>Sending to a group\<close>

text \<open>
  The message is pushed before its \<open>Meta\<close> and \<open>Flag\<close> are set; the channel holds the same object, the
  model queues it as it was when it was pushed.
\<close>

definition HandleSuperGroupMessage ::
  "im_config \<Rightarrow> 'c \<Rightarrow> im_message \<Rightarrow> group \<Rightarrow> 'c im \<Rightarrow> ((int64 \<times> int64) option \<times> 'c im) go"
where
  "HandleSuperGroupMessage cf c msg g st =
     (let cn = im_client st c; m = Message MSG_GROUP_IM 0 DEFAULT_VERSION 0 (Some (BIM msg)) None
      in go_bind (im_SaveGroupMessage cf (cn_appid cn) (im_Receiver msg) (cn_device_ID cn) m st) (\<lambda>(r, st).
           case r of None \<Rightarrow> Ret (None, st) | Some ids \<Rightarrow>
         go_bind (PushGroupMessage cf (cn_appid cn) (members_of cf g) m st) (\<lambda>st.
         go_bind (conn_SendGroupMessage cf c (gr_gid g) (members_of cf g)
           (Message MSG_GROUP_IM 0 DEFAULT_VERSION (or MESSAGE_FLAG_PUSH MESSAGE_FLAG_SUPER_GROUP)
             (Some (BIM msg)) (Some (meta_of ids))) st) (\<lambda>st.
         go_map (\<lambda>st. (Some ids, st))
           (conn_SendGroupMessage cf c (gr_gid g) (members_of cf g)
             (Message MSG_SYNC_GROUP_NOTIFY 0 0 0
               (Some (BGroupSyncKey \<lparr>gs_GroupId = im_Receiver msg, gs_SyncKey = fst ids\<rparr>)) None) st)))))"

text \<open>
  \<open>HandleGroupMessage\<close> saves the message with a callback and waits for the answer of the deliverer, two
  seconds at most. \<open>wait\<close> is what the rest of the server does meanwhile; an empty channel afterwards is
  the timeout.
\<close>

definition pending_of :: "im_config \<Rightarrow> connection \<Rightarrow> im_message \<Rightarrow> group \<Rightarrow> pending_group_message" where
  "pending_of cf cn im g =
     \<lparr>pg_Appid = cn_appid cn, pg_Sender = im_Sender im, pg_DeviceID = cn_device_ID cn, pg_Gid = im_Receiver im,
      pg_Timestamp = im_Timestamp im, pg_Members = members_of cf g, pg_Content = im_Content im\<rparr>"

definition HandleGroupMessage ::
  "im_config \<Rightarrow> ('c server \<Rightarrow> 'c server) \<Rightarrow> 'c \<Rightarrow> im_message \<Rightarrow> group \<Rightarrow> 'c server
   \<Rightarrow> (metadata option \<times> 'c server) go"
where
  "HandleGroupMessage cf wait c im g sv =
     go_map (\<lambda>(i, sv).
         let gm = pending_of cf (im_client (sv_im sv) c) im g;
             m = Message MSG_PENDING_GROUP_MESSAGE 0 0 0 (Some (BPendingGroup gm)) None;
             ch = sv_chan sv;
             (callback_id, d) = gd_SaveMessage m (Some ch)
               ((sv_delivers sv i)\<lparr>gd_chans := (gd_chans (sv_delivers sv i))(ch := None)\<rparr>);
             sv = wait (sv\<lparr>sv_chan := ch + 1, sv_delivers := (sv_delivers sv)(i := d)\<rparr>)
         in (gd_chans (sv_delivers sv i) ch,
             sv\<lparr>sv_delivers := (sv_delivers sv)(i := RemoveCallback callback_id (sv_delivers sv i))\<rparr>))
       (GetGroupMessageDeliver cf (gr_gid g) sv)"

definition HandleGroupIMMessage ::
  "im_config \<Rightarrow> ('c server \<Rightarrow> 'c server) \<Rightarrow> 'c \<Rightarrow> message \<Rightarrow> 'c server \<Rightarrow> 'c server go"
where
  "HandleGroupIMMessage cf wait c message sv =
     (case Body message of
        Some (BIM msg) \<Rightarrow>
          (let cn = im_client (sv_im sv) c; seq = Seq message;
               ack = (\<lambda>flag status meta sv. snd (on_im (\<lambda>st. ((), enqueue c (ack_msg 0 flag seq status meta) st)) sv))
           in if cn_uid cn = 0 then Ret sv
              else if im_Sender msg \<noteq> cn_uid cn then Ret sv
              else
                let msg = (FilterDirtyWord cf (Flag message) msg)\<lparr>im_Timestamp := ucast (unix_now (sv_im sv))\<rparr>
                in go_bind (GetGroupMessageDeliver cf (im_Receiver msg) sv) (\<lambda>(_, sv).
                  let (group, sv) = on_im (gd_LoadGroup cf (im_Receiver msg)) sv
                  in case group of
                       None \<Rightarrow> Ret sv
                     | Some g \<Rightarrow>
                         if \<not> IsMember (im_Sender msg) g then Ret (ack 0 ACK_NOT_GROUP_MEMBER None sv)
                         else if GetMemberMute (im_Sender msg) g then Ret sv
                         else if gr_super g then
                           go_map (\<lambda>(r, st).
                               ack MESSAGE_FLAG_SUPER_GROUP 0 (map_option meta_of r) (sv\<lparr>sv_im := st\<rparr>))
                             (HandleSuperGroupMessage cf c msg g (sv_im sv))
                         else go_map (\<lambda>(meta, sv). ack 0 0 meta sv) (HandleGroupMessage cf wait c msg g sv)))
      | _ \<Rightarrow> Panic)"

section \<open>Synchronising a group\<close>

text \<open>
  The begin marker shares its \<open>GroupSyncKey\<close> with the end marker and may be written after that has
  changed; the model queues the value at the time it is queued.
\<close>

definition HandleGroupSync :: "im_config \<Rightarrow> 'c \<Rightarrow> group_sync_key \<Rightarrow> 'c im \<Rightarrow> 'c im go" where
  "HandleGroupSync cf c key st =
     (let cn = im_client st c; appid = cn_appid cn; uid = cn_uid cn; group_id = gs_GroupId key
      in if uid = 0 then Ret st
         else
           let (group, st) = im_FindGroup group_id st
           in case group of
                None \<Rightarrow> Ret st
              | Some g \<Rightarrow>
                  if \<not> IsMember uid g then Ret st
                  else
                    let ts = GetMemberTimestamp uid g;
                        lastid = (if gs_SyncKey key = 0 then im_group_sync_keys st (appid, uid, group_id)
                                  else gs_SyncKey key)
                    in go_bind (GetGroupStorageRPCClient cf group_id) (\<lambda>i.
                      let (resp, st) = rpc_call cf i
                            (\<lambda>s. returned (rpc_SyncGroupMessage appid uid group_id lastid (ucast ts) s)) st
                      in case resp of
                           None \<Rightarrow> Ret st
                         | Some gh \<Rightarrow>
                             go_map (\<lambda>ms.
                                let messages = hr_Messages gh;
                                    sk = (if messages = [] then lastid else hm_MsgID (hd messages));
                                    sk = (if sint (hr_LastMsgID gh) < sint lastid \<and> sint (hr_LastMsgID gh) > 0
                                          then hr_LastMsgID gh else sk);
                                    marker = (\<lambda>cmd k. Message cmd 0 0 0
                                      (Some (BGroupSyncKey \<lparr>gs_GroupId = group_id, gs_SyncKey = k\<rparr>)) None)
                                in foldl (\<lambda>st m. enqueue c m st) st
                                     (marker MSG_SYNC_GROUP_BEGIN lastid # ms @ [marker MSG_SYNC_GROUP_END sk]))
                               (sync_messages cf cn (rev (hr_Messages gh)))))"

definition HandleGroupSyncKey :: "'c \<Rightarrow> group_sync_key \<Rightarrow> 'c im \<Rightarrow> 'c im" where
  "HandleGroupSyncKey c key st =
     (let cn = im_client st c
      in if cn_uid cn = 0 then st
         else if sint (gs_SyncKey key) > 0
         then st\<lparr>im_group_sync_c := im_group_sync_c st @ [(cn_appid cn, cn_uid cn, gs_GroupId key, gs_SyncKey key)]\<rparr>
         else st)"

definition group_HandleMessage ::
  "im_config \<Rightarrow> ('c server \<Rightarrow> 'c server) \<Rightarrow> 'c \<Rightarrow> message \<Rightarrow> 'c server \<Rightarrow> 'c server go"
where
  "group_HandleMessage cf wait c msg sv =
     (if Cmd msg = MSG_GROUP_IM then HandleGroupIMMessage cf wait c msg sv
      else if Cmd msg = MSG_SYNC_GROUP then
        (case Body msg of Some (BGroupSyncKey k) \<Rightarrow> on_im_go (HandleGroupSync cf c k) sv | _ \<Rightarrow> Panic)
      else if Cmd msg = MSG_GROUP_SYNC_KEY then
        (case Body msg of Some (BGroupSyncKey k) \<Rightarrow> on_im_go (\<lambda>st. Ret (HandleGroupSyncKey c k st)) sv | _ \<Rightarrow> Panic)
      else Ret sv)"

end
