(* ===== verification/Client.thy ===== *)
theory Client
  imports GroupClient
begin

text \<open>
  \<^verbatim>\<open>im/client.go\<close>: the life of a client, from the connection over the login to its end, and the
  dispatch of its messages to the four handlers.
\<close>

section \<open>Login\<close>

definition AuthToken :: "im_config \<Rightarrow> bytes \<Rightarrow> (int64 \<times> int64 \<times> go_int \<times> bool) option" where
  "AuthToken cf token =
     (case cf_token cf token of
        None \<Rightarrow> None
      | Some (appid, uid) \<Rightarrow>
          (case cf_preferences cf appid uid of
             None \<Rightarrow> None
           | Some (forbidden, notification_on) \<Rightarrow> Some (appid, uid, forbidden, notification_on)))"

definition im_AddClient :: "'c \<Rightarrow> 'c im \<Rightarrow> 'c im" where
  "im_AddClient c st =
     (let cn = im_client st c in im_with_route (cn_appid cn) (route_AddClient (cn_uid cn) c) st)"

definition auth_status :: "go_int \<Rightarrow> int32 \<Rightarrow> message" where
  "auth_status version status = Message MSG_AUTH_STATUS 0 version 0 (Some (BAuthStatus status)) None"

text \<open>What a login sets in the connection.\<close>

definition logged_in ::
  "authentication_token \<Rightarrow> go_int \<Rightarrow> int64 \<Rightarrow> int64 \<Rightarrow> go_int \<Rightarrow> bool \<Rightarrow> connection \<Rightarrow> connection"
where
  "logged_in login version appid uid fb on cn =
     (let is_mobile = (auth_PlatformId login = PLATFORM_IOS \<or> auth_PlatformId login = PLATFORM_ANDROID)
      in cn\<lparr>cn_appid := appid, cn_uid := uid, cn_forbidden := ucast fb, cn_notification_on := on,
            cn_online := \<not> (on \<and> \<not> is_mobile), cn_version := version, cn_device_id := auth_DeviceId login,
            cn_platform_id := auth_PlatformId login\<rparr>)"

text \<open>
  \<open>GetDeviceID\<close> returns 0 with an error, which the assignment stores. Counting daily users and the
  counters of the summary are left out.
\<close>

definition HandleAuthToken ::
  "im_config \<Rightarrow> 'c \<Rightarrow> authentication_token \<Rightarrow> go_int \<Rightarrow> 'c im \<Rightarrow> 'c im go"
where
  "HandleAuthToken cf c login version st =
     (if sint (cn_uid (im_client st c)) > 0 then Ret st
      else case AuthToken cf (auth_Token login) of
             None \<Rightarrow> Ret (enqueue c (auth_status version 1) st)
           | Some (appid, uid, fb, on) \<Rightarrow>
               if uid = 0 then Ret (enqueue c (auth_status version 1) st)
               else
                 let device = (if auth_PlatformId login \<noteq> PLATFORM_WEB \<and> length (auth_DeviceId login) > 0
                       then Some (cf_device cf (auth_DeviceId login) (scast (auth_PlatformId login))) else None);
                     st = (case device of
                         None \<Rightarrow> st
                       | Some r \<Rightarrow> update_conn c
                           (\<lambda>cn. cn\<lparr>cn_device_ID := (case r of None \<Rightarrow> 0 | Some i \<Rightarrow> i)\<rparr>) st)
                 in if device = Some None then Ret (enqueue c (auth_status version 1) st)
                    else
                      let st = update_conn c (logged_in login version appid uid fb on) st;
                          st = enqueue c (auth_status version 0) st
                      in peer_Login cf c (im_AddClient c st))"

definition HandlePing :: "'c \<Rightarrow> 'c im \<Rightarrow> 'c im" where
  "HandlePing c st = enqueue c (Message MSG_PONG 0 0 0 None None) st"

section \<open>The end of a client\<close>

definition im_RemoveClient :: "'c \<Rightarrow> 'c im \<Rightarrow> 'c im" where
  "im_RemoveClient c st =
     (let cn = im_client st c
      in case im_FindRoute (cn_appid cn) (im_apps st) of
           None \<Rightarrow> st
         | Some route \<Rightarrow>
             let route = snd (route_RemoveClient (cn_uid cn) c route);
                 route = (if sint (cn_room_id cn) > 0 then snd (RemoveRoomClient (cn_room_id cn) c route) else route)
             in st\<lparr>im_apps := (im_apps st)(cn_appid cn \<mapsto> route)\<rparr>)"

text \<open>The send of \<open>nil\<close> to \<open>cn_wt\<close> waits for room; the model makes it at once.\<close>

definition HandleClientClosed :: "im_config \<Rightarrow> 'c \<Rightarrow> 'c im \<Rightarrow> 'c im go" where
  "HandleClientClosed cf c st =
     (let st = update_conn c (\<lambda>cn. cn\<lparr>cn_closed := 1\<rparr>) st;
          st = im_RemoveClient c st;
          st = update_conn c (\<lambda>cn. cn\<lparr>cn_wt := cn_wt cn @ [None]\<rparr>) st
      in go_bind (room_Logout cf c st) (peer_Logout cf c))"

section \<open>Messages\<close>

definition client_HandleMessage ::
  "im_config \<Rightarrow> ('c server \<Rightarrow> 'c server) \<Rightarrow> 'c \<Rightarrow> message \<Rightarrow> 'c server \<Rightarrow> 'c server go"
where
  "client_HandleMessage cf wait c msg sv =
     go_bind
       (if Cmd msg = MSG_AUTH_TOKEN then
          (case Body msg of
             Some (BAuthToken login) \<Rightarrow> on_im_go (HandleAuthToken cf c login (Version msg)) sv
           | _ \<Rightarrow> Panic)
        else if Cmd msg = MSG_ACK then (case Body msg of Some (BAck a) \<Rightarrow> Ret sv | _ \<Rightarrow> Panic)
        else if Cmd msg = MSG_PING then on_im_go (\<lambda>st. Ret (HandlePing c st)) sv
        else Ret sv) (\<lambda>sv.
     go_bind (on_im_go (peer_HandleMessage cf c msg) sv) (\<lambda>sv.
     go_bind (group_HandleMessage cf wait c msg sv) (\<lambda>sv.
     go_bind (on_im_go (room_HandleMessage cf c msg) sv) (\<lambda>sv.
       on_im_go (customer_HandleMessage cf c msg) sv))))"

text \<open>
  One round of \<open>Read\<close>: what \<open>read\<close> makes of the bytes of the socket, \<open>None\<close> its error. It ends when the
  writer is blocked or nothing can be read. The result says whether the loop goes on.
\<close>

definition client_Read ::
  "im_config \<Rightarrow> ('c server \<Rightarrow> 'c server) \<Rightarrow> 'c \<Rightarrow> message option \<Rightarrow> 'c server \<Rightarrow> (bool \<times> 'c server) go"
where
  "client_Read cf wait c msg sv =
     (if sint (cn_tc (im_client (sv_im sv) c)) > 0 then go_map (Pair False) (on_im_go (HandleClientClosed cf c) sv)
      else case msg of
             None \<Rightarrow> go_map (Pair False) (on_im_go (HandleClientClosed cf c) sv)
           | Some m \<Rightarrow> go_map (Pair True) (client_HandleMessage cf wait c m sv))"

end
