(* ===== verification/Sessions.thy ===== *)
theory Sessions
  imports Client ChannelCount
begin

text \<open>
  The sessions of an im server: the connections whose user is logged in, the rooms they are in, and what
  the routes and the channels say of them. The lemmas show that every handler keeps the three in step.
\<close>

section \<open>What the sessions are\<close>

text \<open>The members that the routes give for a user and for a room.\<close>

definition user_members :: "'c im \<Rightarrow> int64 \<Rightarrow> int64 \<Rightarrow> 'c set" where
  "user_members st a u = (case im_apps st a of None \<Rightarrow> {} | Some r \<Rightarrow> find_members u (rt_clients r))"

definition room_members :: "'c im \<Rightarrow> int64 \<Rightarrow> int64 \<Rightarrow> 'c set" where
  "room_members st a room = (case im_apps st a of None \<Rightarrow> {} | Some r \<Rightarrow> find_members room (rt_room_clients r))"

definition live :: "connection \<Rightarrow> bool" where
  "live cn \<longleftrightarrow> cn_closed cn = 0 \<and> cn_uid cn \<noteq> 0"

definition user_key :: "connection \<Rightarrow> int64 \<times> int64 \<times> bool" where
  "user_key cn = (cn_appid cn, cn_uid cn, cn_online cn)"

definition room_key :: "connection \<Rightarrow> int64 \<times> int64" where
  "room_key cn = (cn_appid cn, cn_room_id cn)"

text \<open>A user is subscribed on its own channel and on every channel for groups.\<close>

definition on_channel :: "im_config \<Rightarrow> nat \<Rightarrow> int64 \<Rightarrow> bool" where
  "on_channel cf i u \<longleftrightarrow> GetChannel cf u = Ret i \<or> i \<in> set (cf_group_route_channels cf)"

text \<open>The connections of \<open>C\<close> that satisfy \<open>P\<close>, as the multiset of their keys.\<close>

definition conn_mset :: "(connection \<Rightarrow> bool) \<Rightarrow> (connection \<Rightarrow> 'k) \<Rightarrow> 'c set \<Rightarrow> ('c \<Rightarrow> connection) \<Rightarrow> 'k multiset" where
  "conn_mset P k C f = image_mset (\<lambda>c. k (f c)) (mset_set {c \<in> C. P (f c)})"

definition subscribed :: "im_config \<Rightarrow> nat \<Rightarrow> connection \<Rightarrow> bool" where
  "subscribed cf i cn \<longleftrightarrow> live cn \<and> on_channel cf i (cn_uid cn)"

definition in_room :: "im_config \<Rightarrow> nat \<Rightarrow> connection \<Rightarrow> bool" where
  "in_room cf i cn \<longleftrightarrow> live cn \<and> cn_room_id cn \<noteq> 0 \<and> GetRoomChannel cf (cn_room_id cn) = Ret i"

definition user_conns :: "im_config \<Rightarrow> 'c set \<Rightarrow> 'c im \<Rightarrow> nat \<Rightarrow> conns" where
  "user_conns cf C st i = conn_mset (subscribed cf i) user_key C (im_client st)"

definition room_conns :: "im_config \<Rightarrow> 'c set \<Rightarrow> 'c im \<Rightarrow> nat \<Rightarrow> rooms" where
  "room_conns cf C st i = conn_mset (in_room cf i) room_key C (im_client st)"

text \<open>
  \<open>C\<close> is the set of the connections accepted so far. User and room ids are not negative: the code
  tests them for zero when they are set and for being positive when they are given up.
\<close>

definition sessions_ok :: "im_config \<Rightarrow> 'c set \<Rightarrow> 'c im \<Rightarrow> bool" where
  "sessions_ok cf C st \<longleftrightarrow> finite C \<and> card C < 65536
     \<and> (\<forall>c \<in> C. 0 \<le> sint (cn_uid (im_client st c)) \<and> 0 \<le> sint (cn_room_id (im_client st c))
          \<and> (cn_uid (im_client st c) = 0 \<longrightarrow> cn_room_id (im_client st c) = 0))
     \<and> (\<forall>a u. user_members st a u = {c \<in> C. live (im_client st c) \<and> cn_appid (im_client st c) = a
          \<and> cn_uid (im_client st c) = u})
     \<and> (\<forall>a r. room_members st a r = {c \<in> C. live (im_client st c) \<and> cn_appid (im_client st c) = a
          \<and> cn_room_id (im_client st c) = r \<and> r \<noteq> 0})
     \<and> (\<forall>i. channel_ok (user_conns cf C st i) (room_conns cf C st i) (im_chan st i))"

section \<open>Operations that leave the sessions alone\<close>

text \<open>All that \<open>sessions_ok\<close> depends on.\<close>

definition ident :: "connection \<Rightarrow> int32 \<times> int64 \<times> int64 \<times> bool \<times> int64" where
  "ident cn = (cn_closed cn, cn_appid cn, cn_uid cn, cn_online cn, cn_room_id cn)"

definition view where
  "view st = (user_members st, room_members st, (\<lambda>c. ident (im_client st c)),
     (\<lambda>i. uid_count (im_chan st i)), (\<lambda>i. room_count (im_chan st i)))"

lemma identD:
  assumes "ident cn = ident cn'"
  shows "cn_closed cn = cn_closed cn'" "cn_appid cn = cn_appid cn'" "cn_uid cn = cn_uid cn'"
    "cn_online cn = cn_online cn'" "cn_room_id cn = cn_room_id cn'"
  using assms by (simp_all add: ident_def)

lemma viewD:
  assumes "view st' = view st"
  shows "user_members st' = user_members st" "room_members st' = room_members st"
    "ident (im_client st' c) = ident (im_client st c)"
    "uid_count (im_chan st' i) = uid_count (im_chan st i)" "room_count (im_chan st' i) = room_count (im_chan st i)"
  using assms by (simp_all add: view_def fun_eq_iff)

lemma sessions_ok_view:
  assumes "view st' = view st"
  shows "sessions_ok cf C st' = sessions_ok cf C st"
proof -
  note v = viewD [OF assms]
  note i = identD [OF v(3)]
  have "live (im_client st' c) = live (im_client st c)" for c by (simp add: live_def i)
  then have "user_conns cf C st' = user_conns cf C st" "room_conns cf C st' = room_conns cf C st"
    by (simp_all add: fun_eq_iff user_conns_def room_conns_def conn_mset_def subscribed_def in_room_def
        user_key_def room_key_def i)
  then show ?thesis
    using \<open>\<And>c. live (im_client st' c) = live (im_client st c)\<close>
    by (simp add: sessions_ok_def i v channel_ok_def)
qed

lemma ident_enqueue [simp]:
  "ident (snd (EnqueueMessage m cn)) = ident cn" "ident (snd (EnqueueMessages ms cn)) = ident cn"
  "ident (snd (EnqueueNonBlockMessage m cn)) = ident cn"
  by (simp_all add: ident_def EnqueueMessage_def EnqueueMessages_def EnqueueNonBlockMessage_def
      EnqueueNonBlockContinueMessage_def enqueue_guard_def Let_def)

lemma ident_fields [simp]:
  "ident (cn\<lparr>cn_sync_count := x1\<rparr>) = ident cn" "ident (cn\<lparr>cn_wt := x2\<rparr>) = ident cn"
  "ident (cn\<lparr>cn_device_ID := x3\<rparr>) = ident cn"
  by (simp_all add: ident_def)

lemma view_update_conn:
  "(\<And>cn. ident (f cn) = ident cn) \<Longrightarrow> view (update_conn c f st) = view st"
  by (simp add: view_def update_conn_def user_members_def room_members_def fun_eq_iff)

lemma view_update_chan:
  "(\<And>ch. uid_count (f ch) = uid_count ch) \<Longrightarrow> (\<And>ch. room_count (f ch) = room_count ch) \<Longrightarrow>
   view (update_chan i f st) = view st"
  by (simp add: view_def update_chan_def user_members_def room_members_def fun_eq_iff)

named_theorems views

lemma view_enqueue [views]: "view (enqueue c m st) = view st"
  by (simp add: enqueue_def view_update_conn)

lemma view_enqueue_clients [views]: "view (enqueue_clients m s cl st) = view st"
  by (simp add: view_def enqueue_clients_def user_members_def room_members_def fun_eq_iff)

lemma view_channel [views]:
  "view (update_chan i (Publish b) st) = view st" "view (update_chan i (PublishGroup b) st) = view st"
  "view (update_chan i (PublishRoom b) st) = view st" "view (update_chan i (ch_Push a us m) st) = view st"
  by (simp_all add: view_update_chan Publish_def PublishGroup_def PublishRoom_def ch_Push_def)

lemma view_fields [views]:
  "view (st\<lparr>im_store := x1\<rparr>) = view st" "view (st\<lparr>im_calls := x2\<rparr>) = view st"
  "view (st\<lparr>im_groups := x3\<rparr>) = view st" "view (st\<lparr>im_pool := x4\<rparr>) = view st"
  "view (st\<lparr>im_unread := x5\<rparr>) = view st" "view (st\<lparr>im_sync_c := x6\<rparr>) = view st"
  "view (st\<lparr>im_group_sync_c := x7\<rparr>) = view st"
  by (simp_all add: view_def user_members_def room_members_def fun_eq_iff)

lemma view_rpc_call [views]: "view (snd (rpc_call cf i f st)) = view st"
  by (simp add: rpc_call_def Let_def views split: go.split prod.split)

lemma view_rpc: "rpc_call cf i f st = (r, st') \<Longrightarrow> view st' = view st"
  using view_rpc_call [of cf i f st] by simp

lemma members_new_app:
  assumes "im_FindOrAddRoute a (im_apps st) = (route, apps)"
  shows "view (st\<lparr>im_apps := apps\<rparr>) = view st"
proof (cases "im_apps st a")
  case None
  then have "apps = (im_apps st)(a \<mapsto> im_NewRoute a)" using assms by (auto simp: im_FindOrAddRoute_def)
  then have "user_members (st\<lparr>im_apps := apps\<rparr>) x u = user_members st x u"
    "room_members (st\<lparr>im_apps := apps\<rparr>) x u = room_members st x u" for x u
    using None by (simp_all add: user_members_def room_members_def im_NewRoute_def)
  then show ?thesis by (simp add: view_def fun_eq_iff)
next
  case (Some r)
  then have "apps = im_apps st" using assms by (simp add: im_FindOrAddRoute_def)
  then show ?thesis by simp
qed

lemma view_Dispatch [views]:
  "view (snd (DispatchMessageToPeer m u a c st)) = view st"
  "view (snd (DispatchMessageToRoom m r a c st)) = view st"
proof -
  show "view (snd (DispatchMessageToPeer m u a c st)) = view st"
    by (simp add: DispatchMessageToPeer_def Let_def views split: option.split)
  obtain route apps where f: "im_FindOrAddRoute a (im_apps st) = (route, apps)" by fastforce
  show "view (snd (DispatchMessageToRoom m r a c st)) = view st"
    by (simp add: DispatchMessageToRoom_def f Let_def views members_new_app [OF f])
qed

lemma view_DispatchGroup [views]: "view (snd (DispatchMessageToGroup m us a c st)) = view st"
proof -
  have "view (foldl (\<lambda>st u. enqueue_clients m (route_FindClientSet u route) c st) st us) = view st" for route
    by (induction us arbitrary: st) (simp_all add: views)
  then show ?thesis by (simp add: DispatchMessageToGroup_def split: option.split)
qed

lemma view_PushGroup:
  "PushGroupMessage cf a us m st = Ret st' \<Longrightarrow> view st' = view st"
  by (auto simp: PushGroupMessage_def view_def user_members_def room_members_def ch_Push_def fun_eq_iff)

text \<open>The calls that can panic.\<close>

lemma view_send:
  "PushMessage cf a u m st = Ret st' \<Longrightarrow> view st' = view st"
  "PublishMessage cf a u m st = Ret st' \<Longrightarrow> view st' = view st"
  "PublishGroupMessage cf a u m st = Ret st' \<Longrightarrow> view st' = view st"
  "SendAppMessage cf a u m st = Ret st' \<Longrightarrow> view st' = view st"
  "SendAppGroupMessage cf a u us m st = Ret st' \<Longrightarrow> view st' = view st"
  by (auto simp: PushMessage_def PublishMessage_def PublishGroupMessage_def SendAppMessage_def
      SendAppGroupMessage_def Let_def views)

lemma view_conn_send:
  "conn_SendMessage cf c u m st = Ret st' \<Longrightarrow> view st' = view st"
  "conn_SendGroupMessage cf c u us m st = Ret st' \<Longrightarrow> view st' = view st"
  by (auto simp: conn_SendMessage_def conn_SendGroupMessage_def Let_def views dest: view_send)

lemma view_save:
  "im_SaveMessage cf a u d m st = Ret (r, st') \<Longrightarrow> view st' = view st"
  "im_SaveGroupMessage cf a u d m st = Ret (r, st') \<Longrightarrow> view st' = view st"
  "im_SavePeerGroupMessage cf a us d m st = Ret (r', st') \<Longrightarrow> view st' = view st"
  by (auto simp: im_SaveMessage_def im_SaveGroupMessage_def im_SavePeerGroupMessage_def
      dest: view_rpc [OF sym] split: list.splits)

lemmas view_calls = view_PushGroup view_send view_conn_send view_save view_rpc

section \<open>Handlers that leave the sessions alone\<close>

text \<open>A call that, where it returns, leaves the view as it was; one rule for each form of a handler.\<close>

definition kept where
  "kept g v r = (case r of Ret x \<Rightarrow> view (g x) = v | _ \<Rightarrow> True)"

lemma kept_Ret: "view (g x) = v \<Longrightarrow> kept g v (Ret x)" by (simp add: kept_def)
lemma kept_Panic: "kept g v Panic" by (simp add: kept_def)
lemma kept_Fatal: "kept g v Fatal" by (simp add: kept_def)

lemma kept_bind: "(\<And>z. x = Ret z \<Longrightarrow> kept g v (f z)) \<Longrightarrow> kept g v (go_bind x f)"
  by (cases x) (simp_all add: kept_def)

lemma kept_map: "(\<And>z. x = Ret z \<Longrightarrow> view (g (f z)) = v) \<Longrightarrow> kept g v (go_map f x)"
  by (cases x) (simp_all add: kept_def)

lemma kept_let: "kept g v (f x) \<Longrightarrow> kept g v (Let x f)" by simp

lemma kept_prod: "(\<And>a b. p = (a, b) \<Longrightarrow> kept g v (f a b)) \<Longrightarrow> kept g v (case p of (a, b) \<Rightarrow> f a b)"
  by (cases p) simp

lemma kept_option:
  "(x = None \<Longrightarrow> kept g v a) \<Longrightarrow> (\<And>y. x = Some y \<Longrightarrow> kept g v (f y)) \<Longrightarrow>
   kept g v (case x of None \<Rightarrow> a | Some y \<Rightarrow> f y)"
  by (cases x) simp_all

lemma kept_if: "(b \<Longrightarrow> kept g v x) \<Longrightarrow> (\<not> b \<Longrightarrow> kept g v y) \<Longrightarrow> kept g v (if b then x else y)"
  by simp

lemmas kept_rules = kept_Panic kept_Fatal kept_bind kept_let kept_prod kept_option kept_if kept_Ret kept_map

lemma keptD: "kept g v r \<Longrightarrow> r = Ret x \<Longrightarrow> view (g x) = v"
  by (simp add: kept_def)

lemma kept_HandleSync: "kept id (view st) (HandleSync cf c k st)"
  unfolding HandleSync_def
  by (intro kept_rules) (auto simp: Let_def views view_update_conn dest!: view_rpc)

lemma view_HandleSyncKey [views]: "view (HandleSyncKey c k st) = view st"
  by (simp add: HandleSyncKey_def Let_def views)

lemma view_UnreadCount [views]: "view (HandleUnreadCount c n st) = view st"
  by (simp add: HandleUnreadCount_def Let_def views)

lemma view_peer_permission:
  "peer_permission cf a u r st = (x, st') \<Longrightarrow> view st' = view st"
  by (auto simp: peer_permission_def Let_def views split: prod.splits if_splits)

lemma kept_HandleIMMessage: "kept id (view st) (HandleIMMessage cf c m st)"
  unfolding HandleIMMessage_def
  by (cases "Body m"; simp add: kept_Panic; rename_tac b; case_tac b; simp only: body.case kept_Panic;
      intro kept_rules; auto simp: views dest!: view_calls view_peer_permission)

lemma kept_HandleRTMessage: "kept id (view st) (HandleRTMessage cf c m st)"
  unfolding HandleRTMessage_def
  by (cases "Body m"; simp add: kept_Panic; rename_tac b; case_tac b; simp only: body.case kept_Panic;
      intro kept_rules; auto simp: views kept_def dest: view_calls split: go.split)

lemma kept_peer_HandleMessage: "kept id (view st) (peer_HandleMessage cf c m st)"
proof -
  have "kept id (view st) (HandleSync cf c k st)" "kept id (view st) (HandleIMMessage cf c m st)"
    "kept id (view st) (HandleRTMessage cf c m st)" for k
    by (rule kept_HandleSync kept_HandleIMMessage kept_HandleRTMessage)+
  then show ?thesis
    by (auto simp: peer_HandleMessage_def kept_Panic kept_Ret views split: option.split body.split)
qed

lemma kept_HandleRoomIM: "kept id (view st) (HandleRoomIM cf c r seq st)"
  unfolding HandleRoomIM_def
  by (intro kept_rules) (auto simp: views view_update_conn dest!: arg_cong [where f = snd] intro: trans)

lemma kept_customer_deliver: "kept id (view st) (customer_deliver cf c cmd m r s st)"
  unfolding customer_deliver_def
  by (intro kept_rules) (auto simp: views dest!: view_calls)

lemma kept_customer_HandleMessage: "kept id (view st) (customer_HandleMessage cf c m st)"
  by (auto simp: customer_HandleMessage_def HandleCustomerMessage_def HandleCustomerSupportMessage_def Let_def
      kept_Panic kept_Ret kept_customer_deliver split: option.split body.split)

section \<open>Groups\<close>

lemma view_Groups:
  "im_FindGroup gid st = (g, st') \<Longrightarrow> view st' = view st"
  "im_LoadGroup cf gid st = (g, st') \<Longrightarrow> view st' = view st"
  "gd_LoadGroup cf gid st = (g, st') \<Longrightarrow> view st' = view st"
  by (auto simp: im_FindGroup_def im_LoadGroup_def gd_LoadGroup_def Let_def views split: prod.splits option.splits)

lemma kept_HandleGroupSync: "kept id (view st) (HandleGroupSync cf c key st)"
proof -
  have "view (foldl (\<lambda>st m. enqueue c m st) st ms) = view st" for ms and st :: "'a im"
    by (induction ms arbitrary: st) (simp_all add: views)
  then show ?thesis
    unfolding HandleGroupSync_def
    by (intro kept_rules) (auto simp: Let_def views dest!: view_rpc view_Groups)
qed

lemma view_HandleGroupSyncKey [views]: "view (HandleGroupSyncKey c k st) = view st"
  by (simp add: HandleGroupSyncKey_def Let_def views)

lemma kept_HandleSuperGroupMessage: "kept snd (view st) (HandleSuperGroupMessage cf c m g st)"
  unfolding HandleSuperGroupMessage_def
  by (intro kept_rules) (auto simp: views dest!: view_calls)

lemma deliver_same_im: "GetGroupMessageDeliver cf g sv = Ret (i, sv') \<Longrightarrow> sv_im sv' = sv_im sv"
  by (auto simp: GetGroupMessageDeliver_def Let_def split: if_splits)

text \<open>What a handler leaves behind that may have waited for a deliverer.\<close>

definition waited :: "('c server \<Rightarrow> 'c server) \<Rightarrow> 'c server \<Rightarrow> 'c server \<Rightarrow> bool" where
  "waited w sv sv' \<longleftrightarrow> view (sv_im sv') = view (sv_im sv)
     \<or> (\<exists>sv1. view (sv_im sv1) = view (sv_im sv) \<and> view (sv_im sv') = view (sv_im (w sv1)))"

lemma view_on_im:
  "view (snd (f (sv_im sv))) = view (sv_im sv) \<Longrightarrow> view (sv_im (snd (on_im f sv))) = view (sv_im sv)"
  by (cases "f (sv_im sv)") (simp add: on_im_def)

lemma waited_HandleGroupMessage:
  assumes "HandleGroupMessage cf w c im g sv = Ret (meta, sv')"
  shows "waited w sv sv'"
proof -
  obtain i sv1 where i: "GetGroupMessageDeliver cf (gr_gid g) sv = Ret (i, sv1)" "sv_im sv1 = sv_im sv"
    using assms deliver_same_im by (fastforce simp: HandleGroupMessage_def)
  let ?ch = "sv_chan sv1" and ?d = "sv_delivers sv1 i"
  let ?m = "Message MSG_PENDING_GROUP_MESSAGE 0 0 0
    (Some (BPendingGroup (pending_of cf (im_client (sv_im sv1) c) im g))) None"
  define d where "d = snd (gd_SaveMessage ?m (Some ?ch) (?d\<lparr>gd_chans := (gd_chans ?d)(?ch := None)\<rparr>))"
  define sv2 where "sv2 = sv1\<lparr>sv_chan := ?ch + 1, sv_delivers := (sv_delivers sv1)(i := d)\<rparr>"
  have "sv_im sv' = sv_im (w sv2)"
    using assms i(1)
    by (auto simp: HandleGroupMessage_def Let_def sv2_def d_def split: prod.splits)
  moreover have "sv_im sv2 = sv_im sv" by (simp add: sv2_def i)
  ultimately show ?thesis unfolding waited_def by metis
qed

lemma waited_same: "view (sv_im sv') = view (sv_im sv) \<Longrightarrow> waited w sv sv'"
  by (simp add: waited_def)

lemma waited_ack:
  assumes "waited w sv b"
  shows "waited w sv (snd (on_im (\<lambda>st. ((), enqueue c a st)) b))"
proof -
  have "view (sv_im (snd (on_im (\<lambda>st. ((), enqueue c a st)) b))) = view (sv_im b)"
    by (rule view_on_im) (simp add: views)
  with assms show ?thesis by (simp add: waited_def)
qed

lemma waited_super:
  "HandleSuperGroupMessage cf c m g (sv_im sv) = Ret (r, st) \<Longrightarrow> waited w sv (sv\<lparr>sv_im := st\<rparr>)"
  using keptD [OF kept_HandleSuperGroupMessage, of cf c m g "sv_im sv" "(r, st)"] by (simp add: waited_def)

lemma waited_HandleGroupIMMessage:
  assumes "HandleGroupIMMessage cf w c m sv = Ret sv'"
  shows "waited w sv sv'"
proof -
  obtain msg where msg: "Body m = Some (BIM msg)"
    using assms by (auto simp: HandleGroupIMMessage_def split: option.splits body.splits)
  show ?thesis
  proof (cases "cn_uid (im_client (sv_im sv) c) = 0 \<or> im_Sender msg \<noteq> cn_uid (im_client (sv_im sv) c)")
    case True
    then show ?thesis using assms msg by (auto simp: HandleGroupIMMessage_def Let_def waited_def split: if_splits)
  next
    case False
    define im where "im = (FilterDirtyWord cf (Flag m) msg)\<lparr>im_Timestamp := ucast (unix_now (sv_im sv))\<rparr>"
    obtain i sv1 where i: "GetGroupMessageDeliver cf (im_Receiver im) sv = Ret (i, sv1)"
      using assms msg False by (auto simp: HandleGroupIMMessage_def Let_def im_def)
    obtain g sv2 where g: "on_im (gd_LoadGroup cf (im_Receiver im)) sv1 = (g, sv2)" by fastforce
    have v: "view (sv_im sv2) = view (sv_im sv)"
      using g deliver_same_im [OF i] view_Groups(3) by (auto simp: on_im_def split: prod.splits)
    have "waited w sv2 sv'"
      using assms False i g
      by (auto simp: HandleGroupIMMessage_def msg Let_def im_def [symmetric] split: option.splits if_splits
          intro: waited_ack waited_same waited_HandleGroupMessage waited_super)
    with v show ?thesis by (simp add: waited_def)
  qed
qed

section \<open>One session changes\<close>

lemma conn_mset_update:
  assumes "finite C" "c \<in> C"
  shows "conn_mset P k C (f(c := x)) + (if P (f c) then {#k (f c)#} else {#})
    = conn_mset P k C f + (if P x then {#k x#} else {#})"
proof -
  let ?D = "{d \<in> C - {c}. P (f d)}"
  have split: "conn_mset P k C g = image_mset (\<lambda>d. k (g d)) (mset_set {d \<in> C - {c}. P (g d)})
      + (if P (g c) then {#k (g c)#} else {#})" for g
  proof (cases "P (g c)")
    case True
    then have "{d \<in> C. P (g d)} = insert c {d \<in> C - {c}. P (g d)}" using assms(2) by blast
    with True assms(1) show ?thesis by (simp add: conn_mset_def)
  next
    case False
    then have "{d \<in> C. P (g d)} = {d \<in> C - {c}. P (g d)}" by blast
    with False show ?thesis by (simp add: conn_mset_def)
  qed
  have "{d \<in> C - {c}. P ((f(c := x)) d)} = ?D" by auto
  moreover have "image_mset (\<lambda>d. k ((f(c := x)) d)) (mset_set ?D) = image_mset (\<lambda>d. k (f d)) (mset_set ?D)"
    using assms(1) by (intro image_mset_cong) auto
  ultimately have "conn_mset P k C (f(c := x)) = image_mset (\<lambda>d. k (f d)) (mset_set ?D)
      + (if P x then {#k x#} else {#})"
    using split [of "f(c := x)"] by simp
  then show ?thesis using split [of f] by simp
qed

lemma size_conn_mset: "finite C \<Longrightarrow> size (conn_mset P k C f) \<le> card C"
  by (simp add: conn_mset_def card_mono)

lemma size_conn_mset_less:
  assumes "finite C" "c \<in> C" "\<not> P (f c)"
  shows "size (conn_mset P k C f) < card C"
  using assms by (auto simp: conn_mset_def intro!: psubset_card_mono)

lemma n_conns_le: "n_conns U a u \<le> size U"
proof -
  have "count U x + count U y \<le> size U" if "x \<noteq> y" for x y
  proof -
    have "size {#z \<in># U. z = x#} + size {#z \<in># U. z \<noteq> x#} = size U"
      by (metis multiset_partition size_union)
    moreover have "count U y \<le> size {#z \<in># U. z \<noteq> x#}"
      using that count_le_size [of "{#z \<in># U. z \<noteq> x#}" y] by simp
    moreover have "size {#z \<in># U. z = x#} = count U x" by (simp add: filter_eq_replicate_mset)
    ultimately show ?thesis by simp
  qed
  then show ?thesis by (simp add: n_conns_def)
qed

text \<open>The state after the connection \<open>c\<close> has become \<open>x\<close>: what has to be shown of routes and channels.\<close>

lemma sessions_ok_change:
  assumes ok: "sessions_ok cf C st" and c: "c \<in> C"
    and client: "im_client st' = (im_client st)(c := x)"
    and x: "0 \<le> sint (cn_uid x)" "0 \<le> sint (cn_room_id x)" "cn_uid x = 0 \<longrightarrow> cn_room_id x = 0"
    and users: "\<And>a u. user_members st' a u = user_members st a u - {c}
      \<union> (if live x \<and> cn_appid x = a \<and> cn_uid x = u then {c} else {})"
    and rooms: "\<And>a r. room_members st' a r = room_members st a r - {c}
      \<union> (if live x \<and> cn_appid x = a \<and> cn_room_id x = r \<and> r \<noteq> 0 then {c} else {})"
    and chans: "\<And>i U R. U + (if subscribed cf i (im_client st c) then {#user_key (im_client st c)#} else {#})
        = user_conns cf C st i + (if subscribed cf i x then {#user_key x#} else {#}) \<Longrightarrow>
      R + (if in_room cf i (im_client st c) then {#room_key (im_client st c)#} else {#})
        = room_conns cf C st i + (if in_room cf i x then {#room_key x#} else {#}) \<Longrightarrow>
      channel_ok (user_conns cf C st i) (room_conns cf C st i) (im_chan st i) \<Longrightarrow>
      channel_ok U R (im_chan st' i)"
  shows "sessions_ok cf C st'"
proof -
  have C: "finite C" using ok by (simp add: sessions_ok_def)
  have "channel_ok (user_conns cf C st' i) (room_conns cf C st' i) (im_chan st' i)" for i
    using ok conn_mset_update [OF C c, of "subscribed cf i" user_key "im_client st" x]
      conn_mset_update [OF C c, of "in_room cf i" room_key "im_client st" x]
    by (intro chans) (auto simp: user_conns_def room_conns_def client sessions_ok_def)
  with ok show ?thesis
    using x c by (auto simp: sessions_ok_def client users rooms split: if_splits)
qed

section \<open>Routes\<close>

definition route_of :: "'c im \<Rightarrow> int64 \<Rightarrow> 'c im_route" where
  "route_of st a = (case im_apps st a of None \<Rightarrow> im_NewRoute a | Some r \<Rightarrow> r)"

lemma im_with_route_eq: "im_with_route a f st = st\<lparr>im_apps := (im_apps st)(a \<mapsto> f (route_of st a))\<rparr>"
  by (auto simp: im_with_route_def im_FindOrAddRoute_def route_of_def split: option.splits)

lemma find_route_of [simp]:
  "find_members u (rt_clients (route_of st a)) = user_members st a u"
  "find_members u (rt_room_clients (route_of st a)) = room_members st a u"
  by (simp_all add: route_of_def user_members_def room_members_def im_NewRoute_def split: option.split)

lemma members_set_apps:
  "user_members (st\<lparr>im_apps := (im_apps st)(a \<mapsto> r)\<rparr>) a' u
    = (if a' = a then find_members u (rt_clients r) else user_members st a' u)"
  "room_members (st\<lparr>im_apps := (im_apps st)(a \<mapsto> r)\<rparr>) a' u
    = (if a' = a then find_members u (rt_room_clients r) else room_members st a' u)"
  by (simp_all add: user_members_def room_members_def)

lemma members_frame [simp]:
  "user_members (update_conn c f st) = user_members st" "room_members (update_conn c f st) = room_members st"
  "user_members (update_chan i g st) = user_members st" "room_members (update_chan i g st) = room_members st"
  by (simp_all add: user_members_def room_members_def update_conn_def update_chan_def fun_eq_iff)

lemma route_of_frame [simp]:
  "route_of (update_conn c f st) = route_of st" "route_of (update_chan i g st) = route_of st"
  by (simp_all add: route_of_def update_conn_def update_chan_def fun_eq_iff)

lemma route_find [simp]:
  "find_members k (rt_clients (route_AddClient u c r))
    = (if k = u then insert c (find_members k (rt_clients r)) else find_members k (rt_clients r))"
  "find_members k (rt_room_clients (AddRoomClient room c r))
    = (if k = room then insert c (find_members k (rt_room_clients r)) else find_members k (rt_room_clients r))"
  "rt_room_clients (route_AddClient u c r) = rt_room_clients r"
  "rt_clients (AddRoomClient room c r) = rt_clients r"
  "rt_room_clients (snd (route_RemoveClient u c r)) = rt_room_clients r"
  "rt_clients (snd (RemoveRoomClient room c r)) = rt_clients r"
  by (auto simp: route_AddClient_def AddRoomClient_def route_RemoveClient_def RemoveRoomClient_def split: prod.split)

lemma route_find_remove [simp]:
  "finite (find_members u (rt_clients r)) \<Longrightarrow> find_members k (rt_clients (snd (route_RemoveClient u c r)))
    = (if k = u then find_members k (rt_clients r) - {c} else find_members k (rt_clients r))"
  "finite (find_members room (rt_room_clients r)) \<Longrightarrow>
    find_members k (rt_room_clients (snd (RemoveRoomClient room c r)))
    = (if k = room then find_members k (rt_room_clients r) - {c} else find_members k (rt_room_clients r))"
  subgoal using find_remove [of u "rt_clients r" k c]
    by (cases "remove_member u c (rt_clients r)") (simp add: route_RemoveClient_def)
  subgoal using find_remove [of room "rt_room_clients r" k c]
    by (cases "remove_member room c (rt_room_clients r)") (simp add: RemoveRoomClient_def)
  done

lemma members_finite:
  assumes "sessions_ok cf C st"
  shows "finite (user_members st a u)" "finite (room_members st a u)"
  using assms by (simp_all add: sessions_ok_def)

section \<open>Channels\<close>

lemma channel_ok_ops:
  "channel_ok U R ch \<Longrightarrow> n_conns U a u < 65535 \<Longrightarrow> channel_ok (add_mset (a, u, on) U) R (Subscribe a u on ch)"
  "channel_ok (add_mset (a, u, on) U) R ch \<Longrightarrow> channel_ok U R (Unsubscribe a u on ch)"
  "channel_ok U R ch \<Longrightarrow> count R (a, r) < 2 ^ 63 - 1 \<Longrightarrow> channel_ok U (add_mset (a, r) R) (SubscribeRoom a r ch)"
  "channel_ok U (add_mset (a, r) R) ch \<Longrightarrow> channel_ok U R (UnsubscribeRoom a r ch)"
  using Subscribe_moves [of U R ch a u on] Unsubscribe_moves [of a u on U R ch]
    SubscribeRoom_moves [of U R ch a r] UnsubscribeRoom_moves [of U a r R ch]
  by (simp_all add: channel_moves_def)

text \<open>The loop of a login and a logout over the channels of the groups.\<close>

lemma fold_channels:
  assumes "distinct xs"
  shows "foldl (\<lambda>st i. if i = j then st else update_chan i f st) st xs
    = st\<lparr>im_chan := (\<lambda>i. if i \<in> set xs \<and> i \<noteq> j then f (im_chan st i) else im_chan st i)\<rparr>"
  using assms
proof (induction xs arbitrary: st)
  case Nil
  then show ?case by simp
next
  case (Cons x xs)
  have "foldl (\<lambda>st i. if i = j then st else update_chan i f st) st (x # xs)
      = foldl (\<lambda>st i. if i = j then st else update_chan i f st) (if x = j then st else update_chan x f st) xs"
    by simp
  also have "\<dots> = (if x = j then st else update_chan x f st)
      \<lparr>im_chan := (\<lambda>i. if i \<in> set xs \<and> i \<noteq> j then f (im_chan (if x = j then st else update_chan x f st) i)
        else im_chan (if x = j then st else update_chan x f st) i)\<rparr>"
    using Cons by simp
  also have "\<dots> = st\<lparr>im_chan := (\<lambda>i. if i \<in> set (x # xs) \<and> i \<noteq> j then f (im_chan st i) else im_chan st i)\<rparr>"
    using Cons.prems by (auto simp: update_chan_def fun_eq_iff intro!: arg_cong [where f = "\<lambda>h. st\<lparr>im_chan := h\<rparr>"])
  finally show ?case .
qed

lemma all_channels:
  assumes "distinct (cf_group_route_channels cf)" "GetChannel cf u = Ret j"
  shows "foldl (\<lambda>st i. if i = j then st else update_chan i f st) (update_chan j f st) (cf_group_route_channels cf)
    = st\<lparr>im_chan := (\<lambda>i. if on_channel cf i u then f (im_chan st i) else im_chan st i)\<rparr>"
  unfolding fold_channels [OF assms(1)]
  using assms(2) by (auto simp: update_chan_def on_channel_def fun_eq_iff intro!: arg_cong [where f = "\<lambda>h. st\<lparr>im_chan := h\<rparr>"])

section \<open>Login\<close>

definition config_ok :: "im_config \<Rightarrow> bool" where
  "config_ok cf \<longleftrightarrow> distinct (cf_group_route_channels cf)
     \<and> (\<forall>t a u. cf_token cf t = Some (a, u) \<longrightarrow> 0 \<le> sint u)"

lemma login_ok:
  assumes ok: "sessions_ok cf C st" and c: "c \<in> C" and cf: "config_ok cf"
    and before: "cn_uid (im_client st c) = 0"
    and x: "cn_closed x = 0" "0 < sint (cn_uid x)" "cn_room_id x = 0"
    and st1: "st1 = st\<lparr>im_client := (im_client st)(c := x)\<rparr>"
    and login: "peer_Login cf c (im_AddClient c st1) = Ret st'"
  shows "sessions_ok cf C st'"
proof -
  define a u on where "a = cn_appid x" and "u = cn_uid x" and "on = cn_online x"
  have u: "u \<noteq> 0" using x by (auto simp: u_def)
  have C: "finite C" "card C < 65536" using ok by (simp_all add: sessions_ok_def)
  obtain j where j: "GetChannel cf u = Ret j"
    using login by (auto simp: peer_Login_def im_AddClient_def im_with_route_eq st1 u_def Let_def)
  have "distinct (cf_group_route_channels cf)" using cf by (simp add: config_ok_def)
  note loop = all_channels [OF this j]
  have st': "st' = st\<lparr>im_client := (im_client st)(c := x),
      im_apps := (im_apps st)(a \<mapsto> route_AddClient u c (route_of st a)),
      im_chan := (\<lambda>i. if on_channel cf i u then Subscribe a u on (im_chan st i) else im_chan st i),
      im_unread := (im_unread st)((a, u) := 0)\<rparr>"
    using login j
    by (simp add: peer_Login_def im_AddClient_def im_with_route_eq st1 a_def u_def on_def loop [unfolded u_def]
        Let_def route_of_def cong: if_cong)
  have dead: "\<not> live (im_client st c)" using before by (simp add: live_def)
  have liv: "live x" using x by (auto simp: live_def)
  have users: "user_members st a' u' - {c} = user_members st a' u'"
    and rooms: "room_members st a' u' - {c} = room_members st a' u'" for a' u'
    using ok dead by (auto simp: sessions_ok_def)
  show ?thesis
  proof (rule sessions_ok_change [OF ok c, of _ x])
    fix i U R
    assume U: "U + (if subscribed cf i (im_client st c) then {#user_key (im_client st c)#} else {#})
        = user_conns cf C st i + (if subscribed cf i x then {#user_key x#} else {#})"
      and R: "R + (if in_room cf i (im_client st c) then {#room_key (im_client st c)#} else {#})
        = room_conns cf C st i + (if in_room cf i x then {#room_key x#} else {#})"
      and ch: "channel_ok (user_conns cf C st i) (room_conns cf C st i) (im_chan st i)"
    have "size (user_conns cf C st i) < card C"
      unfolding user_conns_def
      by (rule size_conn_mset_less [OF C(1) c]) (use dead in \<open>simp add: subscribed_def\<close>)
    then have "n_conns (user_conns cf C st i) a u < 65535"
      using n_conns_le [of "user_conns cf C st i" a u] C(2) by simp
    from channel_ok_ops(1) [OF ch this, of on] ch U R show "channel_ok U R (im_chan st' i)"
      using dead liv x by (auto simp: st' subscribed_def in_room_def user_key_def a_def u_def on_def)
  qed (use x liv users rooms in \<open>auto simp: st' members_set_apps user_members_def room_members_def a_def u_def split: option.splits\<close>)
qed

lemma HandleAuthToken_ok:
  assumes ok: "sessions_ok cf C st" and c: "c \<in> C" and cf: "config_ok cf"
    and "cn_closed (im_client st c) = 0"
    and "HandleAuthToken cf c login version st = Ret st'"
  shows "sessions_ok cf C st'"
proof -
  have same: "sessions_ok cf C (enqueue c m s)" if "sessions_ok cf C s" for m and s :: "'a im"
    using that by (simp add: sessions_ok_view [OF view_enqueue])
  have dev: "sessions_ok cf C (update_conn c (\<lambda>cn. cn\<lparr>cn_device_ID := d\<rparr>) st)" for d
    using ok by (simp add: sessions_ok_view [OF view_update_conn])
  have "0 \<le> sint (cn_uid (im_client st c))" using ok c by (simp add: sessions_ok_def)
  then have uid: "cn_uid (im_client st c) = 0 \<and> cn_room_id (im_client st c) = 0"
    if "\<not> 0 < sint (cn_uid (im_client st c))"
    using ok c that signed_word_eqI [where 'a = int, of "cn_uid (im_client st c)" 0] by (auto simp: sessions_ok_def)
  have logged: "sessions_ok cf C st'"
    if tok: "AuthToken cf (auth_Token login) = Some (appid, uid, fb, on)" "uid \<noteq> 0"
      and nolog: "\<not> 0 < sint (cn_uid (im_client st c))" and s: "sessions_ok cf C s" "ident (im_client s c) = ident (im_client st c)"
      and run: "peer_Login cf c (im_AddClient c (enqueue c m (update_conn c (logged_in login version appid uid fb on) s))) = Ret st'"
    for appid uid fb on m and s :: "'a im"
  proof -
    obtain a where "cf_token cf (auth_Token login) = Some (a, uid)"
      using tok by (auto simp: AuthToken_def split: option.splits prod.splits)
    then have "0 \<le> sint uid" using cf by (auto simp: config_ok_def)
    moreover have "sint uid \<noteq> 0" using tok(2) signed_word_eqI [where 'a = int, of uid 0] by auto
    ultimately have pos: "0 < sint uid" by linarith
    define x where "x = snd (EnqueueMessage m (logged_in login version appid uid fb on (im_client s c)))"
    have idx: "ident x = ident (logged_in login version appid uid fb on (im_client s c))" by (simp add: x_def)
    have log: "cn_closed (logged_in login version appid uid fb on cn) = cn_closed cn"
      "cn_uid (logged_in login version appid uid fb on cn) = uid"
      "cn_room_id (logged_in login version appid uid fb on cn) = cn_room_id cn" for cn
      by (simp_all add: logged_in_def Let_def)
    have 1: "cn_uid (im_client s c) = 0" using uid [OF nolog] identD(3) [OF s(2)] by simp
    have 2: "cn_closed x = 0" using identD(1) [OF idx] identD(1) [OF s(2)] log(1) assms(4) by simp
    have 3: "0 < sint (cn_uid x)" using identD(3) [OF idx] log(2) pos by simp
    have 4: "cn_room_id x = 0" using identD(5) [OF idx] identD(5) [OF s(2)] log(3) uid [OF nolog] by simp
    have 5: "enqueue c m (update_conn c (logged_in login version appid uid fb on) s) = s\<lparr>im_client := (im_client s)(c := x)\<rparr>"
      by (simp add: enqueue_def update_conn_def x_def)
    show ?thesis by (rule login_ok [OF s(1) c cf 1 2 3 4 5 run])
  qed
  show ?thesis
    using assms(5) ok
    by (auto simp: HandleAuthToken_def Let_def update_conn_def [of c _ st] split: if_splits option.splits prod.splits
        intro!: same dev [unfolded update_conn_def] intro: logged)
qed

section \<open>The end of a client\<close>

lemma frame_conn [simp]:
  "im_chan (update_conn c f st) = im_chan st" "im_client (update_chan i g st) = im_client st"
  "im_client (im_with_route a h st) = im_client st" "im_chan (im_with_route a h st) = im_chan st"
  "im_chan (update_chan i g st) = (im_chan st)(i := g (im_chan st i))"
  by (simp_all add: update_conn_def update_chan_def im_with_route_eq)

lemma members_with_route [simp]:
  "user_members (im_with_route a f st) a' u
    = (if a' = a then find_members u (rt_clients (f (route_of st a))) else user_members st a' u)"
  "room_members (im_with_route a f st) a' u
    = (if a' = a then find_members u (rt_room_clients (f (route_of st a))) else room_members st a' u)"
  by (simp_all add: im_with_route_eq members_set_apps)

definition finite_members :: "'c im \<Rightarrow> bool" where
  "finite_members st \<longleftrightarrow> (\<forall>a k. finite (user_members st a k) \<and> finite (room_members st a k))"

lemma RemoveClient_members:
  assumes "finite_members st"
  shows "user_members (im_RemoveClient c st) a u = (if a = cn_appid (im_client st c) \<and> u = cn_uid (im_client st c)
      then user_members st a u - {c} else user_members st a u)"
    and "room_members (im_RemoveClient c st) a r = (if a = cn_appid (im_client st c) \<and> r = cn_room_id (im_client st c)
      \<and> 0 < sint r then room_members st a r - {c} else room_members st a r)"
    and "im_client (im_RemoveClient c st) = im_client st" "im_chan (im_RemoveClient c st) = im_chan st"
proof -
  have fin: "finite (find_members k (rt_clients r))" "finite (find_members k (rt_room_clients r))"
    if "im_apps st b = Some r" for k r b
    using assms that by (auto simp: finite_members_def user_members_def room_members_def split: option.splits)
  have none: "user_members st b k = {}" "room_members st b k = {}" if "im_apps st b = None" for b k
    using that by (simp_all add: user_members_def room_members_def)
  have some: "user_members st b k = find_members k (rt_clients r)" "room_members st b k = find_members k (rt_room_clients r)"
    if "im_apps st b = Some r" for b k r
    using that by (simp_all add: user_members_def room_members_def)
  show "user_members (im_RemoveClient c st) a u = (if a = cn_appid (im_client st c) \<and> u = cn_uid (im_client st c)
      then user_members st a u - {c} else user_members st a u)"
    by (auto simp: im_RemoveClient_def im_FindRoute_def Let_def none some fin members_set_apps split: option.splits)
  show "room_members (im_RemoveClient c st) a r = (if a = cn_appid (im_client st c) \<and> r = cn_room_id (im_client st c)
      \<and> 0 < sint r then room_members st a r - {c} else room_members st a r)"
    by (auto simp: im_RemoveClient_def im_FindRoute_def Let_def none some fin members_set_apps split: option.splits)
  show "im_client (im_RemoveClient c st) = im_client st" "im_chan (im_RemoveClient c st) = im_chan st"
    by (auto simp: im_RemoveClient_def Let_def split: option.splits)
qed

lemma room_Logout_effect:
  assumes fin: "finite_members st" and run: "room_Logout cf c st = Ret st'"
  shows "user_members st' = user_members st"
    "room_members st' a r = (if a = cn_appid (im_client st c) \<and> r = cn_room_id (im_client st c)
      \<and> 0 < sint r then room_members st a r - {c} else room_members st a r)"
    "im_client st' = im_client st"
    "im_chan st' i = (if 0 < sint (cn_room_id (im_client st c)) \<and> GetRoomChannel cf (cn_room_id (im_client st c)) = Ret i
      then UnsubscribeRoom (cn_appid (im_client st c)) (cn_room_id (im_client st c)) (im_chan st i) else im_chan st i)"
proof -
  have "finite (find_members k (rt_room_clients (route_of st b)))" for b k
    using fin by (simp add: finite_members_def)
  moreover obtain j where "0 < sint (cn_room_id (im_client st c)) \<Longrightarrow> GetRoomChannel cf (cn_room_id (im_client st c)) = Ret j"
    using run by (cases "GetRoomChannel cf (cn_room_id (im_client st c))") (auto simp: room_Logout_def Let_def split: if_splits)
  ultimately show "user_members st' = user_members st"
    "room_members st' a r = (if a = cn_appid (im_client st c) \<and> r = cn_room_id (im_client st c)
      \<and> 0 < sint r then room_members st a r - {c} else room_members st a r)"
    "im_client st' = im_client st"
    "im_chan st' i = (if 0 < sint (cn_room_id (im_client st c)) \<and> GetRoomChannel cf (cn_room_id (im_client st c)) = Ret i
      then UnsubscribeRoom (cn_appid (im_client st c)) (cn_room_id (im_client st c)) (im_chan st i) else im_chan st i)"
    using run by (auto simp: room_Logout_def Let_def fun_eq_iff split: if_splits)
qed

lemma peer_Logout_effect:
  assumes cf: "config_ok cf" and run: "peer_Logout cf c st = Ret st'"
  shows "user_members st' = user_members st" "room_members st' = room_members st" "im_client st' = im_client st"
    "im_chan st' i = (if 0 < sint (cn_uid (im_client st c)) \<and> on_channel cf i (cn_uid (im_client st c))
      then Unsubscribe (cn_appid (im_client st c)) (cn_uid (im_client st c)) (cn_online (im_client st c)) (im_chan st i)
      else im_chan st i)"
proof -
  have d: "distinct (cf_group_route_channels cf)" using cf by (simp add: config_ok_def)
  have "st' = (if 0 < sint (cn_uid (im_client st c)) then st\<lparr>im_chan := (\<lambda>i. if on_channel cf i (cn_uid (im_client st c))
      then Unsubscribe (cn_appid (im_client st c)) (cn_uid (im_client st c)) (cn_online (im_client st c)) (im_chan st i)
      else im_chan st i)\<rparr> else st)"
    using run by (cases "GetChannel cf (cn_uid (im_client st c))")
      (auto simp: peer_Logout_def Let_def all_channels [OF d] split: if_splits)
  then show "user_members st' = user_members st" "room_members st' = room_members st" "im_client st' = im_client st"
    "im_chan st' i = (if 0 < sint (cn_uid (im_client st c)) \<and> on_channel cf i (cn_uid (im_client st c))
      then Unsubscribe (cn_appid (im_client st c)) (cn_uid (im_client st c)) (cn_online (im_client st c)) (im_chan st i)
      else im_chan st i)"
    by (auto simp: user_members_def room_members_def fun_eq_iff)
qed


lemma HandleClientClosed_ok:
  assumes ok: "sessions_ok cf C st" and c: "c \<in> C" and cf: "config_ok cf" and op: "cn_closed (im_client st c) = 0"
    and run: "HandleClientClosed cf c st = Ret st'"
  shows "sessions_ok cf C st'"
proof -
  define cn x where "cn = im_client st c" and "x = cn\<lparr>cn_closed := 1, cn_wt := cn_wt cn @ [None]\<rparr>"
  define st1 where "st1 = im_RemoveClient c (update_conn c (\<lambda>cn. cn\<lparr>cn_closed := 1\<rparr>) st)"
  define st2 where "st2 = update_conn c (\<lambda>cn. cn\<lparr>cn_wt := cn_wt cn @ [None]\<rparr>) st1"
  obtain st3 where 3: "room_Logout cf c st2 = Ret st3" and 4: "peer_Logout cf c st3 = Ret st'"
    using run by (auto simp: HandleClientClosed_def Let_def st1_def st2_def)
  have fin: "finite_members st" using members_finite [OF ok] by (simp add: finite_members_def)
  have cl: "im_client (update_conn c (\<lambda>cn. cn\<lparr>cn_closed := 1\<rparr>) st) c = cn\<lparr>cn_closed := 1\<rparr>"
    by (simp add: update_conn_def cn_def)
  have "finite_members (update_conn c (\<lambda>cn. cn\<lparr>cn_closed := 1\<rparr>) st)" using fin by (simp add: finite_members_def)
  note e1 = RemoveClient_members [OF this, of c, folded st1_def, unfolded cl]
  have m2: "user_members st2 a u = (if a = cn_appid cn \<and> u = cn_uid cn then user_members st a u - {c} else user_members st a u)"
    "room_members st2 a r = (if a = cn_appid cn \<and> r = cn_room_id cn \<and> 0 < sint r
      then room_members st a r - {c} else room_members st a r)" for a u r
    using e1 by (auto simp: st2_def)
  have cl2: "im_client st2 = (im_client st)(c := x)"
    by (simp add: st2_def e1 update_conn_def x_def cn_def)
  have ch2: "im_chan st2 = im_chan st" by (simp add: st2_def e1)
  have "finite_members st2" using fin by (simp add: finite_members_def m2)
  note e3 = room_Logout_effect [OF this 3]
  note e4 = peer_Logout_effect [OF cf 4]
  have sel: "cn_appid x = cn_appid cn" "cn_uid x = cn_uid cn" "cn_room_id x = cn_room_id cn" "cn_online x = cn_online cn"
    "\<not> live x" by (simp_all add: x_def live_def)
  have pos: "0 \<le> sint (cn_uid cn)" "0 \<le> sint (cn_room_id cn)" "cn_uid cn = 0 \<longrightarrow> cn_room_id cn = 0"
    using ok c by (simp_all add: sessions_ok_def cn_def)
  have nz: "0 < sint w \<longleftrightarrow> w \<noteq> 0" if "0 \<le> sint w" for w :: int64
    using that signed_word_eqI [where 'a = int, of w 0] by (auto simp: order_less_le)
  note mem = ok [unfolded sessions_ok_def]
  show ?thesis
  proof (rule sessions_ok_change [OF ok c, of _ x])
    show "im_client st' = (im_client st)(c := x)" using cl2 e3 e4 by simp
    fix a u
    show "user_members st' a u = user_members st a u - {c}
        \<union> (if live x \<and> cn_appid x = a \<and> cn_uid x = u then {c} else {})"
      using mem by (auto simp: e4 e3 m2 sel cn_def)
    show "room_members st' a u = room_members st a u - {c}
        \<union> (if live x \<and> cn_appid x = a \<and> cn_room_id x = u \<and> u \<noteq> 0 then {c} else {})"
      using mem nz [OF pos(2)] by (auto simp: e4 e3 m2 sel cn_def cl2)
  next
    fix i U R
    have dead: "subscribed cf i x = False" "in_room cf i x = False" using sel by (simp_all add: subscribed_def in_room_def)
    assume "U + (if subscribed cf i (im_client st c) then {#user_key (im_client st c)#} else {#})
        = user_conns cf C st i + (if subscribed cf i x then {#user_key x#} else {#})"
      and "R + (if in_room cf i (im_client st c) then {#room_key (im_client st c)#} else {#})
        = room_conns cf C st i + (if in_room cf i x then {#room_key x#} else {#})"
      and "channel_ok (user_conns cf C st i) (room_conns cf C st i) (im_chan st i)"
    then have ch: "channel_ok (U + (if subscribed cf i cn then {#user_key cn#} else {#}))
        (R + (if in_room cf i cn then {#room_key cn#} else {#})) (im_chan st i)"
      by (simp only: dead if_False add_0_right cn_def)
    have sub: "subscribed cf i cn \<longleftrightarrow> 0 < sint (cn_uid cn) \<and> on_channel cf i (cn_uid cn)"
      using op unfolding cn_def [symmetric] by (simp add: subscribed_def live_def nz [OF pos(1)])
    have rm: "in_room cf i cn \<longleftrightarrow> 0 < sint (cn_room_id cn) \<and> GetRoomChannel cf (cn_room_id cn) = Ret i"
      using op pos(3) unfolding cn_def [symmetric] by (auto simp: in_room_def live_def nz [OF pos(2)])
    have chan: "im_chan st' i = (if subscribed cf i cn then Unsubscribe (cn_appid cn) (cn_uid cn) (cn_online cn) else id)
        ((if in_room cf i cn then UnsubscribeRoom (cn_appid cn) (cn_room_id cn) else id) (im_chan st i))"
      by (simp add: e4 e3 cl2 sel ch2 sub rm)
    have "channel_ok (U + (if subscribed cf i cn then {#user_key cn#} else {#})) R
        ((if in_room cf i cn then UnsubscribeRoom (cn_appid cn) (cn_room_id cn) else id) (im_chan st i))"
      using ch channel_ok_ops(4) [of _ "cn_appid cn" "cn_room_id cn" R]
      by (cases "in_room cf i cn"; cases "subscribed cf i cn") (simp_all add: room_key_def)
    then show "channel_ok U R (im_chan st' i)"
      using channel_ok_ops(2) [of "cn_appid cn" "cn_uid cn" "cn_online cn" U R]
      by (cases "subscribed cf i cn") (simp_all add: chan user_key_def)
  qed (use pos sel in simp_all)
qed

section \<open>Rooms\<close>

lemma room_change_ok:
  assumes ok: "sessions_ok cf C st" and c: "c \<in> C" and cn: "cn = im_client st c" and live: "live cn"
    and r: "0 \<le> sint r'" "r' \<noteq> cn_room_id cn"
    and client: "im_client st' = (im_client st)(c := cn\<lparr>cn_room_id := r'\<rparr>)"
    and users: "user_members st' = user_members st"
    and rooms: "\<And>a r. room_members st' a r = room_members st a r - (if a = cn_appid cn \<and> r = cn_room_id cn then {c} else {})
      \<union> (if a = cn_appid cn \<and> r = r' \<and> r' \<noteq> 0 then {c} else {})"
    and chans: "\<And>i. im_chan st' i =
      (if r' \<noteq> 0 \<and> GetRoomChannel cf r' = Ret i then SubscribeRoom (cn_appid cn) r' else id)
        ((if cn_room_id cn \<noteq> 0 \<and> GetRoomChannel cf (cn_room_id cn) = Ret i
          then UnsubscribeRoom (cn_appid cn) (cn_room_id cn) else id) (im_chan st i))"
  shows "sessions_ok cf C st'"
proof (rule sessions_ok_change [OF ok c client])
  let ?x = "cn\<lparr>cn_room_id := r'\<rparr>"
  have uid: "cn_uid cn \<noteq> 0" using live by (simp add: live_def)
  have lx: "live ?x" using live by (simp add: live_def)
  note mem = ok [unfolded sessions_ok_def]
  show "0 \<le> sint (cn_uid ?x)" "0 \<le> sint (cn_room_id ?x)" "cn_uid ?x = 0 \<longrightarrow> cn_room_id ?x = 0"
    using mem c r uid by (simp_all add: cn)
  fix a u
  show "user_members st' a u = user_members st a u - {c}
      \<union> (if live ?x \<and> cn_appid ?x = a \<and> cn_uid ?x = u then {c} else {})"
    using mem c live lx by (auto simp: users cn)
  show "room_members st' a u = room_members st a u - {c}
      \<union> (if live ?x \<and> cn_appid ?x = a \<and> cn_room_id ?x = u \<and> u \<noteq> 0 then {c} else {})"
    using mem c live lx by (auto simp: rooms cn)
next
  let ?x = "cn\<lparr>cn_room_id := r'\<rparr>"
  have lx: "live ?x" using live by (simp add: live_def)
  fix i U R
  define old new where "old = (if in_room cf i cn then {#room_key cn#} else {#})"
    and "new = (if in_room cf i ?x then {#room_key ?x#} else {#})"
  assume U: "U + (if subscribed cf i (im_client st c) then {#user_key (im_client st c)#} else {#})
      = user_conns cf C st i + (if subscribed cf i ?x then {#user_key ?x#} else {#})"
    and R: "R + (if in_room cf i (im_client st c) then {#room_key (im_client st c)#} else {#})
      = room_conns cf C st i + (if in_room cf i ?x then {#room_key ?x#} else {#})"
    and ch: "channel_ok (user_conns cf C st i) (room_conns cf C st i) (im_chan st i)"
  have "subscribed cf i ?x = subscribed cf i cn" "user_key ?x = user_key cn"
    by (simp_all add: subscribed_def live_def user_key_def)
  with U have U': "U = user_conns cf C st i" by (cases "subscribed cf i cn") (simp_all add: cn)
  have R': "R + old = room_conns cf C st i + new" using R by (simp only: old_def new_def cn)
  have "old \<subseteq># room_conns cf C st i"
  proof (cases "in_room cf i cn")
    case True
    then have "room_key cn \<in># room_conns cf C st i + new" using R' [symmetric] by (simp add: old_def)
    moreover have "room_key cn \<notin># new" using r(2) by (simp add: new_def room_key_def)
    ultimately show ?thesis using True by (simp add: old_def)
  qed (simp add: old_def)
  then obtain R0 where R0: "room_conns cf C st i = R0 + old" by (metis subset_mset.diff_add)
  with R' have RR: "R = R0 + new" by simp
  have "channel_ok U (R0 + old) (im_chan st i)" using ch by (simp add: U' R0)
  moreover have "in_room cf i cn \<longleftrightarrow> cn_room_id cn \<noteq> 0 \<and> GetRoomChannel cf (cn_room_id cn) = Ret i"
    using live by (simp add: in_room_def)
  ultimately have 1: "channel_ok U R0 ((if cn_room_id cn \<noteq> 0 \<and> GetRoomChannel cf (cn_room_id cn) = Ret i
          then UnsubscribeRoom (cn_appid cn) (cn_room_id cn) else id) (im_chan st i))"
    using channel_ok_ops(4) [of U "cn_appid cn" "cn_room_id cn" R0] by (auto simp: old_def room_key_def)
  have "size (R0 + old) \<le> card C"
    unfolding R0 [symmetric] room_conns_def by (rule size_conn_mset) (use ok in \<open>simp add: sessions_ok_def\<close>)
  then have "size R0 < 65536" using ok by (simp add: sessions_ok_def)
  then have "count R0 (cn_appid cn, r') < 2 ^ 63 - 1" using count_le_size [of R0 "(cn_appid cn, r')"] by simp
  from channel_ok_ops(3) [OF 1 this] 1 show "channel_ok U R (im_chan st' i)"
    using lx by (auto simp: chans RR new_def in_room_def room_key_def)
qed

lemma nonneg_pos: "0 \<le> sint w \<Longrightarrow> 0 < sint w \<longleftrightarrow> w \<noteq> 0" for w :: int64
  using signed_word_eqI [where 'a = int, of w 0] by (auto simp: order_less_le)

lemma HandleEnterRoom_ok:
  assumes ok: "sessions_ok cf C st" and c: "c \<in> C" and op: "cn_closed (im_client st c) = 0"
    and r: "0 \<le> sint room_id" and run: "HandleEnterRoom cf c room_id st = Ret st'"
  shows "sessions_ok cf C st'"
proof (cases "cn_uid (im_client st c) = 0 \<or> room_id = 0 \<or> cn_room_id (im_client st c) = room_id")
  case True
  then show ?thesis using ok run by (auto simp: HandleEnterRoom_def Let_def split: if_splits)
next
  case False
  define cn where "cn = im_client st c"
  have pos: "0 < sint (cn_room_id cn) \<longleftrightarrow> cn_room_id cn \<noteq> 0"
    using nonneg_pos [of "cn_room_id cn"] ok c by (simp add: sessions_ok_def cn_def)
  have ne: "cn_uid cn \<noteq> 0" "room_id \<noteq> 0" "cn_room_id cn \<noteq> room_id" using False by (simp_all add: cn_def)
  have live: "live cn" using op ne by (simp add: live_def cn_def)
  have none: "room_members st a 0 = {}" for a using ok by (auto simp: sessions_ok_def)
  obtain j where j: "GetRoomChannel cf room_id = Ret j"
    using run False pos by (cases "GetRoomChannel cf room_id")
      (auto simp: HandleEnterRoom_def Let_def split: if_splits)
  note run' = run [unfolded HandleEnterRoom_def Let_def, folded cn_def, unfolded pos]
  show ?thesis
  proof (rule room_change_ok [OF ok c cn_def live r ne(3) [symmetric]])
    show "im_client st' = (im_client st)(c := cn\<lparr>cn_room_id := room_id\<rparr>)"
      using run' ne j by (auto simp: update_conn_def cn_def split: if_splits)
    show "user_members st' = user_members st" using run' ne j by (auto simp: fun_eq_iff split: if_splits)
    fix a r
    show "room_members st' a r = room_members st a r - (if a = cn_appid cn \<and> r = cn_room_id cn then {c} else {})
      \<union> (if a = cn_appid cn \<and> r = room_id \<and> room_id \<noteq> 0 then {c} else {})"
      using run' ne j none members_finite [OF ok] by (auto split: if_splits)
  next
    fix i
    show "im_chan st' i = (if room_id \<noteq> 0 \<and> GetRoomChannel cf room_id = Ret i then SubscribeRoom (cn_appid cn) room_id else id)
        ((if cn_room_id cn \<noteq> 0 \<and> GetRoomChannel cf (cn_room_id cn) = Ret i
          then UnsubscribeRoom (cn_appid cn) (cn_room_id cn) else id) (im_chan st i))"
      using run' ne j by (auto split: if_splits)
  qed
qed

lemma HandleLeaveRoom_ok:
  assumes ok: "sessions_ok cf C st" and c: "c \<in> C" and op: "cn_closed (im_client st c) = 0"
    and run: "HandleLeaveRoom cf c room_id st = Ret st'"
  shows "sessions_ok cf C st'"
proof (cases "cn_uid (im_client st c) = 0 \<or> room_id = 0 \<or> cn_room_id (im_client st c) \<noteq> room_id")
  case True
  then show ?thesis using ok run by (auto simp: HandleLeaveRoom_def Let_def split: if_splits)
next
  case False
  define cn where "cn = im_client st c"
  have ne: "cn_uid cn \<noteq> 0" "room_id \<noteq> 0" "cn_room_id cn = room_id" using False by (simp_all add: cn_def)
  have live: "live cn" using op ne by (simp add: live_def cn_def)
  have none: "room_members st a 0 = {}" for a using ok by (auto simp: sessions_ok_def)
  note run' = run [unfolded HandleLeaveRoom_def Let_def, folded cn_def]
  show ?thesis
  proof (rule room_change_ok [OF ok c cn_def live, of 0])
    show "im_client st' = (im_client st)(c := cn\<lparr>cn_room_id := 0\<rparr>)"
      using run' ne by (auto simp: update_conn_def cn_def split: if_splits)
    show "user_members st' = user_members st" using run' ne by (auto simp: fun_eq_iff split: if_splits)
    fix a r
    show "room_members st' a r = room_members st a r - (if a = cn_appid cn \<and> r = cn_room_id cn then {c} else {})
      \<union> (if a = cn_appid cn \<and> r = 0 \<and> (0 :: int64) \<noteq> 0 then {c} else {})"
      using run' ne none members_finite [OF ok] by (auto split: if_splits)
  next
    fix i
    show "im_chan st' i = (if (0 :: int64) \<noteq> 0 \<and> GetRoomChannel cf 0 = Ret i then SubscribeRoom (cn_appid cn) 0 else id)
        ((if cn_room_id cn \<noteq> 0 \<and> GetRoomChannel cf (cn_room_id cn) = Ret i
          then UnsubscribeRoom (cn_appid cn) (cn_room_id cn) else id) (im_chan st i))"
      using run' ne by (auto split: if_splits)
  qed (use ne in simp_all)
qed

section \<open>A round of the reader\<close>

text \<open>Rooms that a client names have ids that are not negative.\<close>

definition rooms_ok :: "message \<Rightarrow> bool" where
  "rooms_ok m \<longleftrightarrow> (case Body m of Some (BRoom r) \<Rightarrow> 0 \<le> sint r | _ \<Rightarrow> True)"

lemma on_im_go_Ret: "on_im_go f sv = Ret sv' \<longleftrightarrow> (\<exists>st. f (sv_im sv) = Ret st \<and> sv' = sv\<lparr>sv_im := st\<rparr>)"
  by (auto simp: on_im_go_def)

lemma on_im_view:
  assumes "kept id (view (sv_im sv)) (f (sv_im sv))" "on_im_go f sv = Ret sv'"
  shows "view (sv_im sv') = view (sv_im sv)"
  using assms by (auto simp: on_im_go_Ret kept_def)

lemma waited_group_HandleMessage:
  assumes "group_HandleMessage cf w c m sv = Ret sv'"
  shows "waited w sv sv'" and "Cmd m \<noteq> MSG_GROUP_IM \<Longrightarrow> view (sv_im sv') = view (sv_im sv)"
proof -
  have same: "view (sv_im sv') = view (sv_im sv)" if "Cmd m \<noteq> MSG_GROUP_IM"
    using assms that
    by (auto simp: group_HandleMessage_def views kept_def on_im_go_Ret split: if_splits option.splits body.splits
        dest!: keptD [OF kept_HandleGroupSync])
  then show "view (sv_im sv') = view (sv_im sv)" if "Cmd m \<noteq> MSG_GROUP_IM" using that .
  show "waited w sv sv'"
    using assms same waited_same waited_HandleGroupIMMessage
    by (cases "Cmd m = MSG_GROUP_IM") (auto simp: group_HandleMessage_def)
qed

lemma room_HandleMessage_view:
  assumes "Cmd m \<noteq> MSG_ENTER_ROOM" "Cmd m \<noteq> MSG_LEAVE_ROOM"
  shows "kept id (view st) (room_HandleMessage cf c m st)"
  using assms kept_HandleRoomIM [of st cf c]
  by (auto simp: room_HandleMessage_def kept_Panic intro: kept_Ret split: option.split body.split)

lemma room_HandleMessage_ok:
  assumes "sessions_ok cf C st" "c \<in> C" "cn_closed (im_client st c) = 0" "rooms_ok m"
    and "room_HandleMessage cf c m st = Ret st'"
  shows "sessions_ok cf C st'"
proof (cases "Cmd m = MSG_ENTER_ROOM \<or> Cmd m = MSG_LEAVE_ROOM")
  case True
  then show ?thesis
    using assms by (auto simp: room_HandleMessage_def rooms_ok_def split: if_splits option.splits body.splits
        intro: HandleEnterRoom_ok HandleLeaveRoom_ok)
next
  case False
  then have "view st' = view st" using room_HandleMessage_view [of m st cf c] assms(5) by (simp add: kept_def)
  then show ?thesis using assms(1) sessions_ok_view by blast
qed

lemma client_HandleMessage_ok:
  assumes ok: "sessions_ok cf C (sv_im sv)" and c: "c \<in> C" and op: "cn_closed (im_client (sv_im sv) c) = 0"
    and cf: "config_ok cf" and m: "rooms_ok m"
    and w: "\<And>sv1. view (sv_im sv1) = view (sv_im sv) \<Longrightarrow> sessions_ok cf C (sv_im (w sv1))"
    and run: "client_HandleMessage cf w c m sv = Ret sv'"
  shows "sessions_ok cf C (sv_im sv')"
proof -
  obtain a b d e where
    a: "(if Cmd m = MSG_AUTH_TOKEN then
          (case Body m of
             Some (BAuthToken login) \<Rightarrow> on_im_go (HandleAuthToken cf c login (Version m)) sv
           | _ \<Rightarrow> Panic)
        else if Cmd m = MSG_ACK then (case Body m of Some (BAck a) \<Rightarrow> Ret sv | _ \<Rightarrow> Panic)
        else if Cmd m = MSG_PING then on_im_go (\<lambda>st. Ret (HandlePing c st)) sv
        else Ret sv) = Ret a"
    and b: "on_im_go (peer_HandleMessage cf c m) a = Ret b" and d: "group_HandleMessage cf w c m b = Ret d"
    and e: "on_im_go (room_HandleMessage cf c m) d = Ret e" and f: "on_im_go (customer_HandleMessage cf c m) e = Ret sv'"
    using run by (auto simp: client_HandleMessage_def)
  have vb: "view (sv_im b) = view (sv_im a)" using on_im_view [OF kept_peer_HandleMessage b] .
  have vf: "view (sv_im sv') = view (sv_im e)" using on_im_view [OF kept_customer_HandleMessage f] .
  have va: "view (sv_im a) = view (sv_im sv)" if "Cmd m \<noteq> MSG_AUTH_TOKEN"
    using a that by (auto simp: on_im_go_Ret HandlePing_def views split: if_splits option.splits body.splits)
  have ve: "view (sv_im e) = view (sv_im d)" if "Cmd m \<noteq> MSG_ENTER_ROOM" "Cmd m \<noteq> MSG_LEAVE_ROOM"
    using on_im_view [OF room_HandleMessage_view [OF that] e] .
  note vd = waited_group_HandleMessage [OF d]
  consider (auth) "Cmd m = MSG_AUTH_TOKEN" | (room) "Cmd m = MSG_ENTER_ROOM \<or> Cmd m = MSG_LEAVE_ROOM"
    | (rest) "Cmd m \<noteq> MSG_AUTH_TOKEN" "Cmd m \<noteq> MSG_ENTER_ROOM" "Cmd m \<noteq> MSG_LEAVE_ROOM" by blast
  then have "sessions_ok cf C (sv_im e)"
  proof cases
    case auth
    then have "sessions_ok cf C (sv_im a)"
      using a by (auto simp: on_im_go_Ret split: option.splits body.splits intro: HandleAuthToken_ok [OF ok c cf op])
    moreover have "view (sv_im e) = view (sv_im a)" using auth ve vd(2) vb by simp
    ultimately show ?thesis using sessions_ok_view by blast
  next
    case room
    then have v: "view (sv_im d) = view (sv_im sv)" using va vb vd(2) by auto
    have "sessions_ok cf C (sv_im d)" using ok sessions_ok_view [OF v] by simp
    moreover have "cn_closed (im_client (sv_im d) c) = 0" using op identD(1) [OF viewD(3) [OF v]] by simp
    ultimately show ?thesis using e c m by (auto simp: on_im_go_Ret intro: room_HandleMessage_ok)
  next
    case rest
    have v: "view (sv_im b) = view (sv_im sv)" "view (sv_im e) = view (sv_im d)" using rest va vb ve by simp_all
    have "sessions_ok cf C (sv_im d)"
      using vd(1) ok w sessions_ok_view [of "sv_im d"] v(1) unfolding waited_def by metis
    then show ?thesis using sessions_ok_view [OF v(2)] by simp
  qed
  then show ?thesis using sessions_ok_view [OF vf] by simp
qed

lemma client_Read_ok:
  assumes "sessions_ok cf C (sv_im sv)" "c \<in> C" "cn_closed (im_client (sv_im sv) c) = 0" "config_ok cf"
    and "\<And>m. msg = Some m \<Longrightarrow> rooms_ok m"
    and "\<And>sv1. view (sv_im sv1) = view (sv_im sv) \<Longrightarrow> sessions_ok cf C (sv_im (w sv1))"
    and "client_Read cf w c msg sv = Ret (go, sv')"
  shows "sessions_ok cf C (sv_im sv')"
  using assms(7) HandleClientClosed_ok [OF assms(1,2,4,3)] client_HandleMessage_ok [OF assms(1-4) _ assms(6)] assms(5)
  by (auto simp: client_Read_def on_im_go_Ret split: if_splits option.splits)

end
