(* ===== verification/SmallServer.thy ===== *)
theory SmallServer
  imports Client
begin

text \<open>
  A server with one storage server and one channel, on which the witnesses run the handlers. The users
  are 1, 2 and 3, every token is a byte that names its user.
\<close>

definition small_db :: db where
  "small_db = \<lparr>db_group = (\<lambda>g. if g = 9 then Some (9, 7, 0) else None),
     db_members = (\<lambda>g. if g = 9 then Some [(1, 100, 0), (2, 100, 0)] else None)\<rparr>"

definition small_relation_db :: relation_db where
  "small_relation_db = \<lparr>rd_ok = True, rd_friend = (\<lambda>a u f. {u, f} = {1, 2}), rd_blacklist = (\<lambda>a u f. False)\<rparr>"

definition small_config :: im_config where
  "small_config = \<lparr>cf_rpc_clients = [0], cf_group_rpc_clients = [0], cf_route_channels = [0],
     cf_group_route_channels = [0], cf_kefu_appid = 0, cf_friend_permission = True, cf_enable_blacklist = True,
     cf_sync_limit = 3000, cf_sync_hard_limit = 0, cf_net = (\<lambda>n. Delivered),
     cf_order = (\<lambda>m. filter (\<lambda>u. m u \<noteq> None) [1, 2, 3]), cf_filter = (\<lambda>b. b), cf_db = small_db,
     cf_relation_db = small_relation_db, cf_batch_order = (\<lambda>bs. bs), cf_deliver_count = 1,
     cf_token = (\<lambda>t. case t of [b] \<Rightarrow> Some (7, ucast b) | _ \<Rightarrow> None),
     cf_preferences = (\<lambda>a u. Some (0, False)), cf_device = (\<lambda>d p. Some 5)\<rparr>"

definition small_ims :: ims where
  "small_ims = storage.extend fresh_storage \<lparr>nrequests = 0, peer_message_count = 0, group_message_count = 0\<rparr>"

definition small_im :: "'c im" where
  "small_im = \<lparr>im_apps = Map.empty, im_client = (\<lambda>c. im_NewClient), im_chan = (\<lambda>i. NewChannel),
     im_store = (\<lambda>i. small_ims), im_calls = 0, im_now = 0, im_groups = NewGroupManager,
     im_pool = NewRelationshipPool, im_sync_keys = (\<lambda>k. 0), im_group_sync_keys = (\<lambda>k. 0), im_unread = (\<lambda>k. 0),
     im_sync_c = [], im_group_sync_c = []\<rparr>"

end
