(* ===== verification/PeerProperties.thy ===== *)
theory PeerProperties
  imports Sessions SmallServer StorageProperties
begin

text \<open>
  A message from one user to another, from the handler of its sender over the storage servers to the queues
  of the connections and of the channels.
\<close>

section \<open>Saving over a remote call\<close>

text \<open>What a save for the user \<open>u\<close> adds to a log, and the two ids it answers with.\<close>

definition saved_for ::
  "int64 \<Rightarrow> int64 \<Rightarrow> int64 \<Rightarrow> message \<Rightarrow> message list list \<Rightarrow> message list list \<Rightarrow> int64 \<times> int64 \<Rightarrow> bool"
where
  "saved_for a u dev m bs bs' ids \<longleftrightarrow>
     ids = (next_id m bs, head_msgid (records MSG_OFFLINE_V4 a u (log_of bs)))
     \<and> (\<exists>j. log_of bs' = log_of bs @ [(fst ids, m), (j, record_message MSG_OFFLINE_V4 (group_flag m)
         (peer_record a u dev (fst ids) (user_index_of (records MSG_OFFLINE_V4 a u (log_of bs)))))])"

lemma rpc_SavePeerMessage_IM:
  assumes ok: "storage_ok bs s" and room: "length bs + 2 \<le> 2 ^ 36"
    and m: "plain m" "m = Message cmd 0 DEFAULT_VERSION 0 (Some (BIM im)) None"
  obtains s' bs' ids where "rpc_SavePeerMessage a u dev (ucast (Cmd m)) (msg_ToData m) s = Ret (ids, s')"
    "storage_ok bs' s'" "length bs' \<le> length bs + 2" "saved_for a u dev m bs bs' ids"
proof -
  have "raw_message (ucast (Cmd m)) (msg_ToData m) = Ret m"
    using raw_message_ToData [of m] m by (simp add: plain_def storable_def)
  then show ?thesis
    using SavePeerMessage_ok [OF storage_ok_count(2) [OF ok] m(1) room, of a u dev] that
    by (fastforce simp: rpc_SavePeerMessage_def saved_for_def)
qed

text \<open>A call is answered exactly when it is delivered and its answer is not lost.\<close>

lemma im_SaveMessage_cases:
  assumes ok: "storage_ok bs (im_store st i)" and room: "length bs + 2 \<le> 2 ^ 36"
    and m: "plain m" "m = Message cmd 0 DEFAULT_VERSION 0 (Some (BIM im)) None"
    and i: "GetStorageRPCClient cf u = Ret i"
  obtains (delivered) s' bs' ids where "cf_net cf (im_calls st) = Delivered"
      "im_SaveMessage cf a u dev m st
        = Ret (Some ids, st\<lparr>im_calls := im_calls st + 1, im_store := (im_store st)(i := s')\<rparr>)"
      "storage_ok bs' s'" "length bs' \<le> length bs + 2" "saved_for a u dev m bs bs' ids"
    | (lost) s' where "cf_net cf (im_calls st) \<noteq> Delivered"
      "im_SaveMessage cf a u dev m st
        = Ret (None, st\<lparr>im_calls := im_calls st + 1, im_store := (im_store st)(i := s')\<rparr>)"
proof -
  obtain s' bs' ids where s: "rpc_SavePeerMessage a u dev (ucast (Cmd m)) (msg_ToData m) (im_store st i) = Ret (ids, s')"
    "storage_ok bs' s'" "length bs' \<le> length bs + 2" "saved_for a u dev m bs bs' ids"
    using rpc_SavePeerMessage_IM [OF ok room m] by blast
  have same: "st\<lparr>im_calls := n\<rparr> = st\<lparr>im_calls := n, im_store := (im_store st)(i := im_store st i)\<rparr>" for n by simp
  show ?thesis
  proof (cases "cf_net cf (im_calls st)")
    case Delivered
    then show ?thesis using s i by (intro delivered) (simp_all add: im_SaveMessage_def rpc_call_def)
  next
    case Request_lost
    then show ?thesis using s i by (intro lost [of "im_store st i"]) (simp_all add: im_SaveMessage_def rpc_call_def)
  next
    case Reply_lost
    then show ?thesis using s i by (intro lost [of s']) (simp_all add: im_SaveMessage_def rpc_call_def)
  qed
qed

section \<open>Sending to a user\<close>

definition enq :: "message list \<Rightarrow> connection \<Rightarrow> connection" where
  "enq ms cn = foldl (\<lambda>cn m. snd (EnqueueNonBlockMessage m cn)) cn ms"

lemma DispatchMessageToPeer_members:
  "snd (DispatchMessageToPeer m u a c st) = enqueue_clients m (user_members st a u) c st"
  by (auto simp: DispatchMessageToPeer_def im_FindRoute_def user_members_def route_FindClientSet_def enqueue_clients_def
      Set.is_empty_iff Let_def split: option.split)

text \<open>A message and the notification that follows it.\<close>

lemma send_pair:
  assumes "GetChannel cf u = Ret j"
  shows "go_bind (conn_SendMessage cf c u m st) (conn_SendMessage cf c u m')
    = Ret (st\<lparr>im_client := (\<lambda>d. if d \<in> user_members st (cn_appid (im_client st c)) u - {c}
          then enq [m, m'] (im_client st d) else im_client st d),
        im_chan := (im_chan st)(j := Publish (app_message (cn_appid (im_client st c)) u m' st)
          (Publish (app_message (cn_appid (im_client st c)) u m st) (im_chan st j)))\<rparr>)"
  using assms
  by (simp add: conn_SendMessage_def PublishMessage_def DispatchMessageToPeer_members Let_def enqueue_clients_def
      update_chan_def user_members_def app_message_def enq_def fun_eq_iff split: option.split)

lemma send_pair_then:
  assumes "GetChannel cf u = Ret j"
  shows "go_bind (conn_SendMessage cf c u m st) (\<lambda>st. go_bind (conn_SendMessage cf c u m' st) f)
    = f (st\<lparr>im_client := (\<lambda>d. if d \<in> user_members st (cn_appid (im_client st c)) u - {c}
          then enq [m, m'] (im_client st d) else im_client st d),
        im_chan := (im_chan st)(j := Publish (app_message (cn_appid (im_client st c)) u m' st)
          (Publish (app_message (cn_appid (im_client st c)) u m st) (im_chan st j)))\<rparr>)"
  unfolding go_bind_assoc [symmetric] send_pair [OF assms] by simp

lemma peer_permission_pool:
  assumes "peer_permission cf a u r st = (refused, st')"
  shows "st' = st\<lparr>im_pool := im_pool st'\<rparr>"
  using assms by (auto simp: peer_permission_def Let_def split: prod.splits if_splits)

section \<open>A message to a user\<close>

text \<open>What a user gets of a message: its copy, with the ids of the copy, and a notification.\<close>

definition incoming :: "go_int \<Rightarrow> im_message \<Rightarrow> int64 \<times> int64 \<Rightarrow> int64 \<Rightarrow> message list" where
  "incoming flag im ids i =
     [Message MSG_IM 0 DEFAULT_VERSION flag (Some (BIM im)) (Some (meta_of ids)), notify_msg i]"

text \<open>The queues after a message from the client \<open>c\<close> to the user \<open>r\<close> and to the other clients of its own user.\<close>

definition clients_after ::
  "'c \<Rightarrow> int64 \<Rightarrow> message \<Rightarrow> im_message \<Rightarrow> int64 \<times> int64 \<Rightarrow> int64 \<times> int64 \<Rightarrow> 'c im \<Rightarrow> 'c \<Rightarrow> connection"
where
  "clients_after c r msg im ids ids2 st d =
     (let cn = im_client st c; flag = or (Flag msg) MESSAGE_FLAG_PUSH
      in if d = c then snd (EnqueueMessage (ack_msg 0 0 (Seq msg) 0 (Some (meta_of ids2))) cn)
         else (if d \<in> user_members st (cn_appid cn) (cn_uid cn) then enq (incoming flag im ids2 (fst ids)) else id)
           ((if d \<in> user_members st (cn_appid cn) r then enq (incoming flag im ids (fst ids)) else id) (im_client st d)))"

definition published :: "int64 \<Rightarrow> int64 \<Rightarrow> message list \<Rightarrow> 'c im \<Rightarrow> channel \<Rightarrow> channel" where
  "published a u ms st ch = foldl (\<lambda>ch m. Publish (app_message a u m st) ch) ch ms"

definition channels_after ::
  "'c \<Rightarrow> int64 \<Rightarrow> message \<Rightarrow> im_message \<Rightarrow> int64 \<times> int64 \<Rightarrow> int64 \<times> int64 \<Rightarrow> nat \<Rightarrow> nat \<Rightarrow> 'c im \<Rightarrow> nat \<Rightarrow> channel"
where
  "channels_after c r msg im ids ids2 j j2 st k =
     (let cn = im_client st c; flag = or (Flag msg) MESSAGE_FLAG_PUSH; a = cn_appid cn
      in (if k = j2 then published a (cn_uid cn) (incoming flag im ids2 (fst ids)) st else id)
        ((if k = j then \<lambda>ch. published a r (incoming flag im ids (fst ids)) st
            (ch_Push a [r] (Message MSG_IM 0 DEFAULT_VERSION 0 (Some (BIM im)) None) ch) else id) (im_chan st k)))"

lemma sent_to_both:
  fixes st :: "'c im"
  assumes "GetChannel cf r = Ret j" "GetChannel cf (cn_uid (im_client st c)) = Ret j2"
    and "cn = im_client st c" "flag = or (Flag msg) MESSAGE_FLAG_PUSH"
  shows "\<exists>st'. go_bind (PushMessage cf (cn_appid cn) r (Message MSG_IM 0 DEFAULT_VERSION 0 (Some (BIM im)) None) st) (\<lambda>st.
      go_bind (conn_SendMessage cf c r (Message MSG_IM 0 DEFAULT_VERSION flag (Some (BIM im)) (Some (meta_of ids))) st) (\<lambda>st.
      go_bind (conn_SendMessage cf c r (notify_msg (fst ids)) st) (\<lambda>st.
      go_bind (conn_SendMessage cf c (cn_uid cn)
        (Message MSG_IM 0 DEFAULT_VERSION flag (Some (BIM im)) (Some (meta_of ids2))) st) (\<lambda>st.
      go_map (\<lambda>st. enqueue c (ack_msg 0 0 (Seq msg) 0 (Some (meta_of ids2))) st)
        (conn_SendMessage cf c (cn_uid cn) (notify_msg (fst ids)) st))))) = Ret st'
    \<and> im_client st' = clients_after c r msg im ids ids2 st \<and> im_chan st' = channels_after c r msg im ids ids2 j j2 st
    \<and> im_store st' = im_store st"
proof -
  have map: "go_map f x = go_bind x (\<lambda>y. Ret (f y))" for f :: "'a im \<Rightarrow> 'a im" and x by (cases x) simp_all
  show ?thesis
    using assms
    by (simp add: PushMessage_def map send_pair_then enqueue_def update_conn_def update_chan_def user_members_def
        clients_after_def channels_after_def published_def incoming_def app_message_def notify_msg_def Let_def fun_eq_iff
        cong: if_cong)
qed

lemma after_same:
  assumes "im_client st' = im_client st" "im_apps st' = im_apps st" "im_chan st' = im_chan st" "im_now st' = im_now st"
  shows "clients_after c r msg im ids ids2 st' = clients_after c r msg im ids ids2 st"
    "channels_after c r msg im ids ids2 j j2 st' = channels_after c r msg im ids ids2 j j2 st"
proof -
  have app: "app_message a u m st' = app_message a u m st" for a u m
    using assms by (simp add: app_message_def split: option.split)
  have eqs: "user_members st' = user_members st" "published a u ms st' = published a u ms st" for a u ms
    using assms by (simp_all add: user_members_def published_def app fun_eq_iff)
  show "clients_after c r msg im ids ids2 st' = clients_after c r msg im ids ids2 st"
    "channels_after c r msg im ids ids2 j j2 st' = channels_after c r msg im ids ids2 j j2 st"
    unfolding fun_eq_iff clients_after_def channels_after_def assms eqs by simp_all
qed

text \<open>
  C4: a message from a user whom the receiver accepts is saved for the receiver and for the sender, each in
  the log of its storage server, with the ids that the two saves answer; then every connection of the receiver
  and every other connection of the sender gets its copy with these ids and a notification, the route
  server gets the same for the connections elsewhere and what to push, and the sender's client is
  acknowledged. If either save is not answered, nothing is sent and no acknowledgement is given.
\<close>

theorem peer_message:
  fixes st :: "'c im" and c :: 'c
  defines "cn \<equiv> im_client st c"
  assumes body: "Body message = Some (BIM msg)" and uid: "cn_uid cn \<noteq> 0" "im_Sender msg = cn_uid cn"
    and perm: "fst (peer_permission cf (cn_appid cn) (cn_uid cn) (im_Receiver msg) st) = None"
    and im: "im = (FilterDirtyWord cf (Flag message) msg)\<lparr>im_Timestamp := ucast (unix_now st)\<rparr>"
    and m: "m = Message MSG_IM 0 DEFAULT_VERSION 0 (Some (BIM im)) None" "plain m"
    and servers: "GetStorageRPCClient cf (im_Receiver msg) = Ret i" "GetStorageRPCClient cf (cn_uid cn) = Ret i2"
      "GetChannel cf (im_Receiver msg) = Ret j" "GetChannel cf (cn_uid cn) = Ret j2"
    and stores: "\<And>k. storage_ok (bss k) (im_store st k)" "\<And>k. length (bss k) + 4 \<le> 2 ^ 36"
  shows "\<exists>st'. HandleIMMessage cf c message st = Ret st' \<and>
    (if cf_net cf (im_calls st) = Delivered \<and> cf_net cf (im_calls st + 1) = Delivered then
       (\<exists>bs1 bs2 ids ids2. saved_for (cn_appid cn) (im_Receiver msg) (cn_device_ID cn) m (bss i) bs1 ids
          \<and> saved_for (cn_appid cn) (cn_uid cn) (cn_device_ID cn) m ((bss(i := bs1)) i2) bs2 ids2
          \<and> (\<forall>k. storage_ok ((bss(i := bs1, i2 := bs2)) k) (im_store st' k))
          \<and> im_client st' = clients_after c (im_Receiver msg) message im ids ids2 st
          \<and> im_chan st' = channels_after c (im_Receiver msg) message im ids ids2 j j2 st)
     else im_client st' = im_client st \<and> im_chan st' = im_chan st)"
proof -
  obtain st0 where st0: "peer_permission cf (cn_appid cn) (cn_uid cn) (im_Receiver msg) st = (None, st0)"
    using perm by (metis prod.collapse)
  have pool: "st0 = st\<lparr>im_pool := im_pool st0\<rparr>" using peer_permission_pool [OF st0] .
  define p where "p = im_pool st0"
  have st0': "st0 = st\<lparr>im_pool := p\<rparr>" using pool by (simp add: p_def)
  have receiver: "im_Receiver im = im_Receiver msg" "im_Sender im = cn_uid cn"
    using im uid by (simp_all add: FilterDirtyWord_def)
  have now: "unix_now (st\<lparr>im_pool := p\<rparr>) = unix_now st" by (simp add: unix_now_def)
  define rest where "rest = (\<lambda>ids ids2 st. go_bind (PushMessage cf (cn_appid cn) (im_Receiver msg) m st) (\<lambda>st.
      go_bind (conn_SendMessage cf c (im_Receiver msg) (Message MSG_IM 0 DEFAULT_VERSION (or (Flag message) MESSAGE_FLAG_PUSH)
        (Some (BIM im)) (Some (meta_of ids))) st) (\<lambda>st.
      go_bind (conn_SendMessage cf c (im_Receiver msg) (notify_msg (fst ids)) st) (\<lambda>st.
      go_bind (conn_SendMessage cf c (cn_uid cn) (Message MSG_IM 0 DEFAULT_VERSION (or (Flag message) MESSAGE_FLAG_PUSH)
        (Some (BIM im)) (Some (meta_of ids2))) st) (\<lambda>st.
      go_map (\<lambda>st. enqueue c (ack_msg 0 0 (Seq message) 0 (Some (meta_of ids2))) st)
        (conn_SendMessage cf c (cn_uid cn) (notify_msg (fst ids)) st))))))"
  have run: "HandleIMMessage cf c message st =
      go_bind (im_SaveMessage cf (cn_appid cn) (im_Receiver msg) (cn_device_ID cn) m st0) (\<lambda>(r, st).
        case r of None \<Rightarrow> Ret st | Some ids \<Rightarrow>
      go_bind (im_SaveMessage cf (cn_appid cn) (cn_uid cn) (cn_device_ID cn) m st) (\<lambda>(r2, st).
        case r2 of None \<Rightarrow> Ret st | Some ids2 \<Rightarrow> rest ids ids2 st))"
    using uid unfolding HandleIMMessage_def body rest_def Let_def cn_def [symmetric] st0 option.case body.case split_conv
      st0' now im [symmetric] receiver m(1) [symmetric]
    by simp
  have first: "storage_ok (bss i) (im_store st0 i)" "length (bss i) + 2 \<le> 2 ^ 36"
    using stores(1) [of i] stores(2) [of i] by (simp_all add: st0')
  show ?thesis
  proof (cases rule: im_SaveMessage_cases [OF first m(2,1) servers(1), of "cn_appid cn" "cn_device_ID cn",
        case_names delivered lost])
    case (lost s')
    then show ?thesis using run by (auto simp: st0')
  next
    case (delivered s1 bs1 ids)
    define st1 where "st1 = st0\<lparr>im_calls := im_calls st0 + 1, im_store := (im_store st0)(i := s1)\<rparr>"
    have next_ok: "storage_ok ((bss(i := bs1)) i2) (im_store st1 i2)" "length ((bss(i := bs1)) i2) + 2 \<le> 2 ^ 36"
      using stores(1) [of i2] stores(2) [of i2] stores(2) [of i] delivered(3,4) by (auto simp: st1_def st0')
    show ?thesis
    proof (cases rule: im_SaveMessage_cases [OF next_ok m(2,1) servers(2), of "cn_appid cn" "cn_device_ID cn",
          case_names delivered lost])
      case (lost s')
      then show ?thesis using run delivered(2) by (auto simp: st1_def st0')
    next
      case second: (delivered s2 bs2 ids2)
      define st2 where "st2 = st1\<lparr>im_calls := im_calls st1 + 1, im_store := (im_store st1)(i2 := s2)\<rparr>"
      have same: "im_client st2 = im_client st" "im_apps st2 = im_apps st" "im_chan st2 = im_chan st" "im_now st2 = im_now st"
        by (simp_all add: st2_def st1_def st0')
      have cn2: "cn = im_client st2 c" "GetChannel cf (cn_uid (im_client st2 c)) = Ret j2"
        using servers(4) by (simp_all add: same cn_def)
      obtain st' where st': "rest ids ids2 st2 = Ret st'" "im_store st' = im_store st2"
        "im_client st' = clients_after c (im_Receiver msg) message im ids ids2 st2"
        "im_chan st' = channels_after c (im_Receiver msg) message im ids ids2 j j2 st2"
        using sent_to_both [OF servers(3) cn2(2,1) refl, where msg = message and im = im and ids = ids and ?ids2.0 = ids2]
        unfolding rest_def m(1) by blast
      have stored: "\<forall>k. storage_ok ((bss(i := bs1, i2 := bs2)) k) (im_store st' k)"
        using stores(1) delivered(3) second(3) by (auto simp: st'(2) st2_def st1_def st0')
      have handled: "HandleIMMessage cf c message st = Ret st'"
        using run delivered(2) second(2) st'(1) by (simp add: st2_def st1_def)
      have both: "cf_net cf (im_calls st) = Delivered \<and> cf_net cf (im_calls st + 1) = Delivered"
        using delivered(1) second(1) by (simp add: st1_def st0')
      show ?thesis
        unfolding if_P [OF both]
        by (intro exI conjI) (fact handled delivered(5) second(5) stored st'(3,4) [unfolded after_same [OF same]])+
    qed
  qed
qed

section \<open>Two users of a small server\<close>

definition from_1_to_2 :: im_message where
  "from_1_to_2 = \<lparr>im_Sender = 1, im_Receiver = 2, im_Timestamp = 0, im_Msgid = 0, im_Content = [104, 105]\<rparr>"

text \<open>The client 0 is the user 1, the client 1 the user 2.\<close>

definition two_users :: "nat im" where
  "two_users = small_im\<lparr>im_client := (\<lambda>c. im_NewClient\<lparr>cn_appid := 7, cn_uid := (if c = 0 then 1 else 2)\<rparr>),
     im_apps := [7 \<mapsto> \<lparr>rt_appid = 7, rt_clients = [1 \<mapsto> {0}, 2 \<mapsto> {1}], rt_room_clients = Map.empty\<rparr>]\<rparr>"

lemma small_ims_ok: "storage_ok [[]] small_ims"
  unfolding small_ims_def by (rule fresh_extend_ok)

lemma plain_from_1_to_2: "plain (Message MSG_IM 0 DEFAULT_VERSION 0 (Some (BIM from_1_to_2)) None)"
  by (simp add: plain_def storable_def from_1_to_2_def header_ok_def creator_im msg_ToData_def im_ToData_def im_ToDataV1_def)

text \<open>The friends 1 and 2: the message reaches the client of 2, and 1 is acknowledged.\<close>

theorem peer_message_witness:
  "\<exists>st' ids ids2. HandleIMMessage small_config 0 (Message MSG_IM 5 2 0 (Some (BIM from_1_to_2)) None) two_users = Ret st'
    \<and> im_client st' = clients_after 0 2 (Message MSG_IM 5 2 0 (Some (BIM from_1_to_2)) None) from_1_to_2 ids ids2 two_users"
proof -
  let ?m = "Message MSG_IM 5 2 0 (Some (BIM from_1_to_2)) None"
  have user: "cn_uid (im_client two_users 0) = 1" "cn_appid (im_client two_users 0) = 7"
    by (simp_all add: two_users_def)
  have im: "from_1_to_2 = (FilterDirtyWord small_config (Flag ?m) from_1_to_2)
      \<lparr>im_Timestamp := ucast (unix_now two_users)\<rparr>" by code_simp
  have perm: "fst (peer_permission small_config 7 1 2 two_users) = None" by code_simp
  have fields: "im_Sender from_1_to_2 = 1" "im_Receiver from_1_to_2 = 2" by (simp_all add: from_1_to_2_def)
  have servers: "GetStorageRPCClient small_config 2 = Ret 0" "GetStorageRPCClient small_config 1 = Ret 0"
    "GetChannel small_config 2 = Ret 0" "GetChannel small_config 1 = Ret 0" by code_simp+
  have net: "cf_net small_config k = Delivered" for k by (simp add: small_config_def)
  have "storage_ok [[]] (im_store two_users k)" for k by (simp add: two_users_def small_im_def small_ims_ok)
  then show ?thesis
    using peer_message [where message = ?m and st = two_users and c = 0 and cf = small_config and msg = from_1_to_2
        and i = 0 and j = 0 and bss = "\<lambda>k. [[]]", unfolded user fields, OF _ _ refl perm im refl plain_from_1_to_2 servers]
    by (simp add: net) blast
qed

end
