(* ===== verification/DeliverLiveness.thy ===== *)
theory DeliverLiveness
  imports DeliverQueue PeerProperties
begin

text \<open>
  Every message that is saved in the file of a deliverer is sent: what makes a send succeed, what a round
  of the deliverer leaves in its queue, and the runs of a deliverer among the other goroutines.
\<close>

section \<open>A group message whose saves are answered is sent\<close>

text \<open>A storage server and a channel can be chosen for a user.\<close>

definition routable :: "im_config \<Rightarrow> int64 \<Rightarrow> bool" where
  "routable cf u \<longleftrightarrow> (\<exists>i. GetStorageRPCClient cf u = Ret i) \<and> (\<exists>j. GetChannel cf u = Ret j)"

text \<open>The ranges over maps visit what is in the map.\<close>

definition ranges_ok :: "im_config \<Rightarrow> bool" where
  "ranges_ok cf \<longleftrightarrow> (\<forall>bs. mset (cf_batch_order cf bs) = mset bs) \<and> (\<forall>m. set (cf_order cf m) \<subseteq> dom m)"

text \<open>The storage servers hold logs with room for \<open>n\<close> more records.\<close>

definition stores_ok :: "'c im \<Rightarrow> nat \<Rightarrow> bool" where
  "stores_ok st n \<longleftrightarrow> (\<exists>bss. \<forall>k. storage_ok (bss k) (im_store st k) \<and> length (bss k) + n \<le> 2 ^ 36)"

definition group_im_message :: "pending_group_message \<Rightarrow> message" where
  "group_im_message gm = Message MSG_GROUP_IM 0 DEFAULT_VERSION 0 (Some (BIM (group_im gm))) None"

definition sendable :: "im_config \<Rightarrow> pending_group_message \<Rightarrow> bool" where
  "sendable cf gm \<longleftrightarrow> plain (group_im_message gm) \<and> (\<forall>u \<in> set (pg_Members gm). routable cf u)"

lemma stores_ok_mono: "stores_ok st n \<Longrightarrow> m \<le> n \<Longrightarrow> stores_ok st m"
  unfolding stores_ok_def using add_left_mono order_trans by blast

lemma stores_ok_same: "im_store st' = im_store st \<Longrightarrow> stores_ok st' n = stores_ok st n"
  by (simp add: stores_ok_def)

lemma im_SavePeerGroupMessage_answered:
  assumes net: "\<And>n. cf_net cf n = Delivered" and st: "stores_ok st (2 * length mb + n)"
    and mb: "mb \<noteq> []" "\<forall>u \<in> set mb. routable cf u" and m: "plain (group_im_message gm)"
  obtains r st' where "im_SavePeerGroupMessage cf a mb dev (group_im_message gm) st = Ret (Some r, st')"
    "length r = 2 * length mb" "stores_ok st' n" "im_client st' = im_client st" "im_apps st' = im_apps st"
proof -
  let ?m = "group_im_message gm"
  obtain u us where mb': "mb = u # us" using mb(1) by (cases mb) auto
  obtain i where i: "GetStorageRPCClient cf u = Ret i" using mb by (auto simp: mb' routable_def)
  obtain bss where bss: "\<And>k. storage_ok (bss k) (im_store st k)" "\<And>k. length (bss k) + (2 * length mb + n) \<le> 2 ^ 36"
    using st unfolding stores_ok_def by blast
  have raw: "raw_message (ucast (Cmd ?m)) (msg_ToData ?m) = Ret ?m"
    using raw_message_ToData [of ?m] m by (simp add: plain_def storable_def group_im_message_def)
  have "length (bss i) + 2 * length mb \<le> 2 ^ 36" using bss(2) [of i] by simp
  from SavePeerGroupMessage_ok [OF storage_ok_count(2) [OF bss(1) [of i]] m this, of a dev]
  obtain r s' bs' where s': "SavePeerGroupMessage a mb dev ?m (count_peer (im_store st i)) = Ret (r, s')"
    "storage_ok bs' s'" "length r = 2 * length mb" "length bs' \<le> length (bss i) + 2 * length mb" by blast
  define st' where "st' = st\<lparr>im_calls := im_calls st + 1, im_store := (im_store st)(i := s')\<rparr>"
  have "im_SavePeerGroupMessage cf a mb dev ?m st = Ret (Some r, st')"
    using i s'(1) raw net by (simp del: SavePeerGroupMessage.simps
        add: mb' im_SavePeerGroupMessage_def rpc_call_def rpc_SavePeerGroupMessage_def st'_def Let_def)
  moreover have "storage_ok ((bss(i := bs')) k) (im_store st' k) \<and> length ((bss(i := bs')) k) + n \<le> 2 ^ 36" for k
    using bss(1) [of k] bss(2) [of k] bss(2) [of i] s'(2,4) by (auto simp: st'_def)
  then have "stores_ok st' n" unfolding stores_ok_def by blast
  ultimately show ?thesis using that s'(3) by (simp add: st'_def)
qed

lemma gd_sendMessage_routable:
  assumes "routable cf u"
  shows "\<exists>st'. gd_sendMessage cf a u s d m st = Ret st' \<and> im_store st' = im_store st"
proof -
  obtain z where "PublishMessage cf a u m st = Ret z" "im_store z = im_store st"
    using assms by (auto simp: routable_def PublishMessage_def update_chan_def)
  then show ?thesis by (simp add: gd_sendMessage_def enqueue_clients_def split: option.split)
qed

lemma send_member_routable:
  assumes "routable cf (fst x)"
  shows "\<exists>md' st'. send_member cf gm x (md, st) = Ret (md', st') \<and> im_store st' = im_store st"
proof -
  obtain u ids where x: "x = (u, ids)" by (cases x)
  define meta where "meta = \<lparr>md_SyncKey = fst ids, md_PrevSyncKey = snd ids\<rparr>"
  obtain st1 where st1: "gd_sendMessage cf (pg_Appid gm) u (pg_Sender gm) (pg_DeviceID gm)
      (Message MSG_GROUP_IM 0 DEFAULT_VERSION MESSAGE_FLAG_PUSH (Some (BIM (group_im gm))) (Some meta)) st = Ret st1"
    "im_store st1 = im_store st"
    using gd_sendMessage_routable assms x by fastforce
  obtain st2 where st2: "gd_sendMessage cf (pg_Appid gm) u (pg_Sender gm) (pg_DeviceID gm)
      (Message MSG_SYNC_NOTIFY 0 0 0 (Some (BSyncKey (fst ids))) None) st1 = Ret st2" "im_store st2 = im_store st1"
    using gd_sendMessage_routable assms x by fastforce
  then show ?thesis using st1 st2 by (simp add: send_member_def x meta_def [symmetric] Let_def)
qed

lemma send_members_routable:
  assumes "\<forall>x \<in> set xs. routable cf (fst x)"
  shows "\<exists>md' st'. go_fold (\<lambda>s x. send_member cf gm x s) (md, st) xs = Ret (md', st') \<and> im_store st' = im_store st"
  using assms
proof (induction xs arbitrary: md st)
  case (Cons x xs)
  obtain md1 st1 where "send_member cf gm x (md, st) = Ret (md1, st1)" "im_store st1 = im_store st"
    using send_member_routable Cons.prems by (metis list.set_intros(1))
  moreover obtain md' st' where "go_fold (\<lambda>s x. send_member cf gm x s) (md1, st1) xs = Ret (md', st')"
    "im_store st' = im_store st1"
    using Cons.IH [of md1 st1] Cons.prems by auto
  ultimately show ?case by simp
qed simp

lemma send_batch_answered:
  assumes net: "\<And>n. cf_net cf n = Delivered" and st: "stores_ok st (2 * length mb + n)"
    and mb: "mb \<noteq> []" "set mb \<subseteq> set (pg_Members gm)" and gm: "sendable cf gm"
  obtains md' st' where "send_batch cf gm mb (md, st) = Ret (Some md', st')" "stores_ok st' n"
proof -
  have routes: "\<forall>u \<in> set mb. routable cf u" and m: "plain (group_im_message gm)"
    using mb gm by (auto simp: sendable_def)
  obtain r st1 where save: "im_SavePeerGroupMessage cf (pg_Appid gm) mb (pg_DeviceID gm) (group_im_message gm) st
      = Ret (Some r, st1)" "length r = 2 * length mb" "stores_ok st1 n"
    using im_SavePeerGroupMessage_answered [OF net st mb(1) routes m] by metis
  have "\<forall>x \<in> set (zip mb (pairs_of r)). routable cf (fst x)"
    using routes by (auto dest: set_zip_leftD)
  from send_members_routable [OF this] obtain md' st' where
    "go_fold (\<lambda>s x. send_member cf gm x s) (md, st1) (zip mb (pairs_of r)) = Ret (md', st')"
    "im_store st' = im_store st1" by metis
  then show ?thesis
    using that save stores_ok_same [of st' st1] by (simp add: send_batch_def group_im_message_def [symmetric])
qed

text \<open>The batches hold the members, and none of them is empty.\<close>

definition batch_size :: "(int64 \<times> int64 list) list \<Rightarrow> nat" where
  "batch_size bs = sum_mset (image_mset (\<lambda>b. length (snd b)) (mset bs))"

definition batches_ok :: "int64 set \<Rightarrow> (int64 \<times> int64 list) list \<Rightarrow> bool" where
  "batches_ok us bs \<longleftrightarrow> (\<forall>b \<in> set bs. snd b \<noteq> [] \<and> set (snd b) \<subseteq> us)"

lemma batch_size_simps [simp]:
  "batch_size [] = 0" "batch_size (b # bs) = length (snd b) + batch_size bs"
  by (simp_all add: batch_size_def)

lemma batch_size_append [simp]: "batch_size (bs @ cs) = batch_size bs + batch_size cs"
  by (simp add: batch_size_def)

lemma add_batch_size:
  assumes "distinct (map fst bs)"
  shows "batch_size (add_batch i u bs) = Suc (batch_size bs) \<and> distinct (map fst (add_batch i u bs))"
proof -
  have other: "i \<notin> set (map fst bs) \<Longrightarrow> map (\<lambda>(j, us). if j = i then (j, us @ [u]) else (j, us)) bs = bs" for bs
    by (induction bs) auto
  have keys: "map (fst \<circ> (\<lambda>(j, us). if j = i then (j, us @ [u]) else (j, us))) bs = map fst bs" for bs
    by (induction bs) auto
  have "i \<in> set (map fst bs) \<Longrightarrow> distinct (map fst bs) \<Longrightarrow>
      batch_size (map (\<lambda>(j, us). if j = i then (j, us @ [u]) else (j, us)) bs) = Suc (batch_size bs)" for bs
  proof (induction bs)
    case (Cons b bs)
    then show ?case using other [of bs] by (cases b) auto
  qed simp
  then show ?thesis using assms by (auto simp: add_batch_def keys)
qed

lemma batch_members_ok:
  assumes "\<forall>u \<in> set us. routable cf u"
  obtains bs where "batch_members cf us = Ret bs" "batch_size bs = length us" "batches_ok (set us) bs"
proof -
  have index: "\<exists>i. GetStorageRPCIndex cf u = Ret i" if "routable cf u" for u
    using that by (auto simp: routable_def GetStorageRPCIndex_def GetStorageRPCClient_def pick_def Let_def split: if_splits)
  have "\<exists>cs. go_fold (\<lambda>b u. go_map (\<lambda>i. add_batch i u b) (GetStorageRPCIndex cf u)) bs us = Ret cs
      \<and> batch_size cs = batch_size bs + length us \<and> batches_ok (set vs \<union> set us) cs"
    if "\<forall>u \<in> set us. routable cf u" "distinct (map fst bs)" "batches_ok (set vs) bs" for bs us vs
    using that
  proof (induction us arbitrary: bs vs)
    case (Cons u us)
    obtain i where i: "GetStorageRPCIndex cf u = Ret i" using index Cons.prems(1) by auto
    have "\<forall>b \<in> set (add_batch i u bs). (\<exists>b' \<in> set bs. snd b = snd b' \<or> snd b = snd b' @ [u]) \<or> snd b = [u]"
      by (auto simp: add_batch_def) (metis snd_conv)+
    then have "batches_ok (set (u # vs)) (add_batch i u bs)"
      using Cons.prems(3) unfolding batches_ok_def by fastforce
    from Cons.IH [OF _ _ this] Cons.prems add_batch_size [of bs i u] i show ?case by simp
  qed simp
  from this [of us "[]" "[]"] assms that show ?thesis by (auto simp: batch_members_def batches_ok_def)
qed

lemma send_batches_answered:
  assumes net: "\<And>n. cf_net cf n = Delivered" and gm: "sendable cf gm"
    and st: "stores_ok st (2 * batch_size bs + n)" "batches_ok (set (pg_Members gm)) bs"
  shows "\<exists>md' st'. send_batches_of cf gm bs (md, st) = Ret (Some md', st') \<and> stores_ok st' n"
  using st
proof (induction bs arbitrary: md st)
  case (Cons b bs)
  obtain i mb where b: "b = (i, mb)" by fastforce
  have "stores_ok st (2 * length mb + (2 * batch_size bs + n))" "mb \<noteq> []" "set mb \<subseteq> set (pg_Members gm)"
    using Cons.prems by (simp_all add: b batches_ok_def algebra_simps)
  from send_batch_answered [OF net this gm] obtain md1 st1 where
    "send_batch cf gm mb (md, st) = Ret (Some md1, st1)" "stores_ok st1 (2 * batch_size bs + n)" by metis
  moreover have "batches_ok (set (pg_Members gm)) bs" using Cons.prems(2) by (simp add: batches_ok_def)
  moreover note Cons.IH [OF calculation(2,3), of md1]
  ultimately show ?case by (auto simp: b)
qed simp

lemma by_channel_routable:
  assumes "\<forall>u \<in> set us. routable cf u"
  shows "\<exists>ch'. go_fold (\<lambda>ch u. go_map (\<lambda>i. ch(i := ch i @ [u])) (GetChannel cf u)) ch us = Ret ch'"
  using assms
proof (induction us arbitrary: ch)
  case (Cons u us)
  from Cons.prems obtain j where "GetChannel cf u = Ret j" by (auto simp: routable_def)
  then show ?case using Cons.IH [of "ch(j := ch j @ [u])"] Cons.prems by simp
qed simp

lemma PushGroupMessage_routable:
  assumes "\<forall>u \<in> set us. routable cf u"
  shows "\<exists>st'. PushGroupMessage cf a us m st = Ret st' \<and> im_store st' = im_store st"
proof -
  have "set (push_receivers m us) \<subseteq> set us" by (auto simp: push_receivers_def split: option.splits body.splits)
  then have "\<forall>u \<in> set (push_receivers m us). routable cf u" using assms by blast
  from by_channel_routable [OF this] show ?thesis unfolding PushGroupMessage_def by_channel_def by fastforce
qed

lemma sendGroupMessage_answered:
  assumes net: "\<And>n. cf_net cf n = Delivered" and cf: "ranges_ok cf" and gm: "sendable cf gm"
    and st: "stores_ok st (2 * length (pg_Members gm) + n)"
  obtains meta st' where "sendGroupMessage cf gm st = Ret (Some meta, st')" "stores_ok st' n"
proof -
  have routes: "\<forall>u \<in> set (pg_Members gm). routable cf u" using gm by (simp add: sendable_def)
  obtain bs where bs: "batch_members cf (pg_Members gm) = Ret bs" "batch_size bs = length (pg_Members gm)"
    "batches_ok (set (pg_Members gm)) bs"
    using batch_members_ok [OF routes] .
  have perm: "mset (cf_batch_order cf bs) = mset bs" using cf by (simp add: ranges_ok_def)
  then have "set (cf_batch_order cf bs) = set bs" by (rule mset_eq_setD)
  moreover have "batch_size (cf_batch_order cf bs) = batch_size bs" unfolding batch_size_def perm ..
  ultimately have "stores_ok st (2 * batch_size (cf_batch_order cf bs) + n)"
    "batches_ok (set (pg_Members gm)) (cf_batch_order cf bs)"
    using st bs by (simp_all add: batches_ok_def)
  from send_batches_answered [OF net gm this] obtain md st1 where
    s1: "send_batches_of cf gm (cf_batch_order cf bs) (\<lparr>md_SyncKey = 0, md_PrevSyncKey = 0\<rparr>, st) = Ret (Some md, st1)"
    "stores_ok st1 n" by metis
  have "dom (members_map (pg_Members gm)) = set (pg_Members gm)" by (auto simp: members_map_def split: if_splits)
  then have "set (cf_order cf (members_map (pg_Members gm))) \<subseteq> set (pg_Members gm)"
    using cf unfolding ranges_ok_def by metis
  then have "\<forall>u \<in> set (cf_order cf (members_map (pg_Members gm))). routable cf u" using routes by blast
  from PushGroupMessage_routable [OF this] obtain st' where
    "PushGroupMessage cf (pg_Appid gm) (cf_order cf (members_map (pg_Members gm))) (group_im_message gm) st1 = Ret st'"
    "im_store st' = im_store st1" by metis
  then show ?thesis
    using that bs(1) s1 stores_ok_same [of st' st1] by (simp add: sendGroupMessage_def group_im_message_def)
qed

text \<open>A server that sends all of a list.\<close>

definition demand :: "pending_group_message list \<Rightarrow> nat" where
  "demand gms = sum_list (map (\<lambda>gm. 2 * length (pg_Members gm)) gms)"

definition answering :: "im_config \<Rightarrow> pending_group_message list \<Rightarrow> 'c im \<Rightarrow> bool" where
  "answering cf gms st \<longleftrightarrow> (\<forall>n. cf_net cf n = Delivered) \<and> ranges_ok cf \<and> (\<forall>gm \<in> set gms. sendable cf gm)
     \<and> stores_ok st (demand gms)"

lemma answering_sends_all:
  assumes "answering cf gms st"
  shows "\<exists>metas st'. send_all cf gms st = Ret (metas, st') \<and> length metas = length gms"
  using assms
proof (induction gms arbitrary: st)
  case (Cons gm gms)
  from Cons.prems have a: "\<And>n. cf_net cf n = Delivered" "ranges_ok cf" "sendable cf gm"
    "stores_ok st (2 * length (pg_Members gm) + demand gms)"
    by (simp_all add: answering_def demand_def)
  obtain meta st1 where s1: "sendGroupMessage cf gm st = Ret (Some meta, st1)" "stores_ok st1 (demand gms)"
    using sendGroupMessage_answered [OF a] .
  then have "answering cf gms st1" using Cons.prems by (simp add: answering_def)
  from Cons.IH [OF this] obtain metas st' where "send_all cf gms st1 = Ret (metas, st')" "length metas = length gms"
    by blast
  then show ?case by (simp add: s1(1))
qed simp

section \<open>What a round leaves in the queue\<close>

text \<open>
  The messages that a flush sends of the list \<open>gms\<close>: those of one pass, or of two where the file has grown
  past its limit.
\<close>

inductive flush_sends ::
  "im_config \<Rightarrow> pending_group_message list \<Rightarrow> 'c im \<Rightarrow> pending_group_message list \<Rightarrow> bool" for cf gms
where
  nothing: "gms = [] \<Longrightarrow> flush_sends cf gms st []"
| one_pass: "send_all cf gms st = Ret (metas, st') \<Longrightarrow> flush_sends cf gms st (take (length metas) gms)"
| two_passes: "send_all cf gms st = Ret (metas, st1) \<Longrightarrow> send_all cf (drop (length metas) gms) st1 = Ret (metas2, st2) \<Longrightarrow>
    flush_sends cf gms st (take (length metas + length metas2) gms)"

lemma flush_sends_all:
  assumes "flush_sends cf gms st xs" "answering cf gms st"
  shows "xs = gms"
proof -
  obtain metas st' where "send_all cf gms st = Ret (metas, st')" "length metas = length gms"
    using answering_sends_all [OF assms(2)] by blast
  with assms(1) show ?thesis by cases auto
qed

lemma truncate_ok:
  assumes "queue_ok gms (length gms) d"
  shows "queue_ok [] 0 (ClearCallback (truncateFile d))"
proof -
  obtain rest where "gd_cursor_file d = binWrite (mark gms (length gms)) @ rest"
    using assms by (auto simp: queue_ok_def)
  moreover have "take 32 (gd_file d) = file_header" using assms by (simp add: queue_ok_def pending_file_def)
  ultimately show ?thesis
    by (simp add: queue_ok_def ClearCallback_def truncateFile_def gd_saveCursor_def pending_file_def mark_def)
qed

lemma marks_less:
  assumes "queue_ok gms k d"
  shows "sint (mark gms k) < sint (mark gms (length gms)) \<longleftrightarrow> k < length gms"
proof (cases "k < length gms")
  case True
  then show ?thesis
    using sint_mark [OF assms] pos_at_less [of "k - 1" "length gms - 1" gms]
      pos_at_bounds(1) [OF assms, of "length gms - 1"] by auto
next
  case False
  then have "k = length gms" using assms by (simp add: queue_ok_def)
  then show ?thesis by simp
qed

lemma send_pass:
  assumes ok: "queue_ok gms k d" and run: "sendPendingMessage cf d st = Ret (d', st')"
  obtains metas where "send_all cf (drop k gms) st = Ret (metas, st')" "k + length metas \<le> length gms"
    "queue_ok gms (k + length metas) d'"
proof -
  obtain metas where m: "send_all cf (drop k gms) st = Ret (metas, st')" "d' = advance (pos_at gms k) (drop k gms) metas d"
    using run unfolding sendPendingMessage_eq [OF ok] by auto
  have "k + length metas \<le> length gms" using length_send_all [OF m(1)] ok by (auto simp: queue_ok_def)
  with that m advance_ok [OF ok this] show ?thesis by blast
qed

lemma flush_queue:
  assumes ok: "queue_ok gms k d" and run: "flushPendingMessage cf d st = Ret (d', st')"
  shows "\<exists>gms' k' xs. queue_ok gms' k' d' \<and> drop k gms = xs @ drop k' gms' \<and> flush_sends cf (drop k gms) st xs"
proof (cases "k < length gms")
  case False
  then have "d' = d" "k = length gms"
    using run ok marks_less [OF ok] by (auto simp: flushPendingMessage_def queue_ok_def)
  then show ?thesis
    using ok by (intro exI [of _ gms] exI [of _ k] exI [of _ "[]"]) (simp add: flush_sends.nothing)
next
  case True
  have pending: "sint (gd_latest_msgid d) > sint (gd_latest_sended_msgid d)"
    using True marks_less [OF ok] ok by (simp add: queue_ok_def)
  obtain d1 st1 where one: "sendPendingMessage cf d st = Ret (d1, st1)"
    using run pending by (auto simp: flushPendingMessage_def)
  obtain metas where m: "send_all cf (drop k gms) st = Ret (metas, st1)" "k + length metas \<le> length gms"
    "queue_ok gms (k + length metas) d1"
    using send_pass [OF ok one] .
  let ?k1 = "k + length metas"
  have split: "drop k gms = take n (drop k gms) @ drop (k + n) gms" for n
    by (metis append_take_drop_id drop_drop add.commute)
  show ?thesis
  proof (cases "sint (gd_latest_sended_msgid d1) > GD_FILE_LIMIT")
    case False
    then have "d' = d1" using run pending one by (simp add: flushPendingMessage_def)
    then show ?thesis
      using m(3) split [of "length metas"] flush_sends.one_pass [OF m(1)] by metis
  next
    case limit: True
    define again where "again = (if sint (gd_latest_msgid d1) > sint (gd_latest_sended_msgid d1)
      then sendPendingMessage cf d1 st1 else Ret (d1, st1))"
    obtain d2 st2 where two: "again = Ret (d2, st2)"
      and d': "d' = (if gd_latest_msgid d2 = gd_latest_sended_msgid d2 then ClearCallback (truncateFile d2) else d2)"
      using run pending one limit by (auto simp: flushPendingMessage_def again_def [symmetric])
    have marks: "gd_latest_msgid d1 = mark gms (length gms)" "gd_latest_sended_msgid d1 = mark gms ?k1"
      using m(3) by (simp_all add: queue_ok_def)
    obtain n where n: "queue_ok gms (k + n) d2" "flush_sends cf (drop k gms) st (take n (drop k gms))"
    proof (cases "?k1 < length gms")
      case True
      then have "sendPendingMessage cf d1 st1 = Ret (d2, st2)"
        using two marks_less [OF m(3)] by (simp add: again_def marks)
      from send_pass [OF m(3) this] obtain metas2 where
        m2: "send_all cf (drop ?k1 gms) st1 = Ret (metas2, st2)" "queue_ok gms (?k1 + length metas2) d2" by blast
      have "send_all cf (drop (length metas) (drop k gms)) st1 = Ret (metas2, st2)"
        using m2(1) by (simp add: add.commute)
      from flush_sends.two_passes [OF m(1) this] m2(2) show ?thesis
        by (intro that [of "length metas + length metas2"]) (simp_all add: add.assoc)
    next
      case False
      then have "d2 = d1" using two marks_less [OF m(3)] by (simp add: again_def marks)
      then show ?thesis using that [of "length metas"] m(3) flush_sends.one_pass [OF m(1)] by simp
    qed
    show ?thesis
    proof (cases "gd_latest_msgid d2 = gd_latest_sended_msgid d2")
      case True
      then have "k + n = length gms"
        using marks_less [OF n(1)] n(1) by (auto simp: queue_ok_def)
      then have "queue_ok [] 0 d'" "drop k gms = take n (drop k gms)"
        using truncate_ok [of gms d2] n(1) True d' by simp_all
      then show ?thesis using n(2) by (intro exI [of _ "[]"] exI [of _ 0] exI [of _ "take n (drop k gms)"]) simp
    next
      case False
      then show ?thesis using n d' split [of n] by metis
    qed
  qed
qed

section \<open>Runs of a deliverer\<close>

text \<open>
  What happens to a deliverer: a message is saved, an answer is taken, a round of \<open>run\<close> flushes in the
  state \<open>st\<close> that the server has then, or the server does something else.
\<close>

datatype 'c move = Save pending_group_message "nat option" | Answer int64 | Round "'c im" | Elsewhere

definition deliver_move :: "im_config \<Rightarrow> 'c move \<Rightarrow> deliver \<Rightarrow> deliver go" where
  "deliver_move cf mv d =
     (case mv of
        Save gm ch \<Rightarrow> Ret (snd (gd_SaveMessage (pending_msg gm) ch d))
      | Answer callback_id \<Rightarrow> Ret (RemoveCallback callback_id d)
      | Round st \<Rightarrow> go_map fst (flushPendingMessage cf d st)
      | Elsewhere \<Rightarrow> Ret d)"

text \<open>What the file of a deliverer holds that has not been sent.\<close>

definition unsent :: "deliver \<Rightarrow> pending_group_message list \<Rightarrow> bool" where
  "unsent d gms \<longleftrightarrow> (\<exists>all k. queue_ok all k d \<and> gms = drop k all)"

text \<open>An endless run in which messages are saved that fit the file.\<close>

definition deliver_trace :: "im_config \<Rightarrow> (nat \<Rightarrow> 'c move) \<Rightarrow> (nat \<Rightarrow> deliver) \<Rightarrow> bool" where
  "deliver_trace cf mv d \<longleftrightarrow> queue_ok [] 0 (d 0)
     \<and> (\<forall>t. deliver_move cf (mv t) (d t) = Ret (d (Suc t)))
     \<and> (\<forall>t gm ch. mv t = Save gm ch \<longrightarrow> gm_ok gm
          \<and> length (gd_file (d t)) + length (gd_stored (pending_msg gm)) < 2 ^ 63)"

lemma move_unsent:
  assumes "unsent d gms" "deliver_move cf mv d = Ret d'"
    and fits: "\<And>gm ch. mv = Save gm ch \<Longrightarrow> gm_ok gm \<and> length (gd_file d) + length (gd_stored (pending_msg gm)) < 2 ^ 63"
  shows "case mv of
      Save gm ch \<Rightarrow> unsent d' (gms @ [gm])
    | Round st \<Rightarrow> \<exists>xs gms'. gms = xs @ gms' \<and> flush_sends cf gms st xs \<and> unsent d' gms'
    | _ \<Rightarrow> unsent d' gms"
proof -
  obtain all k where ok: "queue_ok all k d" "gms = drop k all" using assms(1) by (auto simp: unsent_def)
  have k: "k \<le> length all" "gd_file d = pending_file all" using ok(1) by (simp_all add: queue_ok_def)
  show ?thesis
  proof (cases mv)
    case (Save gm ch)
    have "length (pending_file (all @ [gm])) < 2 ^ 63"
      using fits [OF Save] k(2) by (simp add: pending_file_def)
    from save_ok [OF ok(1) _ this, of ch] fits [OF Save] Save assms(2) k ok(2) show ?thesis
      by (auto simp: deliver_move_def unsent_def intro!: exI [of _ "all @ [gm]"] exI [of _ k])
  next
    case (Answer i)
    then have "queue_ok all k d'"
      using assms(2) ok(1) by (auto simp: deliver_move_def RemoveCallback_def queue_ok_def split: option.splits)
    then show ?thesis using Answer ok(2) by (auto simp: unsent_def)
  next
    case (Round st)
    then obtain st' where "flushPendingMessage cf d st = Ret (d', st')"
      using assms(2) by (auto simp: deliver_move_def)
    from flush_queue [OF ok(1) this] show ?thesis using Round ok(2) by (auto simp: unsent_def)
  next
    case Elsewhere
    then show ?thesis using assms by (simp add: deliver_move_def)
  qed
qed

lemma gm_records_inj:
  assumes "\<forall>gm \<in> set gms. gm_ok gm" "\<forall>gm \<in> set gms'. gm_ok gm" "gm_records gms = gm_records gms'"
  shows "gms = gms'"
  using assms
proof (induction gms arbitrary: gms')
  case Nil
  have "gd_stored m \<noteq> []" for m using length_gd_stored [of m] by auto
  then show ?case using Nil.prems(3) by (cases gms') auto
next
  case (Cons gm gms)
  have "gd_stored m \<noteq> []" for m using length_gd_stored [of m] by auto
  then obtain gm' gs' where gms': "gms' = gm' # gs'" using Cons.prems(3) by (cases gms') auto
  have "gd_ReadMessage (gm_records (gm # gms)) = Ret (Some (pending_msg gm), gm_records gms)"
    "gd_ReadMessage (gm_records gms') = Ret (Some (pending_msg gm'), gm_records gs')"
    using Cons.prems(1,2) gd_ReadMessage_stored by (simp_all add: gms')
  then have eq: "pending_msg gm = pending_msg gm'" "gm_records gms = gm_records gs'" using Cons.prems(3) by simp_all
  have "gms = gs'" using Cons.prems(1,2) eq(2) by (intro Cons.IH) (simp_all add: gms')
  then show ?case using eq(1) by (simp add: gms' pending_msg_def)
qed

lemma unsent_unique:
  assumes "unsent d gms" "unsent d gms'"
  shows "gms = gms'"
proof -
  obtain xs k where x: "queue_ok xs k d" "gms = drop k xs" using assms(1) by (auto simp: unsent_def)
  obtain ys j where y: "queue_ok ys j d" "gms' = drop j ys" using assms(2) by (auto simp: unsent_def)
  have q: "gd_file d = pending_file xs" "\<forall>gm \<in> set xs. gm_ok gm" "gd_latest_sended_msgid d = mark xs k" "k \<le> length xs"
    "gd_file d = pending_file ys" "\<forall>gm \<in> set ys. gm_ok gm" "gd_latest_sended_msgid d = mark ys j" "j \<le> length ys"
    using x(1) y(1) unfolding queue_ok_def by blast+
  have "gm_records xs = gm_records ys" using q(1,5) by (simp add: pending_file_def)
  from gm_records_inj [OF q(2,6) this] have eq: "xs = ys" .
  have marks: "mark xs k = mark xs j" "k \<le> length xs" "j \<le> length xs" using q by (simp_all add: eq)
  have "sint (mark xs a) < sint (mark xs b)" if "a < b" "b \<le> length xs" for a b
  proof (cases "a = 0")
    case True
    then show ?thesis using that pos_at_bounds(1) [OF x(1), of "b - 1"] sint_mark [OF x(1)] by simp
  next
    case False
    then show ?thesis using that pos_at_less [of "a - 1" "b - 1" xs] sint_mark [OF x(1)] by simp
  qed
  with marks have "k = j" by (metis linorder_neqE_nat less_irrefl)
  then show ?thesis by (simp add: x y eq)
qed

text \<open>What is sent at time \<open>s\<close>.\<close>

definition sends_at :: "im_config \<Rightarrow> (nat \<Rightarrow> 'c move) \<Rightarrow> (nat \<Rightarrow> deliver) \<Rightarrow> nat \<Rightarrow> pending_group_message list \<Rightarrow> bool" where
  "sends_at cf mv d s xs =
     (case mv s of
        Round st \<Rightarrow> \<exists>gms. unsent (d s) (xs @ gms) \<and> unsent (d (Suc s)) gms \<and> flush_sends cf (xs @ gms) st xs
      | _ \<Rightarrow> xs = [])"

text \<open>A round in which the storage servers answer.\<close>

definition answered_round :: "im_config \<Rightarrow> (nat \<Rightarrow> 'c move) \<Rightarrow> (nat \<Rightarrow> deliver) \<Rightarrow> nat \<Rightarrow> bool" where
  "answered_round cf mv d s \<longleftrightarrow> (\<exists>st gms. mv s = Round st \<and> unsent (d s) gms \<and> answering cf gms st)"

lemma answered_sends_all:
  assumes "answered_round cf mv d s" "sends_at cf mv d s xs" "unsent (d s) gms" "unsent (d (Suc s)) gms'"
  shows "xs = gms \<and> gms' = []"
proof -
  obtain st q where st: "mv s = Round st" "unsent (d s) q" "answering cf q st"
    using assms(1) by (auto simp: answered_round_def)
  obtain rest where r: "unsent (d s) (xs @ rest)" "unsent (d (Suc s)) rest" "flush_sends cf (xs @ rest) st xs"
    using assms(2) st(1) by (auto simp: sends_at_def)
  have q: "q = xs @ rest" "gms = xs @ rest" "gms' = rest"
    using st(2) r(1,2) assms(3,4) by (auto intro: unsent_unique)
  then have "xs = xs @ rest" using flush_sends_all [OF r(3)] st(3) by simp
  then show ?thesis using q by simp
qed

lemma trace_step:
  assumes "deliver_trace cf mv d" "unsent (d s) gms"
  obtains xs rest saved where "sends_at cf mv d s xs" "unsent (d (Suc s)) (rest @ saved)" "gms = xs @ rest"
    "saved = (case mv s of Save gm ch \<Rightarrow> [gm] | _ \<Rightarrow> [])"
proof -
  have m: "deliver_move cf (mv s) (d s) = Ret (d (Suc s))"
    "\<And>gm ch. mv s = Save gm ch \<Longrightarrow> gm_ok gm \<and> length (gd_file (d s)) + length (gd_stored (pending_msg gm)) < 2 ^ 63"
    using assms(1) unfolding deliver_trace_def by blast+
  note step = move_unsent [OF assms(2) m]
  show ?thesis
  proof (cases "mv s")
    case (Round st)
    then obtain xs rest where "gms = xs @ rest" "flush_sends cf gms st xs" "unsent (d (Suc s)) rest" using step by auto
    then show ?thesis using that [of xs rest "[]"] assms(2) Round by (auto simp: sends_at_def)
  qed (use step that [of "[]" gms] in \<open>auto simp: sends_at_def\<close>)
qed

lemma trace_unsent:
  assumes "deliver_trace cf mv d"
  shows "\<exists>gms. unsent (d s) gms"
proof (induction s)
  case 0
  then show ?case using assms by (auto simp: deliver_trace_def unsent_def)
next
  case (Suc s)
  then show ?case using trace_step [OF assms] by metis
qed

text \<open>What was sent since \<open>t\<close> and what is still in the queue.\<close>

lemma trace_sends:
  assumes tr: "deliver_trace cf mv d" and t: "unsent (d (Suc t)) gms"
  shows "\<exists>xs q more. (\<forall>s. t < s \<and> s \<le> t + n \<longrightarrow> sends_at cf mv d s (xs s)) \<and> unsent (d (Suc (t + n))) q
    \<and> concat (map xs [Suc t ..< Suc (t + n)]) @ q = gms @ more"
proof (induction n)
  case 0
  then show ?case using t by auto
next
  case (Suc n)
  let ?s = "Suc (t + n)"
  obtain xs q more where xs: "\<forall>s. t < s \<and> s \<le> t + n \<longrightarrow> sends_at cf mv d s (xs s)" "unsent (d ?s) q"
    "concat (map xs [Suc t ..< ?s]) @ q = gms @ more" using Suc by blast
  obtain x rest saved where x: "sends_at cf mv d ?s x" "unsent (d (Suc ?s)) (rest @ saved)" "q = x @ rest"
    using trace_step [OF tr xs(2)] by metis
  let ?xs = "xs(?s := x)"
  have "map ?xs [Suc t ..< ?s] = map xs [Suc t ..< ?s]" by simp
  then have "concat (map ?xs [Suc t ..< Suc ?s]) @ rest @ saved = gms @ more @ saved"
    using xs(3) by (simp add: x(3))
  moreover have "\<forall>s. t < s \<and> s \<le> ?s \<longrightarrow> sends_at cf mv d s (?xs s)"
    using xs(1) x(1) by (auto simp: le_Suc_eq)
  ultimately show ?case
    using x(2) unfolding add_Suc_right append_assoc
    by (intro exI [of _ ?xs] exI [of _ "rest @ saved"] exI [of _ "more @ saved"] conjI)
qed

end
