(* ===== verification/DeliverProperties.thy ===== *)
theory DeliverProperties
  imports DeliverLiveness SmallServer
begin

text \<open>
  The properties of the group message deliverer: it sends the pending messages in order, it survives
  restarts, and what a crash during the truncation of its file does.
\<close>

section \<open>Sending in order\<close>


definition lonely :: pending_group_message where
  "lonely = \<lparr>pg_Appid = 7, pg_Sender = 1, pg_DeviceID = 0, pg_Gid = 9, pg_Timestamp = 0, pg_Members = [], pg_Content = []\<rparr>"




lemma start_empty:
  obtains d where "NewGroupMessageDeliver [] [] = Ret d" "queue_ok [] 0 d" "gd_callbacks d = Map.empty"
    "gd_chans d = (\<lambda>_. None)" "gd_wt d = []" "gd_file d = file_header"
  by (simp add: NewGroupMessageDeliver_def gd_openWriteFile_def gd_openCursorFile_def
      gd_readLatestMessageID_def queue_ok_def pending_file_def mark_def Let_def)









section \<open>Every message is sent\<close>




section \<open>Truncation\<close>

text \<open>What is on disk when the process dies after \<open>Truncate\<close> and before \<open>saveCursor\<close>.\<close>

definition truncated :: "deliver \<Rightarrow> bytes \<times> bytes" where
  "truncated d = (take 32 (gd_file d), gd_cursor_file d)"

definition save_list :: "pending_group_message list \<Rightarrow> deliver \<Rightarrow> deliver" where
  "save_list gms d = foldl (\<lambda>d gm. snd (gd_SaveMessage (pending_msg gm) None d)) d gms"

lemma save_list_simps:
  "gd_latest_sended_msgid (save_list gms d) = gd_latest_sended_msgid d"
  "gd_file (save_list gms d) = gd_file d @ gm_records gms"
  "gd_latest_msgid (save_list gms d) = (if gms = [] then gd_latest_msgid d
    else word_of_nat (length (gd_file d @ gm_records (butlast gms))))"
proof (induction gms rule: rev_induct)
  case (snoc gm gms)
  {
    case 1
    then show ?case using snoc by (simp add: save_list_def gd_SaveMessage_def gd_saveMessage_def Let_def)
  next
    case 2
    then show ?case using snoc by (simp add: save_list_def gd_SaveMessage_def gd_saveMessage_def Let_def)
  next
    case 3
    then show ?case
      using snoc(2) by (simp add: save_list_def gd_SaveMessage_def gd_saveMessage_def Let_def)
  }
qed (simp_all add: save_list_def)

text \<open>
  C40: a file that has grown past 128 megabytes is truncated once all its messages are sent, which gives
  an empty queue; but a crash between the truncation and the write of the cursor leaves a cursor past the
  end of the file: after the restart no message is sent until the file has grown past the old cursor again.
\<close>

theorem truncation_crash:
  assumes "queue_ok gms (length gms) d" and "gms \<noteq> []"
    and "GD_FILE_LIMIT < pos_at gms (length gms - 1)"
    and "32 + int (length (gm_records new)) \<le> pos_at gms (length gms - 1)"
  shows "queue_ok [] 0 (ClearCallback (truncateFile d))
    \<and> (\<exists>d0. NewGroupMessageDeliver (fst (truncated d)) (snd (truncated d)) = Ret d0
      \<and> flushPendingMessage cf (save_list new d0) st = Ret (save_list new d0, st))"
proof -
  have f: "take 32 (gd_file d) = file_header"
    using assms(1) by (simp add: queue_ok_def pending_file_def)
  obtain rest where rest: "gd_cursor_file d = binWrite (mark gms (length gms)) @ rest"
    using assms(1) by (auto simp: queue_ok_def)
  have "queue_ok [] 0 (ClearCallback (truncateFile d))" by (rule truncate_ok [OF assms(1)])
  obtain d0 where d0: "NewGroupMessageDeliver (fst (truncated d)) (snd (truncated d)) = Ret d0"
    "gd_file d0 = file_header" "gd_latest_msgid d0 = 0" "gd_latest_sended_msgid d0 = mark gms (length gms)"
    by (simp add: truncated_def f rest NewGroupMessageDeliver_def gd_openWriteFile_def gd_openCursorFile_def
        gd_readLatestMessageID_def Let_def)
  have cursor: "sint (mark gms (length gms)) = pos_at gms (length gms - 1)"
    using sint_mark [OF assms(1)] assms(2) by simp
  have bound: "pos_at gms (length gms - 1) < 2 ^ 63" by (rule pos_at_bounds(2) [OF assms(1)])
  have "sint (gd_latest_msgid (save_list new d0)) \<le> pos_at gms (length gms - 1)"
  proof (cases "new = []")
    case True
    then show ?thesis using assms(3) d0 by (simp add: save_list_simps)
  next
    case False
    have "length (gm_records (butlast new)) \<le> length (gm_records new)"
      using False by (cases new rule: rev_cases) simp_all
    then have "int (length (file_header @ gm_records (butlast new))) \<le> pos_at gms (length gms - 1)"
      using assms(4) by simp
    moreover have "sint (word_of_nat (length (file_header @ gm_records (butlast new))) :: int64)
        = int (length (file_header @ gm_records (butlast new)))"
      using calculation bound by (intro sint_small) simp
    ultimately show ?thesis using False d0 by (simp add: save_list_simps)
  qed
  then have "flushPendingMessage cf (save_list new d0) st = Ret (save_list new d0, st)"
    using d0 cursor by (simp add: flushPendingMessage_def save_list_simps)
  with d0(1) \<open>queue_ok [] 0 (ClearCallback (truncateFile d))\<close> show ?thesis by blast
qed

text \<open>A file of 200 messages of a million bytes each, and one message after the crash.\<close>

theorem truncation_crash_witness:
  "\<exists>gms d d0. queue_ok gms (length gms) d \<and> length gms = 200
    \<and> NewGroupMessageDeliver (fst (truncated d)) (snd (truncated d)) = Ret d0
    \<and> flushPendingMessage small_config (save_list [lonely] d0) (small_im :: unit im) = Ret (save_list [lonely] d0, small_im)"
proof -
  define gm where "gm = lonely\<lparr>pg_Content := replicate 1000000 0\<rparr>"
  let ?gms = "replicate 200 gm"
  have data: "length (pg_ToData gm) = 1000038"
    by (simp add: gm_def lonely_def pg_ToData_def write_int64s_def)
  have ok: "gm_ok gm" using data by (simp add: gm_ok_def gm_def lonely_def)
  have len: "length (gm_records (replicate n gm)) = n * 1000066" for n
    by (induction n) (simp_all add: length_gd_stored data)
  obtain d1 where d1: "NewGroupMessageDeliver [] [] = Ret d1" by (rule start_empty)
  define d where "d = d1\<lparr>gd_file := pending_file ?gms, gd_latest_msgid := mark ?gms 200,
    gd_latest_sended_msgid := mark ?gms 200, gd_cursor_file := binWrite (mark ?gms 200)\<rparr>"
  have q: "queue_ok ?gms (length ?gms) d"
    using ok len [of 200] by (simp add: queue_ok_def d_def pending_file_def)
  have pos: "pos_at ?gms (length ?gms - 1) = 32 + 199 * 1000066" using len [of 199] by (simp add: pos_at_eq)
  have new: "length (gm_records [lonely]) = 66"
    by (simp add: length_gd_stored lonely_def pg_ToData_def write_int64s_def)
  have "?gms \<noteq> []" "GD_FILE_LIMIT < pos_at ?gms (length ?gms - 1)"
    "32 + int (length (gm_records [lonely])) \<le> pos_at ?gms (length ?gms - 1)"
    unfolding pos new by simp_all
  from truncation_crash [OF q this, of small_config small_im] q show ?thesis by fastforce
qed

end
