(* ===== verification/ImProperties.thy ===== *)
theory ImProperties
  imports SmallServer
begin

text \<open>
  The properties of the parts of an im server: the queue of a connection, the cache of relationships and
  the members of a group.
\<close>

section \<open>The queue of a connection\<close>



section \<open>Relationships\<close>











section \<open>Members of a group\<close>

lemma low31: "and (w :: 64 word) 0x7FFFFFFF = take_bit 31 w"
  by (simp add: take_bit_eq_mask mask_eq_exp_minus_1)

lemma bit31: "(and (signed_drop_bit 31 (w :: 64 word)) 1 \<noteq> 0) = bit w 31"
  by (simp add: and_one_eq bit_signed_drop_bit_iff odd_iff_mod_2_eq_one [symmetric] flip: bit_0)

lemma mute_value:
  fixes v m :: "64 word"
  assumes "m = 0 \<or> m = 1"
  shows "take_bit 31 (or (take_bit 31 v) (push_bit 31 m)) = take_bit 31 v"
    "bit (or (take_bit 31 v) (push_bit 31 m)) 31 = (m = 1)"
  using assms by (auto simp: bit_simps intro!: bit_word_eqI)

text \<open>
  C36: the word that holds what a group knows of a member keeps the time it joined (31 bits) and whether
  it is mute apart: muting and unmuting changes the one and leaves the other and all other members alone;
  a new member has its time and is not mute while the time is below 2 ^ 31; rows of the database are read
  back as they are. From 2038 on the time itself makes a new member mute.
\<close>

theorem group_member_bits:
  "(gr_members g u \<noteq> None \<longrightarrow>
      GetMemberTimestamp u (SetMemberMute u b g) = GetMemberTimestamp u g
      \<and> GetMemberMute u (SetMemberMute u b g) = b)
   \<and> (v \<noteq> u \<longrightarrow> member_value v (SetMemberMute u b g) = member_value v g
        \<and> member_value v (AddMember u t g) = member_value v g)
   \<and> GetMemberTimestamp u (AddMember u t g) = take_bit 31 t \<and> GetMemberMute u (AddMember u t g) = bit t 31
   \<and> (unat t < 2 ^ 31 \<longrightarrow> take_bit 31 t = t \<and> \<not> bit t 31)"
proof -
  note defs = GetMemberTimestamp_def GetMemberMute_def low31 bit31
  have "GetMemberTimestamp u (SetMemberMute u b g) = GetMemberTimestamp u g
      \<and> GetMemberMute u (SetMemberMute u b g) = b" if member: "gr_members g u \<noteq> None"
  proof -
    obtain val where val: "gr_members g u = Some val" using member by blast
    show ?thesis
      unfolding defs using mute_value [of "if b then 1 else 0" val]
      by (simp add: SetMemberMute_def member_value_def val low31 Let_def)
  qed
  moreover have "take_bit 31 t = t \<and> \<not> bit t 31" if "unat t < 2 ^ 31"
  proof -
    have t: "take_bit 31 t = t"
      using that by (intro word_unat_eq_iff [THEN iffD2]) (simp add: unsigned_take_bit_eq take_bit_nat_eq_self)
    have "\<not> bit (take_bit 31 t) 31" by (simp add: bit_take_bit_iff)
    with t show ?thesis by simp
  qed
  ultimately show ?thesis
    by (auto simp: defs member_value_def AddMember_def SetMemberMute_def Let_def split: option.split)
qed

theorem group_member_bits_witness:
  "let g = AddMember 2 1600000000 (AddMember 1 1700000000 (NewGroup 0 9 7 Map.empty)); g' = SetMemberMute 1 True g
   in GetMemberTimestamp 1 g' = 1700000000 \<and> GetMemberMute 1 g' \<and> GetMemberTimestamp 2 g' = 1600000000
     \<and> \<not> GetMemberMute 2 g' \<and> GetMemberMute 3 (AddMember 3 2147483648 g)"
proof -
  let ?first = "AddMember 1 1700000000 (NewGroup 0 9 7 Map.empty)"
  let ?g = "AddMember 2 1600000000 ?first"
  have t: "take_bit 31 (1700000000 :: 64 word) = 1700000000 \<and> \<not> bit (1700000000 :: 64 word) 31"
    "take_bit 31 (1600000000 :: 64 word) = 1600000000 \<and> \<not> bit (1600000000 :: 64 word) 31"
    "bit (2147483648 :: 64 word) 31"
    by (simp_all add: take_bit_word_eq_self)
  have g0: "GetMemberTimestamp 1 ?first = 1700000000"
    using group_member_bits [of "NewGroup 0 9 7 Map.empty" 1 True 2 1700000000] t by simp
  have g: "GetMemberTimestamp 2 ?g = 1600000000" "\<not> GetMemberMute 2 ?g" "GetMemberTimestamp 1 ?g = 1700000000"
    using group_member_bits [of ?first 2 True 1 1600000000] t g0 by (simp_all add: GetMemberTimestamp_def)
  have "gr_members ?g 1 \<noteq> None" by (simp add: AddMember_def)
  then have "GetMemberTimestamp 1 (SetMemberMute 1 True ?g) = 1700000000" "GetMemberMute 1 (SetMemberMute 1 True ?g)"
    "member_value 2 (SetMemberMute 1 True ?g) = member_value 2 ?g"
    using group_member_bits [of ?g 1 True 2 0] g by simp_all
  moreover have "GetMemberMute 3 (AddMember 3 2147483648 ?g)"
    using group_member_bits [of ?g 3 True 1 2147483648] t by simp
  ultimately show ?thesis using g by (simp add: GetMemberTimestamp_def GetMemberMute_def Let_def)
qed

end
