(* ===== verification/Text.thy ===== *)
theory Text
  imports Prelude
begin

text \<open>
  What the program uses of Go's \<^verbatim>\<open>strconv\<close>, \<^verbatim>\<open>strings\<close> and \<^verbatim>\<open>fmt\<close>: numbers in decimal and
  lists with a separator. The texts are those of redis, of HTTP parameters and of configuration files.
\<close>

section \<open>Numbers\<close>

definition digit_char :: "nat \<Rightarrow> char" where
  "digit_char n = char_of (48 + n)"

fun nat_digits :: "nat \<Rightarrow> string" where
  "nat_digits n = (if n < 10 then [digit_char n] else nat_digits (n div 10) @ [digit_char (n mod 10)])"

declare nat_digits.simps [simp del]

text \<open>The verb \<^verbatim>\<open>%d\<close> of \<^verbatim>\<open>fmt.Sprintf\<close>.\<close>

definition format_int :: "int \<Rightarrow> string" where
  "format_int i = (if i < 0 then CHR ''-'' # nat_digits (nat (- i)) else nat_digits (nat i))"

definition digit_value :: "char \<Rightarrow> nat option" where
  "digit_value c = (let n = of_char c :: nat in if 48 \<le> n \<and> n \<le> 57 then Some (n - 48) else None)"

fun parse_digits :: "nat \<Rightarrow> string \<Rightarrow> nat option" where
  "parse_digits acc [] = Some acc"
| "parse_digits acc (c # cs) =
     (case digit_value c of None \<Rightarrow> None | Some d \<Rightarrow> parse_digits (10 * acc + d) cs)"

text \<open>\<open>strconv.ParseInt(s, 10, bits)\<close>; \<open>None\<close> is an error, after which the callers use no value.\<close>

definition ParseInt :: "nat \<Rightarrow> string \<Rightarrow> int option" where
  "ParseInt bits s =
     (let (neg, ds) = (case s of
            [] \<Rightarrow> (False, [])
          | c # cs \<Rightarrow> if c = CHR ''-'' then (True, cs) else if c = CHR ''+'' then (False, cs) else (False, s))
      in if ds = [] then None
         else case parse_digits 0 ds of
                None \<Rightarrow> None
              | Some n \<Rightarrow>
                  if \<not> neg \<and> n \<ge> 2 ^ (bits - 1) then None
                  else if neg \<and> n > 2 ^ (bits - 1) then None
                  else Some (if neg then - int n else int n))"

definition ParseInt64 :: "string \<Rightarrow> int64 option" where
  "ParseInt64 s = map_option word_of_int (ParseInt 64 s)"

definition format_int64 :: "int64 \<Rightarrow> string" where
  "format_int64 w = format_int (sint w)"

lemma digit_value_char [simp]: "n < 10 \<Longrightarrow> digit_value (digit_char n) = Some n"
  by (simp add: digit_value_def digit_char_def)

lemma digit_char_inj: "m < 10 \<Longrightarrow> n < 10 \<Longrightarrow> digit_char m = digit_char n \<longleftrightarrow> m = n"
  by (metis digit_value_char option.inject)

lemma parse_digits_append:
  "parse_digits acc (xs @ ys) = (case parse_digits acc xs of None \<Rightarrow> None | Some n \<Rightarrow> parse_digits n ys)"
  by (induction xs arbitrary: acc) (auto split: option.split)

lemma parse_nat_digits: "parse_digits 0 (nat_digits n) = Some n"
proof (induction n rule: nat_digits.induct)
  case (1 n)
  then show ?case
    by (subst nat_digits.simps) (simp add: parse_digits_append)
qed

lemma nat_digits_set: "set (nat_digits n) \<subseteq> digit_char ` {..< 10}"
proof (induction n rule: nat_digits.induct)
  case (1 n)
  then show ?case by (subst nat_digits.simps) auto
qed

lemma digit_char_neq:
  assumes "n < 10"
  shows "digit_char n \<noteq> CHR ''-''" "digit_char n \<noteq> CHR ''+''" "digit_char n \<noteq> CHR ''_''" "digit_char n \<noteq> CHR '':''"
proof -
  have "digit_value (digit_char n) \<noteq> None" using assms by simp
  moreover have "digit_value (CHR ''-'') = None" "digit_value (CHR ''+'') = None" "digit_value (CHR ''_'') = None"
    "digit_value (CHR '':'') = None" by (simp_all add: digit_value_def)
  ultimately show "digit_char n \<noteq> CHR ''-''" "digit_char n \<noteq> CHR ''+''" "digit_char n \<noteq> CHR ''_''" "digit_char n \<noteq> CHR '':''"
    by metis+
qed

lemma nat_digits_Cons: "\<exists>d ds. d < 10 \<and> nat_digits n = digit_char d # ds"
proof (induction n rule: nat_digits.induct)
  case (1 n)
  show ?case
  proof (cases "n < 10")
    case True
    then show ?thesis by (subst nat_digits.simps) auto
  next
    case False
    then obtain d ds where "d < 10" "nat_digits (n div 10) = digit_char d # ds" using 1 by blast
    then show ?thesis using False by (subst nat_digits.simps) (auto intro!: exI [of _ d])
  qed
qed

lemma ParseInt_format:
  assumes "- (2 ^ (bits - 1)) \<le> i" "i < 2 ^ (bits - 1)"
  shows "ParseInt bits (format_int i) = Some i"
proof -
  obtain d ds where d: "d < 10" "nat_digits (nat i) = digit_char d # ds" using nat_digits_Cons by blast
  have "nat_digits (nat (- i)) \<noteq> []" using nat_digits_Cons [of "nat (- i)"] by auto
  moreover have "nat i < 2 ^ (bits - 1)" if "0 \<le> i" using assms(2) that by (simp add: nat_less_iff)
  moreover have "nat (- i) \<le> 2 ^ (bits - 1)" using assms(1) by (simp add: nat_le_iff)
  ultimately show ?thesis
    using d(1) digit_char_neq [OF d(1)] parse_nat_digits [of "nat i"]
    by (auto simp: ParseInt_def format_int_def Let_def parse_nat_digits d(2) split: list.split)
qed

lemma ParseInt64_format [simp]: "ParseInt64 (format_int64 w) = Some w"
  using ParseInt_format [of 64 "sint w"] sint_greater_eq [of w] sint_lt [of w]
  by (simp add: ParseInt64_def format_int64_def)

lemma ParseInt64_Nil [simp]: "ParseInt64 [] = None"
  by (simp add: ParseInt64_def ParseInt_def)

lemma format_int_chars: "CHR ''_'' \<notin> set (format_int i)" "CHR '':'' \<notin> set (format_int i)"
proof -
  have digit: "\<exists>d < 10. c = digit_char d" if "c \<in> set (nat_digits n)" for c n
    using subsetD [OF nat_digits_set that] by auto
  have "CHR ''_'' \<notin> set (nat_digits n)" "CHR '':'' \<notin> set (nat_digits n)" for n
    using digit [of "CHR ''_''" n] digit [of "CHR '':''" n] digit_char_neq(3,4) by force+
  then show "CHR ''_'' \<notin> set (format_int i)" "CHR '':'' \<notin> set (format_int i)"
    by (auto simp: format_int_def)
qed

lemma format_int64_chars [simp]:
  "CHR ''_'' \<notin> set (format_int64 w)" "CHR '':'' \<notin> set (format_int64 w)"
  by (simp_all add: format_int64_def format_int_chars)

lemma format_int64_inj [simp]: "format_int64 v = format_int64 w \<longleftrightarrow> v = w"
  by (metis ParseInt64_format option.inject)

section \<open>Lists with a separator\<close>

text \<open>\<open>strings.Split\<close> with a separator of one byte.\<close>

fun Split :: "char \<Rightarrow> string \<Rightarrow> string list" where
  "Split c [] = [[]]"
| "Split c (x # xs) =
     (if x = c then [] # Split c xs
      else case Split c xs of [] \<Rightarrow> [[x]] | w # ws \<Rightarrow> (x # w) # ws)"

lemma Split_not_Nil [simp]: "Split c s \<noteq> []"
  by (induction s) (auto split: list.split)

lemma Split_none [simp]: "c \<notin> set s \<Longrightarrow> Split c s = [s]"
  by (induction s) auto

lemma Split_append [simp]: "c \<notin> set a \<Longrightarrow> Split c (a @ c # b) = a # Split c b"
  by (induction a) auto

text \<open>The texts of \<^verbatim>\<open>Split\<close> are the ones that \<open>Join\<close> puts together.\<close>

lemma Split_concat: "concat (map (\<lambda>w. c # w) (Split c s)) = c # s"
proof (induction s)
  case (Cons x xs)
  then show ?case by (cases "Split c xs") auto
qed simp

end
