(* ===== verification/HttpBase.thy ===== *)
theory HttpBase
  imports Text
begin

text \<open>
  HTTP as \<^verbatim>\<open>im/rpc.go\<close> and \<^verbatim>\<open>imr/rpc.go\<close> use it: a request with its query and
  its body, the JSON object a body holds, a reply, and the two functions that write a reply, which
  both programs have a copy of.
\<close>

section \<open>JSON\<close>

text \<open>
  What \<open>json.Marshal\<close> is given. The pairs of an object are listed in the order of their keys, as
  \<open>Marshal\<close> writes a map.
\<close>

datatype json =
    JInt int
  | JBool bool
  | JStr bytes
  | JList "json list"
  | JObj "(string \<times> json) list"

definition text_bytes :: "string \<Rightarrow> bytes" where
  "text_bytes = map of_char"

text \<open>
  An object read by \<^verbatim>\<open>simplejson\<close>: the values its accessors return for a key, \<open>None\<close> an error.
  \<open>js_Array\<close> is \<open>None\<close> for an error too; its elements are numbers, whose conversion to \<open>int64\<close> may fail,
  or other values.
\<close>

datatype json_element = JNumber "int64 option" | JOther

record json_object =
  js_Int64 :: "string \<Rightarrow> int64 option"
  js_String :: "string \<Rightarrow> bytes option"
  js_Bool :: "string \<Rightarrow> bool option"
  js_has :: "string \<Rightarrow> bool"
  js_Array :: "string \<Rightarrow> json_element list option"

section \<open>Requests and replies\<close>

text \<open>
  \<open>rq_query\<close> is \<open>url.Values.Get\<close> on the parsed query: the empty string for a parameter that is missing.
  \<open>rq_body\<close> is the result of reading the body, an error as its text. \<open>rq_json\<close> is
  \<open>simplejson.NewJson\<close> of the body.
\<close>

record request =
  rq_query :: "string \<Rightarrow> string"
  rq_body :: "string + bytes"
  rq_json :: "json_object option"

text \<open>A handler that writes nothing leaves the status 200 and an empty body.\<close>

record reply =
  rp_status :: nat
  rp_json :: "json option"

definition Nothing_written :: reply where
  "Nothing_written = \<lparr>rp_status = 200, rp_json = None\<rparr>"

definition http_WriteHeader :: "nat \<Rightarrow> reply" where
  "http_WriteHeader status = \<lparr>rp_status = status, rp_json = None\<rparr>"

definition Write_json :: "json \<Rightarrow> reply" where
  "Write_json j = \<lparr>rp_status = 200, rp_json = Some j\<rparr>"

definition WriteHttpError :: "nat \<Rightarrow> string \<Rightarrow> reply" where
  "WriteHttpError status err =
     \<lparr>rp_status = status,
      rp_json = Some (JObj [(''meta'', JObj [(''code'', JInt (int status)), (''message'', JStr (text_bytes err))])])\<rparr>"

definition WriteHttpObj :: "json \<Rightarrow> reply" where
  "WriteHttpObj data = Write_json (JObj [(''data'', data)])"

section \<open>Arguments\<close>

text \<open>An argument that cannot be read ends the handler with the reply \<open>e\<close>.\<close>

fun require :: "'a option \<Rightarrow> reply \<Rightarrow> 's \<Rightarrow> ('a \<Rightarrow> (reply \<times> 's) go) \<Rightarrow> (reply \<times> 's) go" where
  "require None e st f = Ret (e, st)"
| "require (Some x) e st f = f x"

definition query_int64 :: "request \<Rightarrow> string \<Rightarrow> int64 option" where
  "query_int64 rq k = ParseInt64 (rq_query rq k)"

definition invalid_param :: reply where
  "invalid_param = WriteHttpError 400 ''invalid param''"

definition invalid_query :: reply where
  "invalid_query = WriteHttpError 400 ''invalid query param''"

definition invalid_json :: reply where
  "invalid_json = WriteHttpError 400 ''invalid json format''"

fun read_body :: "request \<Rightarrow> 's \<Rightarrow> (bytes \<Rightarrow> (reply \<times> 's) go) \<Rightarrow> (reply \<times> 's) go" where
  "read_body rq st f = (case rq_body rq of Inl err \<Rightarrow> Ret (WriteHttpError 400 err, st) | Inr body \<Rightarrow> f body)"

lemma require_Ret_iff:
  "require x e st f = Ret (rp, st') \<longleftrightarrow>
     (x = None \<and> rp = e \<and> st' = st) \<or> (\<exists>y. x = Some y \<and> f y = Ret (rp, st'))"
  by (cases x) auto

end
