(* ===== verification/Http.thy ===== *)
theory Http
  imports HttpBase Client
begin

text \<open>
  \<^verbatim>\<open>im/rpc.go\<close>: the HTTP interface by which other programs send messages and read the history.
  A handler returns its reply and the state; the paths are those of \<open>StartHttpServer\<close> of
  \<^verbatim>\<open>im/im_server.go\<close>.
\<close>

section \<open>Sending\<close>

text \<open>\<open>members\<close> are the members in the order of \<open>range\<close>; the loop ends at the first failure.\<close>

fun notify_members :: "im_config \<Rightarrow> int64 \<Rightarrow> message \<Rightarrow> int64 list \<Rightarrow> 'c im \<Rightarrow> 'c im go" where
  "notify_members cf appid msg [] st = Ret st"
| "notify_members cf appid msg (member # ms) st =
     go_bind (im_SaveMessage cf appid member 0 msg st) (\<lambda>(r, st).
       case r of
         None \<Rightarrow> Ret st
       | Some ids \<Rightarrow>
           go_bind (SendAppMessage cf appid member (notify_msg (fst ids)) st) (notify_members cf appid msg ms))"

definition group_notification :: "bytes \<Rightarrow> message" where
  "group_notification notification = Message MSG_GROUP_NOTIFICATION 0 0 0 (Some (BGroupNotification notification)) None"

definition SendGroupNotification ::
  "im_config \<Rightarrow> int64 \<Rightarrow> int64 \<Rightarrow> bytes \<Rightarrow> int64 list \<Rightarrow> 'c im \<Rightarrow> 'c im go"
where
  "SendGroupNotification cf appid gid notification members st =
     notify_members cf appid (group_notification notification) members st"

definition group_notify_msg :: "int64 \<Rightarrow> int64 \<Rightarrow> message" where
  "group_notify_msg gid msgid =
     Message MSG_SYNC_GROUP_NOTIFY 0 0 0 (Some (BGroupSyncKey \<lparr>gs_GroupId = gid, gs_SyncKey = msgid\<rparr>)) None"

definition SendSuperGroupNotification ::
  "im_config \<Rightarrow> int64 \<Rightarrow> int64 \<Rightarrow> bytes \<Rightarrow> int64 list \<Rightarrow> 'c im \<Rightarrow> 'c im go"
where
  "SendSuperGroupNotification cf appid gid notification members st =
     go_bind (im_SaveGroupMessage cf appid gid 0 (group_notification notification) st) (\<lambda>(r, st).
       case r of
         None \<Rightarrow> Ret st
       | Some ids \<Rightarrow>
           go_fold (\<lambda>st member. SendAppMessage cf appid member (group_notify_msg gid (fst ids)) st) st members)"

text \<open>The deliverer that is asked for a group that is not super need not be the one that loaded the group.\<close>

definition http_pending :: "im_config \<Rightarrow> im_message \<Rightarrow> int64 \<Rightarrow> group \<Rightarrow> pending_group_message" where
  "http_pending cf im appid g =
     \<lparr>pg_Appid = appid, pg_Sender = im_Sender im, pg_DeviceID = 0, pg_Gid = im_Receiver im,
      pg_Timestamp = im_Timestamp im, pg_Members = members_of cf g, pg_Content = im_Content im\<rparr>"

definition SendGroupIMMessage :: "im_config \<Rightarrow> im_message \<Rightarrow> int64 \<Rightarrow> 'c server \<Rightarrow> 'c server go" where
  "SendGroupIMMessage cf im appid sv =
     (let m = Message MSG_GROUP_IM 0 DEFAULT_VERSION 0 (Some (BIM im)) None
      in go_bind (GetGroupMessageDeliver cf (im_Receiver im) sv) (\<lambda>(_, sv).
           let (group, sv) = on_im (gd_LoadGroup cf (im_Receiver im)) sv
           in case group of
                None \<Rightarrow> Ret sv
              | Some g \<Rightarrow>
                  if gr_super g then
                    on_im_go (\<lambda>st.
                      go_bind (im_SaveGroupMessage cf appid (im_Receiver im) 0 m st) (\<lambda>(r, st).
                        case r of
                          None \<Rightarrow> Ret st
                        | Some ids \<Rightarrow>
                            go_bind (PushGroupMessage cf appid (members_of cf g) m st)
                              (SendAppGroupMessage cf appid (gr_gid g) (members_of cf g)
                                (group_notify_msg (im_Receiver im) (fst ids))))) sv
                  else
                    go_map (\<lambda>(i, sv).
                        let m = Message MSG_PENDING_GROUP_MESSAGE 0 0 0
                              (Some (BPendingGroup (http_pending cf im appid g))) None
                        in sv\<lparr>sv_delivers := (sv_delivers sv)(i := snd (gd_SaveMessage m None (sv_delivers sv i)))\<rparr>)
                      (GetGroupMessageDeliver cf (gr_gid g) sv)))"

definition SendIMMessage :: "im_config \<Rightarrow> im_message \<Rightarrow> int64 \<Rightarrow> 'c im \<Rightarrow> 'c im go" where
  "SendIMMessage cf im appid st =
     (let m = Message MSG_IM 0 DEFAULT_VERSION 0 (Some (BIM im)) None
      in go_bind (im_SaveMessage cf appid (im_Receiver im) 0 m st) (\<lambda>(r, st).
           case r of None \<Rightarrow> Ret st | Some ids \<Rightarrow>
         go_bind (im_SaveMessage cf appid (im_Sender im) 0 m st) (\<lambda>(r2, st).
           case r2 of None \<Rightarrow> Ret st | Some ids2 \<Rightarrow>
         go_bind (PushMessage cf appid (im_Receiver im) m st) (\<lambda>st.
         go_bind (SendAppMessage cf appid (im_Receiver im) (notify_msg (fst ids)) st)
           (SendAppMessage cf appid (im_Sender im) (notify_msg (fst ids2)))))))"

section \<open>Handlers that send\<close>

text \<open>The numbers of an array of members; the first one that is no \<open>int64\<close> ends the request.\<close>

fun json_members :: "json_element list \<Rightarrow> int64 set \<Rightarrow> int64 set option" where
  "json_members [] s = Some s"
| "json_members (JOther # es) s = json_members es s"
| "json_members (JNumber None # es) s = None"
| "json_members (JNumber (Some m) # es) s = json_members es (IntSet_Add m s)"

text \<open>The set of members in the order of \<open>range\<close>; \<open>cf_order\<close> orders the keys of a map.\<close>

definition range_set :: "im_config \<Rightarrow> int64 set \<Rightarrow> int64 list" where
  "range_set cf s = cf_order cf (\<lambda>u. if u \<in> s then Some 0 else None)"

definition PostGroupNotification :: "im_config \<Rightarrow> request \<Rightarrow> 'c server \<Rightarrow> (reply \<times> 'c server) go" where
  "PostGroupNotification cf rq sv =
     read_body rq sv (\<lambda>_.
     require (rq_json rq) invalid_json sv (\<lambda>obj.
     require (js_Int64 obj ''appid'') invalid_json sv (\<lambda>appid.
     require (js_Int64 obj ''group_id'') invalid_json sv (\<lambda>group_id.
     require (js_String obj ''notification'') invalid_json sv (\<lambda>notification.
     require (if js_has obj ''super'' then js_Bool obj ''super'' else Some False) invalid_json sv (\<lambda>is_super.
     require (json_members (case js_Array obj ''members'' of None \<Rightarrow> [] | Some es \<Rightarrow> es) NewIntSet) invalid_json sv (\<lambda>members.
     go_bind (GetGroupMessageDeliver cf group_id sv) (\<lambda>(_, sv).
       let (group, sv) = on_im (gd_LoadGroup cf group_id) sv;
           members = (case group of None \<Rightarrow> members | Some g \<Rightarrow> members \<union> dom (gr_members g));
           is_super = (case group of None \<Rightarrow> is_super | Some g \<Rightarrow> gr_super g);
           ms = range_set cf members
       in if Set.is_empty members then Ret (WriteHttpError 400 ''group no member'', sv)
          else go_map (Pair (http_WriteHeader 200))
            (on_im_go (\<lambda>st. if is_super then SendSuperGroupNotification cf appid group_id notification ms st
                else SendGroupNotification cf appid group_id notification ms st) sv)))))))))"

text \<open>\<open>PostPeerMessage\<close> and \<open>PostGroupMessage\<close> read the same arguments.\<close>

definition post_args ::
  "request \<Rightarrow> (int32 \<Rightarrow> 's \<Rightarrow> int64 \<Rightarrow> im_message \<Rightarrow> (reply \<times> 's) go) \<Rightarrow> int32 \<Rightarrow> 's \<Rightarrow> (reply \<times> 's) go"
where
  "post_args rq f now sv =
     read_body rq sv (\<lambda>body.
     require (query_int64 rq ''appid'') invalid_param sv (\<lambda>appid.
     require (query_int64 rq ''sender'') invalid_param sv (\<lambda>sender.
     require (query_int64 rq ''receiver'') invalid_param sv (\<lambda>receiver.
       f now sv appid \<lparr>im_Sender = sender, im_Receiver = receiver, im_Timestamp = now, im_Msgid = 0, im_Content = body\<rparr>))))"

definition PostPeerMessage :: "im_config \<Rightarrow> request \<Rightarrow> 'c im \<Rightarrow> (reply \<times> 'c im) go" where
  "PostPeerMessage cf rq st =
     post_args rq (\<lambda>now st appid im. go_map (Pair (http_WriteHeader 200)) (SendIMMessage cf im appid st))
       (ucast (unix_now st)) st"

definition PostGroupMessage :: "im_config \<Rightarrow> request \<Rightarrow> 'c server \<Rightarrow> (reply \<times> 'c server) go" where
  "PostGroupMessage cf rq sv =
     post_args rq (\<lambda>now sv appid im. go_map (Pair (http_WriteHeader 200)) (SendGroupIMMessage cf im appid sv))
       (ucast (unix_now (sv_im sv))) sv"

definition SendNotification :: "im_config \<Rightarrow> request \<Rightarrow> 'c im \<Rightarrow> (reply \<times> 'c im) go" where
  "SendNotification cf rq st =
     read_body rq st (\<lambda>body.
     require (query_int64 rq ''appid'') invalid_query st (\<lambda>appid.
     require (query_int64 rq ''uid'') invalid_query st (\<lambda>uid.
       go_map (Pair (http_WriteHeader 200))
         (SendAppMessage cf appid uid (Message MSG_NOTIFICATION 0 0 0 (Some (BSystem body)) None) st))))"

definition internal_server_error :: reply where
  "internal_server_error = WriteHttpError 500 ''internal server error''"

definition SendSystemMessage :: "im_config \<Rightarrow> request \<Rightarrow> 'c im \<Rightarrow> (reply \<times> 'c im) go" where
  "SendSystemMessage cf rq st =
     read_body rq st (\<lambda>body.
     require (query_int64 rq ''appid'') invalid_query st (\<lambda>appid.
     require (query_int64 rq ''uid'') invalid_query st (\<lambda>uid.
       let msg = Message MSG_SYSTEM 0 0 0 (Some (BSystem body)) None
       in go_bind (im_SaveMessage cf appid uid 0 msg st) (\<lambda>(r, st).
          require r internal_server_error st (\<lambda>ids.
          go_bind (PushMessage cf appid uid msg st) (\<lambda>st.
          go_map (Pair (http_WriteHeader 200)) (SendAppMessage cf appid uid (notify_msg (fst ids)) st)))))))"

definition SendRoomMessage :: "im_config \<Rightarrow> request \<Rightarrow> 'c im \<Rightarrow> (reply \<times> 'c im) go" where
  "SendRoomMessage cf rq st =
     read_body rq st (\<lambda>body.
     require (query_int64 rq ''appid'') invalid_query st (\<lambda>appid.
     require (query_int64 rq ''uid'') invalid_query st (\<lambda>uid.
     require (query_int64 rq ''room'') invalid_query st (\<lambda>room_id.
       let msg = Message MSG_ROOM_IM 0 0 0
             (Some (BRoomMessage \<lparr>rt_Sender = uid, rt_Receiver = room_id, rt_Content = body\<rparr>)) None;
           st = snd (DispatchMessageToRoom msg room_id appid None st)
       in go_map (\<lambda>i. (http_WriteHeader 200, update_chan i (PublishRoom (BApp appid room_id 0 0 0 0 (Some msg))) st))
            (GetRoomChannel cf room_id)))))"

definition SendRealtimeMessage :: "im_config \<Rightarrow> request \<Rightarrow> 'c im \<Rightarrow> (reply \<times> 'c im) go" where
  "SendRealtimeMessage cf rq st =
     read_body rq st (\<lambda>body.
     require (query_int64 rq ''appid'') invalid_query st (\<lambda>appid.
     require (query_int64 rq ''sender'') invalid_query st (\<lambda>sender.
     require (query_int64 rq ''receiver'') invalid_query st (\<lambda>receiver.
       go_map (Pair (http_WriteHeader 200))
         (SendAppMessage cf appid receiver (Message MSG_RT 0 0 0
           (Some (BRT \<lparr>rt_Sender = sender, rt_Receiver = receiver, rt_Content = body\<rparr>)) None) st)))))"

section \<open>Customers\<close>

text \<open>
  \<open>SendCustomerMessage\<close> and \<open>SendCustomerSupportMessage\<close> read the same object and then do the same for
  the two parties, of whom the seller is notified first in both.
\<close>

definition customer_args :: "request \<Rightarrow> int32 \<Rightarrow> 's \<Rightarrow> (customer_message \<Rightarrow> (reply \<times> 's) go) \<Rightarrow> (reply \<times> 's) go" where
  "customer_args rq now st f =
     read_body rq st (\<lambda>_.
     require (rq_json rq) invalid_json st (\<lambda>obj.
     require (js_Int64 obj ''customer_appid'') invalid_json st (\<lambda>customer_appid.
     require (js_Int64 obj ''customer_id'') invalid_json st (\<lambda>customer_id.
     require (js_Int64 obj ''store_id'') invalid_json st (\<lambda>store_id.
     require (js_Int64 obj ''seller_id'') invalid_json st (\<lambda>seller_id.
     require (js_String obj ''content'') invalid_json st (\<lambda>content.
       f \<lparr>cs_CustomerAppid = customer_appid, cs_CustomerId = customer_id, cs_StoreId = store_id,
          cs_SellerId = seller_id, cs_Timestamp = now, cs_Content = content\<rparr>)))))))"

definition http_customer ::
  "im_config \<Rightarrow> message \<Rightarrow> int64 \<times> int64 \<Rightarrow> int64 \<times> int64
   \<Rightarrow> (int64 \<Rightarrow> int64 \<Rightarrow> 'c im \<Rightarrow> 'c im go) \<Rightarrow> reply \<Rightarrow> 'c im \<Rightarrow> (reply \<times> 'c im) go"
where
  "http_customer cf m receiver sender notify rp st =
     go_bind (im_SaveMessage cf (fst receiver) (snd receiver) 0 m st) (\<lambda>(r, st).
     require r internal_server_error st (\<lambda>ids.
     go_bind (im_SaveMessage cf (fst sender) (snd sender) 0 m st) (\<lambda>(r2, st).
     require r2 internal_server_error st (\<lambda>ids2.
     go_bind (PushMessage cf (fst receiver) (snd receiver) m st) (\<lambda>st.
       go_map (Pair rp) (notify (fst ids) (fst ids2) st))))))"

definition SendCustomerSupportMessage :: "im_config \<Rightarrow> request \<Rightarrow> 'c im \<Rightarrow> (reply \<times> 'c im) go" where
  "SendCustomerSupportMessage cf rq st =
     customer_args rq (ucast (unix_now st)) st (\<lambda>cm.
       http_customer cf (Message MSG_CUSTOMER_SUPPORT 0 0 0 (Some (BCustomer cm)) None)
         (cs_CustomerAppid cm, cs_CustomerId cm) (cf_kefu_appid cf, cs_SellerId cm)
         (\<lambda>msgid msgid2 st.
           go_bind (SendAppMessage cf (cf_kefu_appid cf) (cs_SellerId cm) (notify_msg msgid2) st)
             (SendAppMessage cf (cs_CustomerAppid cm) (cs_CustomerId cm) (notify_msg msgid)))
         (http_WriteHeader 200) st)"

definition SendCustomerMessage :: "im_config \<Rightarrow> request \<Rightarrow> 'c im \<Rightarrow> (reply \<times> 'c im) go" where
  "SendCustomerMessage cf rq st =
     customer_args rq (ucast (unix_now st)) st (\<lambda>cm.
       http_customer cf (Message MSG_CUSTOMER 0 0 0 (Some (BCustomer cm)) None)
         (cf_kefu_appid cf, cs_SellerId cm) (cs_CustomerAppid cm, cs_CustomerId cm)
         (\<lambda>msgid msgid2 st.
           go_bind (SendAppMessage cf (cf_kefu_appid cf) (cs_SellerId cm) (notify_msg msgid) st)
             (SendAppMessage cf (cs_CustomerAppid cm) (cs_CustomerId cm) (notify_msg msgid2)))
         (WriteHttpObj (JObj [(''seller_id'', JInt (sint (cs_SellerId cm)))])) st)"

section \<open>Handlers that read\<close>

text \<open>
  What the two history requests show of a message; a message of another command is left out, a body that
  is not of the command's type panics.
\<close>

definition im_json :: "im_message \<Rightarrow> go_int \<Rightarrow> int64 \<Rightarrow> json" where
  "im_json im cmd msgid = JObj
     [(''command'', JInt (sint cmd)), (''content'', JStr (im_Content im)), (''id'', JInt (sint msgid)),
      (''receiver'', JInt (sint (im_Receiver im))), (''sender'', JInt (sint (im_Sender im))),
      (''timestamp'', JInt (sint (im_Timestamp im)))]"

definition customer_json :: "customer_message \<Rightarrow> go_int \<Rightarrow> int64 \<Rightarrow> json" where
  "customer_json cm cmd msgid = JObj
     [(''command'', JInt (sint cmd)), (''content'', JStr (cs_Content cm)),
      (''customer_appid'', JInt (sint (cs_CustomerAppid cm))), (''customer_id'', JInt (sint (cs_CustomerId cm))),
      (''id'', JInt (sint msgid)), (''seller_id'', JInt (sint (cs_SellerId cm))),
      (''store_id'', JInt (sint (cs_StoreId cm))), (''timestamp'', JInt (sint (cs_Timestamp cm)))]"

definition history_json :: "int64 \<Rightarrow> message \<Rightarrow> json list go" where
  "history_json msgid m =
     (if Cmd m = MSG_IM \<or> Cmd m = MSG_GROUP_IM then
        (case Body m of Some (BIM im) \<Rightarrow> Ret [im_json im (Cmd m) msgid] | _ \<Rightarrow> Panic)
      else if Cmd m = MSG_CUSTOMER \<or> Cmd m = MSG_CUSTOMER_SUPPORT then
        (case Body m of Some (BCustomer cm) \<Rightarrow> Ret [customer_json cm (Cmd m) msgid] | _ \<Rightarrow> Panic)
      else Ret [])"

fun history_list :: "history_message list \<Rightarrow> json list go" where
  "history_list [] = Ret []"
| "history_list (h # hs) =
     go_bind (raw_message (hm_Cmd h) (hm_Raw h)) (\<lambda>m.
     go_bind (history_json (hm_MsgID h) m) (\<lambda>js. go_map (\<lambda>rest. js @ rest) (history_list hs)))"

text \<open>The loop of both handlers that reverses a list in place.\<close>

definition swap_ends :: "'a list \<Rightarrow> nat \<Rightarrow> 'a list" where
  "swap_ends xs i = xs[i := xs ! (length xs - i - 1), length xs - i - 1 := xs ! i]"

definition reverse_list :: "'a list \<Rightarrow> 'a list" where
  "reverse_list xs = foldl swap_ends xs [0 ..< length xs div 2]"

text \<open>
  \<open>LoadLatestMessage\<close> decodes the messages before it reverses them, \<open>LoadHistoryMessage\<close> afterwards, and
  it answers nothing when the storage server cannot be asked.
\<close>

definition LoadLatestMessage :: "im_config \<Rightarrow> request \<Rightarrow> 'c im \<Rightarrow> (reply \<times> 'c im) go" where
  "LoadLatestMessage cf rq st =
     require (query_int64 rq ''appid'') invalid_query st (\<lambda>appid.
     require (query_int64 rq ''uid'') invalid_query st (\<lambda>uid.
     require (ParseInt 32 (rq_query rq ''limit'')) invalid_query st (\<lambda>limit.
     go_bind (GetStorageRPCClient cf uid) (\<lambda>i.
       let (resp, st) = rpc_call cf i (\<lambda>s. returned (rpc_GetLatestMessage appid uid (word_of_int limit) s)) st
       in require resp (WriteHttpError 400 ''internal error'') st (\<lambda>hm.
          go_map (\<lambda>js. (WriteHttpObj (JList js), st)) (history_list (reverse_list hm)))))))"

definition LoadHistoryMessage :: "im_config \<Rightarrow> request \<Rightarrow> 'c im \<Rightarrow> (reply \<times> 'c im) go" where
  "LoadHistoryMessage cf rq st =
     require (query_int64 rq ''appid'') invalid_query st (\<lambda>appid.
     require (query_int64 rq ''uid'') invalid_query st (\<lambda>uid.
     require (query_int64 rq ''last_id'') invalid_query st (\<lambda>msgid.
     go_bind (GetStorageRPCClient cf uid) (\<lambda>i.
       let (resp, st) = rpc_call cf i
             (\<lambda>s. returned (rpc_SyncMessage (cf_sync_limit cf) (cf_sync_hard_limit cf) appid uid msgid s)) st
       in require resp Nothing_written st (\<lambda>ph.
          go_map (\<lambda>js. (WriteHttpObj (JList js), st)) (history_list (reverse_list (hr_Messages ph))))))))"

definition GetOfflineCount :: "im_config \<Rightarrow> request \<Rightarrow> 'c im \<Rightarrow> (reply \<times> 'c im) go" where
  "GetOfflineCount cf rq st =
     require (query_int64 rq ''appid'') invalid_query st (\<lambda>appid.
     require (query_int64 rq ''uid'') invalid_query st (\<lambda>uid.
       let last_id = (case query_int64 rq ''sync_key'' of
             None \<Rightarrow> im_sync_keys st (appid, uid)
           | Some k \<Rightarrow> if k = 0 then im_sync_keys st (appid, uid) else k)
       in go_bind (GetStorageRPCClient cf uid) (\<lambda>i.
          let (resp, st) = rpc_call cf i (rpc_GetNewCount appid uid last_id) st
          in require resp (WriteHttpError 500 ''server internal error'') st (\<lambda>count.
               Ret (WriteHttpObj (JObj [(''count'', JInt (sint count))]), st)))))"

section \<open>The paths\<close>

definition http_on_im :: "('c im \<Rightarrow> (reply \<times> 'c im) go) \<Rightarrow> 'c server \<Rightarrow> (reply \<times> 'c server) go" where
  "http_on_im f sv = go_map (\<lambda>(rp, st). (rp, sv\<lparr>sv_im := st\<rparr>)) (f (sv_im sv))"

text \<open>
  The routes of \<open>StartHttpServer\<close> but \<open>/summary\<close> and \<open>/stack\<close>; another path is answered by the standard
  library. (\<open>net/http\<close> recovers a panic of a handler and closes the connection; the model returns \<open>Panic\<close>.)
\<close>

definition ServeHTTP :: "im_config \<Rightarrow> string \<Rightarrow> request \<Rightarrow> 'c server \<Rightarrow> (reply \<times> 'c server) go" where
  "ServeHTTP cf path rq sv =
     (if path = ''/post_group_notification'' then PostGroupNotification cf rq sv
      else if path = ''/post_peer_message'' then http_on_im (PostPeerMessage cf rq) sv
      else if path = ''/post_group_message'' then PostGroupMessage cf rq sv
      else if path = ''/load_latest_message'' then http_on_im (LoadLatestMessage cf rq) sv
      else if path = ''/load_history_message'' then http_on_im (LoadHistoryMessage cf rq) sv
      else if path = ''/post_system_message'' then http_on_im (SendSystemMessage cf rq) sv
      else if path = ''/post_notification'' then http_on_im (SendNotification cf rq) sv
      else if path = ''/post_room_message'' then http_on_im (SendRoomMessage cf rq) sv
      else if path = ''/post_customer_message'' then http_on_im (SendCustomerMessage cf rq) sv
      else if path = ''/post_customer_support_message'' then http_on_im (SendCustomerSupportMessage cf rq) sv
      else if path = ''/post_realtime_message'' then http_on_im (SendRealtimeMessage cf rq) sv
      else if path = ''/get_offline_count'' then http_on_im (GetOfflineCount cf rq) sv
      else Ret (http_WriteHeader 404, sv))"

lemma swap_ends_length [simp]: "length (swap_ends xs i) = length xs"
  by (simp add: swap_ends_def)

lemma swap_ends_nth:
  assumes "2 * i < length xs" "j < length xs"
  shows "swap_ends xs i ! j = (if j = i \<or> j = length xs - i - 1 then xs ! (length xs - j - 1) else xs ! j)"
  using assms by (auto simp: swap_ends_def nth_list_update)

lemma reverse_prefix:
  assumes "2 * n \<le> length xs"
  shows "length (foldl swap_ends xs [0 ..< n]) = length xs \<and> (\<forall>j < length xs. foldl swap_ends xs [0 ..< n] ! j =
    (if j < n \<or> length xs - n \<le> j then xs ! (length xs - j - 1) else xs ! j))"
  using assms
proof (induction n)
  case (Suc n)
  then have IH: "length (foldl swap_ends xs [0 ..< n]) = length xs"
    "\<And>j. j < length xs \<Longrightarrow> foldl swap_ends xs [0 ..< n] ! j =
      (if j < n \<or> length xs - n \<le> j then xs ! (length xs - j - 1) else xs ! j)" by auto
  have "j < length xs \<Longrightarrow> foldl swap_ends xs [0 ..< Suc n] ! j =
    (if j < Suc n \<or> length xs - Suc n \<le> j then xs ! (length xs - j - 1) else xs ! j)" for j
    using Suc.prems IH(1) IH(2) [of j] IH(2) [of "length xs - j - 1"]
    by (auto simp: swap_ends_nth)
  then show ?case using IH(1) by simp
qed simp

text \<open>The loop reverses.\<close>

lemma reverse_list_rev [simp]: "reverse_list xs = rev xs"
proof (rule nth_equalityI)
  note r = reverse_prefix [of "length xs div 2" xs]
  show "length (reverse_list xs) = length (rev xs)" using r by (simp add: reverse_list_def)
  fix j assume j: "j < length (reverse_list xs)"
  then have j: "j < length xs" using r by (simp add: reverse_list_def)
  then have "length xs - j - 1 = j" if "\<not> (j < length xs div 2 \<or> length xs - length xs div 2 \<le> j)"
    using that by linarith
  then show "reverse_list xs ! j = rev xs ! j"
    using r j by (auto simp: reverse_list_def rev_nth)
qed

end
