(* ===== verification/HttpFrame.thy ===== *)
theory HttpFrame
  imports Http Sessions
begin

text \<open>
  What the handlers of the HTTP interface leave alone: none of them changes the sessions, and one that
  answers with an error has queued nothing.
\<close>

section \<open>The sessions\<close>

lemma kept_require:
  "view (g (e, st)) = v \<Longrightarrow> (\<And>y. x = Some y \<Longrightarrow> kept g v (f y)) \<Longrightarrow> kept g v (require x e st f)"
  by (cases x) (simp_all add: kept_def)

lemma kept_read_body:
  "(\<And>err. view (g (WriteHttpError 400 err, st)) = v) \<Longrightarrow> (\<And>b. kept g v (f b)) \<Longrightarrow> kept g v (read_body rq st f)"
  by (simp add: kept_def split: sum.split)

lemmas kept_http = kept_require kept_read_body kept_rules

lemma view_notify_members: "notify_members cf a m us st = Ret st' \<Longrightarrow> view st' = view st"
proof (induction us arbitrary: st)
  case (Cons u us)
  obtain r st1 where save: "im_SaveMessage cf a u 0 m st = Ret (r, st1)" using Cons.prems by (auto split: option.splits)
  show ?case
  proof (cases r)
    case None
    then show ?thesis using Cons.prems save by (auto dest: view_save)
  next
    case (Some ids)
    then obtain st2 where "SendAppMessage cf a u (notify_msg (fst ids)) st1 = Ret st2" "notify_members cf a m us st2 = Ret st'"
      using Cons.prems save by auto
    then show ?thesis using Cons.IH view_send(4) view_save(1) [OF save] by metis
  qed
qed simp

lemma view_SuperNotification:
  assumes "SendSuperGroupNotification cf a g n us st = Ret st'"
  shows "view st' = view st"
proof -
  have "view st' = view st" if "go_fold (\<lambda>st u. SendAppMessage cf a u (m :: message) st) st us = Ret st'" for m st
    using that by (induction us arbitrary: st) (auto dest: view_send(4))
  then show ?thesis
    using assms by (fastforce simp: SendSuperGroupNotification_def split: option.splits dest: view_save(2))
qed

lemma view_SendIMMessage: "SendIMMessage cf im a st = Ret st' \<Longrightarrow> view st' = view st"
  by (auto simp: SendIMMessage_def Let_def split: option.splits dest!: view_send view_save)

lemma kept_SendGroupIMMessage: "kept sv_im (view (sv_im sv)) (SendGroupIMMessage cf im a sv)"
  unfolding SendGroupIMMessage_def on_im_def
  by (intro kept_http)
    (auto simp: on_im_go_def kept_def split: go.split option.splits prod.splits
      dest!: deliver_same_im view_Groups view_send view_save view_PushGroup)

lemma kept_PostGroupNotification: "kept (sv_im \<circ> snd) (view (sv_im sv)) (PostGroupNotification cf rq sv)"
  unfolding PostGroupNotification_def on_im_def
  by (intro kept_http)
    (auto simp: on_im_go_def SendGroupNotification_def split: prod.splits if_split_asm
      dest!: deliver_same_im view_Groups view_SuperNotification view_notify_members)

lemma kept_posts:
  "kept snd (view st) (PostPeerMessage cf rq st)"
  "kept (sv_im \<circ> snd) (view (sv_im sv)) (PostGroupMessage cf rq sv)"
  unfolding PostPeerMessage_def PostGroupMessage_def post_args_def
  by (intro kept_http; auto dest: view_SendIMMessage keptD [OF kept_SendGroupIMMessage])+

lemma kept_sends:
  "kept snd (view st) (SendNotification cf rq st)"
  "kept snd (view st) (SendSystemMessage cf rq st)"
  "kept snd (view st) (SendRoomMessage cf rq st)"
  "kept snd (view st) (SendRealtimeMessage cf rq st)"
  unfolding SendNotification_def SendSystemMessage_def SendRoomMessage_def SendRealtimeMessage_def
  by (intro kept_http; auto simp: views dest!: view_calls)+

lemma kept_http_customer:
  assumes "\<And>i i2 st st'. notify i i2 st = Ret st' \<Longrightarrow> view st' = view st"
  shows "kept snd (view st) (http_customer cf m r s notify rp st)"
  unfolding http_customer_def
  by (intro kept_http) (auto dest!: assms view_calls)

lemma kept_customers:
  "kept snd (view st) (SendCustomerMessage cf rq st)"
  "kept snd (view st) (SendCustomerSupportMessage cf rq st)"
  unfolding SendCustomerMessage_def SendCustomerSupportMessage_def customer_args_def
  by (intro kept_http kept_http_customer; auto dest!: view_calls)+

lemma kept_loads:
  "kept snd (view st) (LoadLatestMessage cf rq st)"
  "kept snd (view st) (LoadHistoryMessage cf rq st)"
  "kept snd (view st) (GetOfflineCount cf rq st)"
  unfolding LoadLatestMessage_def LoadHistoryMessage_def GetOfflineCount_def
  by (intro kept_http; auto dest!: view_rpc)+

lemma kept_http_on_im:
  assumes "kept snd (view (sv_im sv)) (f (sv_im sv))"
  shows "kept (sv_im \<circ> snd) (view (sv_im sv)) (http_on_im f sv)"
  using assms by (cases "f (sv_im sv)") (auto simp: http_on_im_def kept_def)

theorem view_ServeHTTP:
  assumes "ServeHTTP cf path rq sv = Ret (rp, sv')"
  shows "view (sv_im sv') = view (sv_im sv)"
proof -
  have "kept (sv_im \<circ> snd) (view (sv_im sv)) (ServeHTTP cf path rq sv)"
    unfolding ServeHTTP_def
    by (intro kept_if kept_PostGroupNotification kept_posts(2) kept_http_on_im kept_posts(1) kept_sends kept_customers
        kept_loads kept_Ret) simp
  then show ?thesis using assms by (simp add: kept_def)
qed

section \<open>Errors\<close>

text \<open>Where the call returns a reply other than 200, the value \<open>g\<close> of the state is still \<open>v\<close>.\<close>

definition refused :: "('s \<Rightarrow> 'v) \<Rightarrow> 'v \<Rightarrow> (reply \<times> 's) go \<Rightarrow> bool" where
  "refused g v r = (\<forall>rp st. r = Ret (rp, st) \<longrightarrow> rp_status rp \<noteq> 200 \<longrightarrow> g st = v)"

lemma refused_require: "g st = v \<Longrightarrow> (\<And>y. x = Some y \<Longrightarrow> refused g v (f y)) \<Longrightarrow> refused g v (require x e st f)"
  by (cases x) (simp_all add: refused_def)

lemma refused_read_body: "g st = v \<Longrightarrow> (\<And>b. refused g v (f b)) \<Longrightarrow> refused g v (read_body rq st f)"
  by (simp add: refused_def split: sum.split)

lemma refused_bind: "(\<And>z. x = Ret z \<Longrightarrow> refused g v (f z)) \<Longrightarrow> refused g v (go_bind x f)"
  by (cases x) (simp_all add: refused_def)

lemma refused_done:
  assumes "\<And>z. fst (f z) = http_WriteHeader 200 \<or> (\<exists>j. fst (f z) = WriteHttpObj j)"
  shows "refused g v (go_map f x)"
proof -
  have "rp_status (fst (f z)) = 200" for z
    using assms [of z] by (auto simp: http_WriteHeader_def WriteHttpObj_def Write_json_def)
  then show ?thesis unfolding refused_def by (metis fst_conv go_map_Ret_iff)
qed

lemma refused_Ret: "g (snd p) = v \<or> rp_status (fst p) = 200 \<Longrightarrow> refused g v (Ret p)"
  by (cases p) (auto simp: refused_def)

lemma refused_let: "refused g v (f x) \<Longrightarrow> refused g v (Let x f)" by simp

lemma refused_prod: "(\<And>a b. p = (a, b) \<Longrightarrow> refused g v (f a b)) \<Longrightarrow> refused g v (case p of (a, b) \<Rightarrow> f a b)"
  by (cases p) simp

lemma refused_if: "(b \<Longrightarrow> refused g v x) \<Longrightarrow> (\<not> b \<Longrightarrow> refused g v y) \<Longrightarrow> refused g v (if b then x else y)"
  by simp

lemmas refused_rules =
  refused_require refused_read_body refused_bind refused_let refused_prod refused_if refused_done refused_Ret

text \<open>The queues of the connections and of the channels.\<close>

definition queued :: "'c im \<Rightarrow> ('c \<Rightarrow> connection) \<times> (nat \<Rightarrow> channel)" where
  "queued st = (im_client st, im_chan st)"

lemma queued_rpc: "rpc_call cf i f st = (r, st') \<Longrightarrow> queued st' = queued st"
  by (auto simp: rpc_call_def queued_def Let_def split: go.splits prod.splits)

lemma queued_save: "im_SaveMessage cf a u d m st = Ret (r, st') \<Longrightarrow> queued st' = queued st"
  by (auto simp: im_SaveMessage_def dest: queued_rpc [OF sym])

lemma refused_sends:
  "refused queued (queued st) (PostPeerMessage cf rq st)"
  "refused queued (queued st) (SendNotification cf rq st)"
  "refused queued (queued st) (SendSystemMessage cf rq st)"
  "refused queued (queued st) (SendRoomMessage cf rq st)"
  "refused queued (queued st) (SendRealtimeMessage cf rq st)"
  unfolding PostPeerMessage_def post_args_def SendNotification_def SendSystemMessage_def SendRoomMessage_def
    SendRealtimeMessage_def
  by (intro refused_rules; auto dest: queued_save)+

lemma refused_http_customer:
  assumes "rp = http_WriteHeader 200 \<or> (\<exists>j. rp = WriteHttpObj j)"
  shows "refused queued (queued st) (http_customer cf m r s notify rp st)"
  using assms unfolding http_customer_def
  by (intro refused_rules) (auto dest!: queued_save)

lemma refused_customers:
  "refused queued (queued st) (SendCustomerMessage cf rq st)"
  "refused queued (queued st) (SendCustomerSupportMessage cf rq st)"
  unfolding SendCustomerMessage_def SendCustomerSupportMessage_def customer_args_def
  by (intro refused_rules refused_http_customer; auto)+

lemma refused_loads:
  "refused queued (queued st) (LoadLatestMessage cf rq st)"
  "refused queued (queued st) (LoadHistoryMessage cf rq st)"
  "refused queued (queued st) (GetOfflineCount cf rq st)"
  unfolding LoadLatestMessage_def LoadHistoryMessage_def GetOfflineCount_def
  by (intro refused_rules; auto dest!: queued_rpc)+

text \<open>Of a server also the deliverers with their files.\<close>

definition sv_queued :: "'c server \<Rightarrow> (('c \<Rightarrow> connection) \<times> (nat \<Rightarrow> channel)) \<times> (nat \<Rightarrow> deliver)" where
  "sv_queued sv = (queued (sv_im sv), sv_delivers sv)"

lemma queued_deliver: "GetGroupMessageDeliver cf g sv = Ret (i, sv') \<Longrightarrow> sv_queued sv' = sv_queued sv"
  by (auto simp: GetGroupMessageDeliver_def sv_queued_def Let_def split: if_splits)

lemma queued_LoadGroup:
  "on_im (gd_LoadGroup cf gid) sv = (g, sv') \<Longrightarrow> sv_queued sv' = sv_queued sv"
  by (auto simp: on_im_def gd_LoadGroup_def im_FindGroup_def im_LoadGroup_def sv_queued_def queued_def Let_def
      split: prod.splits option.splits)

lemma refused_groups:
  "refused sv_queued (sv_queued sv) (PostGroupNotification cf rq sv)"
  "refused sv_queued (sv_queued sv) (PostGroupMessage cf rq sv)"
  unfolding PostGroupNotification_def PostGroupMessage_def post_args_def
  by (intro refused_rules; auto dest!: queued_LoadGroup queued_deliver)+

lemma refused_http_on_im:
  assumes "refused queued (queued (sv_im sv)) (f (sv_im sv))"
  shows "refused sv_queued (sv_queued sv) (http_on_im f sv)"
  using assms by (cases "f (sv_im sv)") (auto simp: http_on_im_def refused_def sv_queued_def)

lemma refused_ServeHTTP: "refused sv_queued (sv_queued sv) (ServeHTTP cf path rq sv)"
  unfolding ServeHTTP_def
  by (intro refused_if refused_groups refused_http_on_im refused_sends refused_customers refused_loads refused_Ret) simp

end
