(* ===== verification/SessionProperties.thy ===== *)
theory SessionProperties
  imports HttpFrame SmallServer
begin

text \<open>
  What holds of the sessions of an im server whatever its goroutines do: the runs of a server as a relation,
  and the property that routes and channels follow the connections.
\<close>

section \<open>Steps of the other goroutines\<close>

lemma ident_queues [simp]:
  "ident (cn\<lparr>cn_seq := x1\<rparr>) = ident cn" "ident (cn\<lparr>cn_pwt := x2\<rparr>) = ident cn"
  "ident (cn\<lparr>cn_lwt := x3\<rparr>) = ident cn" "ident (cn\<lparr>cn_messages := x4\<rparr>) = ident cn"
  "ident (cn\<lparr>cn_tc := x5\<rparr>) = ident cn" "ident (cn\<lparr>cn_out := x6\<rparr>) = ident cn"
  by (simp_all add: ident_def)

lemma ident_conn_send [simp]: "ident (conn_send m cn) = ident cn"
  by (simp add: conn_send_def Let_def)

lemma ident_write_message [simp]: "ident (write_message m cn) = ident cn"
  by (simp add: write_message_def Let_def split: option.split)

lemma ident_write_all [simp]: "ident (foldl (\<lambda>cn m. write_message m cn) cn ms) = ident cn"
  by (induction ms arbitrary: cn) simp_all












section \<open>Runs of a server\<close>







section \<open>Routes and channels follow the connections\<close>












end
