(* ===== verification/HttpProperties.thy ===== *)
theory HttpProperties
  imports HttpFrame PeerProperties
begin

text \<open>
  What the HTTP interface does: a posted message is saved and announced and can be read back, and a
  request that is refused sends nothing.
\<close>

section \<open>Sending to a user\<close>

definition app_message0 :: "int64 \<Rightarrow> int64 \<Rightarrow> message \<Rightarrow> 'c im \<Rightarrow> body" where
  "app_message0 a u m st = BApp a u 0 0 0 (im_now st) (Some m)"

lemma SendAppMessage_eq:
  assumes "GetChannel cf u = Ret j"
  shows "SendAppMessage cf a u m st = Ret (st\<lparr>
    im_client := (\<lambda>d. if d \<in> user_members st a u then enq [m] (im_client st d) else im_client st d),
    im_chan := (im_chan st)(j := Publish (app_message0 a u m st) (im_chan st j))\<rparr>)"
  using assms
  by (simp add: SendAppMessage_def DispatchMessageToPeer_members enqueue_clients_def update_chan_def user_members_def
      app_message0_def enq_def fun_eq_iff Let_def)

section \<open>A posted message\<close>

text \<open>The message that \<open>PostPeerMessage\<close> makes of its arguments.\<close>

definition posted :: "int64 \<Rightarrow> int64 \<Rightarrow> bytes \<Rightarrow> 'c im \<Rightarrow> im_message" where
  "posted sender receiver content st =
     \<lparr>im_Sender = sender, im_Receiver = receiver, im_Timestamp = ucast (unix_now st), im_Msgid = 0,
      im_Content = content\<rparr>"

definition posted_message :: "int64 \<Rightarrow> int64 \<Rightarrow> bytes \<Rightarrow> 'c im \<Rightarrow> message" where
  "posted_message sender receiver content st =
     Message MSG_IM 0 DEFAULT_VERSION 0 (Some (BIM (posted sender receiver content st))) None"

text \<open>A request that names the application and the two users in decimal.\<close>

definition post_request :: "request \<Rightarrow> int64 \<Rightarrow> int64 \<Rightarrow> int64 \<Rightarrow> bytes \<Rightarrow> bool" where
  "post_request rq appid sender receiver content \<longleftrightarrow>
     rq_query rq ''appid'' = format_int64 appid \<and> rq_query rq ''sender'' = format_int64 sender
     \<and> rq_query rq ''receiver'' = format_int64 receiver \<and> rq_body rq = Inr content"

lemma post_peer_run:
  assumes "post_request rq a s r content"
  shows "PostPeerMessage cf rq st = go_map (Pair (http_WriteHeader 200)) (SendIMMessage cf (posted s r content st) a st)"
  using assms by (simp add: PostPeerMessage_def post_args_def post_request_def query_int64_def posted_def)

definition notified :: "int64 \<Rightarrow> (int64 \<times> int64) list \<Rightarrow> 'c im \<Rightarrow> 'c \<Rightarrow> connection" where
  "notified a users st d =
     foldl (\<lambda>cn (u, i). if d \<in> user_members st a u then enq [notify_msg i] cn else cn) (im_client st d) users"

text \<open>What the two saves and the sends of \<open>SendIMMessage\<close> come to.\<close>

lemma SendIMMessage_ok:
  fixes st :: "'c im" and im :: im_message
  defines "m \<equiv> Message MSG_IM 0 DEFAULT_VERSION 0 (Some (BIM im)) None"
  assumes m: "plain m"
    and servers: "GetStorageRPCClient cf (im_Receiver im) = Ret i" "GetStorageRPCClient cf (im_Sender im) = Ret i2"
      "GetChannel cf (im_Receiver im) = Ret j" "GetChannel cf (im_Sender im) = Ret j2"
    and stores: "\<And>k. storage_ok (bss k) (im_store st k)" "\<And>k. length (bss k) + 4 \<le> 2 ^ 36"
  obtains (sent) st' bs1 bs2 ids ids2 where "SendIMMessage cf im a st = Ret st'"
      "cf_net cf (im_calls st) = Delivered" "cf_net cf (im_calls st + 1) = Delivered"
      "saved_for a (im_Receiver im) 0 m (bss i) bs1 ids"
      "saved_for a (im_Sender im) 0 m ((bss(i := bs1)) i2) bs2 ids2"
      "\<And>k. storage_ok ((bss(i := bs1, i2 := bs2)) k) (im_store st' k)"
      "im_client st' = notified a [(im_Receiver im, fst ids), (im_Sender im, fst ids2)] st"
      "im_calls st' = im_calls st + 2"
    | (failed) st' where "SendIMMessage cf im a st = Ret st'"
      "\<not> (cf_net cf (im_calls st) = Delivered \<and> cf_net cf (im_calls st + 1) = Delivered)"
      "im_client st' = im_client st" "im_chan st' = im_chan st"
proof -
  define rest where "rest = (\<lambda>(ids :: int64 \<times> int64) (ids2 :: int64 \<times> int64) (st :: 'c im). go_bind (PushMessage cf a (im_Receiver im) m st) (\<lambda>st.
    go_bind (SendAppMessage cf a (im_Receiver im) (notify_msg (fst ids)) st)
      (SendAppMessage cf a (im_Sender im) (notify_msg (fst ids2)))))"
  have run: "SendIMMessage cf im a st =
      go_bind (im_SaveMessage cf a (im_Receiver im) 0 m st) (\<lambda>(r, st).
        case r of None \<Rightarrow> Ret st | Some ids \<Rightarrow>
      go_bind (im_SaveMessage cf a (im_Sender im) 0 m st) (\<lambda>(r2, st).
        case r2 of None \<Rightarrow> Ret st | Some ids2 \<Rightarrow> rest ids ids2 st))"
    unfolding SendIMMessage_def rest_def m_def Let_def ..
  have first: "storage_ok (bss i) (im_store st i)" "length (bss i) + 2 \<le> 2 ^ 36"
    using stores(1) [of i] stores(2) [of i] by simp_all
  note m' = m [unfolded m_def]
  show ?thesis
  proof (cases rule: im_SaveMessage_cases [OF first m' refl servers(1), of a 0, folded m_def,
        case_names delivered lost])
    case (lost s')
    then show ?thesis
      using run by (intro failed [of "st\<lparr>im_calls := im_calls st + 1, im_store := (im_store st)(i := s')\<rparr>"]) auto
  next
    case (delivered s1 bs1 ids)
    define st1 where "st1 = st\<lparr>im_calls := im_calls st + 1, im_store := (im_store st)(i := s1)\<rparr>"
    have next_ok: "storage_ok ((bss(i := bs1)) i2) (im_store st1 i2)" "length ((bss(i := bs1)) i2) + 2 \<le> 2 ^ 36"
      using stores(1) [of i2] stores(2) [of i2] stores(2) [of i] delivered(3,4) by (auto simp: st1_def)
    show ?thesis
    proof (cases rule: im_SaveMessage_cases [OF next_ok m' refl servers(2), of a 0, folded m_def,
          case_names delivered lost])
      case (lost s')
      then show ?thesis
        using run delivered(2)
        by (intro failed [of "st1\<lparr>im_calls := im_calls st1 + 1, im_store := (im_store st1)(i2 := s')\<rparr>"])
          (auto simp: st1_def)
    next
      case second: (delivered s2 bs2 ids2)
      define st2 where "st2 = st1\<lparr>im_calls := im_calls st1 + 1, im_store := (im_store st1)(i2 := s2)\<rparr>"
      obtain st' where st': "rest ids ids2 st2 = Ret st'" "im_store st' = im_store st2" "im_calls st' = im_calls st2"
        "im_client st' = notified a [(im_Receiver im, fst ids), (im_Sender im, fst ids2)] st2"
        using servers(3,4)
        by (simp add: rest_def PushMessage_def SendAppMessage_eq update_chan_def user_members_def notified_def fun_eq_iff)
      have same: "im_client st2 = im_client st" "im_apps st2 = im_apps st" by (simp_all add: st2_def st1_def)
      show ?thesis
      proof (rule sent)
        show "SendIMMessage cf im a st = Ret st'"
          using run delivered(2) second(2) st'(1) by (simp add: st2_def st1_def)
        show "storage_ok ((bss(i := bs1, i2 := bs2)) k) (im_store st' k)" for k
          using stores(1) delivered(3) second(3) by (auto simp: st'(2) st2_def st1_def)
        show "im_client st' = notified a [(im_Receiver im, fst ids), (im_Sender im, fst ids2)] st"
          unfolding st'(4) using same by (simp add: notified_def user_members_def fun_eq_iff)
        show "im_calls st' = im_calls st + 2" by (simp add: st'(3) st2_def st1_def)
      qed (use delivered second in \<open>auto simp: st1_def\<close>)
    qed
  qed
qed

lemma saved_for_records:
  assumes "saved_for a u dev m bs bs' ids" "plain m"
  obtains j off g where "off_Msgid off = fst ids" "off_DeviceId off = dev"
    "\<And>v. records MSG_OFFLINE_V4 a v (log_of bs')
      = (if v = u then [(j, off, g)] else []) @ records MSG_OFFLINE_V4 a v (log_of bs)"
    "insert (fst ids, m) (set (log_of bs)) \<subseteq> set (log_of bs')"
proof -
  define off where "off = peer_record a u dev (fst ids) (user_index_of (records MSG_OFFLINE_V4 a u (log_of bs)))"
  obtain j where log: "log_of bs' = log_of bs @ [(fst ids, m), (j, record_message MSG_OFFLINE_V4 (group_flag m) off)]"
    using assms(1) unfolding saved_for_def off_def by blast
  have f: "group_flag m = 0 \<or> group_flag m = MESSAGE_FLAG_GROUP" by (simp add: group_flag_def)
  show ?thesis
    by (rule that [of off j "group_flag m \<noteq> 0"])
      (auto simp: log records_two_saves [OF assms(2) f disjI1 [OF refl]] off_def peer_record_def)
qed

section \<open>Reading it back\<close>

definition history_request :: "request \<Rightarrow> int64 \<Rightarrow> int64 \<Rightarrow> int64 \<Rightarrow> bool" where
  "history_request rq appid uid after \<longleftrightarrow>
     rq_query rq ''appid'' = format_int64 appid \<and> rq_query rq ''uid'' = format_int64 uid
     \<and> rq_query rq ''last_id'' = format_int64 after"

text \<open>
  C12: a message posted for a user that has been read up to its last message is all that a request for the
  history after that message gets: its content, its sender and receiver, the time it was posted and its id.
\<close>

theorem http_post_then_load:
  fixes sv :: "'c server" and s r :: int64 and content :: bytes
  defines "st \<equiv> sv_im sv" and "m \<equiv> posted_message s r content (sv_im sv)"
  assumes post: "post_request rq a s r content" "s \<noteq> r" "plain m"
    and load: "history_request rq' a r (head_msgid (records MSG_OFFLINE_V4 a r (log_of (bss i))))"
    and servers: "GetStorageRPCClient cf r = Ret i" "GetStorageRPCClient cf s = Ret i2"
      "GetChannel cf r = Ret j" "GetChannel cf s = Ret j2"
    and net: "\<And>n. cf_net cf n = Delivered" and limit: "1000 \<le> cf_sync_limit cf" "cf_sync_hard_limit cf = 0"
    and stores: "\<And>k. storage_ok (bss k) (im_store st k)" "\<And>k. length (bss k) + 4 \<le> 2 ^ 36"
  shows "\<exists>sv1 sv2 msgid. ServeHTTP cf ''/post_peer_message'' rq sv = Ret (http_WriteHeader 200, sv1)
    \<and> ServeHTTP cf ''/load_history_message'' rq' sv1
      = Ret (WriteHttpObj (JList [im_json (posted s r content st) MSG_IM msgid]), sv2)"
proof -
  let ?im = "posted s r content st"
  have im: "im_Receiver ?im = r" "im_Sender ?im = s" by (simp_all add: posted_def)
  have m: "m = Message MSG_IM 0 DEFAULT_VERSION 0 (Some (BIM ?im)) None" by (simp add: m_def st_def posted_message_def)
  obtain st1 bs1 bs2 ids ids2 where sent: "SendIMMessage cf ?im a st = Ret st1"
    "saved_for a r 0 m (bss i) bs1 ids" "saved_for a s 0 m ((bss(i := bs1)) i2) bs2 ids2"
    "\<And>k. storage_ok ((bss(i := bs1, i2 := bs2)) k) (im_store st1 k)"
    using SendIMMessage_ok [where im = ?im and st = st and a = a, folded m, unfolded im, OF post(3) servers stores] net
    by (metis (no_types, lifting))
  define bs where "bs = (bss(i := bs1, i2 := bs2)) i"
  obtain j1 off1 g1 where r1: "off_Msgid off1 = fst ids" "off_DeviceId off1 = 0"
    "\<And>v. records MSG_OFFLINE_V4 a v (log_of bs1)
      = (if v = r then [(j1, off1, g1)] else []) @ records MSG_OFFLINE_V4 a v (log_of (bss i))"
    "insert (fst ids, m) (set (log_of (bss i))) \<subseteq> set (log_of bs1)"
    by (rule saved_for_records [OF sent(2) post(3)]) blast
  obtain j2 off2 g2 where r2: "\<And>v. records MSG_OFFLINE_V4 a v (log_of bs2)
      = (if v = s then [(j2, off2, g2)] else []) @ records MSG_OFFLINE_V4 a v (log_of ((bss(i := bs1)) i2))"
    "insert (fst ids2, m) (set (log_of ((bss(i := bs1)) i2))) \<subseteq> set (log_of bs2)"
    by (rule saved_for_records [OF sent(3) post(3)]) blast
  have R: "records MSG_OFFLINE_V4 a r (log_of bs) = (j1, off1, g1) # records MSG_OFFLINE_V4 a r (log_of (bss i))"
    "(fst ids, m) \<in> set (log_of bs)"
    using r1(3) [of r] r1(4) r2(1) [of r] r2(2) post(2) by (auto simp: bs_def)
  have ok: "storage_ok bs (im_store st1 i)" using sent(4) [of i] by (simp add: bs_def)
  have b: "blocks_ok bs" using storage_okD(1) [OF ok] by (simp add: layout_def)
  note newest = newest_after [OF stores(1) ok R(1)]
  have at: "message_at (log_of bs) (off_Msgid off1) = m" using message_at_eq [OF b R(2)] by (simp add: r1(1))
  have "history_cmd (Cmd m)" by (simp add: m history_cmd_def latest_cmd_def)
  with rpc_sync_newest [OF ok limit(1) R(1) newest at] obtain s' where sync:
    "rpc_SyncMessage (cf_sync_limit cf) 0 a r (head_msgid (records MSG_OFFLINE_V4 a r (log_of (bss i)))) (im_store st1 i)
      = Some (Ret (\<lparr>hr_Messages = [history_of (fst ids) 0 (canon m)], hr_LastMsgID = fst ids, hr_HasMore = False\<rparr>, s'))"
    unfolding r1(1,2) by blast
  have raw: "raw_message (ucast (Cmd m)) (msg_ToData m) = Ret m"
    using raw_message_ToData [of m] post(3) m by (simp add: plain_def storable_def)
  have "plain m" "Version m = DEFAULT_VERSION" using post(3) m by simp_all
  from plain_resent(3) [OF this] have "history_of (fst ids) 0 (canon m)
      = \<lparr>hm_MsgID = fst ids, hm_DeviceID = 0, hm_Cmd = ucast (Cmd m), hm_Raw = msg_ToData m\<rparr>"
    unfolding history_of_def Cmd_canon by (simp add: m)
  then have shown: "history_list [history_of (fst ids) 0 (canon m)] = Ret [im_json ?im MSG_IM (fst ids)]"
    using raw by (simp add: history_json_def m)
  then show ?thesis
    using post_peer_run [OF post(1), of cf st] sent(1) load servers(1) net limit sync shown
    by (auto simp del: history_list.simps simp: ServeHTTP_def http_on_im_def st_def [symmetric] LoadHistoryMessage_def history_request_def query_int64_def
        rpc_call_def returned_def)
qed

section \<open>What a post does\<close>

text \<open>
  A message posted for a user is saved for the receiver and for the sender, each in the log of its
  storage server, and every connection of the two is notified of the id it has there; if either save
  is not answered, nothing is sent. The reply is 200 in both cases.
\<close>

theorem http_post_peer:
  fixes sv :: "'c server" and s r :: int64 and content :: bytes
  defines "st \<equiv> sv_im sv" and "m \<equiv> posted_message s r content (sv_im sv)"
  assumes post: "post_request rq a s r content" "plain m"
    and servers: "GetStorageRPCClient cf r = Ret i" "GetStorageRPCClient cf s = Ret i2"
      "GetChannel cf r = Ret j" "GetChannel cf s = Ret j2"
    and stores: "\<And>k. storage_ok (bss k) (im_store st k)" "\<And>k. length (bss k) + 4 \<le> 2 ^ 36"
  shows "\<exists>sv'. ServeHTTP cf ''/post_peer_message'' rq sv = Ret (http_WriteHeader 200, sv') \<and>
    (if cf_net cf (im_calls st) = Delivered \<and> cf_net cf (im_calls st + 1) = Delivered then
       (\<exists>bs1 bs2 ids ids2. saved_for a r 0 m (bss i) bs1 ids \<and> saved_for a s 0 m ((bss(i := bs1)) i2) bs2 ids2
          \<and> (\<forall>k. storage_ok ((bss(i := bs1, i2 := bs2)) k) (im_store (sv_im sv') k))
          \<and> im_client (sv_im sv') = notified a [(r, fst ids), (s, fst ids2)] st)
     else im_client (sv_im sv') = im_client st \<and> im_chan (sv_im sv') = im_chan st)"
proof -
  let ?im = "posted s r content st"
  have im: "im_Receiver ?im = r" "im_Sender ?im = s" by (simp_all add: posted_def)
  have m: "m = Message MSG_IM 0 DEFAULT_VERSION 0 (Some (BIM ?im)) None" by (simp add: m_def st_def posted_message_def)
  have serve: "ServeHTTP cf ''/post_peer_message'' rq sv
      = go_map (\<lambda>st'. (http_WriteHeader 200, sv\<lparr>sv_im := st'\<rparr>)) (SendIMMessage cf ?im a st)"
    using post_peer_run [OF post(1), of cf st]
    by (cases "SendIMMessage cf ?im a st") (simp_all add: ServeHTTP_def http_on_im_def st_def)
  note run = SendIMMessage_ok [where im = ?im and st = st and a = a, folded m, unfolded im, OF post(2) servers stores]
  show ?thesis
  proof (cases rule: run [case_names sent failed])
    case (sent st' bs1 bs2 ids ids2)
    have both: "cf_net cf (im_calls st) = Delivered \<and> cf_net cf (im_calls st + 1) = Delivered"
      using sent(2,3) by simp
    show ?thesis
      unfolding if_P [OF both] serve sent(1) go_map.simps
      by (rule exI [of _ "sv\<lparr>sv_im := st'\<rparr>"], rule conjI [OF refl], rule exI [of _ bs1], rule exI [of _ bs2],
          rule exI [of _ ids], rule exI [of _ ids2])
        (use sent(4-7) in \<open>simp del: fun_upd_apply\<close>)
  next
    case (failed st')
    then show ?thesis unfolding serve failed(1) if_not_P [OF failed(2)] by simp
  qed
qed

text \<open>
  C29: a request that is answered with another status than 200, be it for its arguments, an empty group or a
  storage server that does not answer, has sent nothing: the queues of the connections and of the channels
  and the files of the deliverers are what they were.
\<close>

theorem http_refused:
  assumes "ServeHTTP cf path rq sv = Ret (rp, sv')" "rp_status rp \<noteq> 200"
  shows "im_client (sv_im sv') = im_client (sv_im sv) \<and> im_chan (sv_im sv') = im_chan (sv_im sv)
    \<and> sv_delivers sv' = sv_delivers sv"
  using refused_ServeHTTP [of sv cf path rq] assms by (auto simp: refused_def sv_queued_def queued_def)

section \<open>Requests to a small server\<close>

definition no_pending :: deliver where
  "no_pending = \<lparr>gd_file = gd_openWriteFile [], gd_cursor_file = binWrite (0 :: int64), gd_latest_msgid = 0,
     gd_latest_sended_msgid = 0, gd_wt = [], gd_dt = [], gd_id = 0, gd_callbacks = Map.empty,
     gd_callback_ids = Map.empty, gd_chans = (\<lambda>_. None)\<rparr>"

definition small_server :: "nat server" where
  "small_server = \<lparr>sv_im = two_users, sv_delivers = (\<lambda>_. no_pending), sv_index = 0, sv_chan = 0\<rparr>"

text \<open>The user 1 of the application 7 writes to the user 2, who then reads.\<close>

definition hello_request :: request where
  "hello_request = \<lparr>rq_query = (\<lambda>k. if k = ''appid'' then format_int64 7 else if k = ''sender'' then format_int64 1
     else if k = ''receiver'' then format_int64 2 else []), rq_body = Inr [104, 105], rq_json = None\<rparr>"

definition read_request :: request where
  "read_request = \<lparr>rq_query = (\<lambda>k. if k = ''appid'' then format_int64 7 else if k = ''uid'' then format_int64 2
     else if k = ''last_id'' then format_int64 0 else []), rq_body = Inr [], rq_json = None\<rparr>"

lemma small_requests:
  "post_request hello_request 7 1 2 [104, 105]" "history_request read_request 7 2 0"
  by (simp_all add: post_request_def hello_request_def history_request_def read_request_def)

lemma small_server_ok:
  "storage_ok [[]] (im_store (sv_im small_server) k)" "posted_message 1 2 [104, 105] (sv_im small_server)
    = Message MSG_IM 0 DEFAULT_VERSION 0 (Some (BIM from_1_to_2)) None"
  "GetStorageRPCClient small_config 2 = Ret 0" "GetStorageRPCClient small_config 1 = Ret 0"
  "GetChannel small_config 2 = Ret 0" "GetChannel small_config 1 = Ret 0" "cf_net small_config n = Delivered"
  "cf_sync_limit small_config = 3000" "cf_sync_hard_limit small_config = 0"
proof -
  show "storage_ok [[]] (im_store (sv_im small_server) k)"
    by (simp add: small_server_def two_users_def small_im_def small_ims_ok)
  show "posted_message 1 2 [104, 105] (sv_im small_server)
    = Message MSG_IM 0 DEFAULT_VERSION 0 (Some (BIM from_1_to_2)) None"
    by (simp add: posted_message_def posted_def small_server_def from_1_to_2_def) code_simp
  show "GetStorageRPCClient small_config 2 = Ret 0" "GetStorageRPCClient small_config 1 = Ret 0"
    "GetChannel small_config 2 = Ret 0" "GetChannel small_config 1 = Ret 0" by code_simp+
qed (simp_all add: small_config_def)

theorem http_post_then_load_witness:
  "\<exists>sv1 sv2 msgid. ServeHTTP small_config ''/post_peer_message'' hello_request small_server = Ret (http_WriteHeader 200, sv1)
    \<and> ServeHTTP small_config ''/load_history_message'' read_request sv1
      = Ret (WriteHttpObj (JList [im_json (posted 1 2 [104, 105] two_users) MSG_IM msgid]), sv2)"
proof -
  have prev: "head_msgid (records MSG_OFFLINE_V4 7 2 (log_of [[]])) = 0" by (simp add: head_msgid_def)
  show ?thesis
    using http_post_then_load [where sv = small_server and cf = small_config and bss = "\<lambda>k. [[]]" and rq' = read_request
        and i = 0 and ?i2.0 = 0 and j = 0 and ?j2.0 = 0, OF small_requests(1)]
    by (simp add: small_server_ok plain_from_1_to_2 prev small_requests) (simp add: small_server_def)
qed

theorem http_post_peer_witness:
  "\<exists>sv' ids ids2. ServeHTTP small_config ''/post_peer_message'' hello_request small_server = Ret (http_WriteHeader 200, sv')
    \<and> im_client (sv_im sv') = notified 7 [(2, fst ids), (1, fst ids2)] two_users"
  using http_post_peer [where sv = small_server and cf = small_config and bss = "\<lambda>k. [[]]"
      and i = 0 and ?i2.0 = 0 and j = 0 and ?j2.0 = 0, OF small_requests(1)]
  by (simp add: small_server_ok plain_from_1_to_2) (simp add: small_server_def, blast)

text \<open>A request for the history of a user as if it were a message.\<close>

theorem http_refused_witness:
  "\<exists>sv'. ServeHTTP small_config ''/post_peer_message'' read_request small_server = Ret (invalid_param, sv')
    \<and> im_client (sv_im sv') = im_client two_users"
proof -
  have "ServeHTTP small_config ''/post_peer_message'' read_request small_server = Ret (invalid_param, small_server)"
    by (simp add: ServeHTTP_def http_on_im_def PostPeerMessage_def post_args_def read_request_def query_int64_def)
  from http_refused [OF this] this show ?thesis
    by (simp add: invalid_param_def WriteHttpError_def small_server_def)
qed

end
