(* ===== verification/ClientSafety.thy ===== *)
theory ClientSafety
  imports Client
begin

text \<open>
  Why no message of a client makes the server panic: a body that was received has the type that the
  command demands, so that the type assertions of the handlers succeed, and so have the bodies that the
  handlers make of what the storage servers answer.
\<close>

section \<open>The types of bodies\<close>

lemma batch_push_kind: "batch_push_FromData f buff = Ret (b, ok) \<Longrightarrow> kind_of b = KBatchPush"
  by (auto simp: batch_push_FromData_def Let_def split: prod.splits if_splits)

lemma app_kind: "app_FromData f buff = Ret (b, ok) \<Longrightarrow> kind_of b = KApp"
  by (auto simp: app_FromData_def Let_def split: prod.splits if_splits)

lemma emessage_kind: "emessage_FromData f buff = Ret (b, ok) \<Longrightarrow> kind_of b = KEMessage"
  by (auto simp: emessage_FromData_def Let_def split: prod.splits if_splits)

lemma batch_kind: "batch_FromData f buff = Ret (b, ok) \<Longrightarrow> kind_of b = KMessageBatch"
  by (auto simp: batch_FromData_def Let_def split: prod.splits if_splits)

lemma body_kind:
  assumes "body_FromData k v buff = Ret (b, ok)"
  shows "kind_of b = k"
  using assms
  by (cases k) (auto simp: ret_body_def dest: batch_push_kind app_kind emessage_kind batch_kind)

definition typed :: "message \<Rightarrow> bool" where
  "typed m \<longleftrightarrow> creator (Cmd m) = map_option kind_of (Body m)"

lemma FromData_typed:
  "message_FromData body_FromData cmd v buff = Ret (b, ok) \<Longrightarrow> creator cmd = map_option kind_of b"
  by (auto simp: message_FromData_def dest: body_kind split: option.splits)

lemma received_typed:
  assumes "ReceiveLimitMessage lim ext conn = Ret (Some m, rest)"
  shows "typed m"
proof -
  obtain cmd seq version flag buff b where
    "message_FromData body_FromData cmd version buff = Ret (b, True)" "m = Message cmd seq version flag b None"
    using assms by (auto simp: ReceiveLimitMessage_def receive_with_def split: option.splits if_splits)
  then show ?thesis using FromData_typed by (fastforce simp: typed_def)
qed

text \<open>The commands whose bodies hold no messages and no list of members: parsing them never panics.\<close>

definition parsable :: "go_int \<Rightarrow> bool" where
  "parsable cmd \<longleftrightarrow>
     creator cmd \<notin> {Some KPendingGroup, Some KBatchPush, Some KApp, Some KEMessage, Some KMessageBatch}"

lemma raw_message_parsable:
  assumes "parsable (scast cmd)"
  obtains m where "raw_message cmd raw = Ret m" "Cmd m = scast cmd" "typed m"
proof -
  have "\<exists>b ok. body_FromData k DEFAULT_VERSION raw = Ret (b, ok)" if "creator (scast cmd) = Some k" for k
    using assms that by (cases k) (auto simp: parsable_def ret_body_def)
  then obtain b ok where b: "message_FromData body_FromData (scast cmd) DEFAULT_VERSION raw = Ret (b, ok)"
    by (cases "creator (scast cmd)") (auto simp: message_FromData_def)
  then have "raw_message cmd raw = Ret (Message (scast cmd) 0 DEFAULT_VERSION 0 b None)"
    by (simp add: raw_message_def)
  then show ?thesis using that FromData_typed [OF b] by (simp add: typed_def)
qed

section \<open>Calls that return\<close>

definition returns :: "'r go \<Rightarrow> bool" where
  "returns r \<longleftrightarrow> (\<exists>x. r = Ret x)"

lemma returns_Ret: "returns (Ret x)"
  by (simp add: returns_def)

lemma returns_bind: "returns x \<Longrightarrow> (\<And>z. x = Ret z \<Longrightarrow> returns (f z)) \<Longrightarrow> returns (go_bind x f)"
  by (auto simp: returns_def)

lemma returns_map: "returns x \<Longrightarrow> returns (go_map f x)"
  by (auto simp: returns_def)

lemma returns_if: "(b \<Longrightarrow> returns x) \<Longrightarrow> (\<not> b \<Longrightarrow> returns y) \<Longrightarrow> returns (if b then x else y)"
  by simp

lemma returns_option:
  "(x = None \<Longrightarrow> returns a) \<Longrightarrow> (\<And>y. x = Some y \<Longrightarrow> returns (f y)) \<Longrightarrow>
   returns (case x of None \<Rightarrow> a | Some y \<Rightarrow> f y)"
  by (cases x) simp_all

lemma returns_prod: "(\<And>a b. p = (a, b) \<Longrightarrow> returns (f a b)) \<Longrightarrow> returns (case p of (a, b) \<Rightarrow> f a b)"
  by (cases p) simp

lemma returns_let: "returns (f x) \<Longrightarrow> returns (Let x f)"
  by simp

lemmas returns_rules = returns_let returns_prod returns_if returns_option returns_bind

section \<open>Choosing servers\<close>

text \<open>
  A storage server and a channel can be chosen for every user, group and room, and there is a deliverer.
  With any number of servers this holds of all ids but the smallest \<open>int64\<close>; with one server, or with
  a power of two, of all.
\<close>

definition servers_ok :: "im_config \<Rightarrow> bool" where
  "servers_ok cf \<longleftrightarrow> (\<forall>i. returns (GetStorageRPCClient cf i) \<and> returns (GetGroupStorageRPCClient cf i)
     \<and> returns (GetChannel cf i) \<and> returns (GetGroupChannel cf i) \<and> returns (GetRoomChannel cf i))
     \<and> cf_deliver_count cf > 0"

lemma choose_returns:
  assumes "servers_ok cf"
  shows "returns (GetStorageRPCClient cf i)" "returns (GetGroupStorageRPCClient cf i)" "returns (GetChannel cf i)"
    "returns (GetGroupChannel cf i)" "returns (GetRoomChannel cf i)" "returns (GetGroupMessageDeliver cf i sv)"
  using assms by (auto simp: servers_ok_def GetGroupMessageDeliver_def returns_def)

lemma sends_return:
  assumes "servers_ok cf"
  shows "returns (im_SaveMessage cf a u d m st)" "returns (im_SaveGroupMessage cf a u d m st)"
    "returns (PushMessage cf a u m st)" "returns (PublishMessage cf a u m st)" "returns (PublishGroupMessage cf a u m st)"
    "returns (SendAppMessage cf a u m st)" "returns (conn_SendMessage cf c u m st)"
    "returns (conn_SendGroupMessage cf c u us m st)"
  unfolding im_SaveMessage_def im_SaveGroupMessage_def PushMessage_def PublishMessage_def PublishGroupMessage_def
    SendAppMessage_def conn_SendMessage_def conn_SendGroupMessage_def
  by (intro returns_let returns_map choose_returns [OF assms])+

lemma push_group_returns:
  assumes "servers_ok cf"
  shows "returns (PushGroupMessage cf a us m st)"
proof -
  have "returns (go_fold (\<lambda>ch u. go_map (\<lambda>i. ch(i := ch i @ [u])) (GetChannel cf u)) ch us)" for ch us
  proof (induction us arbitrary: ch)
    case (Cons u us)
    then show ?case using choose_returns(3) [OF assms, of u] by (auto simp: returns_def)
  qed (simp add: returns_def)
  then show ?thesis unfolding PushGroupMessage_def by_channel_def by (intro returns_map)
qed

section \<open>The history of a client\<close>

text \<open>What a storage server answers can be parsed.\<close>

definition history_parsable :: "history_message list \<Rightarrow> bool" where
  "history_parsable hs \<longleftrightarrow> (\<forall>h \<in> set hs. parsable (scast (hm_Cmd h)))"

lemma isSender_returns:
  assumes "typed m"
  shows "returns (conn_isSender kefu m dev cn)"
proof -
  have "\<exists>im. Body m = Some (BIM im)" if "creator (Cmd m) = Some KIM"
    using that assms by (cases "Body m"; cases "the (Body m)") (auto simp: typed_def)
  moreover have "\<exists>cm. Body m = Some (BCustomer cm)" if "creator (Cmd m) = Some KCustomer"
    using that assms by (cases "Body m"; cases "the (Body m)") (auto simp: typed_def)
  ultimately show ?thesis
    by (auto simp: conn_isSender_def returns_def creator_def core_creators_def)
qed

lemma sync_messages_returns:
  assumes "history_parsable hs"
  shows "returns (sync_messages cf cn hs)"
  using assms
proof (induction hs)
  case (Cons h hs)
  then obtain m where "raw_message (hm_Cmd h) (hm_Raw h) = Ret m" "typed m"
    using raw_message_parsable by (metis history_parsable_def list.set_intros(1))
  moreover have "returns (sync_messages cf cn hs)" using Cons by (simp add: history_parsable_def)
  ultimately show ?case
    by (simp only: sync_messages.simps go_bind.simps) (intro returns_bind returns_map isSender_returns)
qed (simp add: returns_def)

text \<open>The messages of \<open>LoadHistoryMessagesV3\<close> are of the commands that it tests for.\<close>

definition collects :: "emessage list \<Rightarrow> (emessage list \<times> 'r) go option \<Rightarrow> bool" where
  "collects ms x \<longleftrightarrow> (\<forall>e \<in> set ms. history_cmd (Cmd (snd (snd e)))) \<longrightarrow>
     (\<forall>ms' r. x = Some (Ret (ms', r)) \<longrightarrow> (\<forall>e \<in> set ms'. history_cmd (Cmd (snd (snd e)))))"

lemma collects_Ret: "collects ms (Some (Ret (ms, r)))"
  by (simp add: collects_def)

lemma collects_bind: "(\<And>z. x = Ret z \<Longrightarrow> collects ms (f z)) \<Longrightarrow> collects ms (loop_bind x f)"
  by (cases x) (simp_all add: collects_def)

lemma collects_more:
  assumes "collects (if history_cmd (Cmd m) then ms @ [(i, d, m)] else ms) x"
  shows "collects ms x"
  using assms by (auto simp: collects_def split: if_splits)

lemma collects_cases:
  "(c \<Longrightarrow> collects ms x) \<Longrightarrow> (\<not> c \<Longrightarrow> collects ms y) \<Longrightarrow> collects ms (if c then x else y)"
  "collects ms x \<Longrightarrow> (\<And>z. collects ms (g z)) \<Longrightarrow> collects ms (case v of None \<Rightarrow> x | Some z \<Rightarrow> g z)"
  "(\<And>a b. collects ms (h a b)) \<Longrightarrow> collects ms (case p of (a, b) \<Rightarrow> h a b)"
  "collects ms (k w) \<Longrightarrow> collects ms (let x = w in k x)"
  by (auto split: option.split prod.split)

lemma v3_loop_collects_Some:
  assumes "v3_loop sync limit p i lm lo ms s = Some y"
  shows "collects ms (Some y)"
proof (rule v3_loop.raw_induct [where P = "\<lambda>sync limit p i lm lo ms s y. collects ms (Some y)", OF _ assms], goal_cases)
  case (1 loop sync limit p i lm lo ms s y)
  have rec: "collects ms (loop sync limit p i lm lo ms s)" for sync limit p i lm lo ms s
    using 1(1) by (cases "loop sync limit p i lm lo ms s") (auto simp: collects_def)
  show ?case unfolding 1(2) [symmetric]
    by (intro collects_cases collects_bind collects_Ret; (simp add: collects_def; fail)?; rule collects_more, rule rec)
qed

lemma v3_loop_collects: "collects ms (v3_loop sync limit p i lm lo ms s)"
  using v3_loop_collects_Some [of sync limit p i lm lo ms s]
  by (cases "v3_loop sync limit p i lm lo ms s") (simp_all add: collects_def)

lemma history_cmd_parsable: "history_cmd cmd \<Longrightarrow> parsable cmd"
  by (auto simp: history_cmd_def latest_cmd_def parsable_def creator_def core_creators_def)

lemma rpc_SyncMessage_parsable:
  assumes "rpc_SyncMessage limit hard a u sync s = Some (Ret (r, s'))"
  shows "history_parsable (hr_Messages r)"
proof -
  obtain messages last' more s1 where load:
    "LoadHistoryMessagesV3 a u sync limit hard (count_request s) = Some (Ret ((messages, last', more), s1))"
    and r: "hr_Messages r = map (\<lambda>(i, d, m). history_of i d m) messages"
    using assms by (auto simp: rpc_SyncMessage_def)
  obtain lastid peer t lm lo where "v3_loop sync limit peer lastid 0 0 [] t = Some (Ret (messages, lm, lo, s1))"
    using load by (fastforce simp: LoadHistoryMessagesV3_def Let_def loop_bind_Some_Ret split: option.split_asm prod.split_asm)
  then have "\<forall>e \<in> set messages. history_cmd (Cmd (snd (snd e)))"
    using v3_loop_collects [of "[]" sync limit peer lastid 0 0 t] by (simp add: collects_def)
  moreover have "scast (ucast cmd :: int32) = cmd" if "history_cmd cmd" for cmd :: go_int
    using that by (auto simp: history_cmd_def latest_cmd_def)
  ultimately show ?thesis
    by (force simp: r history_parsable_def history_of_def intro!: history_cmd_parsable)
qed

section \<open>The handlers\<close>

lemma kind_body:
  "Some KIM = map_option kind_of b \<Longrightarrow> \<exists>x. b = Some (BIM x)"
  "Some KRT = map_option kind_of b \<Longrightarrow> \<exists>x. b = Some (BRT x)"
  "Some KUnread = map_option kind_of b \<Longrightarrow> \<exists>x. b = Some (BUnread x)"
  "Some KSyncKey = map_option kind_of b \<Longrightarrow> \<exists>x. b = Some (BSyncKey x)"
  "Some KGroupSyncKey = map_option kind_of b \<Longrightarrow> \<exists>x. b = Some (BGroupSyncKey x)"
  "Some KRoom = map_option kind_of b \<Longrightarrow> \<exists>x. b = Some (BRoom x)"
  "Some KRoomMessage = map_option kind_of b \<Longrightarrow> \<exists>x. b = Some (BRoomMessage x)"
  "Some KCustomer = map_option kind_of b \<Longrightarrow> \<exists>x. b = Some (BCustomer x)"
  "Some KAuthToken = map_option kind_of b \<Longrightarrow> \<exists>x. b = Some (BAuthToken x)"
  "Some KAck = map_option kind_of b \<Longrightarrow> \<exists>x. b = Some (BAck x)"
  by (cases b; cases "the b"; simp)+

lemma creator_client:
  "creator MSG_IM = Some KIM" "creator MSG_GROUP_IM = Some KIM" "creator MSG_RT = Some KRT"
  "creator MSG_UNREAD_COUNT = Some KUnread" "creator MSG_SYNC = Some KSyncKey" "creator MSG_SYNC_KEY = Some KSyncKey"
  "creator MSG_SYNC_GROUP = Some KGroupSyncKey" "creator MSG_GROUP_SYNC_KEY = Some KGroupSyncKey"
  "creator MSG_ENTER_ROOM = Some KRoom" "creator MSG_LEAVE_ROOM = Some KRoom"
  "creator MSG_ROOM_IM = Some KRoomMessage" "creator MSG_CUSTOMER = Some KCustomer"
  "creator MSG_CUSTOMER_SUPPORT = Some KCustomer" "creator MSG_AUTH_TOKEN = Some KAuthToken"
  "creator MSG_ACK = Some KAck"
  by (simp_all add: creator_def core_creators_def)

lemma typed_body:
  assumes "typed m" "Cmd m = cmd" "creator cmd = Some k"
  shows "Some k = map_option kind_of (Body m)"
  using assms by (simp add: typed_def)

lemma rpc_call_Some:
  assumes "rpc_call cf i f st = (Some r, st')"
  shows "\<exists>s. f (im_store st i) = Ret (r, s)"
  using assms by (auto simp: rpc_call_def Let_def split: go.splits if_splits)

lemma returned_Some: "returned r = Ret x \<longleftrightarrow> r = Some (Ret x)"
  by (simp add: returned_def split: option.split)

lemma HandleSync_returns:
  assumes "servers_ok cf"
  shows "returns (HandleSync cf c k st)"
proof -
  have "returns (sync_messages cf cn (rev (hr_Messages r)))"
    if call: "rpc_call cf i (\<lambda>s. returned (rpc_SyncMessage (cf_sync_limit cf) (cf_sync_hard_limit cf) a u sync s)) st1 = (Some r, st2)"
    for cn i a u sync r and st1 st2 :: "'a im"
  proof -
    obtain s where "returned (rpc_SyncMessage (cf_sync_limit cf) (cf_sync_hard_limit cf) a u sync (im_store st1 i)) = Ret (r, s)"
      using rpc_call_Some [OF call] by blast
    then have "history_parsable (hr_Messages r)" unfolding returned_Some by (rule rpc_SyncMessage_parsable)
    then show ?thesis by (intro sync_messages_returns) (simp add: history_parsable_def)
  qed
  then show ?thesis
    unfolding HandleSync_def
    by (intro returns_rules returns_Ret returns_map choose_returns [OF assms]) simp_all
qed

lemma HandleIMMessage_returns:
  assumes "servers_ok cf" "Body m = Some (BIM im)"
  shows "returns (HandleIMMessage cf c m st)"
  unfolding HandleIMMessage_def assms(2) option.case body.case
  by (intro returns_rules returns_Ret returns_map sends_return [OF assms(1)])

lemma peer_HandleMessage_returns:
  assumes "servers_ok cf" "typed m"
  shows "returns (peer_HandleMessage cf c m st)"
proof -
  note body = typed_body [OF assms(2) _ creator_client(1), THEN kind_body(1)]
    typed_body [OF assms(2) _ creator_client(3), THEN kind_body(2)]
    typed_body [OF assms(2) _ creator_client(4), THEN kind_body(3)]
    typed_body [OF assms(2) _ creator_client(5), THEN kind_body(4)]
    typed_body [OF assms(2) _ creator_client(6), THEN kind_body(4)]
  have "returns (HandleRTMessage cf c m st)" if "Body m = Some (BRT rt)" for rt
    unfolding HandleRTMessage_def that option.case body.case
    by (intro returns_rules returns_Ret sends_return [OF assms(1)])
  then show ?thesis
    using body HandleSync_returns [OF assms(1)] HandleIMMessage_returns [OF assms(1)]
    by (auto simp: peer_HandleMessage_def returns_Ret)
qed

lemma room_HandleMessage_returns:
  assumes "servers_ok cf" "typed m"
  shows "returns (room_HandleMessage cf c m st)"
proof -
  note body = typed_body [OF assms(2) _ creator_client(9), THEN kind_body(6)]
    typed_body [OF assms(2) _ creator_client(10), THEN kind_body(6)]
    typed_body [OF assms(2) _ creator_client(11), THEN kind_body(7)]
  have "returns (HandleEnterRoom cf c r st)" "returns (HandleLeaveRoom cf c r st)" "returns (HandleRoomIM cf c im seq st)"
    for r im seq
    unfolding HandleEnterRoom_def HandleLeaveRoom_def HandleRoomIM_def
    by (intro returns_rules returns_Ret returns_map choose_returns [OF assms(1)])+
  then show ?thesis using body by (auto simp: room_HandleMessage_def returns_Ret)
qed

lemma customer_HandleMessage_returns:
  assumes "servers_ok cf" "typed m"
  shows "returns (customer_HandleMessage cf c m st)"
proof -
  note body = typed_body [OF assms(2) _ creator_client(12), THEN kind_body(8)]
    typed_body [OF assms(2) _ creator_client(13), THEN kind_body(8)]
  have "returns (customer_deliver cf c cmd msg r s st)" for cmd msg r s
    unfolding customer_deliver_def
    by (intro returns_rules returns_Ret returns_map sends_return [OF assms(1)])
  then show ?thesis
    using body
    by (auto simp: customer_HandleMessage_def HandleCustomerMessage_def HandleCustomerSupportMessage_def returns_Ret Let_def)
qed

lemma HandleAuthToken_returns:
  assumes "servers_ok cf"
  shows "returns (HandleAuthToken cf c login version st)"
  unfolding HandleAuthToken_def peer_Login_def
  by (intro returns_rules returns_Ret returns_map choose_returns [OF assms])

text \<open>The messages of a group are not tested for their commands.\<close>

definition group_replies_ok :: "'c im \<Rightarrow> bool" where
  "group_replies_ok st \<longleftrightarrow> (\<forall>i a u g sync ts r s. rpc_SyncGroupMessage a u g sync ts (im_store st i) = Some (Ret (r, s))
     \<longrightarrow> history_parsable (hr_Messages r))"

lemma HandleGroupSync_returns:
  assumes "servers_ok cf" "group_replies_ok st"
  shows "returns (HandleGroupSync cf c key st)"
proof -
  have "returns (sync_messages cf cn (rev (hr_Messages r)))"
    if call: "rpc_call cf i (\<lambda>s. returned (rpc_SyncGroupMessage a u g sync ts s)) st1 = (Some r, st2)"
      and find: "im_FindGroup g' st = (x, st1)" for cn i a u g g' sync ts r x and st1 st2 :: "'a im"
  proof -
    obtain s where "returned (rpc_SyncGroupMessage a u g sync ts (im_store st1 i)) = Ret (r, s)"
      using rpc_call_Some [OF call] by blast
    moreover have "im_store st1 = im_store st" using find by (auto simp: im_FindGroup_def Let_def split: prod.splits)
    ultimately have "history_parsable (hr_Messages r)" using assms(2) unfolding returned_Some group_replies_ok_def by metis
    then show ?thesis by (intro sync_messages_returns) (simp add: history_parsable_def)
  qed
  then show ?thesis
    unfolding HandleGroupSync_def
    by (intro returns_rules returns_Ret returns_map choose_returns [OF assms(1)]) simp_all
qed

lemma on_im_go_returns: "returns (f (sv_im sv)) \<Longrightarrow> returns (on_im_go f sv)"
  unfolding on_im_go_def by (intro returns_map)

lemma group_HandleMessage_returns:
  assumes "servers_ok cf" "typed m" "Cmd m = MSG_SYNC_GROUP \<Longrightarrow> group_replies_ok (sv_im sv)"
  shows "returns (group_HandleMessage cf wait c m sv)"
proof -
  note body = typed_body [OF assms(2) _ creator_client(2), THEN kind_body(1)]
    typed_body [OF assms(2) _ creator_client(7), THEN kind_body(5)]
    typed_body [OF assms(2) _ creator_client(8), THEN kind_body(5)]
  have super: "returns (HandleSuperGroupMessage cf c msg g st)" for msg g st
    unfolding HandleSuperGroupMessage_def
    by (intro returns_rules returns_Ret returns_map sends_return [OF assms(1)] push_group_returns [OF assms(1)])
  have "returns (HandleGroupIMMessage cf wait c m sv)" if "Body m = Some (BIM im)" for im
    unfolding HandleGroupIMMessage_def HandleGroupMessage_def that option.case body.case
    by (intro returns_rules returns_Ret returns_map choose_returns [OF assms(1)] super)
  then show ?thesis
    using body HandleGroupSync_returns [OF assms(1)] assms(3)
    by (auto simp: group_HandleMessage_def returns_Ret intro!: on_im_go_returns)
qed

text \<open>The four handlers that see every message leave those of the others alone.\<close>

lemma peer_ignores_group: "Cmd m = MSG_SYNC_GROUP \<Longrightarrow> peer_HandleMessage cf c m st = Ret st"
  by (simp add: peer_HandleMessage_def)

lemma client_HandleMessage_returns:
  assumes "servers_ok cf" "typed m" "group_replies_ok (sv_im sv)"
  shows "returns (client_HandleMessage cf wait c m sv)"
proof -
  note body = typed_body [OF assms(2) _ creator_client(14), THEN kind_body(9)]
    typed_body [OF assms(2) _ creator_client(15), THEN kind_body(10)]
  have first: "returns (if Cmd m = MSG_AUTH_TOKEN then
          (case Body m of
             Some (BAuthToken login) \<Rightarrow> on_im_go (HandleAuthToken cf c login (Version m)) sv
           | _ \<Rightarrow> Panic)
        else if Cmd m = MSG_ACK then (case Body m of Some (BAck a) \<Rightarrow> Ret sv | _ \<Rightarrow> Panic)
        else if Cmd m = MSG_PING then on_im_go (\<lambda>st. Ret (HandlePing c st)) sv
        else Ret sv)"
    using body HandleAuthToken_returns [OF assms(1)] by (auto simp: returns_Ret intro!: on_im_go_returns)
  show ?thesis
    unfolding client_HandleMessage_def
    by (intro returns_bind first on_im_go_returns peer_HandleMessage_returns [OF assms(1,2)]
        group_HandleMessage_returns [OF assms(1,2)] room_HandleMessage_returns [OF assms(1,2)]
        customer_HandleMessage_returns [OF assms(1,2)])
      (use assms(3) in \<open>auto simp: peer_ignores_group on_im_go_def\<close>)
qed

lemma HandleClientClosed_returns:
  assumes "servers_ok cf"
  shows "returns (HandleClientClosed cf c st)"
  unfolding HandleClientClosed_def room_Logout_def peer_Logout_def
  by (intro returns_rules returns_Ret returns_map choose_returns [OF assms])

section \<open>What a client sends\<close>

lemma external_parsable: "external_message cmd \<Longrightarrow> parsable cmd"
  by (auto simp: external_message_def parsable_def creator_def core_creators_def route_creators_def
      storage_creators_def)

lemma ReceiveClientMessage_returns: "returns (ReceiveClientMessage conn)"
proof -
  have "returns (receive_with body_FromData lim True conn)" for lim
  proof (cases "fst (read_frame lim True conn)")
    case (Some frame)
    obtain cmd seq version flag buff where f: "frame = (cmd, seq, version, flag, buff)" by (cases frame)
    have "external_message cmd" using Some f by (auto simp: read_frame_def Let_def split: if_splits prod.splits)
    then have p: "parsable cmd" by (rule external_parsable)
    have "\<exists>b ok. body_FromData k version buff = Ret (b, ok)" if "creator cmd = Some k" for k
      using p that by (cases k) (auto simp: parsable_def ret_body_def)
    then have "returns (message_FromData body_FromData cmd version buff)"
      by (cases "creator cmd") (auto simp: message_FromData_def returns_def)
    then show ?thesis using Some f by (auto simp: receive_with_def intro: returns_map)
  qed (simp add: receive_with_def returns_def)
  then show ?thesis unfolding ReceiveClientMessage_def ReceiveLimitMessage_def by (intro returns_map)
qed

lemma client_Read_returns:
  assumes "servers_ok cf" "group_replies_ok (sv_im sv)" "\<And>m. msg = Some m \<Longrightarrow> typed m"
  shows "returns (client_Read cf wait c msg sv)"
  unfolding client_Read_def
  by (intro returns_rules returns_map on_im_go_returns HandleClientClosed_returns client_HandleMessage_returns assms)

end
