(* ===== verification/ClientProperties.thy ===== *)
theory ClientProperties
  imports ClientSafety SmallServer StorageProperties
begin

text \<open>
  What a client can do to the server by the bytes that it sends.
\<close>

section \<open>Bodies have the type of their command\<close>





section \<open>No client makes the server panic\<close>





end
