(* ===== verification/EventStream.thy ===== *)
theory EventStream
  imports Text
begin

text \<open>
  How \<^verbatim>\<open>im/group_manager.go\<close> and \<^verbatim>\<open>im/relationship_pool.go\<close> follow a redis stream of events: the
  first position (\<open>load\<close>), the connection with its rounds (\<open>RunOnce\<close>) and the reconnects (\<open>Run\<close>). Both
  files have the same text but for the event and the cache; the theory states it once, over the operations
  of the cache, and the two caches provide them.

  Redis and the client library are outside of the program: what their calls return is an argument here.
\<close>

section \<open>Connecting\<close>

text \<open>What the three calls that set up a connection answer, and the set-up as each program has it.\<close>

record redis_dial =
  rd_dial :: bool
  rd_auth :: bool
  rd_select :: bool

definition redis_Dial :: "string \<Rightarrow> int \<Rightarrow> redis_dial \<Rightarrow> bool" where
  "redis_Dial password db r \<longleftrightarrow>
     rd_dial r \<and> (0 < length password \<longrightarrow> rd_auth r) \<and> (0 < db \<and> db < 16 \<longrightarrow> rd_select r)"

text \<open>The seconds to sleep before the next attempt.\<close>

definition backoff :: "bool \<Rightarrow> int \<Rightarrow> int" where
  "backoff connected nsleep =
     (if \<not> connected then (let nsleep = nsleep * 2 in if nsleep > 60 then 60 else nsleep) else 1)"

lemma backoff_bounds: "1 \<le> nsleep \<Longrightarrow> 1 \<le> backoff c nsleep \<and> backoff c nsleep \<le> 60"
  by (simp add: backoff_def Let_def)

section \<open>Replies\<close>

text \<open>\<open>ErrNil\<close> is the error of \<^verbatim>\<open>redigo\<close> for a nil reply, \<open>RedisErr\<close> any other.\<close>

datatype 'a redis_result = Found 'a | ErrNil | RedisErr

text \<open>
  The value of \<open>groups_actions\<close> and \<open>friends_actions\<close>: the ids of the last two actions with a colon
  between them. \<open>None\<close> is an error.
\<close>

definition parse_actions :: "string \<Rightarrow> int64 option" where
  "parse_actions actions =
     (if actions = [] then Some 0
      else case Split CHR '':'' actions of
             [a, b] \<Rightarrow> (case ParseInt64 a of None \<Rightarrow> None | Some _ \<Rightarrow> ParseInt64 b)
           | _ \<Rightarrow> None)"

definition action_id_of :: "string redis_result \<Rightarrow> int64 option" where
  "action_id_of r = (case r of RedisErr \<Rightarrow> None | ErrNil \<Rightarrow> parse_actions [] | Found actions \<Rightarrow> parse_actions actions)"

text \<open>The reply to \<open>XREVRANGE\<close>; the element \<open>None\<close> of a list is an entry that \<open>redis.Scan\<close> refuses.\<close>

definition last_entry_of :: "string option list redis_result \<Rightarrow> string option" where
  "last_entry_of r =
     (case r of
        Found [] \<Rightarrow> Some ''0-0''
      | Found (e # _) \<Rightarrow> e
      | _ \<Rightarrow> None)"

text \<open>The loop of \<open>load\<close>, over the replies of its rounds; \<open>None\<close>: it has not ended yet.\<close>

fun load_rounds ::
  "(int64 \<Rightarrow> string \<Rightarrow> 's \<Rightarrow> 's) \<Rightarrow> (string redis_result \<times> string option list redis_result) list \<Rightarrow> 's \<Rightarrow> 's option"
where
  "load_rounds set_ids [] s = None"
| "load_rounds set_ids ((actions, entries) # rs) s =
     (case action_id_of actions of
        None \<Rightarrow> load_rounds set_ids rs s
      | Some action_id \<Rightarrow>
          (case last_entry_of entries of
             None \<Rightarrow> load_rounds set_ids rs s
           | Some entry_id \<Rightarrow> Some (set_ids action_id entry_id s)))"

text \<open>
  The reply to \<open>XREAD\<close>: an error of the call (or of the two outer scans), nothing before the timeout, or
  entries with their ids and fields.
\<close>

datatype 'f xread = XErr | XNil | XReply "(string \<times> 'f) option list"

fun scan_entries :: "(string \<Rightarrow> 'f \<Rightarrow> 'e) \<Rightarrow> (string \<times> 'f) option list \<Rightarrow> 'e list option" where
  "scan_entries event [] = Some []"
| "scan_entries event (None # es) = None"
| "scan_entries event (Some (i, f) # es) = map_option (\<lambda>evs. event i f # evs) (scan_entries event es)"

definition read_events :: "(string \<Rightarrow> 'f \<Rightarrow> 'e) \<Rightarrow> 'f xread \<Rightarrow> 'e list option" where
  "read_events event x = (case x of XErr \<Rightarrow> None | XNil \<Rightarrow> Some [] | XReply es \<Rightarrow> scan_entries event es)"

section \<open>Rounds and reconnects\<close>

text \<open>
  \<open>step now events (last_clear_ts, s)\<close> is one round once its events are read; the loop of \<open>RunOnce\<close> ends
  at the first reply that cannot be read.
\<close>

fun read_rounds ::
  "(string \<Rightarrow> 'f \<Rightarrow> 'e) \<Rightarrow> (int64 \<Rightarrow> 'e list \<Rightarrow> int64 \<times> 's \<Rightarrow> int64 \<times> 's) \<Rightarrow> (int64 \<times> 'f xread) list
   \<Rightarrow> int64 \<times> 's \<Rightarrow> int64 \<times> 's"
where
  "read_rounds event step [] s = s"
| "read_rounds event step ((now, x) # xs) s =
     (case read_events event x of None \<Rightarrow> s | Some evs \<Rightarrow> read_rounds event step xs (step now evs s))"

text \<open>The loop of \<open>Run\<close>: connections, each with the replies it gets; the sleep before the next one.\<close>

fun run_connections ::
  "(string \<Rightarrow> 'f \<Rightarrow> 'e) \<Rightarrow> (int64 \<Rightarrow> 'e list \<Rightarrow> int64 \<times> 's \<Rightarrow> int64 \<times> 's)
   \<Rightarrow> (bool \<times> (int64 \<times> 'f xread) list) list \<Rightarrow> int \<times> 's \<Rightarrow> int \<times> 's"
where
  "run_connections event step [] s = s"
| "run_connections event step ((connected, xs) # cs) (nsleep, s) =
     run_connections event step cs
       (backoff connected nsleep, if connected then snd (read_rounds event step xs (0, s)) else s)"

section \<open>The events of a run\<close>

text \<open>The events that are handled, by the replies alone.\<close>

fun round_events :: "(string \<Rightarrow> 'f \<Rightarrow> 'e) \<Rightarrow> (int64 \<times> 'f xread) list \<Rightarrow> 'e list" where
  "round_events event [] = []"
| "round_events event ((now, x) # xs) =
     (case read_events event x of None \<Rightarrow> [] | Some evs \<Rightarrow> evs @ round_events event xs)"

definition run_events :: "(string \<Rightarrow> 'f \<Rightarrow> 'e) \<Rightarrow> (bool \<times> (int64 \<times> 'f xread) list) list \<Rightarrow> 'e list" where
  "run_events event cs = concat (map (\<lambda>(connected, xs). if connected then round_events event xs else []) cs)"

text \<open>
  What redis documents of \<open>XREAD\<close>: the first entries of the stream, as far as they are published, whose
  ids come after the one asked for. \<open>st\<close> is all that is ever published.
\<close>

definition entries_after :: "string \<Rightarrow> (string \<times> 'f) list \<Rightarrow> (string \<times> 'f) list" where
  "entries_after i st = (if i = ''0-0'' then st else tl (dropWhile (\<lambda>e. fst e \<noteq> i) st))"

definition xread_ok :: "string \<Rightarrow> (string \<times> 'f) list \<Rightarrow> 'f xread \<Rightarrow> bool" where
  "xread_ok i st x \<longleftrightarrow>
     (\<forall>es. x = XReply es \<longrightarrow> None \<notin> set es \<longrightarrow> (\<exists>k n. es = map Some (take n (entries_after i (take k st)))))"

text \<open>Every reply of a run is one to the position that the cache has when it asks.\<close>

fun replies_ok ::
  "('s \<Rightarrow> string) \<Rightarrow> (string \<times> 'f) list \<Rightarrow> (string \<Rightarrow> 'f \<Rightarrow> 'e) \<Rightarrow> (int64 \<Rightarrow> 'e list \<Rightarrow> int64 \<times> 's \<Rightarrow> int64 \<times> 's)
   \<Rightarrow> (int64 \<times> 'f xread) list \<Rightarrow> int64 \<times> 's \<Rightarrow> bool"
where
  "replies_ok position st event step [] s = True"
| "replies_ok position st event step ((now, x) # xs) s =
     (xread_ok (position (snd s)) st x \<and>
      (case read_events event x of None \<Rightarrow> True | Some evs \<Rightarrow> replies_ok position st event step xs (step now evs s)))"

fun connections_ok ::
  "('s \<Rightarrow> string) \<Rightarrow> (string \<times> 'f) list \<Rightarrow> (string \<Rightarrow> 'f \<Rightarrow> 'e) \<Rightarrow> (int64 \<Rightarrow> 'e list \<Rightarrow> int64 \<times> 's \<Rightarrow> int64 \<times> 's)
   \<Rightarrow> (bool \<times> (int64 \<times> 'f xread) list) list \<Rightarrow> 's \<Rightarrow> bool"
where
  "connections_ok position st event step [] s = True"
| "connections_ok position st event step ((connected, xs) # cs) s =
     ((connected \<longrightarrow> replies_ok position st event step xs (0, s)) \<and>
      connections_ok position st event step cs (if connected then snd (read_rounds event step xs (0, s)) else s))"

lemma segment: "take (n + m) xs = take n xs @ take m (drop n xs)" "drop (n + m) xs = drop m (drop n xs)"
  by (rule take_add) (simp add: add.commute)

lemma scan_entries_Some: "scan_entries event (map Some es) = Some (map (\<lambda>(i, f). event i f) es)"
  by (induction es) auto

lemma scan_entries_None: "scan_entries event es = Some evs \<Longrightarrow> None \<notin> set es"
  by (induction event es arbitrary: evs rule: scan_entries.induct) auto

lemma entries_after_prefix: "\<exists>n. entries_after i (take k st) = take n (entries_after i st)"
proof (cases "i = ''0-0''")
  case False
  have "\<exists>n. dropWhile P (take k st) = take n (dropWhile P st)" for P :: "_ \<Rightarrow> bool"
  proof (induction st arbitrary: k)
    case (Cons e st)
    show ?case
    proof (cases k)
      case (Suc j)
      then show ?thesis using Cons [of j] by (auto intro: exI [of _ k])
    qed (simp add: exI [of _ 0])
  qed simp
  from this [of "\<lambda>e. fst e \<noteq> i"] obtain n where "dropWhile (\<lambda>e. fst e \<noteq> i) (take k st) = take n (dropWhile (\<lambda>e. fst e \<noteq> i) st)" ..
  then have "entries_after i (take k st) = tl (take n (dropWhile (\<lambda>e. fst e \<noteq> i) st))"
    using False by (simp add: entries_after_def)
  also have "\<dots> = take (n - 1) (entries_after i st)" using False by (simp add: entries_after_def tl_take)
  finally show ?thesis ..
qed (auto simp: entries_after_def)

lemma xread_prefix:
  assumes "xread_ok i st x" "read_events event x = Some evs"
  shows "\<exists>n. evs = map (\<lambda>(i, f). event i f) (take n (entries_after i st))"
proof (cases x)
  case (XReply es)
  then have "None \<notin> set es" using assms(2) scan_entries_None by (auto simp: read_events_def)
  then obtain k n where es: "es = map Some (take n (entries_after i (take k st)))"
    using assms(1) XReply unfolding xread_ok_def by blast
  obtain m where "entries_after i (take k st) = take m (entries_after i st)" using entries_after_prefix by blast
  then show ?thesis
    using assms(2) unfolding XReply es read_events_def by (auto simp: scan_entries_Some)
qed (use assms in \<open>auto simp: read_events_def intro: exI [of _ 0]\<close>)

text \<open>After the first entries of the rest of a stream comes the rest after them.\<close>

lemma entries_after_next:
  assumes "distinct (map fst st)" "''0-0'' \<notin> fst ` set st" "take n (entries_after i st) = es @ [(j, f)]"
  shows "entries_after j st = drop n (entries_after i st)" "j \<in> fst ` set st"
proof -
  have "\<exists>xs. st = xs @ tl (dropWhile P st)" for P :: "_ \<Rightarrow> bool"
    using takeWhile_dropWhile_id [of P st] by (cases "dropWhile P st") (metis append_Nil2 list.sel(2), metis append.assoc append_Cons append_Nil list.sel(3))
  then have "\<exists>xs. st = xs @ entries_after i st" by (auto simp: entries_after_def)
  then obtain xs where "st = xs @ entries_after i st" ..
  then have st: "st = (xs @ es) @ (j, f) # drop n (entries_after i st)"
    using assms(3) append_take_drop_id [of n "entries_after i st"] by (metis append.assoc append_Cons append_Nil)
  then have "(j, f) \<in> set st" by (metis in_set_conv_decomp)
  then show j: "j \<in> fst ` set st" by force
  then have "j \<noteq> ''0-0''" using assms(2) by blast
  moreover have "j \<notin> fst ` set (xs @ es)" using assms(1) by (subst (asm) st) auto
  then have "dropWhile (\<lambda>e. fst e \<noteq> j) ((xs @ es) @ (j, f) # ys) = (j, f) # ys" for ys
    by (subst dropWhile_append2) force+
  ultimately show "entries_after j st = drop n (entries_after i st)"
    unfolding entries_after_def [of j] by (subst st) simp
qed

section \<open>The interface of a cache that follows a stream\<close>

text \<open>
  \<open>handle\<close> is the handler of an event, \<open>reset\<close> what the lazy policy does to a dirty cache, \<open>step\<close> a round.
  An event carries the id of its entry, its own action id and the one before it.
\<close>

locale event_cache =
  fixes handle :: "int64 \<Rightarrow> 'e \<Rightarrow> 's \<Rightarrow> 's" and reset :: "int64 \<Rightarrow> 's \<Rightarrow> 's"
    and step :: "int64 \<Rightarrow> 'e list \<Rightarrow> int64 \<times> 's \<Rightarrow> int64 \<times> 's"
    and position :: "'s \<Rightarrow> string" and action :: "'s \<Rightarrow> int64" and dirty :: "'s \<Rightarrow> bool"
    and entry_id :: "'e \<Rightarrow> string" and action_of :: "'e \<Rightarrow> int64" and previous_of :: "'e \<Rightarrow> int64"
  assumes handled: "position (handle now e s) = entry_id e" "action (handle now e s) = action_of e"
      "dirty (handle now e s) \<longleftrightarrow> dirty s \<or> action s \<noteq> previous_of e"
    and reset_keeps: "position (reset now s) = position s" "action (reset now s) = action s" "\<not> dirty (reset now s)"
    and step_round: "step now evs (t, s) =
      (let s = foldl (\<lambda>s e. handle now e s) s evs
       in if dirty s \<and> sint (now - t) \<ge> 60 then (now, reset now s) else (t, s))"
begin

lemma step_position:
  "position (snd (step now evs s)) = (if evs = [] then position (snd s) else entry_id (last evs))"
proof -
  have "position (foldl (\<lambda>s e. handle now e s) u evs) = (if evs = [] then position u else entry_id (last evs))" for u
    by (cases evs rule: rev_cases) (simp_all add: handled)
  then show ?thesis by (cases s) (simp add: step_round Let_def reset_keeps)
qed

text \<open>A round moves the position by the entries whose events it has handled.\<close>

lemma step_moves:
  assumes st: "distinct (map fst st)" "''0-0'' \<notin> fst ` set st" and ids: "\<And>i f. entry_id (event i f) = i"
    and x: "xread_ok (position (snd s)) st x" "read_events event x = Some evs"
  obtains n where "evs = map (\<lambda>(i, f). event i f) (take n (entries_after (position (snd s)) st))"
    "entries_after (position (snd (step now evs s))) st = drop n (entries_after (position (snd s)) st)"
proof -
  obtain n where n: "evs = map (\<lambda>(i, f). event i f) (take n (entries_after (position (snd s)) st))"
    using xread_prefix [OF x] by blast
  show thesis
  proof (cases "take n (entries_after (position (snd s)) st)" rule: rev_cases)
    case Nil
    then show thesis using n that [of 0] by (simp add: step_position)
  next
    case (snoc es e)
    obtain j f where e: "e = (j, f)" by (cases e)
    have "position (snd (step now evs s)) = j" using n snoc by (simp add: step_position e ids)
    with entries_after_next(1) [OF st snoc [unfolded e]] n show thesis by (intro that [of n]) simp_all
  qed
qed

lemma rounds_move:
  assumes st: "distinct (map fst st)" "''0-0'' \<notin> fst ` set st" and ids: "\<And>i f. entry_id (event i f) = i"
    and "replies_ok position st event step xs s"
  shows "\<exists>n. round_events event xs = map (\<lambda>(i, f). event i f) (take n (entries_after (position (snd s)) st))
    \<and> entries_after (position (snd (read_rounds event step xs s))) st = drop n (entries_after (position (snd s)) st)"
  using assms(4)
proof (induction xs arbitrary: s)
  case Nil
  then show ?case by (auto intro: exI [of _ 0])
next
  case (Cons r xs)
  obtain now x where r: "r = (now, x)" by (cases r)
  show ?case
  proof (cases "read_events event x")
    case None
    then show ?thesis by (auto simp: r intro: exI [of _ 0])
  next
    case (Some evs)
    then have x: "xread_ok (position (snd s)) st x" and rest: "replies_ok position st event step xs (step now evs s)"
      using Cons.prems by (simp_all add: r)
    obtain n where n: "evs = map (\<lambda>(i, f). event i f) (take n (entries_after (position (snd s)) st))"
      "entries_after (position (snd (step now evs s))) st = drop n (entries_after (position (snd s)) st)"
      using step_moves [OF st ids x Some] .
    obtain m where m: "round_events event xs = map (\<lambda>(i, f). event i f) (take m (drop n (entries_after (position (snd s)) st)))"
      "entries_after (position (snd (read_rounds event step xs (step now evs s)))) st = drop m (drop n (entries_after (position (snd s)) st))"
      using Cons.IH [OF rest] n(2) by auto
    then show ?thesis using Some n(1) by (intro exI [of _ "n + m"]) (simp add: r segment del: drop_drop)
  qed
qed

text \<open>Whatever fails in between, the events of a run are those after its first position, in order, each once.\<close>

lemma run_in_order:
  assumes st: "distinct (map fst st)" "''0-0'' \<notin> fst ` set st" and ids: "\<And>i f. entry_id (event i f) = i"
    and "connections_ok position st event step cs s"
  shows "\<exists>n. run_events event cs = map (\<lambda>(i, f). event i f) (take n (entries_after (position s) st))
    \<and> entries_after (position (snd (run_connections event step cs (nsleep, s)))) st = drop n (entries_after (position s) st)"
  using assms(4)
proof (induction cs arbitrary: s nsleep)
  case Nil
  then show ?case by (auto simp: run_events_def intro: exI [of _ 0])
next
  case (Cons c cs)
  obtain connected xs where c: "c = (connected, xs)" by (cases c)
  define s' where "s' = (if connected then snd (read_rounds event step xs (0, s)) else s)"
  have "\<exists>n. (if connected then round_events event xs else []) = map (\<lambda>(i, f). event i f) (take n (entries_after (position s) st))
      \<and> entries_after (position s') st = drop n (entries_after (position s) st)"
    using Cons.prems rounds_move [OF st ids, where xs = xs and s = "(0, s)"]
    by (cases connected) (auto simp: c s'_def intro: exI [of _ 0])
  then obtain n where n: "(if connected then round_events event xs else [])
      = map (\<lambda>(i, f). event i f) (take n (entries_after (position s) st))"
    "entries_after (position s') st = drop n (entries_after (position s) st)" by blast
  have "connections_ok position st event step cs s'" using Cons.prems by (simp add: c s'_def)
  from Cons.IH [OF this, of "backoff connected nsleep"] obtain m where
    m: "run_events event cs = map (\<lambda>(i, f). event i f) (take m (drop n (entries_after (position s) st)))"
    "entries_after (position (snd (run_connections event step cs (backoff connected nsleep, s')))) st
      = drop m (drop n (entries_after (position s) st))"
    using n(2) by auto
  show ?case
    using n(1) m by (intro exI [of _ "n + m"]) (simp add: c run_events_def s'_def [symmetric] segment del: drop_drop)
qed

text \<open>An event that does not follow the one before it is noticed, and the cache is reset within a minute.\<close>

lemma dirty_stays: "dirty s \<Longrightarrow> dirty (foldl (\<lambda>s e. handle now e s) s evs)"
  by (induction evs arbitrary: s) (simp_all add: handled)

lemma gap_noticed:
  assumes "action (foldl (\<lambda>s e. handle now e s) s xs) \<noteq> previous_of e"
  shows "dirty (foldl (\<lambda>s e. handle now e s) s (xs @ e # ys))"
  using assms by (simp add: dirty_stays handled)

lemma dirty_reset:
  assumes "dirty s \<or> (\<exists>xs e ys. evs = xs @ e # ys \<and> action (foldl (\<lambda>s e. handle now e s) s xs) \<noteq> previous_of e)"
  shows "step now evs (t, s) = (if sint (now - t) \<ge> 60 then (now, reset now (foldl (\<lambda>s e. handle now e s) s evs))
      else (t, foldl (\<lambda>s e. handle now e s) s evs)) \<and> dirty (foldl (\<lambda>s e. handle now e s) s evs)"
proof -
  have "dirty (foldl (\<lambda>s e. handle now e s) s evs)" using assms dirty_stays gap_noticed by metis
  then show ?thesis by (simp add: step_round Let_def)
qed

lemma clean_no_gap:
  assumes "\<not> dirty (foldl (\<lambda>s e. handle now e s) s evs)"
  shows "\<not> dirty s" "evs = xs @ e # ys \<Longrightarrow> action (foldl (\<lambda>s e. handle now e s) s xs) = previous_of e"
  using assms dirty_stays gap_noticed by blast+

end

end
