(* ===== verification/EventCaches.thy ===== *)
theory EventCaches
  imports EventStream Group Relationship
begin

text \<open>
  The two caches of \<^verbatim>\<open>im\<close> that follow a stream of events, the groups and the relationships: their
  readers and loops over the operations of \<open>EventStream\<close>, and the interface \<open>event_cache\<close> that both provide.
\<close>

section \<open>Groups\<close>

definition gm_getActionID :: "string redis_result \<Rightarrow> int64 option" where
  "gm_getActionID = action_id_of"

definition gm_getLastEntryID :: "string option list redis_result \<Rightarrow> string option" where
  "gm_getLastEntryID = last_entry_of"

definition gm_load_loop ::
  "(string redis_result \<times> string option list redis_result) list \<Rightarrow> group_manager \<Rightarrow> group_manager option"
where
  "gm_load_loop = load_rounds gm_load"

text \<open>\<open>scan\<close> is \<open>redis.ScanStruct\<close>: it sets the fields of the event that the entry has.\<close>

definition new_group_event :: "('f \<Rightarrow> group_event \<Rightarrow> group_event) \<Rightarrow> string \<Rightarrow> 'f \<Rightarrow> group_event" where
  "new_group_event scan i fs = scan fs
     \<lparr>ge_Id = i, ge_ActionId = 0, ge_PreviousActionId = 0, ge_Name = [], ge_AppId = 0, ge_GroupId = 0,
      ge_MemberId = 0, ge_IsSuper = False, ge_IsMute = False\<rparr>"

definition gm_readEvents :: "('f \<Rightarrow> group_event \<Rightarrow> group_event) \<Rightarrow> 'f xread \<Rightarrow> group_event list option" where
  "gm_readEvents scan = read_events (new_group_event scan)"

definition gm_RunOnce ::
  "string \<Rightarrow> int \<Rightarrow> ('f \<Rightarrow> group_event \<Rightarrow> group_event) \<Rightarrow> redis_dial \<Rightarrow> (int64 \<times> 'f xread) list
   \<Rightarrow> group_manager \<Rightarrow> bool \<times> group_manager"
where
  "gm_RunOnce password db scan dial xs gm =
     (if redis_Dial password db dial
      then (True, snd (read_rounds (new_group_event scan) event_round xs (0, gm))) else (False, gm))"

fun gm_Run ::
  "string \<Rightarrow> int \<Rightarrow> ('f \<Rightarrow> group_event \<Rightarrow> group_event) \<Rightarrow> (redis_dial \<times> (int64 \<times> 'f xread) list) list
   \<Rightarrow> int \<times> group_manager \<Rightarrow> int \<times> group_manager"
where
  "gm_Run password db scan [] s = s"
| "gm_Run password db scan ((dial, xs) # cs) (nsleep, gm) =
     (let (connected, gm) = gm_RunOnce password db scan dial xs gm
      in gm_Run password db scan cs (backoff connected nsleep, gm))"

text \<open>The handlers of the events change the cached groups only.\<close>

lemma touch_fields [simp]:
  "gm_action_id (touch now g gm) = gm_action_id gm" "gm_dirty (touch now g gm) = gm_dirty gm"
  by (simp_all add: touch_def split: option.split)

lemma change_group_fields [simp]:
  "gm_action_id (change_group now g f gm) = gm_action_id gm" "gm_dirty (change_group now g f gm) = gm_dirty gm"
  by (simp_all add: change_group_def FindGroup_def Let_def split: option.split)

lemmas group_handlers = HandleCreate_def HandleDisband_def HandleUpgrade_def HandleMemberAdd_def
  HandleMemberRemove_def HandleMute_def

lemma handleEvent_dirty: "gm_dirty (handleEvent now e gm) \<longleftrightarrow> gm_dirty gm \<or> gm_action_id gm \<noteq> ge_PreviousActionId e"
  by (simp add: handleEvent_def group_handlers Let_def)

interpretation groups: event_cache handleEvent "\<lambda>now gm. (gm_clear gm)\<lparr>gm_dirty := False\<rparr>" event_round
  gm_last_entry_id gm_action_id gm_dirty ge_Id ge_ActionId ge_PreviousActionId
  by unfold_locales (simp_all add: handleEvent_dirty event_round_def gm_clear_def Let_def, simp_all add: handleEvent_def Let_def)

section \<open>Relationships\<close>

definition pool_getActionID :: "string redis_result \<Rightarrow> int64 option" where
  "pool_getActionID = action_id_of"

definition pool_getLastEntryID :: "string option list redis_result \<Rightarrow> string option" where
  "pool_getLastEntryID = last_entry_of"

definition pool_load_loop ::
  "(string redis_result \<times> string option list redis_result) list \<Rightarrow> relationship_pool \<Rightarrow> relationship_pool option"
where
  "pool_load_loop = load_rounds pool_load"

definition new_relationship_event ::
  "('f \<Rightarrow> relationship_event \<Rightarrow> relationship_event) \<Rightarrow> string \<Rightarrow> 'f \<Rightarrow> relationship_event"
where
  "new_relationship_event scan i fs = scan fs
     \<lparr>re_Id = i, re_ActionId = 0, re_PreviousActionId = 0, re_Name = [], re_AppId = 0, re_Uid = 0,
      re_FriendUid = 0, re_IsFriend = False, re_IsBlacklist = False\<rparr>"

definition pool_readEvents ::
  "('f \<Rightarrow> relationship_event \<Rightarrow> relationship_event) \<Rightarrow> 'f xread \<Rightarrow> relationship_event list option"
where
  "pool_readEvents scan = read_events (new_relationship_event scan)"

definition pool_RunOnce ::
  "string \<Rightarrow> int \<Rightarrow> relation_db \<Rightarrow> ('f \<Rightarrow> relationship_event \<Rightarrow> relationship_event) \<Rightarrow> redis_dial
   \<Rightarrow> (int64 \<times> 'f xread) list \<Rightarrow> relationship_pool \<Rightarrow> bool \<times> relationship_pool"
where
  "pool_RunOnce password db rd scan dial xs rp =
     (if redis_Dial password db dial
      then (True, snd (read_rounds (new_relationship_event scan) (pool_round rd) xs (0, rp))) else (False, rp))"

fun pool_Run ::
  "string \<Rightarrow> int \<Rightarrow> relation_db \<Rightarrow> ('f \<Rightarrow> relationship_event \<Rightarrow> relationship_event)
   \<Rightarrow> (redis_dial \<times> (int64 \<times> 'f xread) list) list \<Rightarrow> int \<times> relationship_pool \<Rightarrow> int \<times> relationship_pool"
where
  "pool_Run password db rd scan [] s = s"
| "pool_Run password db rd scan ((dial, xs) # cs) (nsleep, rp) =
     (let (connected, rp) = pool_RunOnce password db rd scan dial xs rp
      in pool_Run password db rd scan cs (backoff connected nsleep, rp))"

text \<open>The key of an item, as text: \<open>parseKey\<close> reads what the pool builds with \<open>Sprintf\<close>.\<close>

definition relationship_key :: "int64 \<times> int64 \<times> int64 \<Rightarrow> string" where
  "relationship_key k = (case k of (appid, uid, friend_uid) \<Rightarrow>
     format_int64 appid @ '':'' @ format_int64 uid @ '':'' @ format_int64 friend_uid)"

definition parseKey :: "string \<Rightarrow> (int64 \<times> int64 \<times> int64) option" where
  "parseKey k =
     (case Split CHR '':'' k of
        [a, b, c] \<Rightarrow>
          (case ParseInt64 a of None \<Rightarrow> None | Some appid \<Rightarrow>
          (case ParseInt64 b of None \<Rightarrow> None | Some uid \<Rightarrow>
          (case ParseInt64 c of None \<Rightarrow> None | Some friend_uid \<Rightarrow> Some (appid, uid, friend_uid))))
      | _ \<Rightarrow> None)"

lemma parseKey_relationship_key [simp]: "parseKey (relationship_key k) = Some k"
  by (cases k) (simp add: parseKey_def relationship_key_def)

lemma relationship_key_inject: "relationship_key k = relationship_key k' \<longleftrightarrow> k = k'"
  by (metis parseKey_relationship_key option.inject)




section \<open>Runs\<close>

text \<open>A run handles its events in rounds: \<open>chunks\<close> has the events of every round, with its time, by connection.\<close>

definition apply_rounds ::
  "(int64 \<Rightarrow> 'e list \<Rightarrow> int64 \<times> 's \<Rightarrow> int64 \<times> 's) \<Rightarrow> (int64 \<times> 'e list) list \<Rightarrow> int64 \<times> 's \<Rightarrow> int64 \<times> 's"
where
  "apply_rounds step ch s = foldl (\<lambda>s (now, evs). step now evs s) s ch"

definition apply_connections ::
  "(int64 \<Rightarrow> 'e list \<Rightarrow> int64 \<times> 's \<Rightarrow> int64 \<times> 's) \<Rightarrow> (int64 \<times> 'e list) list list \<Rightarrow> 's \<Rightarrow> 's"
where
  "apply_connections step chunks s = foldl (\<lambda>s ch. snd (apply_rounds step ch (0, s))) s chunks"

lemma read_rounds_chunks:
  "\<exists>ch. concat (map snd ch) = round_events event xs \<and> read_rounds event step xs s = apply_rounds step ch s"
proof (induction xs arbitrary: s)
  case (Cons r xs)
  obtain now x where r: "r = (now, x)" by (cases r)
  show ?case
  proof (cases "read_events event x")
    case (Some evs)
    obtain ch where "concat (map snd ch) = round_events event xs" "read_rounds event step xs (step now evs s) = apply_rounds step ch (step now evs s)"
      using Cons by blast
    then show ?thesis using Some by (intro exI [of _ "(now, evs) # ch"]) (simp add: r apply_rounds_def)
  qed (auto simp: r apply_rounds_def intro: exI [of _ "[]"])
qed (auto simp: apply_rounds_def intro: exI [of _ "[]"])

lemma run_chunks:
  "\<exists>chunks. concat (map snd (concat chunks)) = run_events event cs
    \<and> snd (run_connections event step cs (n, s)) = apply_connections step chunks s"
proof (induction cs arbitrary: n s)
  case (Cons c cs)
  obtain connected xs where c: "c = (connected, xs)" by (cases c)
  obtain ch where ch: "concat (map snd ch) = round_events event xs" "read_rounds event step xs (0, s) = apply_rounds step ch (0, s)"
    using read_rounds_chunks by blast
  define s' where "s' = (if connected then snd (read_rounds event step xs (0, s)) else s)"
  obtain chunks where "concat (map snd (concat chunks)) = run_events event cs"
    "snd (run_connections event step cs (backoff connected n, s')) = apply_connections step chunks s'" using Cons by blast
  then show ?case
    using ch by (intro exI [of _ "if connected then ch # chunks else chunks"])
      (simp add: c run_events_def apply_connections_def s'_def [symmetric], simp add: s'_def)
qed (auto simp: run_events_def apply_connections_def intro: exI [of _ "[]"])

definition dialed :: "string \<Rightarrow> int \<Rightarrow> (redis_dial \<times> 'x) list \<Rightarrow> (bool \<times> 'x) list" where
  "dialed password db cs = map (\<lambda>(dial, xs). (redis_Dial password db dial, xs)) cs"

lemma gm_Run_eq:
  "gm_Run password db scan cs s = run_connections (new_group_event scan) event_round (dialed password db cs) s"
  by (induction password db scan cs s rule: gm_Run.induct) (simp_all add: gm_RunOnce_def dialed_def)

lemma pool_Run_eq:
  "pool_Run password db rd scan cs s = run_connections (new_relationship_event scan) (pool_round rd) (dialed password db cs) s"
  by (induction password db rd scan cs s rule: pool_Run.induct) (simp_all add: pool_RunOnce_def dialed_def)

section \<open>Properties\<close>

text \<open>
  C25: however often the connection to redis fails, is refused, times out or ends in the middle of a stream,
  the group manager handles the events of the stream that come after its position, each once and in their
  order, and its position is the one before the events that are left.
\<close>

theorem group_events_in_order:
  fixes st :: "(string \<times> 'f) list" and scan :: "'f \<Rightarrow> group_event \<Rightarrow> group_event"
  defines "event \<equiv> new_group_event scan"
  assumes "distinct (map fst st)" "''0-0'' \<notin> fst ` set st" and keep: "\<And>fs e. ge_Id (scan fs e) = ge_Id e"
    and replies: "connections_ok gm_last_entry_id st event event_round (dialed password db cs) gm"
  shows "\<exists>n chunks. concat (map snd (concat chunks)) = map (\<lambda>(i, f). event i f) (take n (entries_after (gm_last_entry_id gm) st))
    \<and> snd (gm_Run password db scan cs (nsleep, gm)) = apply_connections event_round chunks gm
    \<and> entries_after (gm_last_entry_id (snd (gm_Run password db scan cs (nsleep, gm)))) st
      = drop n (entries_after (gm_last_entry_id gm) st)"
proof -
  have "ge_Id (event i f) = i" for i f by (simp add: event_def new_group_event_def keep)
  note order = groups.run_in_order [OF assms(2,3) this replies, where nsleep = nsleep]
  obtain chunks where "concat (map snd (concat chunks)) = run_events event (dialed password db cs)"
    "snd (run_connections event event_round (dialed password db cs) (nsleep, gm)) = apply_connections event_round chunks gm"
    using run_chunks [where event = event and step = event_round and cs = "dialed password db cs" and n = nsleep and s = gm] by blast
  with order show ?thesis unfolding gm_Run_eq event_def [symmetric] by metis
qed

text \<open>
  A group is created and gets a member; the first attempt to connect fails, the second connection breaks
  after the first event, the third one times out once before the second event comes.
\<close>

definition keep_id :: "group_event \<Rightarrow> group_event \<Rightarrow> group_event" where
  "keep_id fs e = fs\<lparr>ge_Id := ge_Id e\<rparr>"

definition created :: group_event where
  "created = \<lparr>ge_Id = [], ge_ActionId = 1, ge_PreviousActionId = 0, ge_Name = ''group_create'', ge_AppId = 7,
     ge_GroupId = 9, ge_MemberId = 0, ge_IsSuper = False, ge_IsMute = False\<rparr>"

definition joined :: group_event where
  "joined = \<lparr>ge_Id = [], ge_ActionId = 2, ge_PreviousActionId = 1, ge_Name = ''group_member_add'', ge_AppId = 7,
     ge_GroupId = 9, ge_MemberId = 5, ge_IsSuper = False, ge_IsMute = False\<rparr>"

definition two_events :: "(string \<times> group_event) list" where
  "two_events = [(''100-0'', created), (''100-1'', joined)]"

definition three_attempts :: "(redis_dial \<times> (int64 \<times> group_event xread) list) list" where
  "three_attempts =
     [(\<lparr>rd_dial = False, rd_auth = False, rd_select = False\<rparr>, []),
      (\<lparr>rd_dial = True, rd_auth = True, rd_select = True\<rparr>, [(1000, XReply [Some (''100-0'', created)]), (1001, XErr)]),
      (\<lparr>rd_dial = True, rd_auth = True, rd_select = True\<rparr>, [(1100, XNil), (1101, XReply [Some (''100-1'', joined)])])]"

definition loaded_groups :: group_manager where
  "loaded_groups = gm_load 0 ''0-0'' NewGroupManager"

theorem group_events_in_order_witness:
  "\<exists>n chunks. concat (map snd (concat chunks)) = map (\<lambda>(i, f). new_group_event keep_id i f) (take n two_events)
    \<and> snd (gm_Run ''secret'' 1 keep_id three_attempts (1, loaded_groups)) = apply_connections event_round chunks loaded_groups"
proof -
  have first: "gm_last_entry_id loaded_groups = ''0-0''" by (simp add: loaded_groups_def gm_load_def)
  have ids: "distinct (map fst two_events)" "''0-0'' \<notin> fst ` set two_events" by (simp_all add: two_events_def)
  have one: "xread_ok ''0-0'' two_events (XReply [Some (''100-0'', created)])"
    by (simp add: xread_ok_def, rule exI [of _ 1], rule exI [of _ 1], simp add: two_events_def entries_after_def)
  have two: "xread_ok ''100-0'' two_events (XReply [Some (''100-1'', joined)])"
    by (simp add: xread_ok_def, rule exI [of _ 2], rule exI [of _ 1], simp add: two_events_def entries_after_def)
  have none: "xread_ok i two_events XErr" "xread_ok i two_events XNil" for i by (simp_all add: xread_ok_def)
  have "connections_ok gm_last_entry_id two_events (new_group_event keep_id) event_round
      (dialed ''secret'' 1 three_attempts) loaded_groups"
    by (simp add: three_attempts_def dialed_def redis_Dial_def read_events_def first one none
        groups.step_position new_group_event_def keep_id_def two)
  from group_events_in_order [OF ids _ this] first show ?thesis
    by (simp add: keep_id_def entries_after_def) blast
qed






end
