(* ===== verification/Config.thy ===== *)
theory Config
  imports ClientSafety SmallServer Text
begin

text \<open>
  \<^verbatim>\<open>im/config.go\<close>, \<^verbatim>\<open>ims/config.go\<close>, \<^verbatim>\<open>imr/config.go\<close>: the configuration a process reads, and what
  \<open>Serve\<close> of \<^verbatim>\<open>im/im_server.go\<close> and of \<^verbatim>\<open>ims/storage_server.go\<close> makes of it. The parser of the file
  is a library: its result, the map from keys to values, is the argument, \<open>None\<close> an error.
\<close>

type_synonym app_cfg = "string \<rightharpoonup> string"

section \<open>Reading a key\<close>

definition get_opt_int_or :: "app_cfg \<Rightarrow> string \<Rightarrow> int64 \<Rightarrow> int64 go" where
  "get_opt_int_or m key default_value =
     (case m key of
        None \<Rightarrow> Ret default_value
      | Some s \<Rightarrow> (case ParseInt64 s of None \<Rightarrow> Fatal | Some n \<Rightarrow> Ret n))"

definition get_int :: "app_cfg \<Rightarrow> string \<Rightarrow> int64 go" where
  "get_int m key =
     (case m key of
        None \<Rightarrow> Fatal
      | Some s \<Rightarrow> (case ParseInt64 s of None \<Rightarrow> Fatal | Some n \<Rightarrow> Ret n))"

definition get_opt_int :: "app_cfg \<Rightarrow> string \<Rightarrow> int64 go" where
  "get_opt_int m key =
     (case m key of
        None \<Rightarrow> Ret 0
      | Some s \<Rightarrow> (case ParseInt64 s of None \<Rightarrow> Fatal | Some n \<Rightarrow> Ret n))"

definition get_string :: "app_cfg \<Rightarrow> string \<Rightarrow> string go" where
  "get_string m key = (case m key of None \<Rightarrow> Fatal | Some s \<Rightarrow> Ret s)"

definition get_opt_string :: "app_cfg \<Rightarrow> string \<Rightarrow> string" where
  "get_opt_string m key = (case m key of None \<Rightarrow> [] | Some s \<Rightarrow> s)"

section \<open>The connection server\<close>

record config =
  c_port :: int64
  c_ssl_port :: int64
  c_mysqldb_datasource :: string
  c_pending_root :: string
  c_kefu_appid :: int64
  c_redis_address :: string
  c_redis_password :: string
  c_redis_db :: int64
  c_http_listen_address :: string
  c_rpc_listen_address :: string
  c_ws_address :: string
  c_wss_address :: string
  c_cert_file :: string
  c_key_file :: string
  c_storage_rpc_addrs :: "string list"
  c_group_storage_rpc_addrs :: "string list"
  c_route_addrs :: "string list"
  c_group_route_addrs :: "string list"
  c_group_deliver_count :: int64
  c_word_file :: string
  c_friend_permission :: bool
  c_enable_blacklist :: bool

definition DEFAULT_GROUP_DELIVER_COUNT :: int64 where
  "DEFAULT_GROUP_DELIVER_COUNT = 4"

text \<open>The addresses of a pool, and those of the optional pool of the groups, which must not repeat one.\<close>

definition read_pool :: "app_cfg \<Rightarrow> string \<Rightarrow> string list go" where
  "read_pool m key =
     go_bind (get_string m key) (\<lambda>str. let array = Split CHR '' '' str in if array = [] then Fatal else Ret array)"

definition read_group_pool :: "app_cfg \<Rightarrow> string \<Rightarrow> string list \<Rightarrow> string list go" where
  "read_group_pool m key addrs =
     (let str = get_opt_string m key
      in if str = [] then Ret []
         else
           let array = Split CHR '' '' str
           in if list_ex (\<lambda>addr. list_ex (\<lambda>addr2. addr = addr2) addrs) array then Fatal else Ret array)"

definition read_cfg :: "app_cfg option \<Rightarrow> config go" where
  "read_cfg cfg = (case cfg of None \<Rightarrow> Fatal | Some m \<Rightarrow>
     go_bind (get_int m ''port'') (\<lambda>port.
     go_bind (get_opt_int m ''ssl_port'') (\<lambda>ssl_port.
     go_bind (get_string m ''http_listen_address'') (\<lambda>http.
     go_bind (get_string m ''rpc_listen_address'') (\<lambda>rpc.
     go_bind (get_string m ''redis_address'') (\<lambda>redis.
     go_bind (get_opt_int m ''redis_db'') (\<lambda>db.
     go_bind (get_string m ''pending_root'') (\<lambda>root.
     go_bind (get_string m ''mysqldb_source'') (\<lambda>mysql.
     go_bind (get_opt_int m ''kefu_appid'') (\<lambda>kefu.
     go_bind (read_pool m ''storage_rpc_pool'') (\<lambda>storage_addrs.
     go_bind (read_group_pool m ''group_storage_rpc_pool'' storage_addrs) (\<lambda>group_storage_addrs.
     go_bind (read_pool m ''route_pool'') (\<lambda>routes.
     go_bind (read_group_pool m ''group_route_pool'' routes) (\<lambda>group_routes.
     go_bind (get_opt_int m ''group_deliver_count'') (\<lambda>count.
     go_bind (get_opt_int m ''friend_permission'') (\<lambda>friend.
     go_bind (get_opt_int m ''enable_blacklist'') (\<lambda>blacklist.
       Ret \<lparr>c_port = port, c_ssl_port = ssl_port, c_mysqldb_datasource = mysql, c_pending_root = root,
         c_kefu_appid = kefu, c_redis_address = redis, c_redis_password = get_opt_string m ''redis_password'',
         c_redis_db = db, c_http_listen_address = http, c_rpc_listen_address = rpc,
         c_ws_address = get_opt_string m ''ws_address'', c_wss_address = get_opt_string m ''wss_address'',
         c_cert_file = get_opt_string m ''cert_file'', c_key_file = get_opt_string m ''key_file'',
         c_storage_rpc_addrs = storage_addrs, c_group_storage_rpc_addrs = group_storage_addrs,
         c_route_addrs = routes, c_group_route_addrs = group_routes,
         c_group_deliver_count = (if count = 0 then DEFAULT_GROUP_DELIVER_COUNT else count),
         c_word_file = get_opt_string m ''word_file'', c_friend_permission = friend \<noteq> 0,
         c_enable_blacklist = blacklist \<noteq> 0\<rparr>)))))))))))))))))"

text \<open>
  What \<open>Serve\<close> sets up: a client of every storage server and a channel to every route server, those of the
  groups apart or the same, and the deliverers. The servers are numbered by their addresses, those of the
  groups after the others. \<open>env\<close> has what is outside of the configuration; \<open>make\<close> panics for a negative length.
\<close>

definition numbered :: "'a list \<Rightarrow> 'a list \<Rightarrow> nat list" where
  "numbered before addrs = map (\<lambda>i. length before + i) [0 ..< length addrs]"

definition im_Serve :: "config \<Rightarrow> im_config \<Rightarrow> im_config go" where
  "im_Serve c env =
     (let rpc_clients = numbered [] (c_storage_rpc_addrs c);
          group_rpc_clients = (if 0 < length (c_group_storage_rpc_addrs c)
            then numbered (c_storage_rpc_addrs c) (c_group_storage_rpc_addrs c) else rpc_clients);
          route_channels = numbered [] (c_route_addrs c);
          group_route_channels = (if 0 < length (c_group_route_addrs c)
            then numbered (c_route_addrs c) (c_group_route_addrs c) else route_channels)
      in if sint (c_group_deliver_count c) < 0 then Panic
         else Ret (env\<lparr>cf_rpc_clients := rpc_clients, cf_group_rpc_clients := group_rpc_clients,
           cf_route_channels := route_channels, cf_group_route_channels := group_route_channels,
           cf_deliver_count := nat (sint (c_group_deliver_count c)), cf_kefu_appid := c_kefu_appid c,
           cf_friend_permission := c_friend_permission c, cf_enable_blacklist := c_enable_blacklist c\<rparr>))"

section \<open>The storage server\<close>

record storage_config =
  sc_rpc_listen :: string
  sc_storage_root :: string
  sc_kefu_appid :: int64
  sc_http_listen_address :: string
  sc_sync_listen :: string
  sc_master_address :: string
  sc_is_push_system :: bool
  sc_group_limit :: int64
  sc_limit :: int64
  sc_hard_limit :: int64

definition read_storage_cfg :: "app_cfg option \<Rightarrow> storage_config go" where
  "read_storage_cfg cfg = (case cfg of None \<Rightarrow> Fatal | Some m \<Rightarrow>
     go_bind (get_string m ''rpc_listen'') (\<lambda>rpc.
     go_bind (get_string m ''storage_root'') (\<lambda>root.
     go_bind (get_int m ''kefu_appid'') (\<lambda>kefu.
     go_bind (get_string m ''sync_listen'') (\<lambda>sync.
     go_bind (get_opt_int_or m ''is_push_system'' 0) (\<lambda>push.
     go_bind (get_opt_int_or m ''limit'' 3000) (\<lambda>limit.
     go_bind (get_opt_int_or m ''group_limit'' 0) (\<lambda>group_limit.
     go_bind (get_opt_int_or m ''hard_limit'' 0) (\<lambda>hard_limit.
       Ret \<lparr>sc_rpc_listen = rpc, sc_storage_root = root, sc_kefu_appid = kefu,
         sc_http_listen_address = get_opt_string m ''http_listen_address'', sc_sync_listen = sync,
         sc_master_address = get_opt_string m ''master_address'', sc_is_push_system = push = 1,
         sc_group_limit = group_limit, sc_limit = limit, sc_hard_limit = hard_limit\<rparr>)))))))))"

text \<open>The two tests of \<open>Serve\<close>: whether the server starts.\<close>

definition storage_config_accepted :: "storage_config \<Rightarrow> bool" where
  "storage_config_accepted c \<longleftrightarrow>
     \<not> sc_limit c = 0 \<and> \<not> (0 < sint (sc_hard_limit c) \<and> sint (sc_hard_limit c) sdiv sint (sc_limit c) < 2)"

section \<open>The route server\<close>

record route_config =
  rc_listen :: string
  rc_redis_address :: string
  rc_redis_password :: string
  rc_redis_db :: int64
  rc_is_push_system :: bool
  rc_http_listen_address :: string

definition read_route_cfg :: "app_cfg option \<Rightarrow> route_config go" where
  "read_route_cfg cfg = (case cfg of None \<Rightarrow> Fatal | Some m \<Rightarrow>
     go_bind (get_string m ''listen'') (\<lambda>listen.
     go_bind (get_string m ''redis_address'') (\<lambda>redis.
     go_bind (get_opt_int m ''redis_db'') (\<lambda>db.
     go_bind (get_opt_int m ''is_push_system'') (\<lambda>push.
       Ret \<lparr>rc_listen = listen, rc_redis_address = redis, rc_redis_password = get_opt_string m ''redis_password'',
         rc_redis_db = db, rc_is_push_system = push = 1,
         rc_http_listen_address = get_opt_string m ''http_listen_address''\<rparr>)))))"

section \<open>Choosing among the servers\<close>

lemma numbered_simps [simp]: "length (numbered b xs) = length xs" "numbered b xs = [] \<longleftrightarrow> xs = []"
  "set (numbered b xs) = {length b ..< length b + length xs}"
proof -
  show "set (numbered b xs) = {length b ..< length b + length xs}"
    by (auto simp: numbered_def image_iff intro!: bexI [of _ "_ - length b"])
qed (simp_all add: numbered_def)

text \<open>The smallest \<open>int64\<close> is its own negation.\<close>

abbreviation min_int64 :: int64 where "min_int64 \<equiv> 0x8000000000000000"

lemma sint_min: "sint min_int64 = - (2 ^ 63)" "- min_int64 = min_int64"
  by simp_all

lemma sint_neg_iff: "i \<noteq> min_int64 \<Longrightarrow> sint i < 0 \<Longrightarrow> 0 \<le> sint (- i)"
proof -
  assume "i \<noteq> min_int64" "sint i < 0"
  moreover have "sint i \<noteq> - (2 ^ 63)" using \<open>i \<noteq> min_int64\<close> using signed_word_eqI [of i min_int64] by (auto simp: sint_min)
  moreover have "- (2 ^ 63) \<le> sint i" using sint_greater_eq [of i] by simp
  ultimately have "signed_take_bit 63 (- sint i) = - sint i" by (intro signed_take_bit_int_eq_self) simp_all
  then show "0 \<le> sint (- i)" using \<open>sint i < 0\<close> by (simp add: sint_word_ariths)
qed

lemma smod_pos: "0 < n \<Longrightarrow> (a :: int) smod n = (if a < 0 then - ((- a) mod n) else a mod n)"
  by (auto simp: signed_modulo_int_def sgn_if abs_if)

lemma pick_returns:
  assumes "xs \<noteq> []"
  shows "returns (pick xs i) \<longleftrightarrow> i \<noteq> min_int64 \<or> int (length xs) dvd 2 ^ 63"
proof (cases "i = min_int64")
  case True
  then show ?thesis
    using assms by (auto simp: pick_def Let_def smod_pos returns_def sint_min dvd_eq_mod_eq_0 less_le)
next
  case False
  have "0 \<le> a mod int (length xs)" for a using assms by (intro pos_mod_sign) simp
  then show ?thesis using assms False sint_neg_iff [OF False] by (auto simp: pick_def Let_def smod_pos returns_def not_less)
qed

section \<open>Properties\<close>

lemma read_pool_Ret: "read_pool m key = Ret addrs \<Longrightarrow> addrs = Split CHR '' '' (the (m key)) \<and> addrs \<noteq> []"
  by (auto simp: read_pool_def get_string_def Let_def split: option.splits if_splits)

lemma read_group_pool_Ret: "read_group_pool m key addrs = Ret gaddrs \<Longrightarrow> set gaddrs \<inter> set addrs = {}"
  by (auto simp: read_group_pool_def Let_def list_ex_iff split: if_splits)

lemma read_cfg_Ret:
  assumes "read_cfg cfg = Ret c"
  shows "c_storage_rpc_addrs c \<noteq> []" "c_route_addrs c \<noteq> []"
    "set (c_group_storage_rpc_addrs c) \<inter> set (c_storage_rpc_addrs c) = {}"
    "set (c_group_route_addrs c) \<inter> set (c_route_addrs c) = {}" "c_group_deliver_count c \<noteq> 0"
proof -
  obtain m where m: "cfg = Some m" using assms by (cases cfg) (simp_all add: read_cfg_def)
  note r = assms [unfolded read_cfg_def m option.case]
  show "c_storage_rpc_addrs c \<noteq> []" "c_route_addrs c \<noteq> []" using r read_pool_Ret by auto
  show "set (c_group_storage_rpc_addrs c) \<inter> set (c_storage_rpc_addrs c) = {}"
    "set (c_group_route_addrs c) \<inter> set (c_route_addrs c) = {}" using r by (auto dest!: read_group_pool_Ret simp: disjoint_iff)
  show "c_group_deliver_count c \<noteq> 0" using r by (auto simp: DEFAULT_GROUP_DELIVER_COUNT_def split: if_splits)
qed

text \<open>The number of the servers that are chosen for users and for groups.\<close>

definition group_count :: "'a list \<Rightarrow> 'a list \<Rightarrow> int" where
  "group_count gs xs = int (if gs = [] then length xs else length gs)"

text \<open>
  C27: a server that starts with a configuration that \<open>read_cfg\<close> accepts has a server of each kind and a
  deliverer; its servers of groups are those of the users or have other addresses; and choosing a server, a
  channel or a deliverer never fails but for the smallest \<open>int64\<close>, and for that id neither where the
  numbers of servers are powers of two.
\<close>

theorem started_server_chooses:
  assumes "read_cfg cfg = Ret c" "im_Serve c env = Ret cf"
  shows "(servers_ok cf \<longleftrightarrow> (\<forall>n \<in> {int (length (c_storage_rpc_addrs c)), int (length (c_route_addrs c)),
        group_count (c_group_storage_rpc_addrs c) (c_storage_rpc_addrs c),
        group_count (c_group_route_addrs c) (c_route_addrs c)}. n dvd 2 ^ 63))
    \<and> (\<forall>i. i \<noteq> min_int64 \<longrightarrow> returns (GetStorageRPCClient cf i) \<and> returns (GetGroupStorageRPCClient cf i)
        \<and> returns (GetChannel cf i) \<and> returns (GetGroupChannel cf i) \<and> returns (GetRoomChannel cf i))
    \<and> (\<forall>i. \<forall>sv :: 'c server. returns (GetGroupMessageDeliver cf i sv))
    \<and> (cf_group_rpc_clients cf = cf_rpc_clients cf
        \<or> set (c_group_storage_rpc_addrs c) \<inter> set (c_storage_rpc_addrs c) = {}
          \<and> set (cf_group_rpc_clients cf) \<inter> set (cf_rpc_clients cf) = {})"
proof -
  note c = read_cfg_Ret [OF assms(1)]
  have "sint (c_group_deliver_count c) \<noteq> 0"
    using c(5) signed_word_eqI [of "c_group_deliver_count c" 0] by auto
  moreover have "\<not> sint (c_group_deliver_count c) < 0" using assms(2) by (auto simp: im_Serve_def Let_def)
  ultimately have count: "0 < sint (c_group_deliver_count c)" by simp
  have cf: "cf_rpc_clients cf = numbered [] (c_storage_rpc_addrs c)" "cf_route_channels cf = numbered [] (c_route_addrs c)"
    "cf_group_rpc_clients cf = (if c_group_storage_rpc_addrs c = [] then numbered [] (c_storage_rpc_addrs c)
      else numbered (c_storage_rpc_addrs c) (c_group_storage_rpc_addrs c))"
    "cf_group_route_channels cf = (if c_group_route_addrs c = [] then numbered [] (c_route_addrs c)
      else numbered (c_route_addrs c) (c_group_route_addrs c))" "cf_deliver_count cf = nat (sint (c_group_deliver_count c))"
    using assms(2) by (auto simp: im_Serve_def Let_def split: if_splits)
  note choose = GetStorageRPCClient_def GetGroupStorageRPCClient_def GetChannel_def GetGroupChannel_def GetRoomChannel_def
  have "\<exists>i :: int64. i = min_int64" by simp
  then have "servers_ok cf \<longleftrightarrow> (\<forall>n \<in> {int (length (c_storage_rpc_addrs c)), int (length (c_route_addrs c)),
        group_count (c_group_storage_rpc_addrs c) (c_storage_rpc_addrs c),
        group_count (c_group_route_addrs c) (c_route_addrs c)}. n dvd 2 ^ 63)"
    using c(1,2) count unfolding servers_ok_def choose
    by (simp add: pick_returns cf group_count_def) blast
  moreover have "returns (GetGroupMessageDeliver cf i sv)" for i and sv :: "'c server"
    using count by (auto simp: GetGroupMessageDeliver_def returns_def cf(5))
  moreover have "set (numbered (c_storage_rpc_addrs c) (c_group_storage_rpc_addrs c)) \<inter> set (numbered [] (c_storage_rpc_addrs c)) = {}"
    by auto
  ultimately show ?thesis
    using c(1-3) by (simp add: choose pick_returns cf)
qed

text \<open>A configuration with two storage servers, one route server and a storage server for the groups.\<close>

definition sample_cfg :: app_cfg where
  "sample_cfg = map_of
     [(''port'', ''23000''), (''http_listen_address'', ''127.0.0.1:6666''), (''rpc_listen_address'', ''127.0.0.1:6667''),
      (''redis_address'', ''redis''), (''pending_root'', ''/tmp''), (''mysqldb_source'', ''im''),
      (''storage_rpc_pool'', ''ims1 ims2''), (''group_storage_rpc_pool'', ''ims3''), (''route_pool'', ''imr'')]"

lemma sample_pools:
  "read_pool sample_cfg ''storage_rpc_pool'' = Ret [''ims1'', ''ims2'']" "read_pool sample_cfg ''route_pool'' = Ret [''imr'']"
  "read_group_pool sample_cfg ''group_storage_rpc_pool'' [''ims1'', ''ims2''] = Ret [''ims3'']"
  "read_group_pool sample_cfg ''group_route_pool'' [''imr''] = Ret []"
  by (simp_all add: sample_cfg_def read_pool_def read_group_pool_def get_string_def get_opt_string_def Let_def)

theorem started_server_chooses_witness:
  "\<exists>c cf. read_cfg (Some sample_cfg) = Ret c \<and> im_Serve c small_config = Ret cf \<and> servers_ok cf
    \<and> cf_group_rpc_clients cf = [2]"
proof -
  have port: "get_int sample_cfg ''port'' = Ret 23000"
    by (simp add: get_int_def sample_cfg_def ParseInt64_def ParseInt_def digit_value_def)
  have ints: "get_opt_int sample_cfg ''ssl_port'' = Ret 0" "get_opt_int sample_cfg ''redis_db'' = Ret 0"
    "get_opt_int sample_cfg ''kefu_appid'' = Ret 0" "get_opt_int sample_cfg ''group_deliver_count'' = Ret 0"
    "get_opt_int sample_cfg ''friend_permission'' = Ret 0" "get_opt_int sample_cfg ''enable_blacklist'' = Ret 0"
    by (simp_all add: sample_cfg_def get_opt_int_def)
  have texts: "get_string sample_cfg ''http_listen_address'' = Ret ''127.0.0.1:6666''"
    "get_string sample_cfg ''rpc_listen_address'' = Ret ''127.0.0.1:6667''" "get_string sample_cfg ''redis_address'' = Ret ''redis''"
    "get_string sample_cfg ''pending_root'' = Ret ''/tmp''" "get_string sample_cfg ''mysqldb_source'' = Ret ''im''"
    by (simp_all add: sample_cfg_def get_string_def)
  have "\<exists>c. read_cfg (Some sample_cfg) = Ret c \<and> c_storage_rpc_addrs c = [''ims1'', ''ims2'']
    \<and> c_group_storage_rpc_addrs c = [''ims3''] \<and> c_route_addrs c = [''imr''] \<and> c_group_route_addrs c = []
    \<and> c_group_deliver_count c = 4"
    unfolding read_cfg_def option.case port ints texts sample_pools go_bind.simps DEFAULT_GROUP_DELIVER_COUNT_def
    by (rule exI, rule conjI, rule refl) simp
  then obtain c where c: "read_cfg (Some sample_cfg) = Ret c" "c_storage_rpc_addrs c = [''ims1'', ''ims2'']"
    "c_group_storage_rpc_addrs c = [''ims3'']" "c_route_addrs c = [''imr'']" "c_group_route_addrs c = []"
    "c_group_deliver_count c = 4" by blast
  then obtain cf where cf: "im_Serve c small_config = Ret cf" "cf_group_rpc_clients cf = [2]"
    by (simp add: im_Serve_def numbered_def Let_def numeral_2_eq_2)
  have "servers_ok cf"
    using started_server_chooses [OF c(1) cf(1), THEN conjunct1] by (simp add: c group_count_def)
  with c(1) cf show ?thesis by blast
qed

end
