(* ===== verification/Truncate.thy ===== *)
theory Truncate
  imports StorageRestart
begin

text \<open>
  The tool of \<^verbatim>\<open>ims/truncate.go\<close>, which looks for the end of the last whole message in the block files
  that do not end with one. It only reports: no file is changed.
\<close>

text \<open>
  The loop of \<open>truncateFile\<close>: \<open>offset\<close> grows by four until the magic number is found; a seek before the
  start of the file ends the process.
\<close>

function truncate_scan :: "bytes \<Rightarrow> nat \<Rightarrow> bool go" where
  "truncate_scan f offset =
     (if offset > length f then Fatal
      else if fst (binRead (0 :: int32) (take 4 (drop (length f - offset) f))) = MAGIC then Ret True
      else truncate_scan f (offset + 4))"
  by auto
termination by (relation "measure (\<lambda>(f, offset). Suc (length f) - offset)") auto

declare truncate_scan.simps [simp del]

definition ims_truncateFile :: "bytes \<Rightarrow> bool go" where
  "ims_truncateFile f =
     (if int (length f) = HEADER_SIZE then Ret True
      else if int (length f) < HEADER_SIZE then Ret False
      else truncate_scan f 4)"

text \<open>
  The files that the pattern matches, as \<open>last_block\<close> of \<open>StorageFile\<close> has them; the result is what is
  logged of those that fail the check.
\<close>

definition checkRoot :: "(int option \<times> bytes) list \<Rightarrow> (bool list \<times> int) go" where
  "checkRoot glob =
     go_fold (\<lambda>(logged, block_NO) (name, f).
       go_bind (if CheckFile f then Ret logged else go_map (\<lambda>r. logged @ [r]) (ims_truncateFile f)) (\<lambda>logged.
       case name of None \<Rightarrow> Fatal | Some b \<Rightarrow> Ret (logged, if b > block_NO then b else block_NO))) ([], 0) glob"

definition RunTruncate :: "string \<Rightarrow> bool \<Rightarrow> (int option \<times> bytes) list \<Rightarrow> (bool list \<times> int) go option" where
  "RunTruncate root is_dir glob =
     (if length root = 0 then None else if \<not> is_dir then None else Some (checkRoot glob))"

text \<open>Where the loop finds the magic number: only at a multiple of four from the end.\<close>

definition magic_at :: "bytes \<Rightarrow> nat \<Rightarrow> bool" where
  "magic_at f p \<longleftrightarrow> fst (binRead (0 :: int32) (take 4 (drop p f))) = MAGIC"

lemma truncate_scan_eq:
  "truncate_scan f offset = (if \<exists>k. offset + 4 * k \<le> length f \<and> magic_at f (length f - (offset + 4 * k))
     then Ret True else Fatal)"
proof (induction f offset rule: truncate_scan.induct)
  case (1 f offset)
  show ?case
  proof (cases "offset > length f")
    case True
    then show ?thesis by (subst truncate_scan.simps) simp
  next
    case False
    have split: "(\<exists>k. P k) \<longleftrightarrow> P 0 \<or> (\<exists>k. P (Suc k))" for P :: "nat \<Rightarrow> bool"
      by (metis not0_implies_Suc)
    show ?thesis
    proof (cases "magic_at f (length f - offset)")
      case True
      then show ?thesis using False by (subst truncate_scan.simps) (auto simp: magic_at_def intro: exI [of _ 0])
    next
      case nm: False
      then have "truncate_scan f offset = truncate_scan f (offset + 4)"
        using False by (subst truncate_scan.simps) (simp add: magic_at_def)
      also have "\<dots> = (if \<exists>k. offset + 4 + 4 * k \<le> length f \<and> magic_at f (length f - (offset + 4 + 4 * k))
          then Ret True else Fatal)"
        using 1 False nm by (simp add: magic_at_def)
      finally show ?thesis using nm by (subst split) (simp add: add.assoc)
    qed
  qed
qed

lemma truncateFile_eq:
  assumes "32 < length f"
  shows "ims_truncateFile f = (if \<exists>k. 4 * Suc k \<le> length f \<and> magic_at f (length f - 4 * Suc k) then Ret True else Fatal)"
  using assms truncate_scan_eq [of f 4] by (simp add: ims_truncateFile_def)

text \<open>A block that a server wrote passes the check and is not looked at.\<close>

lemma intact_blocks:
  "checkRoot (map (\<lambda>(k, ms). (Some (int k), file_of ms)) bs) = Ret ([], foldl max 0 (map (\<lambda>(k, ms). int k) bs))"
proof -
  have "go_fold (\<lambda>(logged, block_NO) (name, f).
       go_bind (if CheckFile f then Ret logged else go_map (\<lambda>r. logged @ [r]) (ims_truncateFile f)) (\<lambda>logged.
       case name of None \<Rightarrow> Fatal | Some b \<Rightarrow> Ret (logged, if b > block_NO then b else block_NO))) (l, n)
     (map (\<lambda>(k, ms). (Some (int k), file_of ms)) bs) = Ret (l, foldl max n (map (\<lambda>(k, ms). int k) bs))" for l n
  proof (induction bs arbitrary: n)
    case (Cons b bs)
    obtain k ms where b: "b = (k, ms)" by (cases b)
    have "(if n < int k then int k else n) = max n (int k)" by simp
    then show ?case using Cons [of "max n (int k)"] by (simp add: b CheckFile_file_of)
  qed simp
  then show ?thesis by (simp add: checkRoot_def)
qed

end
