(* ===== verification/UserData.thy ===== *)
theory UserData
  imports EventStream SmallServer
begin

text \<open>
  \<^verbatim>\<open>im/user.go\<close> and \<^verbatim>\<open>im/device.go\<close>: what the server keeps of a user in redis, and the loop
  \<open>SyncKeyService\<close> over it. Redis is a record of its commands: a command is the list of its arguments, the
  result is a reply and the new state of the server. The theory \<open>Im\<close> has the sync keys as a map; the
  interface \<open>key_store\<close> shows that redis and the map are the same to their users.
\<close>

section \<open>Redis\<close>

text \<open>
  \<open>do_int64\<close> is \<open>redis.Int64(conn.Do(...))\<close>, \<open>do_bool\<close> and \<open>do_ints\<close> the same with \<open>redis.Bool\<close> and with
  \<open>redis.Values\<close> and a scan into integers; \<open>do_cmd\<close> is a command whose error only is looked at.
\<close>

record 'r redis =
  do_int64 :: "string list \<Rightarrow> 'r \<Rightarrow> int64 redis_result \<times> 'r"
  do_bool :: "string list \<Rightarrow> 'r \<Rightarrow> bool redis_result \<times> 'r"
  do_ints :: "string list \<Rightarrow> 'r \<Rightarrow> int64 list redis_result \<times> 'r"
  do_cmd :: "string list \<Rightarrow> 'r \<Rightarrow> bool \<times> 'r"

text \<open>The value that is left after a test for an error; \<open>redis.Int64\<close> gives 0 with \<open>ErrNil\<close>.\<close>

fun int_or_zero :: "int64 redis_result \<Rightarrow> int64" where
  "int_or_zero (Found v) = v"
| "int_or_zero ErrNil = 0"
| "int_or_zero RedisErr = 0"

section \<open>Keys\<close>

definition user_key :: "int64 \<Rightarrow> int64 \<Rightarrow> string" where
  "user_key appid uid = ''users_'' @ format_int64 appid @ ''_'' @ format_int64 uid"

definition group_field :: "int64 \<Rightarrow> string" where
  "group_field group_id = ''group_sync_key_'' @ format_int64 group_id"

lemma Split_under [simp]: "Split CHR ''_'' (format_int64 a @ CHR ''_'' # s) = format_int64 a # Split CHR ''_'' s"
  by (rule Split_append) simp

lemma user_key_inject [simp]: "user_key a u = user_key a' u' \<longleftrightarrow> a = a' \<and> u = u'"
proof
  assume "user_key a u = user_key a' u'"
  then have "Split CHR ''_'' (format_int64 a @ CHR ''_'' # format_int64 u) = Split CHR ''_'' (format_int64 a' @ CHR ''_'' # format_int64 u')"
    by (simp add: user_key_def)
  then show "a = a' \<and> u = u'" by simp
qed simp

lemma group_field_inject [simp]: "group_field g = group_field g' \<longleftrightarrow> g = g'" "group_field g \<noteq> ''sync_key''"
  by (simp_all add: group_field_def)

section \<open>The values of a user\<close>

definition GetSyncKey :: "'r redis \<Rightarrow> int64 \<Rightarrow> int64 \<Rightarrow> 'r \<Rightarrow> int64 \<times> 'r" where
  "GetSyncKey R appid uid s =
     (let (origin, s) = do_int64 R [''HGET'', user_key appid uid, ''sync_key''] s in (int_or_zero origin, s))"

definition GetGroupSyncKey :: "'r redis \<Rightarrow> int64 \<Rightarrow> int64 \<Rightarrow> int64 \<Rightarrow> 'r \<Rightarrow> int64 \<times> 'r" where
  "GetGroupSyncKey R appid uid group_id s =
     (let (origin, s) = do_int64 R [''HGET'', user_key appid uid, group_field group_id] s in (int_or_zero origin, s))"

definition SaveSyncKey :: "'r redis \<Rightarrow> int64 \<Rightarrow> int64 \<Rightarrow> int64 \<Rightarrow> 'r \<Rightarrow> 'r" where
  "SaveSyncKey R appid uid sync_key s =
     snd (do_cmd R [''HSET'', user_key appid uid, ''sync_key'', format_int64 sync_key] s)"

definition SaveGroupSyncKey :: "'r redis \<Rightarrow> int64 \<Rightarrow> int64 \<Rightarrow> int64 \<Rightarrow> int64 \<Rightarrow> 'r \<Rightarrow> 'r" where
  "SaveGroupSyncKey R appid uid group_id sync_key s =
     snd (do_cmd R [''HSET'', user_key appid uid, group_field group_id, format_int64 sync_key] s)"

definition SetUserUnreadCount :: "'r redis \<Rightarrow> int64 \<Rightarrow> int64 \<Rightarrow> int32 \<Rightarrow> 'r \<Rightarrow> 'r" where
  "SetUserUnreadCount R appid uid count s =
     snd (do_cmd R [''HSET'', user_key appid uid, ''unread'', format_int (sint count)] s)"

text \<open>Two fields, 0 where one is missing; \<open>None\<close> is an error, also of the scan.\<close>

definition GetUserPreferences :: "'r redis \<Rightarrow> int64 \<Rightarrow> int64 \<Rightarrow> 'r \<Rightarrow> (int64 \<times> bool) option \<times> 'r" where
  "GetUserPreferences R appid uid s =
     (let (reply, s) = do_ints R [''HMGET'', user_key appid uid, ''forbidden'', ''notification_on''] s
      in (case reply of Found [forbidden, notification_on] \<Rightarrow> Some (forbidden, notification_on \<noteq> 0) | _ \<Rightarrow> None, s))"

text \<open>The two commands are sent together; both replies are read before the first is looked at.\<close>

definition LoadUserAccessToken :: "'r redis \<Rightarrow> string \<Rightarrow> 'r \<Rightarrow> (int64 \<times> int64) option \<times> 'r" where
  "LoadUserAccessToken R token s =
     (let key = ''access_token_'' @ token;
          (exists, s) = do_bool R [''EXISTS'', key] s;
          (reply, s) = do_ints R [''HMGET'', key, ''user_id'', ''app_id''] s
      in (case exists of
            Found True \<Rightarrow> (case reply of Found [uid, appid] \<Rightarrow> Some (appid, uid) | _ \<Rightarrow> None)
          | _ \<Rightarrow> None, s))"

definition CountUser :: "'r redis \<Rightarrow> int64 \<Rightarrow> int64 \<Rightarrow> 'r \<Rightarrow> 'r" where
  "CountUser R appid uid s = snd (do_cmd R [''PFADD'', ''statistics_users_'' @ format_int64 appid, format_int64 uid] s)"

definition CountDAU :: "'r redis \<Rightarrow> int \<times> int \<times> int \<Rightarrow> int64 \<Rightarrow> int64 \<Rightarrow> 'r \<Rightarrow> 'r" where
  "CountDAU R today appid uid s =
     (let (year, month, day) = today;
          date = format_int year @ ''_'' @ format_int month @ ''_'' @ format_int day;
          key = ''statistics_dau_'' @ date @ ''_'' @ format_int64 appid
      in snd (do_cmd R [''PFADD'', key, format_int64 uid] s))"

text \<open>Any error of \<open>GET\<close> gives the device a new number.\<close>

definition device_key :: "string \<Rightarrow> go_int \<Rightarrow> string" where
  "device_key device_id platform_id = ''devices_'' @ device_id @ ''_'' @ format_int64 platform_id"

definition GetDeviceID :: "'r redis \<Rightarrow> string \<Rightarrow> go_int \<Rightarrow> 'r \<Rightarrow> int64 option \<times> 'r" where
  "GetDeviceID R device_id platform_id s =
     (let key = device_key device_id platform_id; (r, s) = do_int64 R [''GET'', key] s
      in case r of
           Found device_ID \<Rightarrow> (Some device_ID, s)
         | _ \<Rightarrow>
           (let (r, s) = do_int64 R [''INCR'', ''devices_id''] s
            in case r of
                 Found device_ID \<Rightarrow>
                   (let (ok, s) = do_cmd R [''SET'', key, format_int64 device_ID] s
                    in (if ok then Some device_ID else None, s))
               | _ \<Rightarrow> (None, s)))"

text \<open>The platform has no underscore, so that the last one of the key ends the device.\<close>

lemma last_under:
  assumes "CHR ''_'' \<notin> set p" "CHR ''_'' \<notin> set p'" "d @ CHR ''_'' # p = d' @ CHR ''_'' # p'"
  shows "d = d' \<and> p = p'"
proof -
  have "takeWhile (\<lambda>c. c \<noteq> CHR ''_'') (rev (x @ CHR ''_'' # y)) = rev y" if "CHR ''_'' \<notin> set y" for x y :: string
  proof -
    have "\<forall>c \<in> set (rev y). c \<noteq> CHR ''_''" using that by auto
    then have "takeWhile (\<lambda>c. c \<noteq> CHR ''_'') (rev y @ CHR ''_'' # rev x) = rev y" by (subst takeWhile_append2) auto
    then show ?thesis by simp
  qed
  from this [of p d] this [of p' d'] have "rev p = rev p'" using assms by metis
  then show ?thesis using assms(3) by simp
qed

lemma device_key_inject: "device_key d p = device_key d' p' \<longleftrightarrow> d = d' \<and> p = p'"
  using last_under [of "format_int64 p" "format_int64 p'" d d'] by (auto simp: device_key_def)

section \<open>The loop that saves the sync keys\<close>

datatype key_owner = User_key int64 int64 | Group_key int64 int64 int64

definition sync_key_step :: "'r redis \<Rightarrow> 'r \<Rightarrow> key_owner \<times> int64 \<Rightarrow> 'r" where
  "sync_key_step R s req =
     (case req of
        (User_key appid uid, k) \<Rightarrow>
          (let (origin, s) = GetSyncKey R appid uid s
           in if sint k > sint origin then SaveSyncKey R appid uid k s else s)
      | (Group_key appid uid gid, k) \<Rightarrow>
          (let (origin, s) = GetGroupSyncKey R appid uid gid s
           in if sint k > sint origin then SaveGroupSyncKey R appid uid gid k s else s))"

section \<open>The interface of a store of keys\<close>

text \<open>A key only grows, in the order of signed numbers.\<close>

definition greater :: "int64 \<Rightarrow> int64 \<Rightarrow> int64" where
  "greater v w = (if sint w > sint v then w else v)"

lemma greater_sint: "sint (greater v w) = max (sint v) (sint w)"
  by (simp add: greater_def)

lemma greater_max: "sint (foldl greater v ws) = foldl max (sint v) (map sint ws)"
  by (induction ws arbitrary: v) (simp_all add: greater_sint)

lemma greater_ge: "sint v \<le> sint (foldl greater v ws)"
proof (induction ws arbitrary: v)
  case (Cons x ws)
  then show ?case using Cons.IH [of "greater v x"] by (simp add: greater_sint)
qed simp

lemma greater_ge_each: "w \<in> set ws \<Longrightarrow> sint w \<le> sint (foldl greater v ws)"
proof (induction ws arbitrary: v)
  case (Cons x ws)
  then show ?case using greater_ge [of "greater v x" ws] by (auto simp: greater_sint)
qed simp

text \<open>What the users of the keys rely on: a key that is put is got back, and no other is changed.\<close>

locale key_store =
  fixes get :: "'k \<Rightarrow> 's \<Rightarrow> int64" and put :: "'k \<Rightarrow> int64 \<Rightarrow> 's \<Rightarrow> 's" and usable :: "'s \<Rightarrow> bool"
  assumes get_put: "usable s \<Longrightarrow> get k (put k' v s) = (if k = k' then v else get k s)"
    and usable_put: "usable s \<Longrightarrow> usable (put k v s)"
begin

definition raise_key :: "'s \<Rightarrow> 'k \<times> int64 \<Rightarrow> 's" where
  "raise_key s req = (if sint (snd req) > sint (get (fst req) s) then put (fst req) (snd req) s else s)"

lemma usable_raise: "usable s \<Longrightarrow> usable (raise_key s req)"
  by (simp add: raise_key_def usable_put)

lemma get_raise: "usable s \<Longrightarrow> get k (raise_key s req) = (if fst req = k then greater (get k s) (snd req) else get k s)"
  by (auto simp: raise_key_def greater_def get_put)

text \<open>After any requests a key is the greatest of the one before and those that were asked for it.\<close>

lemma get_raise_all:
  "usable s \<Longrightarrow> get k (foldl raise_key s reqs) = foldl greater (get k s) (map snd (filter (\<lambda>r. fst r = k) reqs))"
  by (induction reqs arbitrary: s) (simp_all add: get_raise usable_raise)

end

text \<open>The map of the model of the server, and the step that takes a request from a channel.\<close>

fun im_key :: "key_owner \<Rightarrow> 'c im \<Rightarrow> int64" where
  "im_key (User_key a u) st = im_sync_keys st (a, u)"
| "im_key (Group_key a u g) st = im_group_sync_keys st (a, u, g)"

fun im_put_key :: "key_owner \<Rightarrow> int64 \<Rightarrow> 'c im \<Rightarrow> 'c im" where
  "im_put_key (User_key a u) k st = st\<lparr>im_sync_keys := (im_sync_keys st)((a, u) := k)\<rparr>"
| "im_put_key (Group_key a u g) k st = st\<lparr>im_group_sync_keys := (im_group_sync_keys st)((a, u, g) := k)\<rparr>"

interpretation im_keys: key_store im_key im_put_key "\<lambda>_. True"
proof
  fix k k' v and st :: "'a im"
  show "im_key k (im_put_key k' v st) = (if k = k' then v else im_key k st)" by (cases k; cases k') auto
qed simp

lemma save_sync_key_raise:
  "im_sync_c st = (a, u, k) # q \<Longrightarrow> save_sync_key st = Some (im_keys.raise_key (st\<lparr>im_sync_c := q\<rparr>) (User_key a u, k))"
  "im_group_sync_c st = (a, u, g, k) # q' \<Longrightarrow>
     save_group_sync_key st = Some (im_keys.raise_key (st\<lparr>im_group_sync_c := q'\<rparr>) (Group_key a u g, k))"
  by (simp_all add: save_sync_key_def save_group_sync_key_def im_keys.raise_key_def Let_def)

text \<open>
  Redis, with its state. \<open>hash_store\<close> is what is documented of \<open>HGET\<close> and \<open>HSET\<close>, in a server that answers:
  a field of a key has the value that was set last.
\<close>

definition hash_store :: "'r redis \<Rightarrow> bool" where
  "hash_store R \<longleftrightarrow> (\<exists>h :: 'r \<Rightarrow> string \<times> string \<Rightarrow> int64 option. \<forall>s key field v.
     do_int64 R [''HGET'', key, field] s = ((case h s (key, field) of None \<Rightarrow> ErrNil | Some w \<Rightarrow> Found w), s)
     \<and> h (snd (do_cmd R [''HSET'', key, field, format_int64 v] s)) = (h s)((key, field) \<mapsto> v))"

fun stored_key :: "'r redis \<Rightarrow> key_owner \<Rightarrow> 'r \<Rightarrow> int64" where
  "stored_key R (User_key a u) s = fst (GetSyncKey R a u s)"
| "stored_key R (Group_key a u g) s = fst (GetGroupSyncKey R a u g s)"

fun store_key :: "'r redis \<Rightarrow> key_owner \<Rightarrow> int64 \<Rightarrow> 'r \<Rightarrow> 'r" where
  "store_key R (User_key a u) k s = SaveSyncKey R a u k s"
| "store_key R (Group_key a u g) k s = SaveGroupSyncKey R a u g k s"

text \<open>The place of a key.\<close>

fun key_place :: "key_owner \<Rightarrow> string \<times> string" where
  "key_place (User_key a u) = (user_key a u, ''sync_key'')"
| "key_place (Group_key a u g) = (user_key a u, group_field g)"

lemma key_place_inject: "key_place k = key_place k' \<longleftrightarrow> k = k'"
  using group_field_inject(2) by (cases k; cases k') (auto simp: eq_commute [of "''sync_key''"])

lemma stored_store:
  assumes "hash_store R"
  shows "stored_key R k (store_key R k' v s) = (if k = k' then v else stored_key R k s)"
proof -
  obtain h :: "'a \<Rightarrow> string \<times> string \<Rightarrow> int64 option" where
    h: "do_int64 R [''HGET'', key, field] s = ((case h s (key, field) of None \<Rightarrow> ErrNil | Some w \<Rightarrow> Found w), s)"
      "h (snd (do_cmd R [''HSET'', key, field, format_int64 v] s)) = (h s)((key, field) \<mapsto> v)" for s key field v
    using assms unfolding hash_store_def by blast
  have get: "stored_key R k s = (case h s (key_place k) of None \<Rightarrow> 0 | Some w \<Rightarrow> w)" for k s
    by (cases k) (simp_all add: GetSyncKey_def GetGroupSyncKey_def h(1) split: option.split)
  have "h (store_key R k' v s) = (h s)(key_place k' \<mapsto> v)"
    by (cases k') (simp_all add: SaveSyncKey_def SaveGroupSyncKey_def h(2))
  then show ?thesis by (simp add: get key_place_inject)
qed

interpretation redis_keys: key_store "\<lambda>k (R, s). stored_key R k s" "\<lambda>k v (R, s). (R, store_key R k v s)"
  "\<lambda>(R, s). hash_store R"
  by unfold_locales (auto simp: stored_store)

lemma sync_key_step_raise:
  assumes "hash_store R"
  shows "(R, sync_key_step R s req) = redis_keys.raise_key (R, s) req"
proof -
  have "snd (GetSyncKey R a u s) = s" "snd (GetGroupSyncKey R a u g s) = s" for a u g
    using assms unfolding hash_store_def by (auto simp: GetSyncKey_def GetGroupSyncKey_def split: option.split)
  then show ?thesis
    by (cases req; cases "fst req") (auto simp: sync_key_step_def redis_keys.raise_key_def split_beta Let_def)
qed

lemma sync_key_steps_raise:
  "hash_store R \<Longrightarrow> (R, foldl (sync_key_step R) s reqs) = foldl redis_keys.raise_key (R, s) reqs"
proof (induction reqs arbitrary: s)
  case (Cons r reqs)
  then show ?case by (simp add: sync_key_step_raise [symmetric])
qed simp

section \<open>The property\<close>

text \<open>What was asked of a key, in order.\<close>

definition asked :: "(key_owner \<times> int64) list \<Rightarrow> key_owner \<Rightarrow> int64 list" where
  "asked reqs k = map snd (filter (\<lambda>r. fst r = k) reqs)"

text \<open>
  C26: the sync keys in redis. The loop that saves the keys takes requests in order, reads the key from redis and
  writes it when the request has a greater one. With a server that answers and keeps what is set in a hash,
  each key, of a user and of a user in a group, ends as the greatest of the one before and of all
  requests for it, whatever was asked of the other keys in between; the map that the model of the
  process keeps in place of redis ends with the same keys when it began with the same.
\<close>

theorem sync_keys_in_redis:
  assumes "hash_store R" and "\<forall>k. stored_key R k s = im_key k st"
  shows "stored_key R k (foldl (sync_key_step R) s reqs) = foldl greater (stored_key R k s) (asked reqs k)
    \<and> im_key k (foldl im_keys.raise_key st reqs) = stored_key R k (foldl (sync_key_step R) s reqs)
    \<and> (\<forall>v \<in> set (asked reqs k). sint v \<le> sint (stored_key R k (foldl (sync_key_step R) s reqs)))"
proof -
  have redis: "stored_key R k (foldl (sync_key_step R) s reqs) = foldl greater (stored_key R k s) (asked reqs k)"
    using redis_keys.get_raise_all [where s = "(R, s)" and k = k and reqs = reqs] assms(1)
    by (simp add: sync_key_steps_raise [symmetric] asked_def)
  have "im_key k (foldl im_keys.raise_key st reqs) = foldl greater (im_key k st) (asked reqs k)"
    using im_keys.get_raise_all [where s = st and k = k and reqs = reqs] by (simp add: asked_def)
  then show ?thesis using redis assms(2) by (simp add: greater_ge_each)
qed

text \<open>A server that only has integers in its hashes.\<close>

type_synonym memory = "string \<times> string \<Rightarrow> int64 option"

fun memory_int64 :: "string list \<Rightarrow> memory \<Rightarrow> int64 redis_result \<times> memory" where
  "memory_int64 [cmd, key, field] s = ((case s (key, field) of None \<Rightarrow> ErrNil | Some v \<Rightarrow> Found v), s)"
| "memory_int64 _ s = (RedisErr, s)"

fun memory_cmd :: "string list \<Rightarrow> memory \<Rightarrow> bool \<times> memory" where
  "memory_cmd [cmd, key, field, t] s = (case ParseInt64 t of None \<Rightarrow> (False, s) | Some v \<Rightarrow> (True, s((key, field) \<mapsto> v)))"
| "memory_cmd _ s = (False, s)"

definition memory_redis :: "memory redis" where
  "memory_redis = \<lparr>do_int64 = memory_int64, do_bool = (\<lambda>c s. (RedisErr, s)), do_ints = (\<lambda>c s. (RedisErr, s)), do_cmd = memory_cmd\<rparr>"

lemma memory_hash: "hash_store memory_redis"
  unfolding hash_store_def memory_redis_def by (rule exI [of _ "\<lambda>s. s"]) auto

lemma memory_empty: "stored_key memory_redis k Map.empty = 0"
  by (cases k) (simp_all add: GetSyncKey_def GetGroupSyncKey_def memory_redis_def)

theorem sync_keys_in_redis_witness:
  "stored_key memory_redis (Group_key 7 1 9)
     (foldl (sync_key_step memory_redis) Map.empty
       [(Group_key 7 1 9, 5), (User_key 7 1, 8), (Group_key 7 1 9, 3)]) = 5"
proof -
  have "\<forall>k. stored_key memory_redis k Map.empty = im_key k (small_im :: unit im)"
  proof
    fix k show "stored_key memory_redis k Map.empty = im_key k (small_im :: unit im)"
      by (simp only: memory_empty) (cases k; simp add: small_im_def)
  qed
  from sync_keys_in_redis [OF memory_hash this, where k = "Group_key 7 1 9" and
      reqs = "[(Group_key 7 1 9, 5), (User_key 7 1, 8), (Group_key 7 1 9, 3)]"]
  show ?thesis by (simp add: asked_def greater_def memory_empty del: stored_key.simps)
qed

end
