(* ===== verification/CustomerService.thy ===== *)
theory CustomerService
  imports UserData
begin

text \<open>
  \<^verbatim>\<open>im/customer_service.go\<close>: the stores of the customer service with their cache, and the
  sellers of a store as redis has them, with a cache of ten minutes.
\<close>

section \<open>State\<close>

record store =
  sto_id :: int64
  sto_group_id :: int64
  sto_mode :: go_int

record customer_service =
  cs_stores :: "int64 \<rightharpoonup> store"
  cs_sellers :: "int64 \<rightharpoonup> go_int"
  cs_online_sellers :: "int64 \<rightharpoonup> go_int"

definition NewCustomerService :: customer_service where
  "NewCustomerService = \<lparr>cs_stores = Map.empty, cs_sellers = Map.empty, cs_online_sellers = Map.empty\<rparr>"

section \<open>Stores\<close>

text \<open>\<open>row\<close> is what the table \<open>store\<close> has for an id, \<open>None\<close> any error of the database.\<close>

definition LoadStore :: "(int64 \<Rightarrow> (int64 \<times> go_int) option) \<Rightarrow> int64 \<Rightarrow> store option" where
  "LoadStore row store_id =
     map_option (\<lambda>(group_id, mode). \<lparr>sto_id = store_id, sto_group_id = group_id, sto_mode = mode\<rparr>) (row store_id)"

definition GetStore :: "(int64 \<Rightarrow> (int64 \<times> go_int) option) \<Rightarrow> int64 \<Rightarrow> customer_service \<Rightarrow> store option \<times> customer_service" where
  "GetStore row store_id cs =
     (case cs_stores cs store_id of
        Some s \<Rightarrow> (Some s, cs)
      | None \<Rightarrow>
          (case LoadStore row store_id of
             None \<Rightarrow> (None, cs)
           | Some s \<Rightarrow> (Some s, cs\<lparr>cs_stores := (cs_stores cs)(store_id \<mapsto> s)\<rparr>)))"

definition store_HandleUpdate :: "string \<Rightarrow> customer_service \<Rightarrow> customer_service" where
  "store_HandleUpdate data cs =
     (case ParseInt64 data of
        None \<Rightarrow> cs
      | Some store_id \<Rightarrow> cs\<lparr>cs_stores := (cs_stores cs)(store_id := None)\<rparr>)"

definition cs_Clear :: "customer_service \<Rightarrow> customer_service" where
  "cs_Clear cs = cs\<lparr>cs_stores := Map.empty\<rparr>"

definition cs_HandleMessage :: "string \<Rightarrow> string \<Rightarrow> customer_service \<Rightarrow> customer_service" where
  "cs_HandleMessage channel data cs = (if channel = ''store_update'' then store_HandleUpdate data cs else cs)"

section \<open>Sellers\<close>

definition last_seller_key :: "int64 \<Rightarrow> int64 \<Rightarrow> int64 \<Rightarrow> string" where
  "last_seller_key appid uid store_id = user_key appid uid @ ''_'' @ format_int64 store_id"

definition GetLastSellerID :: "'r redis \<Rightarrow> int64 \<Rightarrow> int64 \<Rightarrow> int64 \<Rightarrow> 'r \<Rightarrow> int64 \<times> 'r" where
  "GetLastSellerID R appid uid store_id s =
     (let (seller_id, s) = do_int64 R [''GET'', last_seller_key appid uid store_id] s in (int_or_zero seller_id, s))"

definition SetLastSellerID :: "'r redis \<Rightarrow> int64 \<Rightarrow> int64 \<Rightarrow> int64 \<Rightarrow> int64 \<Rightarrow> 'r \<Rightarrow> 'r" where
  "SetLastSellerID R appid uid store_id seller_id s =
     snd (do_cmd R [''SET'', last_seller_key appid uid store_id, format_int64 seller_id] s)"

definition GetSellerID :: "'r redis \<Rightarrow> int64 \<Rightarrow> 'r \<Rightarrow> int64 \<times> 'r" where
  "GetSellerID R store_id s =
     (let (staff_id, s) = do_int64 R [''SRANDMEMBER'', ''stores_seller_'' @ format_int64 store_id] s
      in (int_or_zero staff_id, s))"

definition GetOnlineSellerID :: "'r redis \<Rightarrow> int64 \<Rightarrow> 'r \<Rightarrow> int64 \<times> 'r" where
  "GetOnlineSellerID R store_id s =
     (let (staff_id, s) = do_int64 R [''SRANDMEMBER'', ''stores_online_seller_'' @ format_int64 store_id] s
      in (int_or_zero staff_id, s))"

text \<open>An empty range is an error of the scan.\<close>

definition GetOrderSellerID :: "'r redis \<Rightarrow> int64 \<Rightarrow> 'r \<Rightarrow> int64 \<times> 'r" where
  "GetOrderSellerID R store_id s =
     (let key = ''stores_zseller_'' @ format_int64 store_id; (r, s) = do_ints R [''ZRANGE'', key, ''0'', ''0''] s
      in case r of
           Found (seller_id # _) \<Rightarrow> (seller_id, snd (do_cmd R [''ZINCRBY'', key, ''1'', format_int64 seller_id] s))
         | _ \<Rightarrow> (0, s))"

text \<open>
  \<open>IsExist\<close> and \<open>IsOnline\<close> have the same text but for the cache and the key: a seller that was confirmed
  less than ten minutes before is not looked up.
\<close>

definition recent :: "go_int \<Rightarrow> go_int option \<Rightarrow> bool" where
  "recent now t = (case t of None \<Rightarrow> False | Some t \<Rightarrow> sint (now - t) < 10 * 60)"

definition check_member ::
  "'r redis \<Rightarrow> string \<Rightarrow> int64 \<Rightarrow> go_int \<Rightarrow> (int64 \<rightharpoonup> go_int) \<times> 'r \<Rightarrow> bool \<times> (int64 \<rightharpoonup> go_int) \<times> 'r"
where
  "check_member R key seller_id now cs =
     (let (cached, s) = cs
      in if recent now (cached seller_id) then (True, cached, s)
         else (let cached = cached(seller_id := None); (r, s) = do_bool R [''SISMEMBER'', key, format_int64 seller_id] s
               in case r of
                    Found exists \<Rightarrow> (exists, if exists then cached(seller_id \<mapsto> now) else cached, s)
                  | _ \<Rightarrow> (False, cached, s)))"

definition IsExist :: "'r redis \<Rightarrow> int64 \<Rightarrow> int64 \<Rightarrow> go_int \<Rightarrow> customer_service \<times> 'r \<Rightarrow> bool \<times> customer_service \<times> 'r" where
  "IsExist R store_id seller_id now csr =
     (let (cs, s) = csr;
          (exists, sellers, s) = check_member R (''stores_seller_'' @ format_int64 store_id) seller_id now (cs_sellers cs, s)
      in (exists, cs\<lparr>cs_sellers := sellers\<rparr>, s))"

definition IsOnline :: "'r redis \<Rightarrow> int64 \<Rightarrow> int64 \<Rightarrow> go_int \<Rightarrow> customer_service \<times> 'r \<Rightarrow> bool \<times> customer_service \<times> 'r" where
  "IsOnline R store_id seller_id now csr =
     (let (cs, s) = csr;
          (on, sellers, s) = check_member R (''stores_online_seller_'' @ format_int64 store_id) seller_id now (cs_online_sellers cs, s)
      in (on, cs\<lparr>cs_online_sellers := sellers\<rparr>, s))"

section \<open>The cache of stores\<close>

text \<open>A store is cached under its id; an update makes the next call load it.\<close>

definition stores_ok :: "customer_service \<Rightarrow> bool" where
  "stores_ok cs \<longleftrightarrow> (\<forall>k s. cs_stores cs k = Some s \<longrightarrow> sto_id s = k)"

lemma stores_ok_keeps:
  "stores_ok NewCustomerService"
  "stores_ok cs \<Longrightarrow> stores_ok (snd (GetStore row k cs))"
  "stores_ok cs \<Longrightarrow> stores_ok (cs_HandleMessage channel data cs)"
  "stores_ok (cs_Clear cs)"
  by (auto simp: stores_ok_def NewCustomerService_def GetStore_def LoadStore_def cs_HandleMessage_def
      store_HandleUpdate_def cs_Clear_def split: option.splits if_splits)

lemma GetStore_id: "stores_ok cs \<Longrightarrow> fst (GetStore row k cs) = Some s \<Longrightarrow> sto_id s = k"
  by (auto simp: stores_ok_def GetStore_def LoadStore_def split: option.splits)

lemma GetStore_cached: "fst (GetStore row k cs) = Some s \<Longrightarrow> GetStore row' k (snd (GetStore row k cs)) = (Some s, snd (GetStore row k cs))"
  by (auto simp: GetStore_def split: option.splits)

lemma GetStore_updated: "fst (GetStore row k (cs_HandleMessage ''store_update'' (format_int64 k) cs)) = LoadStore row k"
  by (simp add: GetStore_def cs_HandleMessage_def store_HandleUpdate_def split: option.split)

section \<open>The cache of sellers\<close>

lemma check_member_answer:
  assumes "do_bool R [''SISMEMBER'', key, format_int64 seller] s = (Found b, s')"
  shows "check_member R key seller now (cached, s) =
    (if recent now (cached seller) then (True, cached, s) else (b, cached(seller := if b then Some now else None), s'))"
  using assms by (simp add: check_member_def Let_def)

text \<open>\<open>in_store\<close>: redis answers, and the answer is the membership of the seller in the store.\<close>

definition sellers_of :: "'r redis \<Rightarrow> (int64 \<Rightarrow> int64 \<Rightarrow> bool) \<Rightarrow> bool" where
  "sellers_of R M \<longleftrightarrow> (\<forall>store seller s.
     do_bool R [''SISMEMBER'', ''stores_seller_'' @ format_int64 store, format_int64 seller] s = (Found (M store seller), s))"

lemma IsExist_answer:
  assumes "sellers_of R M"
  shows "IsExist R store seller now (cs, s) =
    (if recent now (cs_sellers cs seller) then (True, cs, s)
     else (M store seller, cs\<lparr>cs_sellers := (cs_sellers cs)(seller := if M store seller then Some now else None)\<rparr>, s))"
  using assms by (simp add: IsExist_def sellers_of_def check_member_answer)

text \<open>
  Whether a seller belongs to a store. The first question about a seller, and every question ten minutes after the
  last positive answer, gets the answer of redis. In the ten minutes after a positive answer the answer is yes
  without a look at redis, and that for every store: the cache has the sellers without their stores, so that a
  seller of one store passes for a seller of all of them.
\<close>

lemma seller_of_store:
  assumes "sellers_of R M"
  shows "\<not> recent now (cs_sellers cs seller) \<Longrightarrow> fst (IsExist R store seller now (cs, s)) = M store seller"
    "M store seller \<Longrightarrow> cs_sellers cs seller = None \<Longrightarrow> sint (later - now) < 600 \<Longrightarrow>
       fst (IsExist R other seller later (snd (IsExist R store seller now (cs, s))))"
    "cs_sellers cs seller = None \<Longrightarrow> sint (later - now) \<ge> 600 \<or> \<not> M store seller \<Longrightarrow>
       fst (IsExist R other seller later (snd (IsExist R store seller now (cs, s)))) = M other seller"
  by (auto simp: IsExist_answer [OF assms(1)] recent_def split: option.splits)

text \<open>Seller 5 is of store 1 only.\<close>

definition one_seller :: "unit redis" where
  "one_seller = \<lparr>do_int64 = (\<lambda>c s. (ErrNil, s)),
     do_bool = (\<lambda>c s. (Found (c = [''SISMEMBER'', ''stores_seller_1'', ''5'']), s)),
     do_ints = (\<lambda>c s. (ErrNil, s)), do_cmd = (\<lambda>c s. (True, s))\<rparr>"

lemma one_seller_of: "sellers_of one_seller (\<lambda>store seller. store = 1 \<and> seller = 5)"
proof -
  have t: "''1'' = format_int64 1" "''5'' = format_int64 5"
    by (simp_all add: format_int64_def format_int_def nat_digits.simps digit_char_def char_of_def bit_0)
  have "''stores_seller_1'' = ''stores_seller_'' @ format_int64 1" by (simp add: t(1) [symmetric])
  then show ?thesis by (auto simp: sellers_of_def one_seller_def t)
qed

lemma one_seller_everywhere:
  "fst (IsExist one_seller 2 5 1059 (snd (IsExist one_seller 1 5 1000 (NewCustomerService, ()))))
   \<and> \<not> fst (IsExist one_seller 2 5 1000 (NewCustomerService, ()))
   \<and> \<not> fst (IsExist one_seller 2 5 1600 (snd (IsExist one_seller 1 5 1000 (NewCustomerService, ()))))"
  using seller_of_store(1) [OF one_seller_of, of 1000 NewCustomerService 5 2 "()"]
    seller_of_store(2) [OF one_seller_of, of 1 5 NewCustomerService 1059 1000 2 "()"]
    seller_of_store(3) [OF one_seller_of, of NewCustomerService 5 1600 1000 1 2 "()"]
  by (simp add: NewCustomerService_def recent_def)

end
