(* ===== verification/Command.thy ===== *)
theory Command
  imports Message Text
begin

text \<open>
  The names of the commands (\<open>message_descriptions\<close>) and \<open>Command.String\<close> of \<^verbatim>\<open>core/message.go\<close>,
  by which the logs name a command.
\<close>

definition core_descriptions :: "(go_int \<times> string) list" where
  "core_descriptions =
     [(MSG_AUTH_STATUS, ''MSG_AUTH_STATUS''), (MSG_IM, ''MSG_IM''), (MSG_ACK, ''MSG_ACK''),
      (MSG_GROUP_NOTIFICATION, ''MSG_GROUP_NOTIFICATION''), (MSG_GROUP_IM, ''MSG_GROUP_IM''),
      (MSG_PING, ''MSG_PING''), (MSG_PONG, ''MSG_PONG''), (MSG_AUTH_TOKEN, ''MSG_AUTH_TOKEN''),
      (MSG_RT, ''MSG_RT''), (MSG_ENTER_ROOM, ''MSG_ENTER_ROOM''),
      (MSG_LEAVE_ROOM, ''MSG_LEAVE_ROOM''), (MSG_ROOM_IM, ''MSG_ROOM_IM''),
      (MSG_SYSTEM, ''MSG_SYSTEM''), (MSG_UNREAD_COUNT, ''MSG_UNREAD_COUNT''),
      (MSG_CUSTOMER_SERVICE, ''MSG_CUSTOMER_SERVICE''), (MSG_CUSTOMER, ''MSG_CUSTOMER''),
      (MSG_CUSTOMER_SUPPORT, ''MSG_CUSTOMER_SUPPORT''), (MSG_SYNC, ''MSG_SYNC''),
      (MSG_SYNC_BEGIN, ''MSG_SYNC_BEGIN''), (MSG_SYNC_END, ''MSG_SYNC_END''),
      (MSG_SYNC_NOTIFY, ''MSG_SYNC_NOTIFY''), (MSG_SYNC_GROUP, ''MSG_SYNC_GROUP''),
      (MSG_SYNC_GROUP_BEGIN, ''MSG_SYNC_GROUP_BEGIN''),
      (MSG_SYNC_GROUP_END, ''MSG_SYNC_GROUP_END''),
      (MSG_SYNC_GROUP_NOTIFY, ''MSG_SYNC_GROUP_NOTIFY''), (MSG_NOTIFICATION, ''MSG_NOTIFICATION''),
      (MSG_METADATA, ''MSG_METADATA''), (MSG_VOIP_CONTROL, ''MSG_VOIP_CONTROL'')]"

definition route_descriptions :: "(go_int \<times> string) list" where
  "route_descriptions =
     [(MSG_SUBSCRIBE, ''MSG_SUBSCRIBE''), (MSG_UNSUBSCRIBE, ''MSG_UNSUBSCRIBE''),
      (MSG_PUBLISH, ''MSG_PUBLISH''), (MSG_PUSH, ''MSG_PUSH''),
      (MSG_PUBLISH_GROUP, ''MSG_PUBLISH_GROUP''), (MSG_SUBSCRIBE_ROOM, ''MSG_SUBSCRIBE_ROOM''),
      (MSG_UNSUBSCRIBE_ROOM, ''MSG_UNSUBSCRIBE_ROOM''), (MSG_PUBLISH_ROOM, ''MSG_PUBLISH_ROOM'')]"

definition storage_descriptions :: "(go_int \<times> string) list" where
  "storage_descriptions =
     [(MSG_STORAGE_SYNC_BEGIN, ''MSG_STORAGE_SYNC_BEGIN''),
      (MSG_STORAGE_SYNC_MESSAGE, ''MSG_STORAGE_SYNC_MESSAGE''),
      (MSG_STORAGE_SYNC_MESSAGE_BATCH, ''MSG_STORAGE_SYNC_MESSAGE_BATCH''),
      (MSG_GROUP_OFFLINE, ''MSG_GROUP_OFFLINE''), (MSG_OFFLINE_V4, ''MSG_OFFLINE_V4''),
      (MSG_OFFLINE_V3, ''MSG_OFFLINE_V3''), (MSG_OFFLINE_V2, ''MSG_OFFLINE_V2''),
      (MSG_PENDING_GROUP_MESSAGE, ''MSG_PENDING_GROUP_MESSAGE''),
      (MSG_GROUP_IM_LIST, ''MSG_GROUP_IM_LIST'')]"

definition message_descriptions :: "(go_int \<times> string) list" where
  "message_descriptions = core_descriptions @ route_descriptions @ storage_descriptions"

definition Command_String :: "go_int \<Rightarrow> string" where
  "Command_String cmd = (case map_of message_descriptions cmd of Some desc \<Rightarrow> desc | None \<Rightarrow> format_int64 cmd)"

lemma descriptions_distinct:
  "distinct (map fst message_descriptions)" "distinct (map snd message_descriptions)"
  by (simp_all add: message_descriptions_def core_descriptions_def route_descriptions_def storage_descriptions_def)

text \<open>A name is no number, so that the text of a command determines it.\<close>

lemma format_no_name: "CHR ''_'' \<in> set d \<Longrightarrow> format_int64 w \<noteq> d"
  using format_int64_chars(1) [of w] by metis

lemma description_names: "d \<in> set (map snd message_descriptions) \<Longrightarrow> CHR ''_'' \<in> set d"
  by (auto simp: message_descriptions_def core_descriptions_def route_descriptions_def storage_descriptions_def)

lemma Command_String_inject: "Command_String a = Command_String b \<longleftrightarrow> a = b"
proof
  assume eq: "Command_String a = Command_String b"
  have name: "d \<in> set (map snd message_descriptions)" if "map_of message_descriptions c = Some d" for c d
    using map_of_SomeD [OF that] by force
  show "a = b"
  proof (cases "map_of message_descriptions a")
    case None
    then show ?thesis
      using eq name [of b] format_no_name [OF description_names]
      by (cases "map_of message_descriptions b") (auto simp: Command_String_def)
  next
    case (Some d)
    then have "map_of message_descriptions b = Some d"
      using eq name [OF Some] format_no_name [OF description_names, of d b]
      by (cases "map_of message_descriptions b") (auto simp: Command_String_def)
    then have "(a, d) \<in> set message_descriptions" "(b, d) \<in> set message_descriptions"
      using Some by (auto dest: map_of_SomeD)
    then show ?thesis using descriptions_distinct(2) by (fastforce simp: distinct_map inj_on_def)
  qed
qed simp

end
