(* ===== verification/MasterRun.thy ===== *)
theory MasterRun
  imports StorageMaster
begin

text \<open>
  The loops of \<^verbatim>\<open>ims/storage_sync.go\<close> with their clocks and their connections: \<open>Master.Run\<close>,
  which holds a message back for at most a second, the whole of \<open>SyncClient.RunLoop\<close>, and \<open>Slaver.Run\<close>
  with its reconnects. Times are in nanoseconds, as integers.
\<close>

section \<open>The loop of the master\<close>

definition Second :: int where "Second = 1000000000"

record 'c master_loop =
  ml_master :: "'c master"
  first_ts :: int

text \<open>The start of a round at the time \<open>now\<close>: how long to wait, after a batch that is due is sent.\<close>

definition master_wait :: "int \<Rightarrow> 'c master_loop \<Rightarrow> int \<times> 'c master_loop" where
  "master_wait now l =
     (let t = 60 * Second
      in if length (cache (ml_master l)) > 0 then
           (let ts = first_ts l + 1 * Second
            in if ts > now then (ts - now, l) else (t, l\<lparr>ml_master := SendBatch (ml_master l)\<rparr>))
         else (t, l))"

text \<open>What the \<open>select\<close> gets: a message, with the time at which it is put into the cache, or the timer.\<close>

datatype master_event = Arrives "int64 \<times> message" int | Timer

fun master_select :: "master_event \<Rightarrow> 'c master_loop \<Rightarrow> 'c master_loop" where
  "master_select (Arrives emsg now) l =
     (let m = (ml_master l)\<lparr>cache := cache (ml_master l) @ [emsg]\<rparr>;
          l = (if length (cache m) = 1 then l\<lparr>ml_master := m, first_ts := now\<rparr> else l\<lparr>ml_master := m\<rparr>)
      in if length (cache m) \<ge> 1000 then l\<lparr>ml_master := SendBatch (ml_master l)\<rparr> else l)"
| "master_select Timer l =
     (if length (cache (ml_master l)) > 0 then l\<lparr>ml_master := SendBatch (ml_master l)\<rparr> else l)"


definition master_loop_start :: "'c master_loop" where
  "master_loop_start = \<lparr>ml_master = NewMaster, first_ts = 0\<rparr>"

text \<open>
  Without the clock a round is at most one sending by the timer and then a step of the master: what is proved of
  those steps holds of the loop.
\<close>

lemma SendBatch_empty: "cache m = [] \<Longrightarrow> SendBatch m = m"
  by (simp add: SendBatch_def)

lemma SendBatch_cache [simp]: "cache (SendBatch m) = []"
  by (simp add: SendBatch_def)

lemma master_wait_untimed:
  "ml_master (snd (master_wait now l)) \<in> {ml_master l, master_timeout (ml_master l)}"
  by (auto simp: master_wait_def Let_def master_timeout_def)

lemma master_select_untimed:
  "ml_master (master_select (Arrives em now) l) = master_message em (ml_master l)"
  "ml_master (master_select Timer l) = master_timeout (ml_master l)"
  by (simp_all add: Let_def master_message_def master_timeout_def SendBatch_empty)

section \<open>How long a message waits\<close>







text \<open>Where a message is between its arrival and its second: in a batch for the client, or in the cache.\<close>

definition registered :: "'c \<Rightarrow> 'c master \<Rightarrow> bool" where
  "registered c m \<longleftrightarrow> clients m c \<noteq> None"

definition sent_to :: "'c \<Rightarrow> int64 \<times> message \<Rightarrow> 'c master \<Rightarrow> bool" where
  "sent_to c em m \<longleftrightarrow>
     snd em \<in> set (concat (map (snd \<circ> snd) (case clients m c of None \<Rightarrow> [] | Some bs \<Rightarrow> bs)))"



lemma keeps_cache [simp]: "sent_to c em (m\<lparr>cache := q\<rparr>) = sent_to c em m" "registered c (m\<lparr>cache := q\<rparr>) = registered c m"
  by (simp_all add: sent_to_def registered_def)

lemma registered_SendBatch [simp]: "registered c (SendBatch m) = registered c m"
  by (simp add: registered_def SendBatch_def)

lemma registered_round [simp]:
  "registered c (ml_master (snd (master_wait now l))) = registered c (ml_master l)"
  "registered c (ml_master (master_select ev l)) = registered c (ml_master l)"
  by (simp add: master_wait_def Let_def) (cases ev; simp add: Let_def)








section \<open>The whole loop of a client\<close>

text \<open>
  \<open>SyncClient.RunLoop\<close> after the registration: what it takes from its channel, \<open>None\<close> the \<open>nil\<close> of a
  closed one, each with the success of the write. The number of the last catch-up message is the first to count on from.
\<close>

fun relay :: "go_int \<Rightarrow> (batch option \<times> bool) list \<Rightarrow> bytes" where
  "relay seq [] = []"
| "relay seq ((None, _) # q) = []"
| "relay seq ((Some b, ok) # q) =
     (let seq = seq + 1; frame = WriteMessage (batch_message seq b) in if ok then frame @ relay seq q else frame)"

definition RunLoop :: "bytes \<Rightarrow> 'a storage_file_scheme \<Rightarrow> (batch option \<times> bool) list \<Rightarrow> bytes option go option" where
  "RunLoop conn s live =
     loop_bind (ReceiveMessage conn) (\<lambda>(msg, _).
       case msg of
         None \<Rightarrow> Some (Ret None)
       | Some m \<Rightarrow>
           if Cmd m \<noteq> MSG_STORAGE_SYNC_BEGIN then Some (Ret None)
           else case Body m of
                  Some (BSyncCursor cursor) \<Rightarrow>
                    map_option (go_map (\<lambda>c. Some (send_batches 0 c @ relay (of_nat (length c)) live)))
                      (LoadSyncMessagesInBackground cursor s)
                | _ \<Rightarrow> Some Panic)"

text \<open>A connection that stays up is one numbered stream: the catch-up, then the batches of the master.\<close>

lemma send_batches_append:
  "send_batches seq (bs @ cs) = send_batches seq bs @ send_batches (seq + of_nat (length bs)) cs"
  by (induction bs arbitrary: seq) (simp_all add: algebra_simps)

lemma relay_send: "relay seq (map (\<lambda>b. (Some b, True)) bs) = send_batches seq bs"
  by (induction bs arbitrary: seq) (simp_all add: Let_def)

lemma relay_stops:
  "relay seq (map (\<lambda>b. (Some b, True)) bs @ (Some b, False) # rest) = send_batches seq (bs @ [b])"
  "relay seq (map (\<lambda>b. (Some b, True)) bs @ (None, ok) # rest) = send_batches seq bs"
  by (induction bs arbitrary: seq) (simp_all add: Let_def)

lemma RunLoop_stream:
  assumes "catch_up conn s = Some (Ret (Some out))"
  shows "\<exists>c. out = send_batches 0 c
    \<and> RunLoop conn s (map (\<lambda>b. (Some b, True)) live) = Some (Ret (Some (send_batches 0 (c @ live))))"
proof -
  obtain msg r where recv: "ReceiveMessage conn = Ret (Some msg, r)"
    using assms by (cases "ReceiveMessage conn") (auto simp: catch_up_def split: option.splits)
  then obtain cursor x where b: "Cmd msg = MSG_STORAGE_SYNC_BEGIN" "Body msg = Some (BSyncCursor cursor)"
      "LoadSyncMessagesInBackground cursor s = Some x"
    using assms by (auto simp: catch_up_def split: if_splits option.splits body.splits)
  then obtain c where c: "x = Ret c" "out = send_batches 0 c"
    using assms recv by (auto simp: catch_up_def)
  then show ?thesis using recv b by (auto simp: RunLoop_def send_batches_append relay_send intro!: exI [of _ c])
qed

section \<open>The reconnects of the slave\<close>

text \<open>
  \<open>Slaver.Run\<close>: each attempt to connect fails (\<open>None\<close>) or gives the bytes that arrive until the connection ends.
  The second component is the list of the milliseconds slept.
\<close>

fun Slaver_Run :: "int \<Rightarrow> bytes option list \<Rightarrow> 'a storage_scheme \<Rightarrow> ('a storage_scheme \<times> int list) go" where
  "Slaver_Run nsleep [] s = Ret (s, [])"
| "Slaver_Run nsleep (None # dials) s =
     (let nsleep = nsleep * 2; nsleep = (if nsleep > 60 * 1000 then 60 * 1000 else nsleep)
      in go_map (\<lambda>(s, sl). (s, nsleep # sl)) (Slaver_Run nsleep dials s))"
| "Slaver_Run nsleep (Some conn # dials) s = go_bind (slave_loop conn s) (Slaver_Run 100 dials)"

lemma Slaver_Run_sleeps:
  "0 < nsleep \<Longrightarrow> Slaver_Run nsleep dials s = Ret (s', sl) \<Longrightarrow> set sl \<subseteq> {1 .. 60000}"
proof (induction nsleep dials s arbitrary: sl s' rule: Slaver_Run.induct)
  case (2 nsleep dials s)
  define n where "n = (if nsleep * 2 > 60 * 1000 then 60 * 1000 else nsleep * 2)"
  obtain sl0 where r: "Slaver_Run n dials s = Ret (s', sl0)" "sl = n # sl0"
    using 2(3) by (auto simp: Let_def n_def split: go.splits)
  have "0 < n" "n \<le> 60000" using 2(2) by (auto simp: n_def)
  then show ?case using 2(1) [OF refl n_def _ r(1)] r(2) by auto
next
  case (3 nsleep conn dials s)
  then show ?case by (auto split: go.splits)
qed simp

end
