(* ===== verification/ChannelRun.thy ===== *)
theory ChannelRun
  imports Channel Codec
begin

text \<open>
  The loops of \<^verbatim>\<open>im/channel.go\<close> around one connection and around the reconnects: what \<open>RunOnce\<close>
  reads, what it writes while writes may fail, and \<open>Run\<close>.
\<close>

section \<open>Reading\<close>

text \<open>The goroutine that reads, over the bytes that arrive: what is dispatched until the connection ends.\<close>

lemma receive_message_shorter: "ReceiveMessage conn = Ret (Some m, r) \<Longrightarrow> length r < length conn"
  using receive_cmd_seq(1) unfolding ReceiveMessage_def by fastforce

function channel_read :: "bytes \<Rightarrow> dispatch list go" where
  "channel_read conn =
     go_bind (ReceiveMessage conn) (\<lambda>(msg, conn').
       case msg of
         None \<Rightarrow> Ret []
       | Some m \<Rightarrow> go_bind (channel_receive m) (\<lambda>ds. go_map (\<lambda>rest. ds @ rest) (channel_read conn')))"
  by pat_completeness auto
termination by (relation "measure length") (auto dest: receive_message_shorter)

declare channel_read.simps [simp del]

section \<open>Writing\<close>

text \<open>
  What the \<open>select\<close> of the writer gets: the reader has closed, or there is a message, whose write is whole or
  fails after some bytes. A failed write is logged, and the loop goes on with the next message.
\<close>

datatype write_event = Closed | Write_ok | Write_failed nat

fun channel_write :: "go_int \<Rightarrow> write_event list \<Rightarrow> message list \<Rightarrow> bytes \<times> message list" where
  "channel_write seq [] q = ([], q)"
| "channel_write seq (Closed # es) q = ([], q)"
| "channel_write seq (e # es) [] = channel_write seq es []"
| "channel_write seq (e # es) (msg # q) =
     (let seq = seq + 1;
          frame = WriteMessage (Message (Cmd msg) seq (Version msg) (Flag msg) (Body msg) (Meta msg));
          (out, q') = channel_write seq es q
      in ((case e of Write_failed k \<Rightarrow> take k frame | _ \<Rightarrow> frame) @ out, q'))"

definition channel_RunOnce ::
  "(int64 \<times> int64 \<times> go_int) list \<Rightarrow> (int64 \<times> int64) list \<Rightarrow> write_event list \<Rightarrow> message list \<Rightarrow> bytes \<times> message list"
where
  "channel_RunOnce users rooms es q =
     (let again = ReSubscribe users @ ReSubscribeRoom rooms;
          (out, q') = channel_write (of_nat (length again)) es q
      in (send_seq 0 again @ out, q'))"

text \<open>
  An attempt to connect fails, or gives a connection that begins with the subscriptions the channel then has.
  The result has the bytes of every connection, the messages left and the milliseconds slept.
\<close>

datatype attempt =
    Dial_error
  | Dialed "(int64 \<times> int64 \<times> go_int) list" "(int64 \<times> int64) list" "write_event list"

fun channel_Run :: "int \<Rightarrow> attempt list \<Rightarrow> message list \<Rightarrow> bytes list \<times> message list \<times> int list" where
  "channel_Run nsleep [] q = ([], q, [])"
| "channel_Run nsleep (Dial_error # as) q =
     (let nsleep = nsleep * 2; nsleep = (if nsleep > 60 * 1000 then 60 * 1000 else nsleep);
          (outs, q', sl) = channel_Run nsleep as q
      in (outs, q', nsleep # sl))"
| "channel_Run nsleep (Dialed users rooms es # as) q =
     (let (out, q') = channel_RunOnce users rooms es q; (outs, q'', sl) = channel_Run 100 as q'
      in (out # outs, q'', sl))"

section \<open>What is sent\<close>

lemma send_seq_append: "send_seq seq (xs @ ys) = send_seq seq xs @ send_seq (seq + of_nat (length xs)) ys"
  by (induction xs arbitrary: seq) (simp_all add: algebra_simps)

text \<open>As long as the writes succeed, a connection carries the subscriptions and then the messages in order.\<close>

lemma channel_write_ok:
  "\<forall>e \<in> set es. e \<noteq> Closed \<longrightarrow> e = Write_ok \<Longrightarrow>
   \<exists>n. channel_write seq es q = (send_seq seq (take n q), drop n q)"
proof (induction seq es q rule: channel_write.induct [case_names closed drained idle idle_failed sent lost])
  case (closed seq q)
  then show ?case by (auto intro: exI [of _ 0])
next
  case (drained seq es q)
  then show ?case by (auto intro: exI [of _ 0])
next
  case (sent seq es msg q)
  then obtain n where "channel_write (seq + 1) es q = (send_seq (seq + 1) (take n q), drop n q)"
    using sent(1) [OF refl refl] by auto
  then show ?case by (intro exI [of _ "Suc n"]) (simp add: Let_def)
qed auto

lemma channel_RunOnce_ok:
  assumes "\<forall>e \<in> set es. e \<noteq> Closed \<longrightarrow> e = Write_ok"
  shows "\<exists>n. channel_RunOnce users rooms es q = (RunOnce_sent users rooms (take n q), drop n q)"
proof -
  obtain n where "channel_write (of_nat (length (ReSubscribe users @ ReSubscribeRoom rooms))) es q =
      (send_seq (of_nat (length (ReSubscribe users @ ReSubscribeRoom rooms))) (take n q), drop n q)"
    using channel_write_ok [OF assms] by blast
  then show ?thesis
    using send_seq_append [of 0 "ReSubscribe users @ ReSubscribeRoom rooms" "take n q"]
    by (auto simp: channel_RunOnce_def RunOnce_sent_def Let_def simp del: length_append intro!: exI [of _ n])
qed

text \<open>A write that fails loses its message: the writer goes on, and nothing queues the message again.\<close>

lemma failed_write_loses:
  "channel_write seq [Write_failed 0, Closed] [msg] = ([], [])"
  by (simp add: Let_def)

text \<open>Over any attempts, failed ones included, the messages that were taken are a prefix of those queued, and the waits are bounded.\<close>

lemma channel_write_prefix: "\<exists>n. snd (channel_write seq es q) = drop n q"
proof (induction seq es q rule: channel_write.induct [case_names closed drained idle idle_failed sent lost])
  case (closed seq q)
  then show ?case by (auto intro: exI [of _ 0])
next
  case (drained seq es q)
  then show ?case by (auto intro: exI [of _ 0])
next
  case (sent seq es msg q)
  then obtain n where "snd (channel_write (seq + 1) es q) = drop n q" by blast
  then show ?case by (auto simp: Let_def split: prod.splits intro: exI [of _ "Suc n"])
next
  case (lost seq k es msg q)
  then obtain n where "snd (channel_write (seq + 1) es q) = drop n q" by blast
  then show ?case by (auto simp: Let_def split: prod.splits intro: exI [of _ "Suc n"])
qed auto

lemma channel_Run_bounds:
  "0 < nsleep \<Longrightarrow> channel_Run nsleep as q = (outs, q', sl) \<Longrightarrow> set sl \<subseteq> {1 .. 60000} \<and> (\<exists>n. q' = drop n q)"
proof (induction nsleep as q arbitrary: outs q' sl rule: channel_Run.induct)
  case (1 nsleep q)
  then show ?case by (auto intro: exI [of _ 0])
next
  case (2 nsleep as q)
  define n where "n = (if nsleep * 2 > 60 * 1000 then 60 * 1000 else nsleep * 2)"
  obtain sl0 where r: "channel_Run n as q = (outs, q', sl0)" "sl = n # sl0"
    using 2(3) by (auto simp: Let_def n_def split: prod.splits)
  have "0 < n" "n \<le> 60000" using 2(2) by (auto simp: n_def)
  then show ?case using 2(1) [OF refl n_def _ r(1)] r(2) by auto
next
  case (3 nsleep users rooms es as q)
  obtain out q1 where o1: "channel_RunOnce users rooms es q = (out, q1)" by fastforce
  obtain outs1 where r: "channel_Run 100 as q1 = (outs1, q', sl)"
    using 3(3) by (auto simp: o1 Let_def split: prod.splits)
  obtain n where "q1 = drop n q"
    using o1 channel_write_prefix [of _ es q] by (auto simp: channel_RunOnce_def Let_def split: prod.splits) (metis snd_conv)
  then show ?case using 3(1) [OF o1 [symmetric] refl _ r] by auto
qed

end
