(* ===== verification/WebSocket.thy ===== *)
theory WebSocket
  imports Connection Codec
begin

text \<open>
  \<^verbatim>\<open>im/sio.go\<close> and the two methods \<open>read\<close> and \<open>send\<close> of \<^verbatim>\<open>im/connection.go\<close> that choose between a TCP
  connection and a websocket. The websocket library cuts the bytes into messages.
\<close>

section \<open>A websocket\<close>

text \<open>What \<open>ReadMessage\<close> gives: an error, a binary message, or one of another type.\<close>

datatype ws_read = Ws_error | Ws_binary bytes | Ws_other

definition ReadBinaryMesage :: "bytes \<Rightarrow> message option go" where
  "ReadBinaryMesage b = go_map fst (ReceiveClientMessage b)"

fun ReadWebsocketMessage :: "ws_read \<Rightarrow> message option go" where
  "ReadWebsocketMessage Ws_error = Ret None"
| "ReadWebsocketMessage (Ws_binary p) = ReadBinaryMesage p"
| "ReadWebsocketMessage Ws_other = Ret None"

text \<open>The calls of the library that \<open>SendWebsocketBinaryMessage\<close> makes may fail; the result is the binary message sent.\<close>

definition SendWebsocketBinaryMessage :: "bool \<Rightarrow> bool \<Rightarrow> bool \<Rightarrow> message \<Rightarrow> bytes option" where
  "SendWebsocketBinaryMessage writer_ok write_ok close_ok msg =
     (if \<not> writer_ok then None
      else if \<not> write_ok then None
      else if \<not> close_ok then None
      else Some (WriteMessage msg))"

section \<open>Both kinds of connection\<close>

text \<open>What is still to be read; a connection of neither kind cannot be made.\<close>

datatype input = Tcp bytes | Websocket "ws_read list"

fun conn_read :: "input \<Rightarrow> (message option \<times> input) go" where
  "conn_read (Tcp conn) = go_map (\<lambda>(msg, conn'). (msg, Tcp conn')) (ReceiveClientMessage conn)"
| "conn_read (Websocket []) = Ret (None, Websocket [])"
| "conn_read (Websocket (r # rs)) = go_map (\<lambda>msg. (msg, Websocket rs)) (ReadWebsocketMessage r)"

text \<open>The messages that the loop of a client reads until the first that cannot be read.\<close>

definition input_size :: "input \<Rightarrow> nat" where
  "input_size i = (case i of Tcp conn \<Rightarrow> length conn | Websocket rs \<Rightarrow> length rs)"

lemma conn_read_smaller: "conn_read i = Ret (Some m, i') \<Longrightarrow> input_size i' < input_size i"
proof (induction i rule: conn_read.induct)
  case (1 conn)
  then show ?case using receive_cmd_seq(1)
    by (auto simp: input_size_def ReceiveClientMessage_def) fastforce
qed (auto simp: input_size_def)

function read_messages :: "input \<Rightarrow> message list go" where
  "read_messages i =
     go_bind (conn_read i) (\<lambda>(msg, i').
       case msg of None \<Rightarrow> Ret [] | Some m \<Rightarrow> go_map ((#) m) (read_messages i'))"
  by pat_completeness auto
termination by (relation "measure input_size") (auto dest: conn_read_smaller)

declare read_messages.simps [simp del]

section \<open>A websocket is as good as a stream\<close>

text \<open>
  Messages sent as binary messages, one frame in each, are read as the same frames on a stream are, and
  both are the messages as they were sent. What follows a frame within its binary message is dropped.
\<close>

definition client_frame :: "message \<Rightarrow> bool" where
  "client_frame m \<longleftrightarrow> wire_ok m \<and> length (msg_ToData m) < 32 * 1024 \<and> external_message (Cmd m)"

lemma client_frame_read: "client_frame m \<Longrightarrow> ReceiveClientMessage (WriteMessage m @ s) = Ret (Some (canon m), s)"
  unfolding client_frame_def ReceiveClientMessage_def by (rule receive_write) auto

lemma read_binary_frame: "client_frame m \<Longrightarrow> ReadBinaryMesage (WriteMessage m @ s) = Ret (Some (canon m))"
  by (simp add: ReadBinaryMesage_def client_frame_read)

lemma read_stream: "\<forall>m \<in> set ms. client_frame m \<Longrightarrow> read_messages (Tcp (concat (map WriteMessage ms))) = Ret (map canon ms)"
proof (induction ms)
  case Nil
  have "ReceiveClientMessage [] = Ret (None, [])" by (simp add: ReceiveClientMessage_def ReceiveLimitMessage_def receive_with_def read_frame_def)
  then show ?case by (subst read_messages.simps) simp
next
  case (Cons m ms)
  then show ?case by (subst read_messages.simps) (simp add: client_frame_read)
qed

lemma read_websocket:
  "\<forall>m \<in> set ms. client_frame m \<Longrightarrow>
   read_messages (Websocket (map (\<lambda>m. Ws_binary (WriteMessage m)) ms)) = Ret (map canon ms)"
proof (induction ms)
  case Nil
  then show ?case by (subst read_messages.simps) simp
next
  case (Cons m ms)
  then show ?case using read_binary_frame [of m "[]"] by (subst read_messages.simps) simp
qed

lemma websocket_is_stream:
  "\<forall>m \<in> set ms. client_frame m \<Longrightarrow>
   read_messages (Websocket (map (\<lambda>m. Ws_binary (WriteMessage m)) ms)) = read_messages (Tcp (concat (map WriteMessage ms)))"
  by (simp add: read_stream read_websocket)

lemma second_frame_dropped:
  assumes "client_frame m"
  shows "read_messages (Websocket [Ws_binary (WriteMessage m @ WriteMessage m')]) = Ret [canon m]"
  using read_binary_frame [OF assms] by (subst read_messages.simps, simp) (subst read_messages.simps, simp)

end
