(* ===== verification/RouteHttp.thy ===== *)
theory RouteHttp
  imports RouteServer HttpBase
begin

text \<open>
  The two monitoring handlers of \<^verbatim>\<open>imr/rpc.go\<close> with their requests and replies, over the queries of
  \<open>RouteServer\<close>. The orders in which \<open>range\<close> visits the applications and the users are arguments.
\<close>

section \<open>Handlers\<close>

text \<open>\<open>json.Marshal\<close> of the list of \<open>App\<close> structs, whose fields it writes in the order of the declaration.\<close>

definition app_json :: "int64 \<Rightarrow> int64 list \<Rightarrow> json" where
  "app_json appid users = JObj [(''appid'', JInt (sint appid)), (''users'', JList (map (\<lambda>u. JInt (sint u)) users))]"

definition http_GetOnlineClients ::
  "((int64 \<rightharpoonup> int64 set) \<Rightarrow> int64 list) \<Rightarrow> (int64 set \<Rightarrow> int64 list) \<Rightarrow> 'c imr \<Rightarrow> reply"
where
  "http_GetOnlineClients app_order user_order st =
     (let r = GetOnlineClients st;
          apps = map (\<lambda>appid. app_json appid (user_order (case r appid of None \<Rightarrow> {} | Some users \<Rightarrow> users))) (app_order r)
      in Write_json (JList apps))"

definition http_GetOnlineStatus :: "request \<Rightarrow> 'c imr \<Rightarrow> reply" where
  "http_GetOnlineStatus rq st =
     (case query_int64 rq ''appid'' of
        None \<Rightarrow> invalid_query
      | Some appid \<Rightarrow>
          (case query_int64 rq ''uid'' of
             None \<Rightarrow> invalid_query
           | Some uid \<Rightarrow> Write_json (JObj [(''online'', JBool (GetOnlineStatus appid uid st))])))"

text \<open>The multiplexer.\<close>

definition imr_ServeHTTP ::
  "((int64 \<rightharpoonup> int64 set) \<Rightarrow> int64 list) \<Rightarrow> (int64 set \<Rightarrow> int64 list) \<Rightarrow> string \<Rightarrow> request \<Rightarrow> 'c imr \<Rightarrow> reply"
where
  "imr_ServeHTTP app_order user_order path rq st =
     (if path = ''/online'' then http_GetOnlineStatus rq st
      else if path = ''/all_online'' then http_GetOnlineClients app_order user_order st
      else http_WriteHeader 404)"

section \<open>Replies\<close>

lemma online_request:
  assumes "rq_query rq ''appid'' = format_int64 a" "rq_query rq ''uid'' = format_int64 u"
  shows "http_GetOnlineStatus rq st = Write_json (JObj [(''online'', JBool (IsUserOnline a u st))])"
  using assms by (simp add: http_GetOnlineStatus_def query_int64_def GetOnlineStatus_def)

lemma online_bad_request:
  assumes "rq_query rq ''appid'' = [] \<or> rq_query rq ''uid'' = []"
  shows "rp_status (http_GetOnlineStatus rq st) = 400"
  using assms
  by (auto simp: http_GetOnlineStatus_def query_int64_def invalid_query_def WriteHttpError_def split: option.split)

text \<open>
  The list of all online users names every user that a connected server has in its table, also those none of whose
  connections is online: \<open>/online\<close> says of such a user that it is not.
\<close>

lemma GetOnlineClients_iff:
  "(\<exists>users. GetOnlineClients st a = Some users \<and> u \<in> users)
   \<longleftrightarrow> (\<exists>c \<in> imr_clients st. \<exists>route. ic_app_route (imr_object st c) a = Some route \<and> ir_uids route u \<noteq> None)"
proof -
  let ?m = "\<lambda>c. imr_GetUsers (ic_app_route (imr_object st c)) a"
  have "(\<exists>users. GetOnlineClients st a = Some users \<and> u \<in> users) \<longleftrightarrow> (\<exists>c \<in> imr_clients st. ?m c \<noteq> None \<and> u \<in> the (?m c))"
    by (auto simp: GetOnlineClients_def Let_def GetClientSet_def)
  moreover have "?m c \<noteq> None \<and> u \<in> the (?m c)
      \<longleftrightarrow> (\<exists>route. ic_app_route (imr_object st c) a = Some route \<and> ir_uids route u \<noteq> None)" for c
    by (cases "ic_app_route (imr_object st c) a") (auto simp: imr_GetUsers_def imr_GetUserIDs_def)
  ultimately show ?thesis by simp
qed

lemma online_in_all:
  assumes "IsUserOnline a u st"
  shows "\<exists>users. GetOnlineClients st a = Some users \<and> u \<in> users"
proof -
  obtain c route where "c \<in> imr_clients st" "ic_app_route (imr_object st c) a = Some route" "ir_uids route u = Some True"
    using assms by (auto simp: IsUserOnline_def IsAppUserOnline_def imr_FindRoute_def Route_IsUserOnline_def split: option.splits)
  then show ?thesis unfolding GetOnlineClients_iff by blast
qed

text \<open>A user with connections none of which is online.\<close>

lemma away_user_listed:
  assumes "imr_clients st = {c}" "ic_app_route (imr_object st c) = [a \<mapsto> AddUserID u False (imr_NewRoute a)]"
  shows "(\<exists>users. GetOnlineClients st a = Some users \<and> u \<in> users) \<and> \<not> IsUserOnline a u st"
  unfolding GetOnlineClients_iff using assms
  by (auto simp: IsUserOnline_def IsAppUserOnline_def imr_FindRoute_def Route_IsUserOnline_def AddUserID_def)

end
