(* ===== verification/Moderation.thy ===== *)
theory Moderation
  imports Sessions EventStream
begin

text \<open>
  What keeps users from saying what they should not: \<open>FilterDirtyWord\<close> of \<^verbatim>\<open>im/im_server.go\<close>, and
  \<^verbatim>\<open>im/subscriber.go\<close>, which follows a redis channel that says which users may not speak in rooms.
\<close>

section \<open>Dirty words\<close>

text \<open>
  The library of the word filter and the one for JSON: \<open>wf_text\<close> is \<open>NewJson\<close> with the string at
  \<open>text\<close>, \<open>None\<close> an error of either, and \<open>wf_set_text\<close> is \<open>Set\<close> with \<open>Encode\<close>.
\<close>

record word_filter =
  wf_text :: "bytes \<Rightarrow> bytes option"
  wf_FindIn :: "bytes \<Rightarrow> bool"
  wf_RemoveNoise :: "bytes \<Rightarrow> bytes"
  wf_Replace :: "bytes \<Rightarrow> bytes"
  wf_set_text :: "bytes \<Rightarrow> bytes \<Rightarrow> bytes option"

text \<open>What becomes of the content of a message; there is no filter where no file of words is configured.\<close>

definition filter_content :: "word_filter option \<Rightarrow> bytes \<Rightarrow> bytes" where
  "filter_content flt content =
     (case flt of
        None \<Rightarrow> content
      | Some w \<Rightarrow>
          (case wf_text w content of
             None \<Rightarrow> content
           | Some text \<Rightarrow>
               if wf_FindIn w text then
                 (let t = wf_RemoveNoise w text; replacedText = wf_Replace w t
                  in case wf_set_text w content replacedText of None \<Rightarrow> content | Some c \<Rightarrow> c)
               else content))"

text \<open>
  Where the JSON library reads what it wrote, and \<open>Replace\<close> leaves no word to be found, a text
  that passed the filter has none, and passing it again changes nothing.
\<close>

definition filter_laws :: "word_filter \<Rightarrow> bool" where
  "filter_laws w \<longleftrightarrow>
     (\<forall>b t. wf_text w b \<noteq> None \<longrightarrow> (\<exists>c. wf_set_text w b t = Some c \<and> wf_text w c = Some t))
     \<and> (\<forall>t. \<not> wf_FindIn w (wf_Replace w (wf_RemoveNoise w t)))"

lemma filter_content_clean:
  "filter_laws w \<Longrightarrow> wf_text w (filter_content (Some w) b) = Some t \<Longrightarrow> \<not> wf_FindIn w t"
  by (auto simp: filter_laws_def filter_content_def Let_def split: option.splits if_splits) (metis option.distinct(1) option.inject)+

lemma filter_content_idem:
  assumes "filter_laws w"
  shows "filter_content (Some w) (filter_content (Some w) b) = filter_content (Some w) b"
proof (cases "wf_text w (filter_content (Some w) b)")
  case None
  then show ?thesis by (subst filter_content_def) simp
next
  case (Some t)
  then show ?thesis using filter_content_clean [OF assms Some] by (subst filter_content_def) simp
qed

section \<open>Forbidden users\<close>

text \<open>A message \<open>appid,uid,forbidden\<close> sets the flag of every connection of the user; \<open>int32\<close> truncates.\<close>

definition HandleForbidden :: "string \<Rightarrow> 'c im \<Rightarrow> 'c im" where
  "HandleForbidden data st =
     (case Split CHR '','' data of
        [a, b, c] \<Rightarrow>
          (case ParseInt64 a of None \<Rightarrow> st | Some appid \<Rightarrow>
          (case ParseInt64 b of None \<Rightarrow> st | Some uid \<Rightarrow>
          (case ParseInt64 c of None \<Rightarrow> st | Some fb \<Rightarrow>
             (case im_FindRoute appid (im_apps st) of
                None \<Rightarrow> st
              | Some route \<Rightarrow>
                  let clients = route_FindClientSet uid route
                  in if Set.is_empty clients then st
                     else st\<lparr>im_client := (\<lambda>c. if c \<in> clients then (im_client st c)\<lparr>cn_forbidden := ucast fb\<rparr>
                            else im_client st c)\<rparr>))))
      | _ \<Rightarrow> st)"

text \<open>What \<open>Receive\<close> gives. The loop ends at an error.\<close>

datatype pubsub = PMessage string string | PSubscription | PError

fun subscribed :: "pubsub list \<Rightarrow> 'c im \<Rightarrow> 'c im" where
  "subscribed [] st = st"
| "subscribed (PMessage channel data # vs) st =
     subscribed vs (if channel = ''speak_forbidden'' then HandleForbidden data st else st)"
| "subscribed (PSubscription # vs) st = subscribed vs st"
| "subscribed (PError # vs) st = st"

definition SubscribeRedis :: "string \<Rightarrow> redis_dial \<Rightarrow> pubsub list \<Rightarrow> 'c im \<Rightarrow> bool \<times> 'c im" where
  "SubscribeRedis password dial vs st =
     (if \<not> rd_dial dial then (False, st)
      else if 0 < length password \<and> \<not> rd_auth dial then (False, st)
      else (True, subscribed vs st))"

fun ListenRedis :: "string \<Rightarrow> (redis_dial \<times> pubsub list) list \<Rightarrow> int \<times> 'c im \<Rightarrow> int \<times> 'c im" where
  "ListenRedis password [] s = s"
| "ListenRedis password ((dial, vs) # cs) (nsleep, st) =
     (let (connected, st) = SubscribeRedis password dial vs st
      in ListenRedis password cs (backoff connected nsleep, st))"

lemma ListenRedis_sleep:
  "1 \<le> nsleep \<Longrightarrow> nsleep \<le> 60 \<Longrightarrow>
     1 \<le> fst (ListenRedis password cs (nsleep, st)) \<and> fst (ListenRedis password cs (nsleep, st)) \<le> 60"
proof (induction cs arbitrary: nsleep st)
  case (Cons c cs)
  obtain dial vs where c: "c = (dial, vs)" by (cases c)
  obtain connected st' where r: "SubscribeRedis password dial vs st = (connected, st')" by fastforce
  have "1 \<le> backoff connected nsleep" "backoff connected nsleep \<le> 60" using backoff_bounds [OF Cons.prems(1)] by auto
  then show ?case using Cons.IH [of "backoff connected nsleep" st'] Cons.prems(2) by (simp add: c r)
qed simp

section \<open>The effect\<close>

lemma format_no_comma [simp]: "CHR '','' \<notin> set (format_int64 w)"
proof -
  have "digit_value (CHR '','') = None" by (simp add: digit_value_def)
  then have "digit_char n \<noteq> CHR '',''" if "n < 10" for n using that by (metis digit_value_char option.distinct(1))
  then have "CHR '','' \<notin> set (nat_digits n)" for n using nat_digits_set [of n] by force
  then show ?thesis by (auto simp: format_int64_def format_int_def)
qed

definition forbid_text :: "int64 \<Rightarrow> int64 \<Rightarrow> int64 \<Rightarrow> string" where
  "forbid_text appid uid fb = format_int64 appid @ CHR '','' #  format_int64 uid @ CHR '','' #  format_int64 fb"

lemma HandleForbidden_effect:
  "HandleForbidden (forbid_text a u fb) st = st\<lparr>im_client := (\<lambda>c. if c \<in> user_members st a u
     then (im_client st c)\<lparr>cn_forbidden := ucast fb\<rparr> else im_client st c)\<rparr>"
  by (auto simp: HandleForbidden_def forbid_text_def im_FindRoute_def user_members_def route_FindClientSet_def Let_def
      Set.is_empty_iff split: option.split)

text \<open>
  Nothing else of the server is changed, by no message whatever: the connections keep all but the flag, so that
  their users, rooms and queues, and with them the routes and the channels, are as before.
\<close>

definition same_but_forbidden :: "'c im \<Rightarrow> 'c im \<Rightarrow> bool" where
  "same_but_forbidden st st' \<longleftrightarrow> (\<exists>f. st' = st\<lparr>im_client := (\<lambda>c. (im_client st c)\<lparr>cn_forbidden := f c\<rparr>)\<rparr>)"

lemma same_but_refl: "same_but_forbidden st st"
  unfolding same_but_forbidden_def by (rule exI [of _ "\<lambda>c. cn_forbidden (im_client st c)"]) simp

lemma same_but_trans: "same_but_forbidden st st' \<Longrightarrow> same_but_forbidden st' st'' \<Longrightarrow> same_but_forbidden st st''"
  by (auto simp: same_but_forbidden_def)

lemma HandleForbidden_same: "same_but_forbidden st (HandleForbidden data st)"
proof -
  have set: "same_but_forbidden st (st\<lparr>im_client := (\<lambda>c. if c \<in> S then (im_client st c)\<lparr>cn_forbidden := v\<rparr> else im_client st c)\<rparr>)"
    for S v
    unfolding same_but_forbidden_def
    by (rule exI [of _ "\<lambda>c. if c \<in> S then v else cn_forbidden (im_client st c)"]) (auto intro!: arg_cong [where f = "\<lambda>g. st\<lparr>im_client := g\<rparr>"])
  show ?thesis
    by (auto simp: HandleForbidden_def Let_def set same_but_refl split: list.split option.split)
qed

lemma subscribed_same: "same_but_forbidden st (subscribed vs st)"
  by (induction vs st rule: subscribed.induct) (auto intro: same_but_refl same_but_trans [OF HandleForbidden_same])

lemma ListenRedis_same: "same_but_forbidden st (snd (ListenRedis password cs (nsleep, st)))"
proof (induction cs arbitrary: nsleep st)
  case (Cons c cs)
  obtain dial vs where c: "c = (dial, vs)" by (cases c)
  have "same_but_forbidden st (snd (SubscribeRedis password dial vs st))"
    by (simp add: SubscribeRedis_def same_but_refl subscribed_same)
  then show ?case using Cons same_but_trans by (fastforce simp: c split: prod.splits)
qed (simp add: same_but_refl)

end
