(* ===== verification/GroupSql.thy ===== *)
theory GroupSql
  imports Group
begin

text \<open>
  The functions of \<^verbatim>\<open>im/group.go\<close> that write the tables of the groups, and the one that loads them all. The tables
  are lists of rows; what the statements do to them is what SQL says, and every call of the driver may fail.
\<close>

section \<open>Tables\<close>

record group_row =
  row_id :: int64
  row_appid :: int64
  row_master :: int64
  row_name :: string
  row_super :: int8

record member_row =
  row_group_id :: int64
  row_uid :: int64
  row_timestamp :: int64
  row_mute :: int64

record tables =
  tb_group :: "group_row list"
  tb_member :: "member_row list"

text \<open>The ids of the rows are distinct and smaller than the next one that \<open>AUTO_INCREMENT\<close> gives.\<close>

definition tables_ok :: "int64 \<Rightarrow> tables \<Rightarrow> bool" where
  "tables_ok next_id tb \<longleftrightarrow> distinct (map row_id (tb_group tb)) \<and> (\<forall>r \<in> set (tb_group tb). sint (row_id r) < sint next_id)
     \<and> (\<forall>r \<in> set (tb_member tb). sint (row_group_id r) < sint next_id)"

text \<open>What the queries of \<open>Group\<close> find in the tables.\<close>

definition db_of :: "tables \<Rightarrow> db" where
  "db_of tb = \<lparr>db_group = (\<lambda>g. map_option (\<lambda>r. (row_id r, row_appid r, row_super r)) (find (\<lambda>r. row_id r = g) (tb_group tb))),
     db_members = (\<lambda>g. Some (map (\<lambda>r. (row_uid r, row_timestamp r, row_mute r)) (filter (\<lambda>r. row_group_id r = g) (tb_member tb))))\<rparr>"

section \<open>Operations\<close>

text \<open>\<open>prepared\<close>, \<open>executed\<close> and \<open>has_id\<close> say which calls of the driver succeed.\<close>

definition CreateGroup ::
  "bool \<Rightarrow> bool \<Rightarrow> bool \<Rightarrow> int64 \<Rightarrow> int64 \<Rightarrow> int64 \<Rightarrow> string \<Rightarrow> int8 \<Rightarrow> tables \<Rightarrow> int64 \<times> tables"
where
  "CreateGroup prepared executed has_id next_id appid master name super tb =
     (if \<not> prepared then (0, tb)
      else if \<not> executed then (0, tb)
      else
        let tb = tb\<lparr>tb_group := tb_group tb @ [\<lparr>row_id = next_id, row_appid = appid, row_master = master,
              row_name = name, row_super = super\<rparr>]\<rparr>
        in if \<not> has_id then (0, tb) else (next_id, tb))"

text \<open>
  The two deletions of a transaction, each prepared and executed. The result of \<open>Commit\<close> is not looked at;
  a transaction that is not committed leaves the tables.
\<close>

definition DeleteGroup :: "bool \<Rightarrow> bool \<times> bool \<Rightarrow> bool \<times> bool \<Rightarrow> bool \<Rightarrow> int64 \<Rightarrow> tables \<Rightarrow> bool \<times> tables" where
  "DeleteGroup begun stmt1 stmt2 committed group_id tb =
     (if \<not> begun then (False, tb)
      else if \<not> (fst stmt1 \<and> snd stmt1) then (False, tb)
      else
        let tb1 = tb\<lparr>tb_group := filter (\<lambda>r. row_id r \<noteq> group_id) (tb_group tb)\<rparr>
        in if \<not> (fst stmt2 \<and> snd stmt2) then (False, tb)
           else
             let tb2 = tb1\<lparr>tb_member := filter (\<lambda>r. row_group_id r \<noteq> group_id) (tb_member tb1)\<rparr>
             in (True, if committed then tb2 else tb))"

text \<open>All groups; the members of each are loaded with a query of its own, the first error ends the loop.\<close>

fun load_groups :: "db \<Rightarrow> go_int \<Rightarrow> (int64 \<times> int64 \<times> int8) list \<Rightarrow> (int64 \<rightharpoonup> group) \<Rightarrow> (int64 \<rightharpoonup> group) option" where
  "load_groups d now [] groups = Some groups"
| "load_groups d now ((i, appid, super) # rows) groups =
     (case LoadGroupMember d i of
        None \<Rightarrow> None
      | Some members \<Rightarrow>
          let group = (if super \<noteq> 0 then NewSuperGroup now i appid members else NewGroup now i appid members)
          in load_groups d now rows (groups(gr_gid group \<mapsto> group)))"

definition LoadAllGroup :: "bool \<Rightarrow> db \<Rightarrow> go_int \<Rightarrow> (int64 \<times> int64 \<times> int8) list \<Rightarrow> (int64 \<rightharpoonup> group) option" where
  "LoadAllGroup prepared d now rows = (if \<not> prepared then None else load_groups d now rows Map.empty)"

section \<open>What the operations do\<close>

lemma tables_ok_create: "tables_ok n tb \<Longrightarrow> sint n < sint n' \<Longrightarrow> tables_ok n' (snd (CreateGroup p e i n a m name super tb))"
  by (force simp: tables_ok_def CreateGroup_def Let_def)

lemma tables_ok_delete: "tables_ok n tb \<Longrightarrow> tables_ok n (snd (DeleteGroup b s1 s2 c g tb))"
  by (auto simp: tables_ok_def DeleteGroup_def Let_def distinct_map intro: inj_on_subset)

lemma find_new: "\<forall>x \<in> set xs. \<not> P x \<Longrightarrow> find P (xs @ [y]) = (if P y then Some y else None)"
  by (induction xs) auto

text \<open>A group that was created is loaded, without members; a super group as such.\<close>

lemma create_then_load:
  assumes "tables_ok next_id tb" "CreateGroup p e i next_id appid master name super tb = (gid, tb')" "gid \<noteq> 0"
  shows "gid = next_id \<and> db_LoadGroup (db_of tb') now gid = Some (if super \<noteq> 0
    then NewSuperGroup now gid appid Map.empty else NewGroup now gid appid Map.empty)"
proof -
  have gid: "gid = next_id" and tb': "tb_group tb' = tb_group tb @ [\<lparr>row_id = next_id, row_appid = appid, row_master = master,
      row_name = name, row_super = super\<rparr>]" "tb_member tb' = tb_member tb"
    using assms(2,3) by (auto simp: CreateGroup_def Let_def split: if_splits)
  have "\<forall>r \<in> set (tb_group tb). row_id r \<noteq> next_id" "filter (\<lambda>r. row_group_id r = next_id) (tb_member tb) = []"
    using assms(1) by (auto simp: tables_ok_def filter_empty_conv)
  then show ?thesis
    by (simp add: gid db_LoadGroup_def LoadGroupMember_def db_of_def tb' find_new)
qed

text \<open>A group that was deleted is not loaded again, and others are as before.\<close>

lemma find_filter: "find P (filter Q xs) = find (\<lambda>x. P x \<and> Q x) xs"
  by (induction xs) auto

lemma db_of_id: "db_group (db_of tb) g = Some (i, a, k) \<Longrightarrow> i = g"
  by (auto simp: db_of_def find_Some_iff)

lemma delete_then_load:
  assumes "DeleteGroup b s1 s2 True gid tb = (True, tb')"
  shows "db_LoadGroup (db_of tb') now g = (if g = gid then None else db_LoadGroup (db_of tb) now g)"
proof -
  have tb': "tb_group tb' = filter (\<lambda>r. row_id r \<noteq> gid) (tb_group tb)" "tb_member tb' = filter (\<lambda>r. row_group_id r \<noteq> gid) (tb_member tb)"
    using assms by (auto simp: DeleteGroup_def Let_def split: if_splits)
  have none: "find (\<lambda>r. False) xs = None" for xs :: "group_row list" by (induction xs) auto
  have "(\<lambda>r. row_id r = gid \<and> row_id r \<noteq> gid) = (\<lambda>r. False)" by auto
  note none = this none
  have other: "(\<lambda>r. row_id r = g \<and> row_id r \<noteq> gid) = (\<lambda>r. row_id r = g)"
    "(\<lambda>r. row_group_id r \<noteq> gid \<and> row_group_id r = g) = (\<lambda>r. row_group_id r = g)" if "g \<noteq> gid"
    using that by auto
  show ?thesis
  proof (cases "g = gid")
    case True
    then show ?thesis by (simp add: db_LoadGroup_def db_of_def tb' find_filter none)
  next
    case False
    have "db_group (db_of tb') g = db_group (db_of tb) g"
      by (simp add: db_of_def tb' find_filter other [OF False])
    moreover have "LoadGroupMember (db_of tb') g = LoadGroupMember (db_of tb) g"
      by (simp add: LoadGroupMember_def db_of_def tb' other [OF False])
    ultimately show ?thesis
      using False db_of_id by (auto simp: db_LoadGroup_def split: option.split) (metis option.distinct(1) option.inject)+
  qed
qed

text \<open>A failure of \<open>Commit\<close> is reported as success.\<close>

lemma delete_uncommitted: "DeleteGroup True (True, True) (True, True) False gid tb = (True, tb)"
  by (simp add: DeleteGroup_def Let_def)

text \<open>Loading all groups gives what loading each gives.\<close>

lemma load_groups_eq:
  assumes "\<forall>(i, a, s) \<in> set rows. db_group d i = Some (i, a, s)" "load_groups d now rows groups = Some groups'"
  shows "groups' g = (if g \<in> fst ` set rows then db_LoadGroup d now g else groups g)"
  using assms
proof (induction d now rows groups rule: load_groups.induct)
  case (2 d now i appid super rows groups)
  obtain members where m: "LoadGroupMember d i = Some members"
    using 2(3) by (auto split: option.splits)
  define group where "group = (if super \<noteq> 0 then NewSuperGroup now i appid members else NewGroup now i appid members)"
  have i: "gr_gid group = i" "db_LoadGroup d now i = Some group"
    using 2(2) by (auto simp: group_def NewSuperGroup_def NewGroup_def db_LoadGroup_def m)
  have r: "load_groups d now rows (groups(gr_gid group \<mapsto> group)) = Some groups'"
    using 2(3) by (simp add: m group_def [symmetric] Let_def)
  have "groups' g = (if g \<in> fst ` set rows then db_LoadGroup d now g else (groups(gr_gid group \<mapsto> group)) g)"
    by (rule 2(1) [OF m group_def _ r]) (use 2(2) in simp)
  then show ?case using i by auto
qed simp

lemma find_distinct: "distinct (map f xs) \<Longrightarrow> x \<in> set xs \<Longrightarrow> find (\<lambda>y. f y = f x) xs = Some x"
  by (induction xs) (auto simp: image_iff)

lemma LoadAllGroup_eq:
  assumes "distinct (map row_id (tb_group tb))"
    and "LoadAllGroup True (db_of tb) now (map (\<lambda>r. (row_id r, row_appid r, row_super r)) (tb_group tb)) = Some groups"
  shows "groups = db_LoadGroup (db_of tb) now"
proof
  fix g
  have row: "find (\<lambda>x. row_id x = row_id r) (tb_group tb) = Some r" if "r \<in> set (tb_group tb)" for r
    by (rule find_distinct [OF assms(1) that])
  show "groups g = db_LoadGroup (db_of tb) now g"
  proof (cases "g \<in> row_id ` set (tb_group tb)")
    case True
    then show ?thesis using load_groups_eq [OF _ assms(2) [unfolded LoadAllGroup_def, simplified], of g] row
      by (force simp: db_of_def image_image)
  next
    case False
    then have "find (\<lambda>r. row_id r = g) (tb_group tb) = None" by (auto simp: find_None_iff)
    then have "db_LoadGroup (db_of tb) now g = None" by (simp add: db_LoadGroup_def db_of_def)
    then show ?thesis using load_groups_eq [OF _ assms(2) [unfolded LoadAllGroup_def, simplified], of g] row False
      by (force simp: db_of_def image_image)
  qed
qed

end
