(* ===== verification/StorageExit.thy ===== *)
theory StorageExit
  imports StorageProperties
begin

text \<open>
  The end of a storage server and the start of the next one (\<^verbatim>\<open>ims/storage_server.go\<close>,
  \<open>SaveIndexFileAndExit\<close> of \<^verbatim>\<open>ims/storage.go\<close>): what the index files that are written at an orderly exit make
  of a server that starts on them.
\<close>

section \<open>What executing a message changes\<close>

text \<open>An offline record advances the last id to its own; any other message changes nothing.\<close>

definition offline_peer :: "message \<Rightarrow> bool" where
  "offline_peer m \<longleftrightarrow> Cmd m \<in> {MSG_OFFLINE, MSG_OFFLINE_V2, MSG_OFFLINE_V3, MSG_OFFLINE_V4}"

definition offline_group :: "message \<Rightarrow> bool" where
  "offline_group m \<longleftrightarrow> Cmd m \<in> {MSG_GROUP_IM_LIST, MSG_GROUP_OFFLINE}"

lemma exec_other:
  fixes s :: "'a storage_scheme"
  shows "\<not> offline_peer m \<Longrightarrow> execPeerMessage m i s = Ret s"
    "\<not> offline_group m \<Longrightarrow> execGroupMessage m i s = Ret s"
  by (simp_all add: offline_peer_def offline_group_def execPeerMessage_def execGroupMessage_def)

lemma record_one: "offline_peer m \<Longrightarrow> \<not> offline_group m"
  by (auto simp: offline_peer_def offline_group_def)

lemma exec_record:
  fixes s :: "'a storage_scheme"
  assumes "sint (last_id s) < sint i"
  shows "offline_peer m \<Longrightarrow> execPeerMessage m i s = Ret s' \<Longrightarrow> last_id s' = i"
    "offline_group m \<Longrightarrow> execGroupMessage m i s = Ret s' \<Longrightarrow> last_id s' = i"
  using assms
  by (auto simp: offline_peer_def offline_group_def execPeerMessage_def execGroupMessage_def setPeerIndex_def
      setGroupIndex_def case_group_body Let_def split: if_splits option.splits)

lemma execMessage_cases:
  fixes s :: "'a storage_scheme"
  assumes "execMessage m i s = Ret s'" "sint (last_id s) < sint i"
  shows "if offline_peer m \<or> offline_group m then last_id s' = i else s' = s"
proof (cases "offline_peer m")
  case True
  then have "execPeerMessage m i s = Ret s'"
    using assms(1) record_one [OF True] by (auto simp: execMessage_def exec_other)
  then show ?thesis using exec_record(1) [OF assms(2) True] True by simp
next
  case False
  then have "execGroupMessage m i s = Ret s'" using assms(1) by (simp add: execMessage_def exec_other)
  then show ?thesis
    using exec_record(2) [OF assms(2)] exec_other(2) [of m i s] by (cases "offline_group m") (auto simp: False)
qed

section \<open>The last record of a log\<close>

lemma replay_last:
  fixes s :: "'a storage_scheme"
  assumes "sorted_wrt (<) (map (\<lambda>e. sint (fst e)) log)" "\<forall>e \<in> set log. sint (last_id s) < sint (fst e)"
    and "replay execMessage log s = Ret s'"
  shows "(s' = s \<and> (\<forall>(i, m) \<in> set log. \<not> offline_peer (canon m) \<and> \<not> offline_group (canon m)))
    \<or> (\<exists>A m B t. log = A @ (last_id s', m) # B \<and> sint (last_id t) < sint (last_id s')
        \<and> execMessage (canon m) (last_id s') t = Ret s'
        \<and> (\<forall>(i, m) \<in> set B. \<not> offline_peer (canon m) \<and> \<not> offline_group (canon m)))"
  using assms
proof (induction log arbitrary: s)
  case (Cons e log)
  obtain i m where e: "e = (i, m)" by (cases e)
  obtain t where t: "execMessage (canon m) i s = Ret t" "replay execMessage log t = Ret s'"
    using Cons.prems(3) by (auto simp: e)
  have i: "sint (last_id s) < sint i" using Cons.prems(2) by (simp add: e)
  note step = execMessage_cases [OF t(1) i]
  have lt: "\<forall>e \<in> set log. sint (last_id t) < sint (fst e)"
    using step i Cons.prems(1,2) by (force simp: e split: if_splits)
  from Cons.IH [OF _ lt t(2)] Cons.prems(1)
  consider (same) "s' = t" "\<forall>(i, m) \<in> set log. \<not> offline_peer (canon m) \<and> \<not> offline_group (canon m)"
    | (later) A n B u where "log = A @ (last_id s', n) # B" "sint (last_id u) < sint (last_id s')"
        "execMessage (canon n) (last_id s') u = Ret s'"
        "\<forall>(i, m) \<in> set B. \<not> offline_peer (canon m) \<and> \<not> offline_group (canon m)"
    by (auto simp: e)
  then show ?case
  proof cases
    case same
    show ?thesis
    proof (cases "offline_peer (canon m) \<or> offline_group (canon m)")
      case True
      then have "last_id s' = i" using step same(1) by simp
      then show ?thesis using same t(1) i by (intro disjI2 exI [of _ "[]"]) (auto simp: e)
    qed (use step same in \<open>simp add: e\<close>)
  next
    case later
    then show ?thesis by (intro disjI2 exI [of _ "(i, m) # A"]) (auto simp: e)
  qed
qed simp

lemma replay_others:
  fixes s :: "'a storage_scheme"
  assumes "\<forall>(i, m) \<in> set log. \<not> offline_peer (canon m) \<and> \<not> offline_group (canon m)"
  shows "replay execPeerMessage log s = Ret s" "replay execGroupMessage log s = Ret s"
  using assms by (induction log) (auto simp: exec_other)

section \<open>The last id is the greatest of the indexes\<close>

definition index_max :: "'a storage_scheme \<Rightarrow> bool" where
  "index_max s \<longleftrightarrow>
     (\<forall>k v. message_index s k = Some v \<longrightarrow> sint (ui_last_id v) \<le> sint (last_id s))
     \<and> (\<forall>k v. group_message_index s k = Some v \<longrightarrow> sint (gi_LastId v) \<le> sint (last_id s))
     \<and> (last_id s = 0 \<or> (\<exists>k v. message_index s k = Some v \<and> ui_last_id v = last_id s)
        \<or> (\<exists>k v. group_message_index s k = Some v \<and> gi_LastId v = last_id s))"

lemma index_max_peer:
  fixes s :: "'a storage_scheme"
  assumes "index_max s" "sint (last_id s) < sint (ui_last_id v)"
  shows "index_max (setPeerIndex a u v s)"
  using assms by (force simp: index_max_def setPeerIndex_def Let_def)

lemma index_max_group:
  fixes s :: "'a storage_scheme"
  assumes "index_max s" "sint (last_id s) < sint (gi_LastId v)"
  shows "index_max (setGroupIndex a g v s)"
  using assms by (force simp: index_max_def setGroupIndex_def Let_def)

lemma index_max_exec:
  fixes s :: "'a storage_scheme"
  assumes "index_max s" "sint (last_id s) < sint i" "execMessage m i s = Ret s'"
  shows "index_max s'"
proof (cases "offline_peer m")
  case True
  then have "execPeerMessage m i s = Ret s'"
    using assms(3) record_one [OF True] by (auto simp: execMessage_def exec_other)
  then show ?thesis using assms(1,2)
    by (auto simp: execPeerMessage_def Let_def intro!: index_max_peer split: if_splits option.splits)
next
  case False
  then have "execGroupMessage m i s = Ret s'" using assms(3) by (simp add: execMessage_def exec_other)
  then show ?thesis using assms(1,2)
    by (auto simp: execGroupMessage_def case_group_body Let_def intro!: index_max_group split: if_splits option.splits)
qed

lemma index_max_replay:
  fixes s :: "'a storage_scheme"
  assumes "index_max s" "sorted_wrt (<) (map (\<lambda>e. sint (fst e)) log)" "\<forall>e \<in> set log. sint (last_id s) < sint (fst e)"
    and "replay execMessage log s = Ret s'"
  shows "index_max s'"
  using assms
proof (induction log arbitrary: s)
  case (Cons e log)
  obtain i m where e: "e = (i, m)" by (cases e)
  obtain t where t: "execMessage (canon m) i s = Ret t" "replay execMessage log t = Ret s'"
    using Cons.prems(4) by (auto simp: e)
  have i: "sint (last_id s) < sint i" using Cons.prems(3) by (simp add: e)
  have "\<forall>e \<in> set log. sint (last_id t) < sint (fst e)"
    using execMessage_cases [OF t(1) i] i Cons.prems(2,3) by (force simp: e split: if_splits)
  then show ?case
    using Cons.IH [OF index_max_exec [OF Cons.prems(1) i t(1)] _ _ t(2)] Cons.prems(2) by (simp add: e)
qed simp

lemma storage_ok_max:
  assumes "storage_ok bs s"
  shows "index_max s" "last_id s = 0 \<or> 0 < sint (last_id s)"
proof -
  have b: "blocks_ok bs" using storage_okD(1) [OF assms] by (simp add: layout_def)
  have pos: "\<forall>e \<in> set (log_of bs). sint (last_id (reset_index s)) < sint (fst e)"
    using log_of_bounds(1) [OF b] by (auto simp: reset_index_def)
  show "index_max s"
    by (rule index_max_replay [OF _ sorted_log_of [OF b] pos storage_okD(2) [OF assms]])
      (simp add: index_max_def reset_index_def)
  from replay_last [OF sorted_log_of [OF b] pos storage_okD(2) [OF assms]]
  show "last_id s = 0 \<or> 0 < sint (last_id s)"
  proof (elim disjE conjE exE)
    assume "s = reset_index s"
    then have "last_id s = last_id (reset_index s)" by (rule arg_cong)
    then show ?thesis by (simp add: reset_index_def)
  next
    fix A m B assume "log_of bs = A @ (last_id s, m) # B"
    then show ?thesis using log_of_bounds(1) [OF b, of "last_id s" m] by simp
  qed
qed

section \<open>Reading the index files\<close>

lemma foldl_max_eq:
  fixes M :: int
  shows "\<forall>x \<in> set xs. x \<le> M \<Longrightarrow> a \<le> M \<Longrightarrow> M \<in> insert a (set xs) \<Longrightarrow> foldl max a xs = M"
  by (induction xs arbitrary: a) (auto simp: max_def)

lemma set_peers_last: "sint (last_id (set_peers es s)) = foldl max (sint (last_id s)) (map (sint \<circ> ui_last_id \<circ> snd) es)"
proof (induction es arbitrary: s)
  case (Cons e es)
  have "sint (last_id (setPeerIndex a u v s)) = max (sint (last_id s)) (sint (ui_last_id v))" for a u v
    by (simp add: setPeerIndex_def Let_def)
  then show ?case using Cons.IH by (simp add: set_peers_def split_beta)
qed (simp add: set_peers_def)

lemma set_groups_last: "sint (last_id (set_groups es s)) = foldl max (sint (last_id s)) (map (sint \<circ> gi_LastId \<circ> snd) es)"
proof (induction es arbitrary: s)
  case (Cons e es)
  have "sint (last_id (setGroupIndex a g v s)) = max (sint (last_id s)) (sint (gi_LastId v))" for a g v
    by (simp add: setGroupIndex_def Let_def)
  then show ?case using Cons.IH by (simp add: set_groups_def split_beta)
qed (simp add: set_groups_def)

lemma set_peers_frame: "\<exists>mi li. set_peers es s = s\<lparr>message_index := mi, last_id := li\<rparr>"
proof (induction es arbitrary: s)
  case Nil
  have "s = s\<lparr>message_index := message_index s, last_id := last_id s\<rparr>" by simp
  then show ?case unfolding set_peers_def foldl.simps by blast
next
  case (Cons e es)
  obtain k v where e: "e = (k, v)" by (cases e)
  obtain mi li where 1: "setPeerIndex (u_appid k) (u_uid k) v s = s\<lparr>message_index := mi, last_id := li\<rparr>"
    by (cases "sint (ui_last_id v) > sint (last_id s)")
      (auto simp: setPeerIndex_def Let_def intro: that [where li = "last_id s"] that [where li = "ui_last_id v"])
  obtain mi' li' where "set_peers es (s\<lparr>message_index := mi, last_id := li\<rparr>)
      = s\<lparr>message_index := mi, last_id := li\<rparr>\<lparr>message_index := mi', last_id := li'\<rparr>" using Cons.IH by blast
  then show ?case using 1 by (auto simp: e set_peers_def)
qed

lemma set_groups_frame: "\<exists>mi li. set_groups es s = s\<lparr>group_message_index := mi, last_id := li\<rparr>"
proof (induction es arbitrary: s)
  case Nil
  have "s = s\<lparr>group_message_index := group_message_index s, last_id := last_id s\<rparr>" by simp
  then show ?case unfolding set_groups_def foldl.simps by blast
next
  case (Cons e es)
  obtain k v where e: "e = (k, v)" by (cases e)
  obtain mi li where 1: "setGroupIndex (g_appid k) (g_gid k) v s = s\<lparr>group_message_index := mi, last_id := li\<rparr>"
    by (cases "sint (gi_LastId v) > sint (last_id s)")
      (auto simp: setGroupIndex_def Let_def intro: that [where li = "last_id s"] that [where li = "gi_LastId v"])
  obtain mi' li' where "set_groups es (s\<lparr>group_message_index := mi, last_id := li\<rparr>)
      = s\<lparr>group_message_index := mi, last_id := li\<rparr>\<lparr>group_message_index := mi', last_id := li'\<rparr>" using Cons.IH by blast
  then show ?case using 1 by (auto simp: e set_groups_def)
qed

section \<open>An orderly exit and the next start\<close>

text \<open>
  The repair of the group index executes the message at the last id again: a group message that is the last record
  of the log is counted twice.
\<close>

definition counted_twice :: "(int64 \<times> message) list \<Rightarrow> 'a storage_scheme \<Rightarrow> (group_id \<rightharpoonup> group_index)" where
  "counted_twice log s =
     (case map_of log (last_id s) of
        None \<Rightarrow> group_message_index s
      | Some m \<Rightarrow>
          if Cmd m \<noteq> MSG_GROUP_OFFLINE then group_message_index s
          else case offline_of (canon m) of
                 None \<Rightarrow> group_message_index s
               | Some off \<Rightarrow>
                   let k = \<lparr>g_appid = off_Appid off, g_gid = off_Receiver off\<rparr>
                   in (group_message_index s)(k := map_option (\<lambda>g. g\<lparr>gi_LastSeqId := gi_LastSeqId g + 1,
                        gi_LastBatchId := next_batch (gi_LastSeqId g + 1) (last_id s) (gi_LastBatchId g)\<rparr>)
                        (group_message_index s k)))"

lemma counted_twice_cong:
  assumes "last_id s = last_id t" "group_message_index s = group_message_index t"
  shows "counted_twice log s = counted_twice log t"
  unfolding counted_twice_def assms ..

lemma exec_group_again:
  fixes t :: "'a storage_scheme"
  assumes "execMessage (canon m) i t = Ret s" "sint (last_id t) < sint i" "last_id s = i" "map_of log i = Some m"
  shows "execGroupMessage (canon m) i s = Ret (s\<lparr>group_message_index := counted_twice log s\<rparr>)"
proof (cases "offline_group (canon m)")
  case False
  moreover from this have "Cmd m \<noteq> MSG_GROUP_OFFLINE" by (auto simp: offline_group_def)
  ultimately show ?thesis using assms(3,4) by (simp add: exec_other counted_twice_def)
next
  case True
  then have "\<not> offline_peer (canon m)" using record_one by blast
  then have exec: "execGroupMessage (canon m) i t = Ret s" using assms(1) by (simp add: execMessage_def exec_other)
  show ?thesis
  proof (cases "Cmd m = MSG_GROUP_OFFLINE")
    case True
    then obtain off where off: "offline_of (canon m) = Some off"
      using exec by (auto simp: execGroupMessage_def split: option.splits)
    let ?k = "\<lparr>g_appid = off_Appid off, g_gid = off_Receiver off\<rparr>"
    obtain g where g: "group_message_index s ?k = Some g" "gi_LastMsgid g = off_Msgid off" "gi_LastId g = i"
      using exec True off assms(2) by (auto simp: execGroupMessage_def setGroupIndex_def Let_def)
    have "getGroupIndex (off_Appid off) (off_Receiver off) s = g" by (simp add: getGroupIndex_def g(1))
    then show ?thesis
      using True off g assms(3,4) by (cases g) (simp add: execGroupMessage_def setGroupIndex_def Let_def counted_twice_def)
  next
    case False
    then have cmd: "Cmd m = MSG_GROUP_IM_LIST" using \<open>offline_group (canon m)\<close> by (simp add: offline_group_def)
    then obtain off where off: "group_body (Body (canon m)) = Some off"
      using exec by (auto simp: execGroupMessage_def case_group_body split: option.splits)
    have "(group_message_index s)(\<lparr>g_appid = off_Appid off, g_gid = off_Receiver off\<rparr> \<mapsto>
        \<lparr>gi_LastMsgid = off_Msgid off, gi_LastId = i, gi_LastBatchId = 0, gi_LastSeqId = 0\<rparr>) = group_message_index s"
      using exec cmd off assms(2) by (auto simp: execGroupMessage_def case_group_body setGroupIndex_def Let_def)
    then show ?thesis
      using cmd off assms(3,4) by (simp add: execGroupMessage_def case_group_body setGroupIndex_def Let_def counted_twice_def)
  qed
qed

lemma repair_others:
  fixes s :: "'a storage_scheme"
  assumes "\<forall>(i, m) \<in> set log. \<not> offline_peer (canon m) \<and> \<not> offline_group (canon m)"
  shows "replay repair_peer_message log s = Ret s"
  using assms by (induction log) (auto simp: repair_peer_message_def exec_other(1) split: if_splits)

text \<open>Both repairs on a server whose indexes are those of its log.\<close>

lemma repair_complete:
  fixes s :: "'a storage_scheme"
  assumes "storage_ok bs s"
  shows "repairPeerIndex s = Ret s"
    "repairGroupIndex s = Ret (s\<lparr>group_message_index := counted_twice (log_of bs) s\<rparr>)"
proof -
  have l: "layout bs s" and b: "blocks_ok bs" using storage_okD(1) [OF assms] by (simp_all add: layout_def)
  have pos: "\<forall>e \<in> set (log_of bs). sint (last_id (reset_index s)) < sint (fst e)"
    using log_of_bounds(1) [OF b] by (auto simp: reset_index_def)
  have dist: "distinct (map fst (log_of bs))"
  proof -
    have "distinct (map (\<lambda>e. sint (fst e)) (log_of bs))" using sorted_log_of [OF b] strict_sorted_iff by blast
    then show ?thesis by (auto simp: distinct_map inj_on_def)
  qed
  from replay_last [OF sorted_log_of [OF b] pos storage_okD(2) [OF assms]]
  have "repairPeerIndex s = Ret s \<and> repairGroupIndex s = Ret (s\<lparr>group_message_index := counted_twice (log_of bs) s\<rparr>)"
  proof (elim disjE conjE exE)
    assume eq: "s = reset_index s" and none: "\<forall>(i, m) \<in> set (log_of bs). \<not> offline_peer (canon m) \<and> \<not> offline_group (canon m)"
    have "last_id s = last_id (reset_index s)" by (rule arg_cong [OF eq])
    then have z: "last_id s = 0" by (simp add: reset_index_def)
    have "map_of (log_of bs) 0 = None"
      using log_of_bounds(1) [OF b] by (force simp: map_of_eq_None_iff)
    then have c: "counted_twice (log_of bs) s = group_message_index s" by (simp add: counted_twice_def z)
    let ?log = "concat (map (\<lambda>k. block_log (int k) HEADER_SIZE (bs ! k)) [1..<length bs])"
    have "set ?log \<subseteq> set (log_of bs)" by (auto simp: log_of_def)
    then have others: "\<forall>(i, m) \<in> set ?log. \<not> offline_peer (canon m) \<and> \<not> offline_group (canon m)" using none by blast
    have "replay repair_peer_message ?log s = Ret s" by (rule repair_others [OF others])
    then show ?thesis
      using repair_from_zero [OF repair_peer_layout l] repair_from_zero [OF exec_layout(2) l] replay_others(2) [OF others]
      by (simp add: repairPeerIndex_def repairGroupIndex_def z Let_def c)
  next
    fix A m B t
    assume log: "log_of bs = A @ (last_id s, m) # B" and t: "sint (last_id t) < sint (last_id s)"
      "execMessage (canon m) (last_id s) t = Ret s"
      and B: "\<forall>(i, m) \<in> set B. \<not> offline_peer (canon m) \<and> \<not> offline_group (canon m)"
    have m: "map_of (log_of bs) (last_id s) = Some m" using dist by (intro map_of_is_SomeI) (simp_all add: log)
    show ?thesis
      using exec_group_again [OF t(2,1) refl m] replay_others(1) [OF B, where s = s]
        replay_others(2) [OF B, where s = "s\<lparr>group_message_index := counted_twice (log_of bs) s\<rparr>"]
      by (simp add: repairPeerIndex_eq [OF l log] repairGroupIndex_eq [OF l log])
  qed
  then show "repairPeerIndex s = Ret s" "repairGroupIndex s = Ret (s\<lparr>group_message_index := counted_twice (log_of bs) s\<rparr>)" by auto
qed

section \<open>Flushing and leaving\<close>

text \<open>
  \<open>FlushLoop\<close>, \<open>FlushIndexLoop\<close> and \<open>waitSignal\<close> of \<^verbatim>\<open>ims/storage_server.go\<close>. The process ends with the first of the two
  signals it listens to: \<open>None\<close> is the state of a process that has left.
\<close>

datatype server_event = FlushTick | FlushIndexTick | SIGINT | SIGTERM

definition SaveIndexFileAndExit ::
  "(user_id \<times> user_index) list \<Rightarrow> (group_id \<times> group_index) list \<Rightarrow> 'a storage_scheme \<Rightarrow> 'a storage_scheme"
where
  "SaveIndexFileAndExit peers groups s = flushIndex peers groups s"

definition waitSignal ::
  "(user_id \<times> user_index) list \<Rightarrow> (group_id \<times> group_index) list \<Rightarrow> 'a storage_scheme \<Rightarrow> 'a storage_scheme"
where
  "waitSignal peers groups s = SaveIndexFileAndExit peers groups (Flush s)"

text \<open>The visiting orders of the two index maps are parameters. The second component says whether the process goes on.\<close>

fun on_event ::
  "('a storage_scheme \<Rightarrow> (user_id \<times> user_index) list) \<Rightarrow> ('a storage_scheme \<Rightarrow> (group_id \<times> group_index) list)
   \<Rightarrow> server_event \<Rightarrow> 'a storage_scheme \<Rightarrow> 'a storage_scheme \<times> bool"
where
  "on_event peers groups FlushTick s = (Flush s, True)"
| "on_event peers groups FlushIndexTick s = (FlushIndex (peers s) (groups s) s, True)"
| "on_event peers groups SIGINT s = (waitSignal (peers s) (groups s) s, False)"
| "on_event peers groups SIGTERM s = (waitSignal (peers s) (groups s) s, False)"

section \<open>Starting on the files of an orderly exit\<close>

lemma waitSignal_files:
  "peer_index_file (waitSignal es gs s) = Some (concat (map (\<lambda>(k, v). peer_index_record k v) es))"
  "group_index_file (waitSignal es gs s) = Some (concat (map (\<lambda>(k, v). group_index_record k v) gs))"
  by (simp_all add: waitSignal_def SaveIndexFileAndExit_def flushIndex_def savePeerIndex_def saveGroupIndex_def Let_def)

lemma map_of_values: "map_of xs = f \<Longrightarrow> distinct (map fst xs) \<Longrightarrow> snd ` set xs = ran f"
  using ran_distinct [of xs] by simp

text \<open>Reading the two files gives back indexes and the last id.\<close>

lemma read_indexes:
  fixes s e :: "'a storage_scheme"
  assumes es: "distinct (map fst es)" "map_of es = message_index s"
    and gs: "distinct (map fst gs)" "map_of gs = group_message_index s"
    and e: "message_index e = Map.empty" "group_message_index e = Map.empty" "last_id e = 0"
    and ok: "storage_ok bs s"
  obtains li mi gi where "set_groups gs (set_peers es e) = e\<lparr>message_index := mi, group_message_index := gi, last_id := li\<rparr>"
    "mi = message_index s" "gi = group_message_index s" "li = last_id s"
proof -
  let ?p = "set_peers es e"
  let ?t = "set_groups gs ?p"
  obtain mi li where p: "?p = e\<lparr>message_index := mi, last_id := li\<rparr>" using set_peers_frame by blast
  obtain gi li' where "?t = ?p\<lparr>group_message_index := gi, last_id := li'\<rparr>" using set_groups_frame by blast
  then have t: "?t = e\<lparr>message_index := mi, group_message_index := gi, last_id := li'\<rparr>" unfolding p by simp
  have mi: "mi = message_index s"
    using set_peers_index [of es e] map_of_rev [OF es(1)] es(2) e(1) by (simp add: p)
  have "group_message_index ?p = Map.empty" using e(2) by (simp add: p)
  then have gi: "gi = group_message_index s"
    using set_groups_index [of gs ?p] map_of_rev [OF gs(1)] gs(2) by (simp add: t)
  have max: "index_max s" "last_id s = 0 \<or> 0 < sint (last_id s)" using storage_ok_max [OF ok] by simp_all
  have "sint li' = foldl max (foldl max 0 (map (sint \<circ> ui_last_id \<circ> snd) es)) (map (sint \<circ> gi_LastId \<circ> snd) gs)"
    using set_groups_last [of gs ?p] set_peers_last [of es e] e(3) by (simp add: t)
  also have "\<dots> = foldl max 0 (map (sint \<circ> ui_last_id \<circ> snd) es @ map (sint \<circ> gi_LastId \<circ> snd) gs)" by simp
  also have "\<dots> = sint (last_id s)"
  proof (rule foldl_max_eq)
    have v: "snd ` set es = ran (message_index s)" "snd ` set gs = ran (group_message_index s)"
      using map_of_values [OF es(2,1)] map_of_values [OF gs(2,1)] by simp_all
    then have vals: "set (map (sint \<circ> ui_last_id \<circ> snd) es @ map (sint \<circ> gi_LastId \<circ> snd) gs)
        = (sint \<circ> ui_last_id) ` ran (message_index s) \<union> (sint \<circ> gi_LastId) ` ran (group_message_index s)"
      unfolding v [symmetric] by (simp add: image_image)
    show "\<forall>x \<in> set (map (sint \<circ> ui_last_id \<circ> snd) es @ map (sint \<circ> gi_LastId \<circ> snd) gs). x \<le> sint (last_id s)"
      unfolding vals using max(1) by (auto simp: index_max_def ran_def)
    show "0 \<le> sint (last_id s)" using max(2) by auto
    show "sint (last_id s) \<in> insert 0 (set (map (sint \<circ> ui_last_id \<circ> snd) es @ map (sint \<circ> gi_LastId \<circ> snd) gs))"
      unfolding vals using max(1) by (force simp: index_max_def ran_def image_iff)
  qed
  finally have "li' = last_id s" by (rule signed_word_eqI)
  then show thesis using t mi gi that by blast
qed

text \<open>
  A server that left on a signal and starts again has its peer index and its last id; the group indexes are those of
  the log with the last record, when it is a group message, counted a second time.
\<close>

lemma restart_after_exit:
  fixes s :: storage
  assumes ok: "storage_ok bs s" and glob: "lists_blocks glob bs"
    and es: "distinct (map fst es)" "map_of es = message_index s"
    and gs: "distinct (map fst gs)" "map_of gs = group_message_index s"
  shows "\<exists>t. NewStorage peers groups glob (peer_index_file (waitSignal es gs s)) (group_index_file (waitSignal es gs s)) = Ret t
    \<and> message_index t = message_index s \<and> last_id t = last_id s
    \<and> group_message_index t = counted_twice (log_of bs) s"
proof -
  have b: "blocks_ok bs" using storage_okD(1) [OF ok] by (simp add: layout_def)
  let ?p = "peer_index_file (waitSignal es gs s)" and ?g = "group_index_file (waitSignal es gs s)"
  define e where "e = empty_storage (disk_of bs) (int (length bs) - 1) ?p ?g"
  have fields: "disk e = disk_of bs" "block_NO e = int (length bs) - 1" "message_index e = Map.empty"
    "group_message_index e = Map.empty" "last_id e = 0" "peer_index_file e = ?p" "group_index_file e = ?g"
    "cache_ok e"
    by (simp_all add: e_def cache_ok_empty) (simp_all add: empty_storage_def)
  let ?r = "set_groups gs (set_peers es e)"
  obtain li mi gi where read: "?r = e\<lparr>message_index := mi, group_message_index := gi, last_id := li\<rparr>"
    "mi = message_index s" "gi = group_message_index s" "li = last_id s"
    by (rule read_indexes [OF es gs fields(3,4,5) ok])
  obtain pm pl where frame: "set_peers es e = e\<lparr>message_index := pm, last_id := pl\<rparr>" using set_peers_frame by blast
  have "group_index_file (set_peers es e) = ?g" unfolding frame by (simp add: fields)
  then have files: "readPeerIndex e = (True, set_peers es e)" "readGroupIndex (set_peers es e) = (True, ?r)"
    using read_peer_file [of "[]" es e] read_group_file [of "[]" gs "set_peers es e"]
    by (simp_all add: readPeerIndex_def readGroupIndex_def waitSignal_files fields)
  let ?u = "?r\<lparr>last_saved_id := last_id ?r\<rparr>"
  have u: "?u = with_log ?u s" unfolding read by (simp add: with_log_def)
  have "disk ?u = disk e" "block_NO ?u = block_NO e" "files ?u = files e" unfolding read by simp_all
  then have "layout bs ?u" using b fields by (simp add: layout_def cache_ok_def)
  then have oku: "storage_ok bs ?u" using storage_ok_with_log [OF ok, of ?u] u by simp
  have "last_id ?u = last_id s" "group_message_index ?u = group_message_index s" unfolding read by simp_all
  then have twice: "counted_twice (log_of bs) ?u = counted_twice (log_of bs) s" by (rule counted_twice_cong)
  define v where "v = ?u\<lparr>group_message_index := counted_twice (log_of bs) s\<rparr>"
  have build: "build_index e = Ret v"
    using repair_complete [OF oku] by (simp add: build_index_def files twice v_def)
  have v: "message_index v = message_index s" "last_id v = last_id s" "group_message_index v = counted_twice (log_of bs) s"
    unfolding v_def read by simp_all
  obtain f :: storage where f: "FlushIndex (peers v) (groups v) v = with_log f v" using FlushIndex_frame by blast
  show ?thesis
    using v by (simp add: NewStorage_def new_storage_blocks [OF glob b] e_def [symmetric] build f with_log_fields)
qed

text \<open>
  C10: a storage server that leaves on a signal and starts again on the files it left has the peer index and the last
  id it had. Its group index is the one it had with the last record counted twice when that record is a group message:
  \<open>repairGroupIndex\<close> executes the message at the last id again, which \<open>repairPeerIndex\<close> skips.
\<close>
theorem orderly_restart:
  fixes s :: storage
  assumes "storage_ok bs s" "lists_blocks glob bs"
    and "distinct (map fst es)" "map_of es = message_index s"
    and "distinct (map fst gs)" "map_of gs = group_message_index s"
  shows "\<exists>t. NewStorage peers groups glob (peer_index_file (waitSignal es gs s)) (group_index_file (waitSignal es gs s)) = Ret t
    \<and> message_index t = message_index s \<and> last_id t = last_id s
    \<and> group_message_index t = counted_twice (log_of bs) s"
  by (rule restart_after_exit [OF assms])

text \<open>One group message, an exit and a start: the group's counter is 1 before and 2 after.\<close>

lemma one_group_message:
  obtains s :: storage and bs i j gi where
    "SaveGroupMessage 7 9 3 hello_group fresh_storage = Ret ((i, 0), s)" "storage_ok bs s"
    "message_index s = Map.empty" "group_message_index s = [\<lparr>g_appid = 7, g_gid = 9\<rparr> \<mapsto> gi]" "gi_LastSeqId gi = 1"
    "counted_twice (log_of bs) s = [\<lparr>g_appid = 7, g_gid = 9\<rparr> \<mapsto> gi\<lparr>gi_LastSeqId := 2\<rparr>]"
proof -
  let ?off = "group_record 7 9 3 (next_id hello_group [[]]) (group_index_of [])"
  let ?rec = "record_message MSG_GROUP_OFFLINE 0 ?off"
  obtain s :: storage and bs j where s: "SaveGroupMessage 7 9 3 hello_group fresh_storage
      = Ret ((next_id hello_group [[]], head_msgid (records MSG_GROUP_OFFLINE 7 9 (log_of [[]]))), s)"
    "storage_ok bs s"
    "log_of bs = log_of [[]] @ [(next_id hello_group [[]], hello_group), (j, record_message MSG_GROUP_OFFLINE 0
       (group_record 7 9 3 (next_id hello_group [[]]) (group_index_of (records MSG_GROUP_OFFLINE 7 9 (log_of [[]])))))]"
    by (rule SaveGroupMessage_ok [OF fresh_ok plain_hello_group(1), of 7 9 3]) (simp, rule that)
  have log: "log_of bs = [(next_id hello_group [[]], hello_group), (j, ?rec)]"
    using s(3) by (simp add: records_fresh)
  have b: "blocks_ok bs" using storage_okD(1) [OF s(2)] by (simp add: layout_def)
  have j: "0 < sint j" "map_of (log_of bs) j = Some ?rec"
    using log_of_bounds(1) [OF b, of j ?rec] sorted_log_of [OF b] by (auto simp: log)
  let ?gi = "\<lparr>gi_LastMsgid = next_id hello_group [[]], gi_LastId = j, gi_LastBatchId = 0, gi_LastSeqId = 1\<rparr>"
  have other: "\<not> offline_peer (canon hello_group)" "\<not> offline_group (canon hello_group)"
    by (simp_all add: hello_group_def offline_peer_def offline_group_def)
  have batch: "(1 :: int) smod BATCH_SIZE \<noteq> 0" "(2 :: int) smod BATCH_SIZE \<noteq> 0"
    by (simp_all add: signed_modulo_int_def signed_divide_int_def)
  have "Ret s = execGroupMessage ?rec j (reset_index s)"
    using storage_okD(2) [OF s(2)] other
    by (simp add: log execMessage_def exec_other record_message_def offline_peer_def execPeerMessage_def)
  also have "\<dots> = Ret (setGroupIndex 7 9 ?gi (reset_index s))"
    by (simp add: execGroupMessage_def record_message_def offline_of_def group_record_def getGroupIndex_def reset_index_def
        gi_zero_def next_batch_def group_index_of_def batch)
  finally have eq: "s = setGroupIndex 7 9 ?gi (reset_index s)" by simp
  have idx: "message_index s = Map.empty" "group_message_index s = [\<lparr>g_appid = 7, g_gid = 9\<rparr> \<mapsto> ?gi]" "last_id s = j"
    using j(1) by (subst eq, simp add: setGroupIndex_def Let_def reset_index_def)+
  have "counted_twice (log_of bs) s = [\<lparr>g_appid = 7, g_gid = 9\<rparr> \<mapsto> ?gi\<lparr>gi_LastSeqId := 2\<rparr>]"
    by (simp add: counted_twice_def idx j(2)) (simp add: record_message_def offline_of_def group_record_def next_batch_def Let_def idx batch)
  then show thesis
    by (intro that [OF _ s(2) idx(1,2)]) (use s(1) in \<open>simp_all add: records_fresh head_msgid_def\<close>)
qed

theorem orderly_restart_witness:
  "\<exists>(s :: storage) t gi i glob. SaveGroupMessage 7 9 3 hello_group fresh_storage = Ret ((i, 0), s)
    \<and> gi_LastSeqId (getGroupIndex 7 9 s) = 1
    \<and> NewStorage (\<lambda>_. []) (\<lambda>_. []) glob
        (peer_index_file (waitSignal [] [(\<lparr>g_appid = 7, g_gid = 9\<rparr>, gi)] s))
        (group_index_file (waitSignal [] [(\<lparr>g_appid = 7, g_gid = 9\<rparr>, gi)] s)) = Ret t
    \<and> gi_LastSeqId (getGroupIndex 7 9 t) = 2"
proof -
  obtain s :: storage and bs i gi where s: "SaveGroupMessage 7 9 3 hello_group fresh_storage = Ret ((i, 0), s)"
    "storage_ok bs s" "message_index s = Map.empty" "group_message_index s = [\<lparr>g_appid = 7, g_gid = 9\<rparr> \<mapsto> gi]"
    "gi_LastSeqId gi = 1" "counted_twice (log_of bs) s = [\<lparr>g_appid = 7, g_gid = 9\<rparr> \<mapsto> gi\<lparr>gi_LastSeqId := 2\<rparr>]"
    by (rule one_group_message)
  let ?glob = "map (\<lambda>k. (Some (int k), file_of (bs ! k))) [0..<length bs]"
  have "lists_blocks ?glob bs" by (simp add: lists_blocks_def distinct_map comp_def inj_on_def)
  from orderly_restart [OF s(2) this, of "[]" "[(\<lparr>g_appid = 7, g_gid = 9\<rparr>, gi)]" "\<lambda>_. []" "\<lambda>_. []"]
  show ?thesis using s(1,3-6) by (fastforce simp: getGroupIndex_def)
qed

end
