(* ===== verification/Spec2Isabelle.thy ===== *)
theory Spec2Isabelle
  imports StorageProperties RouteProperties DeliverProperties ImProperties SessionProperties PeerProperties
    HttpProperties ClientProperties EventCaches Config Truncate UserData CustomerService Command MasterRun
    ChannelRun WebSocket RouteHttp Moderation GroupSql StorageExit
begin

text \<open>
  A model of \<^verbatim>\<open>im_service\<close>, an instant messaging service in Go, and the theorems that make it
  correct.

  \<^bold>\<open>The program.\<close> Three kinds of server run together. \<^verbatim>\<open>im\<close> keeps the connections of the clients,
  \<^verbatim>\<open>imr\<close> (the route server) knows which user is connected to which \<^verbatim>\<open>im\<close>, and \<^verbatim>\<open>ims\<close> (the
  storage server) keeps every message in a log with an index per user and per group. A client sends
  frames to an \<^verbatim>\<open>im\<close>; the \<^verbatim>\<open>im\<close> saves the message by a remote call to the \<^verbatim>\<open>ims\<close> that the
  receiver's id selects, acknowledges it, queues it for the receiver's connections of its own and
  publishes it to the \<^verbatim>\<open>imr\<close>, which hands it to the other servers where the receiver is connected. A
  client that comes back asks with the id of the last message it has, and the \<^verbatim>\<open>ims\<close> answers with what
  was saved since. An \<^verbatim>\<open>ims\<close> may have slaves that copy its log.

  \<^bold>\<open>Conventions.\<close> Integers keep the width of the source (\<open>int64\<close>, \<open>int32\<close>, \<open>int16\<close>, \<open>byte\<close> of
  \<open>Prelude\<close>), Go's \<open>int\<close> is \<open>int\<close> where the source cannot overflow it. A function that may panic, exit
  or return an error has a result of the type \<open>go\<close> (\<open>Prelude\<close>), whose constructors other than \<open>Ret\<close> are
  these outcomes. Go maps are HOL maps; where \<open>range\<close> visits a map in an order that matters, that order
  is an argument. What runs in another goroutine is a separate operation on the state; the properties
  quantify over the sequences of these operations. Remote calls, the database, the tokens of the login and
  the readers of redis are arguments or fields of the configuration, never fixed by the model.

  \<^bold>\<open>The message format\<close> (\<^verbatim>\<open>core/\<close>, \<^verbatim>\<open>lru/\<close>).
  \<^item> \<open>Binary\<close>: big-endian reads and writes of \<^verbatim>\<open>encoding/binary\<close>.
  \<^item> \<open>Message\<close>: the bodies of \<^verbatim>\<open>core/message.go\<close>, \<^verbatim>\<open>core/route_message.go\<close> and
    \<^verbatim>\<open>core/storage_message.go\<close> with \<open>ToData\<close> and \<open>FromData\<close> and their round trips, under the interface
    \<open>codec\<close> where one type is read back from what was written.
  \<^item> \<open>Protocol\<close>, \<open>Codec\<close>: the frame header, the readers with their limits (\<^verbatim>\<open>core/protocol.go\<close>) and
    the table of commands.
  \<^item> \<open>Lru\<close>: \<^verbatim>\<open>lru/lru.go\<close>, the cache with a list of recency.
  \<^item> \<open>Command\<close>: the names of the commands. \<open>Text\<close>: what the program uses of the decimal numbers, \<open>Split\<close> and
    \<open>Sprintf\<close> of Go.
  \<^item> \<open>CoreProperties\<close>: a frame written is the frame read, a prefix of it never is, a frame past the
    limit is refused; a bound at which a format fails; the cache against a list of entries.

  \<^bold>\<open>The storage server\<close> (\<^verbatim>\<open>ims/\<close>). The state is one record, extended as the source embeds its
  structs: \<open>StorageFile\<close> (block files, \<^verbatim>\<open>ims/storage_file.go\<close>), \<open>PeerStorage\<close>, \<open>GroupStorage\<close>, and
  \<open>Storage\<close> (\<^verbatim>\<open>ims/storage.go\<close>, \<^verbatim>\<open>ims/storage_sync.go\<close>, \<^verbatim>\<open>ims/rpc.go\<close>).
  \<^item> \<open>StorageLog\<close>: the log as the list of its messages: \<open>records\<close> of the blocks, what saving does to it.
  \<^item> \<open>StorageSpec\<close>: the invariant \<open>storage_ok\<close>: every index entry is what the saved messages say, the
    two chains of offline records (single and by batch) are the user's messages in order.
  \<^item> \<open>StorageLoad\<close>: the loops over these chains against the list of the user's messages; the fuel of a
    loop is the number of records of the log, more than a chain can have.
  \<^item> \<open>StorageRestart\<close>, \<open>StorageRepair\<close>: the index files and the scans that build an index again.
  \<^item> \<open>StorageServer\<close>, \<open>StorageRpc\<close>: every step of a server and every remote procedure keeps the
    invariant. \<open>StorageReturns\<close>: the procedures that read return for any arguments, since every link of an
    offline record goes down its chain.
  \<^item> \<open>StorageSync\<close>, \<open>StorageMaster\<close>: the slave and the master. \<open>MasterRun\<close>: the loops of both with their clocks and
    reconnects; a message waits for its batch no longer than a second.
  \<^item> \<open>StorageProperties\<close>: what is saved, loaded, counted, found again after a restart, copied by a slave,
    and where a repair or a catch-up loses messages. \<open>StorageExit\<close>: the flush loops, the exit on a signal and the
    start on the files that it leaves. \<open>Truncate\<close>: the scan of the stand-alone tool \<^verbatim>\<open>ims/truncate.go\<close>.

  \<^bold>\<open>The route server\<close> (\<^verbatim>\<open>imr/\<close>). \<open>GoSets\<close> has the sets of \<^verbatim>\<open>core/set.go\<close> and
  \<^verbatim>\<open>client_sets.go\<close>, which \<^verbatim>\<open>im\<close> shares; \<open>RouteServer\<close> the table of a connected \<^verbatim>\<open>im\<close>, its
  handlers and the push queue. \<open>RouteSync\<close> shows, for any run of the channel of an \<^verbatim>\<open>im\<close> (\<open>Channel\<close>,
  \<open>ChannelCount\<close>), that the messages queued bring the table to what the channel counts;
  \<open>RouteProperties\<close> states it, with publishing, pushing and the race between two connections of a user.
  \<open>RouteHttp\<close> has the two queries of \<^verbatim>\<open>imr/rpc.go\<close> from the request to the reply.

  \<^bold>\<open>The connection server\<close> (\<^verbatim>\<open>im/\<close>).
  \<^item> \<open>Channel\<close>, \<open>ChannelCount\<close>: \<^verbatim>\<open>im/channel.go\<close>, the counts packed in 16 bits and what they count.
    \<open>ChannelRun\<close>: the reader and the writer of its connection and the loop that connects again.
  \<^item> \<open>Connection\<close>: \<^verbatim>\<open>im/connection.go\<close>, the three queues of a connection and its writer.
    \<open>WebSocket\<close>: the reads from a socket or a websocket (\<^verbatim>\<open>im/sio.go\<close>); both give the same stream of messages.
  \<^item> \<open>ImRoute\<close>: \<^verbatim>\<open>im/route.go\<close>, \<^verbatim>\<open>im/app_route.go\<close>. \<open>Group\<close>: \<^verbatim>\<open>im/group.go\<close>,
    \<^verbatim>\<open>im/group_manager.go\<close>. \<open>Relationship\<close>: \<^verbatim>\<open>im/relationship.go\<close>, \<^verbatim>\<open>im/relationship_pool.go\<close>.
    \<open>EventStream\<close> has the loop by which both caches follow a stream of redis, \<open>EventCaches\<close> its two instances: every
    event is handled once and in order, or a gap makes the cache start over. \<open>GroupSql\<close> has the SQL of the
    groups over tables.
  \<^item> \<open>Im\<close>: the state of a server, \<^verbatim>\<open>im/im.go\<close> and the loop of \<^verbatim>\<open>im/im_server.go\<close>: choosing a storage
    server and a channel, saving, publishing, dispatching.
  \<^item> \<open>PeerClient\<close> (\<^verbatim>\<open>peer_client.go\<close>, \<^verbatim>\<open>room_client.go\<close>, \<^verbatim>\<open>customer_client.go\<close>), \<open>GroupClient\<close>
    (\<^verbatim>\<open>group_client.go\<close>) and \<open>Client\<close> (\<^verbatim>\<open>client.go\<close>): login, logout and every handler. The handler of
    a group message waits for the deliverer, which other goroutines run: its parameter \<open>wait\<close> is what
    they do to the state meanwhile.
  \<^item> \<open>GroupDeliver\<close>: \<^verbatim>\<open>im/group_message_deliver.go\<close>, the file of pending group messages, the cursor, the
    callbacks, sending, truncation. \<open>DeliverQueue\<close> relates the file to the list of the messages
    saved and the cursor to the number of those sent; \<open>DeliverProperties\<close> states order, restarts at any
    point, and the crash that loses messages; \<open>DeliverLiveness\<close> that every message saved is sent in a run in which
    rounds answered by the storage servers come again and again.
  \<^item> \<open>Sessions\<close>, \<open>SessionProperties\<close>: what the connections say of users and rooms, and that every handler and
    every other goroutine keeps the routes and the channels in step with it.
  \<^item> \<open>PeerProperties\<close>: a message from its sender's handler to the logs, the queues and the channels.
  \<^item> \<open>ClientSafety\<close>, \<open>ClientProperties\<close>: a message received has the body that its command demands, and no bytes
    of a client make the server panic or exit.
  \<^item> \<open>HttpBase\<close>, \<open>Http\<close> (\<^verbatim>\<open>im/rpc.go\<close>), \<open>HttpFrame\<close>, \<open>HttpProperties\<close>: requests, replies and JSON objects, the
    handlers, what they leave alone, and posting a message and loading it.
  \<^item> \<open>UserData\<close> (\<^verbatim>\<open>im/user.go\<close>, \<^verbatim>\<open>im/device.go\<close>): what redis keeps of a user, and that the loop \<open>SyncKeyService\<close>
    leaves there for every user and group the greatest sync key that was queued. \<open>CustomerService\<close>
    (\<^verbatim>\<open>im/customer_service.go\<close>): the stores, the sellers and their caches. \<open>Moderation\<close>: the filter of contents
    and \<^verbatim>\<open>im/subscriber.go\<close>, which forbids users to speak.
  \<^item> \<open>Config\<close>: the configuration files of the three servers and the start of \<^verbatim>\<open>im/im_server.go\<close>; a server that
    starts can choose a storage server and a channel for every id but the smallest \<open>int64\<close>.
  \<^item> \<open>ImProperties\<close>: the queue of a connection, the cache of relationships, the bits of a group member.
    \<open>SmallServer\<close> has the concrete server that the witnesses run.

  \<^bold>\<open>Interfaces.\<close> Each locale is interpreted on the model. \<open>codec\<close> (\<open>Message\<close>) is a pair of \<open>ToData\<close> and \<open>FromData\<close>,
  interpreted by the formats that read back what they wrote; \<open>read_cache\<close> (\<open>Lru\<close>) a cache that answers what its store
  would, interpreted by the cache of open files; \<open>event_cache\<close> (\<open>EventStream\<close>) a cache that handles the events of
  a stream and can be cleared, interpreted by the groups and the relationships; \<open>key_store\<close> (\<open>UserData\<close>) a store of
  sync keys, interpreted by the fields of the server's state and by redis.

  \<^bold>\<open>Not modelled.\<close> Opening and accepting sockets, TLS, the upgrade to a websocket, the registration of handlers with
  the HTTP and gorpc libraries, whose effect is the bytes, requests and calls that arrive; the monitoring pages,
  logging and the printing of versions; the text of JSON, which is the object that is marshalled or parsed; the parsing
  of the TOML file, which is the table that the library returns; failing writes and seeks of the operating
  system in the storage server (the code ends the process).
\<close>

end
